(* ===== verification/Prelude.thy ===== *)
theory Prelude
  imports Main "HOL-Library.State_Monad"
begin

text \<open>
  Shared vocabulary of the development: the effect monad in which every handler of
  the control plane is written, Go maps that may be nil, object metadata with its
  finalizers and annotations (\<^verbatim>\<open>go/api/api.go\<close>, \<^verbatim>\<open>go/api/utils/utils.go\<close>), the errors
  the handlers exchange, and the result of a reconcile.
\<close>

section \<open>Collections of facts\<close>

named_theorems io_simps \<open>evaluation of the effect monad\<close>
named_theorems meta_simps \<open>annotations, finalizers and other metadata\<close>

section \<open>Effects as traces\<close>

text \<open>
  A handler runs against an environment (API server, metadata storage, workflow
  engine) whose code is not part of the repository. Every call it makes is one event
  of a trace, and the environment's answer may depend on the whole trace so far, so
  the environment is arbitrary: it may fail, change its mind or serve stale data. A
  handler is then a state transformer on traces.
\<close>

type_synonym ('e, 'a) io = "('e list, 'a) state"

definition ask :: "('e list \<Rightarrow> 'r) \<Rightarrow> ('r \<Rightarrow> 'e) \<Rightarrow> ('e, 'r) io" where
  "ask answer event = State (\<lambda>h. (answer h, h @ [event (answer h)]))"

definition emit :: "'e \<Rightarrow> ('e, unit) io" where
  "emit e = State (\<lambda>h. ((), h @ [e]))"

lemma run_state_ask [simp, io_simps]:
  "run_state (ask answer event) h = (answer h, h @ [event (answer h)])"
  by (simp add: ask_def)

lemma run_state_emit [simp, io_simps]: "run_state (emit e) h = ((), h @ [e])"
  by (simp add: emit_def)

declare State_Monad.run_state_bind [io_simps] State_Monad.run_state_return [io_simps]

text \<open>Reading the state of a handler that runs over a richer state than a trace.\<close>

definition peek :: "('s \<Rightarrow> 'a) \<Rightarrow> ('s, 'a) state" where
  "peek f = State (\<lambda>s. (f s, s))"

lemma run_state_peek [simp, io_simps]: "run_state (peek f) s = (f s, s)"
  by (simp add: peek_def)

text \<open>Handlers only append to the trace.\<close>

definition appends :: "('e, 'a) io \<Rightarrow> bool" where
  "appends m \<longleftrightarrow> (\<forall>h. \<exists>t. snd (run_state m h) = h @ t)"

lemma appendsI: "(\<And>h. \<exists>t. snd (run_state m h) = h @ t) \<Longrightarrow> appends m"
  by (simp add: appends_def)

lemma appendsE:
  assumes "appends m" "run_state m h = (r, h')"
  obtains t where "h' = h @ t"
  using assms by (metis appends_def snd_conv)

lemma appends_return [intro]: "appends (State_Monad.return x)"
  by (simp add: appends_def)

lemma appends_ask [intro]: "appends (ask answer event)"
  by (simp add: appends_def)

lemma appends_emit [intro]: "appends (emit e)"
  by (simp add: appends_def)

lemma appends_bind [intro]:
  assumes "appends m" "\<And>x. appends (f x)"
  shows "appends (State_Monad.bind m f)"
proof (rule appendsI)
  fix h
  obtain x h1 where m: "run_state m h = (x, h1)" by (cases "run_state m h")
  with assms(1) obtain t1 where t1: "h1 = h @ t1" by (rule appendsE)
  obtain y h2 where f: "run_state (f x) h1 = (y, h2)" by (cases "run_state (f x) h1")
  with assms(2) obtain t2 where "h2 = h1 @ t2" by (rule appendsE)
  with m f t1 show "\<exists>t. snd (run_state (State_Monad.bind m f) h) = h @ t" by simp
qed

subsection \<open>Events a handler can emit\<close>

text \<open>
  \<open>emits P m\<close>: whatever the environment answers, \<open>m\<close> appends only events that satisfy \<open>P\<close>.
  The rules follow the structure of a handler.
\<close>

definition emits :: "('e \<Rightarrow> bool) \<Rightarrow> ('e, 'a) io \<Rightarrow> bool" where
  "emits P m \<longleftrightarrow> (\<forall>h. \<exists>t. snd (run_state m h) = h @ t \<and> list_all P t)"

lemma emitsD:
  assumes "emits P m" "run_state m h = (r, h @ tr)"
  shows "list_all P tr"
  using assms by (metis emits_def same_append_eq snd_conv)

lemma emitsE:
  assumes "emits P m" "run_state m h = (r, h')"
  obtains tr where "h' = h @ tr" "list_all P tr"
  using assms by (metis emits_def snd_conv)

lemma emits_return [simp, intro!]: "emits P (State_Monad.return x)"
  by (simp add: emits_def)

lemma emits_peek [simp, intro!]: "emits P (peek f)"
  by (simp add: emits_def)

lemma emits_ask [intro]: "(\<And>r. P (event r)) \<Longrightarrow> emits P (ask answer event)"
  by (simp add: emits_def)

lemma emits_emit [intro]: "P e \<Longrightarrow> emits P (emit e)"
  by (simp add: emits_def)

lemma emits_bind [intro]:
  assumes "emits P m" "\<And>x. emits P (f x)"
  shows "emits P (State_Monad.bind m f)"
  unfolding emits_def
proof
  fix h
  obtain x h1 where m: "run_state m h = (x, h1)" by (cases "run_state m h")
  with assms(1) obtain t1 where t1: "h1 = h @ t1" "list_all P t1" by (rule emitsE)
  obtain y h2 where f: "run_state (f x) h1 = (y, h2)" by (cases "run_state (f x) h1")
  with assms(2) obtain t2 where "h2 = h1 @ t2" "list_all P t2" by (rule emitsE)
  with m f t1 show "\<exists>t. snd (run_state (State_Monad.bind m f) h) = h @ t \<and> list_all P t" by simp
qed

lemma emits_mono: "emits P m \<Longrightarrow> (\<And>e. P e \<Longrightarrow> Q e) \<Longrightarrow> emits Q m"
  unfolding emits_def by (metis (mono_tags, lifting) list.pred_mono_strong)

lemma emits_appends: "emits P m \<Longrightarrow> appends m"
  by (auto simp: emits_def appends_def)

subsection \<open>Events and the moment they happen\<close>

text \<open>
  \<open>obeys P h tr\<close>: every event of \<open>tr\<close> satisfies \<open>P\<close> with the trace before it, when \<open>tr\<close> comes after
  \<open>h\<close>. \<open>always P m\<close>: whatever the environment answers, the events of \<open>m\<close> obey \<open>P\<close>.
\<close>

fun obeys :: "('e list \<Rightarrow> 'e \<Rightarrow> bool) \<Rightarrow> 'e list \<Rightarrow> 'e list \<Rightarrow> bool" where
  "obeys P h [] \<longleftrightarrow> True"
| "obeys P h (e # tr) \<longleftrightarrow> P h e \<and> obeys P (h @ [e]) tr"

lemma obeys_append [simp]: "obeys P h (tr @ tr') \<longleftrightarrow> obeys P h tr \<and> obeys P (h @ tr) tr'"
  by (induction tr arbitrary: h) auto

lemma obeysD: "obeys P h (pre @ e # post) \<Longrightarrow> P (h @ pre) e"
  by simp

definition always :: "('e list \<Rightarrow> 'e \<Rightarrow> bool) \<Rightarrow> ('e, 'a) io \<Rightarrow> bool" where
  "always P m \<longleftrightarrow> (\<forall>h. \<exists>tr. snd (run_state m h) = h @ tr \<and> obeys P h tr)"

lemma alwaysE:
  assumes "always P m" "run_state m h = (r, h')"
  obtains tr where "h' = h @ tr" "obeys P h tr"
  using assms by (metis always_def snd_conv)

lemma alwaysD:
  assumes "always P m" "run_state m h = (r, h @ pre @ e # post)"
  shows "P (h @ pre) e"
  using alwaysE [OF assms] by (metis obeysD same_append_eq)

lemma always_return [simp, intro!]: "always P (State_Monad.return x)"
  by (simp add: always_def)

lemma always_peek [simp, intro!]: "always P (peek f)"
  by (simp add: always_def)

lemma always_ask [intro]: "(\<And>h. P h (event (answer h))) \<Longrightarrow> always P (ask answer event)"
  by (simp add: always_def)

lemma always_emit [intro]: "(\<And>h. P h e) \<Longrightarrow> always P (emit e)"
  by (simp add: always_def)

lemma always_bind [intro]:
  assumes "always P m" "\<And>x. always P (f x)"
  shows "always P (State_Monad.bind m f)"
  unfolding always_def
proof
  fix h
  obtain x h1 where m: "run_state m h = (x, h1)" by (cases "run_state m h")
  with assms(1) obtain t1 where t1: "h1 = h @ t1" "obeys P h t1" by (rule alwaysE)
  obtain y h2 where f: "run_state (f x) h1 = (y, h2)" by (cases "run_state (f x) h1")
  with assms(2) obtain t2 where "h2 = h1 @ t2" "obeys P h1 t2" by (rule alwaysE)
  with m f t1 show "\<exists>t. snd (run_state (State_Monad.bind m f) h) = h @ t \<and> obeys P h t" by simp
qed

lemma always_emits: "emits P m \<Longrightarrow> (\<And>h e. P e \<Longrightarrow> Q h e) \<Longrightarrow> always Q m"
proof -
  assume m: "emits P m" and Q: "\<And>h e. P e \<Longrightarrow> Q h e"
  have "list_all P tr \<Longrightarrow> obeys Q h tr" for h tr by (induction tr arbitrary: h) (auto intro: Q)
  with m show "always Q m" unfolding emits_def always_def by meson
qed

subsection \<open>Ordering of events\<close>

text \<open>\<open>preceded_by Q P tr\<close>: every \<open>P\<close> event of the trace comes after some \<open>Q\<close> event.\<close>

fun preceded_by :: "('e \<Rightarrow> bool) \<Rightarrow> ('e \<Rightarrow> bool) \<Rightarrow> 'e list \<Rightarrow> bool" where
  "preceded_by Q P [] \<longleftrightarrow> True"
| "preceded_by Q P (e # es) \<longleftrightarrow> \<not> P e \<and> (Q e \<or> preceded_by Q P es)"

lemma preceded_by_iff:
  assumes "\<And>e. Q e \<Longrightarrow> \<not> P e"
  shows "preceded_by Q P tr \<longleftrightarrow>
    (\<forall>pre e post. tr = pre @ e # post \<longrightarrow> P e \<longrightarrow> (\<exists>q\<in>set pre. Q q))"
proof (induction tr)
  case Nil
  then show ?case by simp
next
  case (Cons a tr)
  show ?case
  proof
    assume l: "preceded_by Q P (a # tr)"
    show "\<forall>pre e post. a # tr = pre @ e # post \<longrightarrow> P e \<longrightarrow> (\<exists>q\<in>set pre. Q q)"
    proof (intro allI impI)
      fix pre e post
      assume eq: "a # tr = pre @ e # post" and e: "P e"
      with l obtain pre' where "pre = a # pre'" "tr = pre' @ e # post"
        by (cases pre) auto
      with l e Cons.IH show "\<exists>q\<in>set pre. Q q" by auto
    qed
  next
    assume r: "\<forall>pre e post. a # tr = pre @ e # post \<longrightarrow> P e \<longrightarrow> (\<exists>q\<in>set pre. Q q)"
    then have "\<not> P a" by (metis append_Nil empty_iff empty_set)
    moreover have "Q a \<or> preceded_by Q P tr"
    proof (rule disjCI)
      assume "\<not> preceded_by Q P tr"
      with Cons.IH obtain pre e post where
        "tr = pre @ e # post" "P e" "\<not> (\<exists>q\<in>set pre. Q q)" by blast
      with r show "Q a" by (metis append_Cons set_ConsD)
    qed
    ultimately show "preceded_by Q P (a # tr)" by simp
  qed
qed

text \<open>An element that occurs only at the end of a list splits it there.\<close>

lemma append_last_unique:
  assumes "xs @ x # ys = zs @ [y]" "x \<notin> set zs"
  shows "xs = zs \<and> x = y \<and> ys = []"
proof (cases ys rule: rev_cases)
  case Nil
  with assms(1) show ?thesis by simp
next
  case (snoc ys' z)
  with assms(1) have "(xs @ x # ys') @ [z] = zs @ [y]" by simp
  then have "zs = xs @ x # ys'" by simp
  with assms(2) show ?thesis by simp
qed

section \<open>Go maps\<close>

text \<open>
  A Go map may be nil. Reading a nil map gives the zero value; writing to it panics,
  which the code avoids by allocating the map first (\<open>put_entry\<close> is that idiom).
\<close>

type_synonym gomap = "(string \<rightharpoonup> string) option"

definition map_lookup :: "gomap \<Rightarrow> string \<Rightarrow> string option" where
  "map_lookup m k = (case m of None \<Rightarrow> None | Some f \<Rightarrow> f k)"

definition map_index :: "gomap \<Rightarrow> string \<Rightarrow> string" where
  "map_index m k = (case map_lookup m k of None \<Rightarrow> '''' | Some v \<Rightarrow> v)"

definition put_entry :: "gomap \<Rightarrow> string \<Rightarrow> string \<Rightarrow> gomap" where
  "put_entry m k v = Some ((case m of None \<Rightarrow> Map.empty | Some f \<Rightarrow> f)(k \<mapsto> v))"

definition del_entry :: "gomap \<Rightarrow> string \<Rightarrow> gomap" where
  "del_entry m k = map_option (\<lambda>f. f(k := None)) m"

lemma map_lookup_put [simp, meta_simps]:
  "map_lookup (put_entry m k v) k' = (if k' = k then Some v else map_lookup m k')"
  by (simp add: map_lookup_def put_entry_def split: option.splits)

lemma map_lookup_del [simp, meta_simps]:
  "map_lookup (del_entry m k) k' = (if k' = k then None else map_lookup m k')"
  by (cases m) (simp_all add: map_lookup_def del_entry_def)

lemma map_index_put [simp, meta_simps]:
  "map_index (put_entry m k v) k' = (if k' = k then v else map_index m k')"
  by (simp add: map_index_def)

lemma map_index_del [simp, meta_simps]:
  "map_index (del_entry m k) k' = (if k' = k then '''' else map_index m k')"
  by (simp add: map_index_def)

lemma map_lookup_simps [simp]:
  "map_lookup None k = None" "map_lookup (Some f) k = f k"
  by (simp_all add: map_lookup_def)

section \<open>Object metadata\<close>

text \<open>
  The part of \<^verbatim>\<open>metav1.ObjectMeta\<close> the modelled code reads or writes. A kind is an
  extension of this record, so an operation on \<open>'z obj_meta_scheme\<close> is an operation
  on any \<^verbatim>\<open>client.Object\<close>. Times are in nanoseconds; a zero time is \<open>None\<close>.
\<close>

record owner_ref =
  or_uid :: string
  or_name :: string
  or_controller :: bool

record obj_meta =
  om_namespace :: string
  om_name :: string
  om_uid :: string
  om_generation :: int
  om_creation_ts :: "int option"
  om_deletion_ts :: "int option"
  om_labels :: gomap
  om_annotations :: gomap
  om_finalizers :: "string list"
  om_owner_refs :: "owner_ref list"

text \<open>\<^verbatim>\<open>metav1.TypeMeta\<close>.\<close>

record type_meta =
  tm_kind :: string
  tm_api_version :: string

text \<open>
  Keys of \<^verbatim>\<open>go/api/api.go\<close>.
\<close>

definition IngesterFinalizer :: string where
  "IngesterFinalizer = ''michelangelo/Ingester''"
definition DeletingAnnotation :: string where
  "DeletingAnnotation = ''michelangelo/Deleting''"
definition DeletePropagationAnnotation :: string where
  "DeletePropagationAnnotation = ''michelangelo/DeletePropagation''"
definition ImmutableAnnotation :: string where
  "ImmutableAnnotation = ''michelangelo/Immutable''"
definition MetadataStoragePrimaryKeyAnnotation :: string where
  "MetadataStoragePrimaryKeyAnnotation = ''michelangelo/MetadataStoragePrimaryKey''"
definition SpecUpdateTimestampLabel :: string where
  "SpecUpdateTimestampLabel = ''michelangelo/SpecUpdateTimestamp''"
definition UpdateTimestampLabel :: string where
  "UpdateTimestampLabel = ''michelangelo/UpdateTimestamp''"

lemmas key_defs =
  IngesterFinalizer_def DeletingAnnotation_def DeletePropagationAnnotation_def
  ImmutableAnnotation_def MetadataStoragePrimaryKeyAnnotation_def
  SpecUpdateTimestampLabel_def UpdateTimestampLabel_def

lemma annotation_keys_distinct [simp]:
  "distinct [DeletingAnnotation, DeletePropagationAnnotation, ImmutableAnnotation,
     MetadataStoragePrimaryKeyAnnotation]"
  by (simp add: key_defs)

lemma annotation_key_neqs [simp]:
  "DeletingAnnotation \<noteq> ImmutableAnnotation"
  "DeletePropagationAnnotation \<noteq> ImmutableAnnotation"
  "DeletePropagationAnnotation \<noteq> DeletingAnnotation"
  "MetadataStoragePrimaryKeyAnnotation \<noteq> DeletingAnnotation"
  "MetadataStoragePrimaryKeyAnnotation \<noteq> ImmutableAnnotation"
  "ImmutableAnnotation \<noteq> DeletingAnnotation"
  "ImmutableAnnotation \<noteq> DeletePropagationAnnotation"
  "DeletingAnnotation \<noteq> DeletePropagationAnnotation"
  "DeletingAnnotation \<noteq> MetadataStoragePrimaryKeyAnnotation"
  "ImmutableAnnotation \<noteq> MetadataStoragePrimaryKeyAnnotation"
  by (simp_all add: key_defs)

text \<open>\<^verbatim>\<open>checkAnnotation\<close>, \<^verbatim>\<open>IsDeleting\<close>, \<^verbatim>\<open>IsImmutable\<close> and \<^verbatim>\<open>MarkImmutable\<close> of
  \<^verbatim>\<open>go/api/utils/utils.go\<close>; the object is never nil here.\<close>

definition checkAnnotation :: "'z obj_meta_scheme \<Rightarrow> string \<Rightarrow> bool" where
  "checkAnnotation obj key =
     (case om_annotations obj of
        None \<Rightarrow> False
      | Some annotations \<Rightarrow>
          (case annotations key of Some val \<Rightarrow> val = ''true'' | None \<Rightarrow> False))"

definition IsDeleting :: "'z obj_meta_scheme \<Rightarrow> bool" where
  "IsDeleting obj = checkAnnotation obj DeletingAnnotation"

definition IsImmutable :: "'z obj_meta_scheme \<Rightarrow> bool" where
  "IsImmutable obj = checkAnnotation obj ImmutableAnnotation"

definition MarkImmutable :: "'z obj_meta_scheme \<Rightarrow> 'z obj_meta_scheme" where
  "MarkImmutable obj =
     obj\<lparr>om_annotations := put_entry (om_annotations obj) ImmutableAnnotation ''true''\<rparr>"

lemma checkAnnotation_index [meta_simps]:
  "checkAnnotation obj key \<longleftrightarrow> map_index (om_annotations obj) key = ''true''"
  by (auto simp: checkAnnotation_def map_index_def map_lookup_def split: option.splits)

lemma IsImmutable_MarkImmutable [simp]: "IsImmutable (MarkImmutable obj)"
  by (simp add: IsImmutable_def MarkImmutable_def checkAnnotation_index)

subsection \<open>Finalizers\<close>

text \<open>
  \<^verbatim>\<open>controllerutil.ContainsFinalizer\<close>, \<^verbatim>\<open>AddFinalizer\<close> and \<^verbatim>\<open>RemoveFinalizer\<close> belong to
  controller-runtime, so they are a parameter. \<open>finlib_ok\<close> is their documented
  behaviour on the finalizer list.
\<close>

record finlib =
  fl_contains :: "string list \<Rightarrow> string \<Rightarrow> bool"
  fl_add :: "string list \<Rightarrow> string \<Rightarrow> string list"
  fl_remove :: "string list \<Rightarrow> string \<Rightarrow> string list"

definition finlib_ok :: "finlib \<Rightarrow> bool" where
  "finlib_ok L \<longleftrightarrow>
     (\<forall>fs f. fl_contains L fs f = (f \<in> set fs)) \<and>
     (\<forall>fs f. set (fl_add L fs f) = insert f (set fs)) \<and>
     (\<forall>fs f. set (fl_remove L fs f) = set fs - {f})"

lemma finlib_okD:
  assumes "finlib_ok L"
  shows "fl_contains L fs f \<longleftrightarrow> f \<in> set fs"
    and "set (fl_add L fs f) = insert f (set fs)"
    and "set (fl_remove L fs f) = set fs - {f}"
  using assms by (simp_all add: finlib_ok_def)

text \<open>A concrete library, used by the witnesses only.\<close>

definition list_finlib :: finlib where
  "list_finlib =
     \<lparr>fl_contains = (\<lambda>fs f. List.member fs f),
      fl_add = (\<lambda>fs f. if List.member fs f then fs else fs @ [f]),
      fl_remove = (\<lambda>fs f. removeAll f fs)\<rparr>"

lemma list_finlib_ok [simp]: "finlib_ok list_finlib"
  by (auto simp: finlib_ok_def list_finlib_def)

section \<open>Errors and reconcile results\<close>

text \<open>
  gRPC status codes and Kubernetes status reasons, as far as the code names them; an
  error is a Kubernetes API error (\<^verbatim>\<open>apiErrors.APIStatus\<close>), a gRPC status error, or any
  other error. Message texts are not modelled.
\<close>

datatype grpc_code =
    Code_OK | Code_Unknown | Code_InvalidArgument | Code_DeadlineExceeded | Code_NotFound
  | Code_AlreadyExists | Code_PermissionDenied | Code_ResourceExhausted
  | Code_FailedPrecondition | Code_Internal | Code_Unavailable | Code_Unauthenticated

datatype status_reason =
    ReasonUnknown | ReasonUnauthorized | ReasonForbidden | ReasonNotFound
  | ReasonAlreadyExists | ReasonConflict | ReasonGone | ReasonInvalid
  | ReasonServerTimeout | ReasonTimeout | ReasonTooManyRequests | ReasonBadRequest
  | ReasonMethodNotAllowed | ReasonNotAcceptable | ReasonRequestEntityTooLarge
  | ReasonUnsupportedMediaType | ReasonInternalError | ReasonExpired
  | ReasonServiceUnavailable | ReasonOther string

datatype api_error =
    K8sStatusError status_reason \<comment> \<open>\<^verbatim>\<open>*apiErrors.StatusError\<close>\<close>
  | K8sOtherAPIStatus status_reason \<comment> \<open>another implementation of \<^verbatim>\<open>APIStatus\<close>\<close>
  | GrpcError grpc_code \<comment> \<open>\<^verbatim>\<open>status.Error\<close>\<close>
  | OtherError string

text \<open>\<^verbatim>\<open>apiErrors.IsNotFound\<close> reads the reason; \<^verbatim>\<open>status.Code\<close> reads the gRPC code,
  \<^verbatim>\<open>Unknown\<close> for an error that carries none.\<close>

fun k8s_is_not_found :: "api_error \<Rightarrow> bool" where
  "k8s_is_not_found (K8sStatusError r) = (r = ReasonNotFound)"
| "k8s_is_not_found (K8sOtherAPIStatus r) = (r = ReasonNotFound)"
| "k8s_is_not_found _ = False"

fun status_code :: "api_error \<Rightarrow> grpc_code" where
  "status_code (GrpcError c) = c"
| "status_code _ = Code_Unknown"

text \<open>\<^verbatim>\<open>IsNotFoundError\<close> of \<^verbatim>\<open>go/api/utils/utils.go\<close>: a gRPC error is judged by its code, any
  other by the Kubernetes reason.\<close>

definition IsNotFoundError :: "api_error \<Rightarrow> bool" where
  "IsNotFoundError err =
     (case err of GrpcError c \<Rightarrow> c = Code_NotFound | _ \<Rightarrow> k8s_is_not_found err)"

text \<open>
  JSON values, which also stand for \<^verbatim>\<open>structpb\<close> values. A JSON object is an association list
  sorted by its keys.
\<close>

datatype json =
    JNull | JBool bool | JNumber int | JString string
  | JList "json list" | JObject "(string \<times> json) list"

text \<open>Decimal digits.\<close>

fun decimal :: "nat \<Rightarrow> string" where
  "decimal n = (if n < 10 then [char_of (48 + n)]
                else decimal (n div 10) @ [char_of (48 + n mod 10)])"

declare decimal.simps [simp del]

text \<open>\<^verbatim>\<open>strconv.FormatInt\<close> in base ten.\<close>

definition FormatInt :: "int \<Rightarrow> string" where
  "FormatInt i = (if i < 0 then CHR ''-'' # decimal (nat (- i)) else decimal (nat i))"

text \<open>A call either returns or panics (a nil dereference, an index out of range).\<close>

datatype 'a outcome = Returned 'a | Panicked

text \<open>
  Code with effects that may stop before it answers: with an error, a panic, or never.
  \<open>and_then\<close> is the idiom \<^verbatim>\<open>if err != nil { return err }\<close>.
\<close>

datatype stop = Failing api_error | Panics | Hangs

type_synonym ('e, 'a) exc_io = "('e, stop + 'a) io"

definition and_then :: "('e, 'x + 'a) io \<Rightarrow> ('a \<Rightarrow> ('e, 'x + 'b) io) \<Rightarrow> ('e, 'x + 'b) io" where
  "and_then m f = do {
     got \<leftarrow> m;
     (case got of Inl e \<Rightarrow> State_Monad.return (Inl e) | Inr x \<Rightarrow> f x)
   }"

definition call :: "('e list \<Rightarrow> api_error + 'a) \<Rightarrow> 'e \<Rightarrow> ('e, 'a) exc_io" where
  "call answer event = do {
     got \<leftarrow> ask answer (\<lambda>_. event);
     State_Monad.return (map_sum Failing id got)
   }"

definition of_outcome :: "(api_error + 'a) outcome \<Rightarrow> stop + 'a" where
  "of_outcome r = (case r of Returned x \<Rightarrow> map_sum Failing id x | Panicked \<Rightarrow> Inl Panics)"

lemma run_state_call [simp, io_simps]:
  "run_state (call answer event) h = (map_sum Failing id (answer h), h @ [event])"
  by (simp add: call_def)

text \<open>A sequence that succeeds is two that do.\<close>

lemma and_then_InrE:
  assumes "run_state (and_then m f) h = (Inr y, h')"
  obtains x h1 where "run_state m h = (Inr x, h1)" "run_state (f x) h1 = (Inr y, h')"
  using assms by (auto simp: and_then_def split: prod.splits sum.splits)

lemma and_then_run:
  assumes "run_state (and_then m f) h = (x, h')"
  obtains (stopped) e where "run_state m h = (Inl e, h')" "x = Inl e"
  | (went_on) y h1 where "run_state m h = (Inr y, h1)" "run_state (f y) h1 = (x, h')"
  using assms by (auto simp: and_then_def split: prod.splits sum.splits)

lemma emits_and_then [intro]:
  "emits P m \<Longrightarrow> (\<And>x. emits P (f x)) \<Longrightarrow> emits P (and_then m f)"
  unfolding and_then_def by (intro emits_bind) (auto split: sum.splits)

lemma always_and_then [intro]:
  "always P m \<Longrightarrow> (\<And>x. always P (f x)) \<Longrightarrow> always P (and_then m f)"
  unfolding and_then_def by (intro always_bind) (auto split: sum.splits)

lemma emits_call [intro]: "P event \<Longrightarrow> emits P (call answer event)"
  unfolding call_def by (intro emits_bind emits_ask emits_return)

text \<open>What a handler answers, whatever the environment does.\<close>

definition gives :: "('a \<Rightarrow> bool) \<Rightarrow> ('e, 'a) io \<Rightarrow> bool" where
  "gives P m \<longleftrightarrow> (\<forall>h. P (fst (run_state m h)))"

lemma givesD: "gives P m \<Longrightarrow> run_state m h = (x, h') \<Longrightarrow> P x"
  by (metis gives_def fst_conv)

lemma gives_return [intro]: "P x \<Longrightarrow> gives P (State_Monad.return x)"
  by (simp add: gives_def)

lemma gives_bind:
  "(\<And>h x h'. run_state m h = (x, h') \<Longrightarrow> gives P (f x)) \<Longrightarrow> gives P (State_Monad.bind m f)"
  by (auto simp: gives_def split: prod.splits)

text \<open>
  The order in which Go ranges over a map is unspecified: code that ranges over one takes
  the order as an argument, a function that enumerates the keys.
\<close>

definition range_order :: "('k list \<Rightarrow> 'k list) \<Rightarrow> bool" where
  "range_order ord \<longleftrightarrow> (\<forall>ks. distinct ks \<longrightarrow> distinct (ord ks) \<and> set (ord ks) = set ks)"

lemma range_orderD:
  "range_order ord \<Longrightarrow> distinct ks \<Longrightarrow> set (ord ks) = set ks"
  "range_order ord \<Longrightarrow> distinct ks \<Longrightarrow> distinct (ord ks)"
  by (auto simp: range_order_def)

lemma range_order_id [simp]: "range_order (\<lambda>ks. ks)"
  by (simp add: range_order_def)

text \<open>\<^verbatim>\<open>ctrl.Result\<close>, with durations in nanoseconds.\<close>

record ctrl_result =
  cr_requeue :: bool
  cr_requeue_after :: int

abbreviation seconds :: "int \<Rightarrow> int" where
  "seconds n \<equiv> n * 1000000000"

definition no_requeue :: ctrl_result where
  "no_requeue = \<lparr>cr_requeue = False, cr_requeue_after = 0\<rparr>"

definition requeue_after :: "int \<Rightarrow> ctrl_result" where
  "requeue_after d = \<lparr>cr_requeue = False, cr_requeue_after = d\<rparr>"

end
