(* ===== verification/Conditions.thy ===== *)
theory Conditions
  imports Prelude
begin

text \<open>
  The condition engine (\<^verbatim>\<open>go/base/conditions\<close>): conditions of a resource and the helpers
  that set them, the interface between the engine and a plugin of actors, and the
  default engine that drives every condition-based controller. The contract a plugin's
  condition store owes the engine is the locale \<open>condition_store\<close>; the list-backed
  store of the pipeline-run plugin is its interpretation.
\<close>

section \<open>Conditions\<close>

text \<open>\<^verbatim>\<open>api.Condition\<close> and \<^verbatim>\<open>api.ConditionStatus\<close> (\<^verbatim>\<open>proto/api/conditions.proto\<close>).\<close>

datatype condition_status = CS_UNKNOWN | CS_TRUE | CS_FALSE

text \<open>
  Metadata is an \<^verbatim>\<open>Any\<close>: it holds a \<^verbatim>\<open>Struct\<close> (its fields), a \<^verbatim>\<open>BoolValue\<close> or another message.
  Numbers of a \<^verbatim>\<open>Struct\<close> are floats; the only ones here count attempts and are integers.
\<close>

datatype any_message = AnyStruct "(string \<times> json) list" | AnyBool bool | AnyOther string

record condition =
  c_type :: string
  c_status :: condition_status
  c_reason :: string
  c_message :: string
  c_last_updated :: int
  c_observed_generation :: int
  c_metadata :: "any_message option"

text \<open>The zero value of the Go struct, with type and status set.\<close>

definition mk_condition :: "string \<Rightarrow> condition_status \<Rightarrow> condition" where
  "mk_condition t s = \<lparr>c_type = t, c_status = s, c_reason = '''', c_message = '''',
     c_last_updated = 0, c_observed_generation = 0, c_metadata = None\<rparr>"

lemma mk_condition_sel [simp]:
  "c_type (mk_condition t s) = t" "c_status (mk_condition t s) = s"
  "c_reason (mk_condition t s) = ''''" "c_metadata (mk_condition t s) = None"
  by (simp_all add: mk_condition_def)

fun GetCondition :: "string \<Rightarrow> condition list \<Rightarrow> condition option" where
  "GetCondition t [] = None"
| "GetCondition t (c # cs) = (if c_type c = t then Some c else GetCondition t cs)"

text \<open>The three setters; \<open>now\<close> is the Unix time \<^verbatim>\<open>time.Now().Unix()\<close> reads.\<close>

definition generateCondition ::
    "int \<Rightarrow> condition \<Rightarrow> condition_status \<Rightarrow> string \<Rightarrow> string \<Rightarrow> condition" where
  "generateCondition now c status message reason =
     (let c1 = (if c_status c \<noteq> status \<or> c_message c \<noteq> message \<or> c_reason c \<noteq> reason
                then c\<lparr>c_last_updated := now\<rparr> else c)
      in c1\<lparr>c_status := status, c_message := message, c_reason := reason\<rparr>)"

definition GenerateUnknownCondition :: "int \<Rightarrow> condition \<Rightarrow> string \<Rightarrow> string \<Rightarrow> condition" where
  "GenerateUnknownCondition now c message reason =
     generateCondition now c CS_UNKNOWN message reason"

definition GenerateTrueConditionWithMessage :: "int \<Rightarrow> condition \<Rightarrow> string \<Rightarrow> condition" where
  "GenerateTrueConditionWithMessage now c message = generateCondition now c CS_TRUE message ''''"

definition GenerateTrueCondition :: "int \<Rightarrow> condition \<Rightarrow> condition" where
  "GenerateTrueCondition now c = GenerateTrueConditionWithMessage now c ''''"

definition GenerateFalseCondition :: "int \<Rightarrow> condition \<Rightarrow> string \<Rightarrow> string \<Rightarrow> condition" where
  "GenerateFalseCondition now c message reason =
     generateCondition now c CS_FALSE message reason"

lemma generated_type [simp]:
  "c_type (generateCondition now c st message reason) = c_type c"
  "c_status (generateCondition now c st message reason) = st"
  by (simp_all add: generateCondition_def Let_def)

lemma status_generated [simp]:
  "c_status (GenerateTrueCondition now c) = CS_TRUE" "c_status (GenerateFalseCondition now c m r) = CS_FALSE"
  "c_status (GenerateUnknownCondition now c m r) = CS_UNKNOWN"
  by (simp_all add: GenerateTrueCondition_def GenerateTrueConditionWithMessage_def
      GenerateFalseCondition_def GenerateUnknownCondition_def)

text \<open>\<^verbatim>\<open>PutCondition\<close> of the plugins of deployments and of inference servers.\<close>

fun put_condition :: "condition \<Rightarrow> condition list \<Rightarrow> condition list" where
  "put_condition c [] = [c]"
| "put_condition c (e # es) = (if c_type e = c_type c then c # es else e # put_condition c es)"

lemma put_condition_set: "set (put_condition c cs) \<subseteq> insert c (set cs)"
  by (induction cs) auto

lemma GetCondition_put:
  "GetCondition t (put_condition c cs) = (if t = c_type c then Some c else GetCondition t cs)"
  by (induction cs) auto

lemma GetCondition_type: "GetCondition t cs = Some c \<Longrightarrow> c_type c = t \<and> c \<in> set cs"
  by (induction cs) (auto split: if_splits)

lemma GetCondition_None: "GetCondition t cs = None \<longleftrightarrow> t \<notin> c_type ` set cs"
  by (induction cs) auto

section \<open>Actors and plugins\<close>

text \<open>
  \<^verbatim>\<open>ConditionActor\<close>: \<open>Retrieve\<close> and \<open>Run\<close> read and may mutate the resource, talk to the
  environment (the state \<open>'w\<close>), and return a condition or an error. The resource after
  the call is returned with the answer. Actors return a non-nil condition when they
  return no error, as every actor of the repository does.
\<close>

record ('w, 'r) actor =
  a_type :: string
  a_retrieve :: "'r \<Rightarrow> condition \<Rightarrow> ('w, (api_error + condition) \<times> 'r) state"
  a_run :: "'r \<Rightarrow> condition \<Rightarrow> ('w, (api_error + condition) \<times> 'r) state"

record ('w, 'r) plugin =
  p_actors :: "('w, 'r) actor list"
  p_get_conditions :: "'r \<Rightarrow> condition list"
  p_put_condition :: "'r \<Rightarrow> condition \<Rightarrow> 'r"

record engine_result =
  er_result :: ctrl_result
  er_satisfied :: bool
  er_terminal :: bool
  er_killed :: bool

section \<open>The default engine\<close>

definition KillReason :: string where
  "KillReason = ''killed due to workflow termination''"

definition inactive_requeue :: int where
  "inactive_requeue = seconds 10"

text \<open>
  The loop of \<^verbatim>\<open>runPlugin\<close> over the actors still to visit, with its variables
  \<^verbatim>\<open>actionHasRun\<close> and \<^verbatim>\<open>criticalCondition\<close>.
\<close>

definition previousCondition :: "('w, 'r) plugin \<Rightarrow> ('v, 'r) actor \<Rightarrow> 'r \<Rightarrow> condition" where
  "previousCondition p a r =
     (case GetCondition (a_type a) (p_get_conditions p r) of
        None \<Rightarrow> mk_condition (a_type a) CS_UNKNOWN
      | Some c \<Rightarrow> c)"

fun runActors ::
    "('w, 'r) plugin \<Rightarrow> ('w, 'r) actor list \<Rightarrow> bool \<Rightarrow> condition option \<Rightarrow> 'r
     \<Rightarrow> ('w, (api_error + condition option) \<times> 'r) state" where
  "runActors p [] actionHasRun critical r = State_Monad.return (Inr critical, r)"
| "runActors p (a # as) actionHasRun critical r =
     do {
       (retrieved, r1) \<leftarrow> a_retrieve a r (previousCondition p a r);
       (case retrieved of
          Inl err \<Rightarrow> State_Monad.return (Inl err, r1)
        | Inr c \<Rightarrow>
            if c_status c \<noteq> CS_TRUE \<and> \<not> actionHasRun then do {
              (ran, r2) \<leftarrow> a_run a r1 c;
              (case ran of
                 Inl err \<Rightarrow> State_Monad.return (Inl err, r2)
               | Inr c' \<Rightarrow> runActors p as True (Some c') (p_put_condition p r2 c'))
            }
            else runActors p as actionHasRun critical (p_put_condition p r1 c))
     }"

definition runPlugin ::
    "('w, 'r) plugin \<Rightarrow> 'r \<Rightarrow> ('w, (api_error + condition option) \<times> 'r) state" where
  "runPlugin p r = runActors p (p_actors p) False None r"

definition classify :: "api_error + condition option \<Rightarrow> engine_result" where
  "classify outcome =
     (case outcome of
        Inl _ \<Rightarrow> \<lparr>er_result = no_requeue, er_satisfied = False, er_terminal = True,
                  er_killed = False\<rparr>
      | Inr None \<Rightarrow> \<lparr>er_result = no_requeue, er_satisfied = True, er_terminal = True,
                     er_killed = False\<rparr>
      | Inr (Some c) \<Rightarrow>
          if c_status c = CS_FALSE then
            if c_reason c = KillReason then
              \<lparr>er_result = no_requeue, er_satisfied = False, er_terminal = True,
               er_killed = True\<rparr>
            else
              \<lparr>er_result = no_requeue, er_satisfied = False, er_terminal = True,
               er_killed = False\<rparr>
          else \<lparr>er_result = \<lparr>cr_requeue = True, cr_requeue_after = inactive_requeue\<rparr>,
                er_satisfied = False, er_terminal = False, er_killed = False\<rparr>)"

text \<open>\<^verbatim>\<open>Run\<close> never returns an error of its own: a failing actor is a terminal result.\<close>

definition engineRun :: "('w, 'r) plugin \<Rightarrow> 'r \<Rightarrow> ('w, engine_result \<times> 'r) state" where
  "engineRun p r = do {
     (outcome, r') \<leftarrow> runPlugin p r;
     State_Monad.return (classify outcome, r')
   }"

lemma run_state_engineRun [io_simps]:
  "run_state (engineRun p r) w =
     (case run_state (runPlugin p r) w of ((outcome, r'), w') \<Rightarrow> ((classify outcome, r'), w'))"
  by (simp add: engineRun_def split: prod.splits)

section \<open>What the engine calls\<close>

text \<open>
  The sequence of actor calls of a pass, observed by actors that record each call beside
  the environment state and otherwise behave as before (\<open>traced_agrees\<close>).
\<close>

datatype actor_call = Retrieved string | Ran string

definition traced :: "('w, 'r) actor \<Rightarrow> ('w \<times> actor_call list, 'r) actor" where
  "traced a =
     \<lparr>a_type = a_type a,
      a_retrieve = (\<lambda>r c. State (\<lambda>(w, tr).
        (case run_state (a_retrieve a r c) w of (x, w') \<Rightarrow> (x, w', tr @ [Retrieved (a_type a)])))),
      a_run = (\<lambda>r c. State (\<lambda>(w, tr).
        (case run_state (a_run a r c) w of (x, w') \<Rightarrow> (x, w', tr @ [Ran (a_type a)]))))\<rparr>"

definition traced_plugin :: "('w, 'r) plugin \<Rightarrow> ('w \<times> actor_call list, 'r) plugin" where
  "traced_plugin p =
     \<lparr>p_actors = map traced (p_actors p), p_get_conditions = p_get_conditions p,
      p_put_condition = p_put_condition p\<rparr>"

lemma traced_plugin_sel [simp]:
  "p_actors (traced_plugin p) = map traced (p_actors p)"
  "p_get_conditions (traced_plugin p) = p_get_conditions p"
  "p_put_condition (traced_plugin p) = p_put_condition p"
  by (simp_all add: traced_plugin_def)

lemma traced_sel [simp]:
  "a_type (traced a) = a_type a"
  "run_state (a_retrieve (traced a) r c) (w, tr) = (x, w', tr') \<longleftrightarrow>
     run_state (a_retrieve a r c) w = (x, w') \<and> tr' = tr @ [Retrieved (a_type a)]"
  "run_state (a_run (traced a) r c) (w, tr) = (x, w', tr') \<longleftrightarrow>
     run_state (a_run a r c) w = (x, w') \<and> tr' = tr @ [Ran (a_type a)]"
  by (auto simp: traced_def split: prod.splits)

lemma previousCondition_traced [simp]:
  "previousCondition (traced_plugin p) (traced a) r = previousCondition p a r"
  by (simp add: previousCondition_def split: option.splits)

lemma c_type_previousCondition [simp]: "c_type (previousCondition p a r) = a_type a"
  by (auto simp: previousCondition_def split: option.splits dest: GetCondition_type)

text \<open>The four ways one actor of a pass can go.\<close>

lemma runActors_ConsE:
  assumes "run_state (runActors p (a # as) h c r) w = (x, w')"
  obtains
    (retrieve_error) e r1 where
      "run_state (a_retrieve a r (previousCondition p a r)) w = ((Inl e, r1), w')"
      "x = (Inl e, r1)"
  | (skipped) d r1 w1 where
      "run_state (a_retrieve a r (previousCondition p a r)) w = ((Inr d, r1), w1)"
      "c_status d = CS_TRUE \<or> h"
      "run_state (runActors p as h c (p_put_condition p r1 d)) w1 = (x, w')"
  | (run_error) d r1 w1 e r2 where
      "run_state (a_retrieve a r (previousCondition p a r)) w = ((Inr d, r1), w1)"
      "c_status d \<noteq> CS_TRUE" "\<not> h"
      "run_state (a_run a r1 d) w1 = ((Inl e, r2), w')" "x = (Inl e, r2)"
  | (ran) d r1 w1 d' r2 w2 where
      "run_state (a_retrieve a r (previousCondition p a r)) w = ((Inr d, r1), w1)"
      "c_status d \<noteq> CS_TRUE" "\<not> h"
      "run_state (a_run a r1 d) w1 = ((Inr d', r2), w2)"
      "run_state (runActors p as True (Some d') (p_put_condition p r2 d')) w2 = (x, w')"
proof -
  obtain y r1 w1 where ret:
    "run_state (a_retrieve a r (previousCondition p a r)) w = ((y, r1), w1)"
    by (metis prod.exhaust)
  show thesis
  proof (cases y)
    case (Inl e)
    with assms ret show thesis by (intro retrieve_error) auto
  next
    case (Inr d)
    show thesis
    proof (cases "c_status d = CS_TRUE \<or> h")
      case True
      with assms ret Inr show thesis by (intro skipped) auto
    next
      case False
      obtain z r2 w2 where "run_state (a_run a r1 d) w1 = ((z, r2), w2)"
        by (metis prod.exhaust)
      with assms ret Inr False show thesis
        by (cases z) (auto intro: run_error ran)
    qed
  qed
qed

text \<open>Recording the calls changes nothing else.\<close>

lemma traced_agrees:
  "run_state (runActors (traced_plugin p) (map traced as) h c r) (w, tr) = (x, w', tr') \<Longrightarrow>
   run_state (runActors p as h c r) w = (x, w')"
proof (induction as arbitrary: h c r w tr)
  case Nil
  then show ?case by simp
next
  case (Cons a as)
  from Cons.prems have
    "run_state (runActors (traced_plugin p) (traced a # map traced as) h c r) (w, tr) = (x, w', tr')"
    by simp
  then show ?case
    by (cases rule: runActors_ConsE) (auto dest: Cons.IH)
qed

text \<open>After an action has run, the remaining actors are only retrieved.\<close>

lemma runActors_after_action:
  "run_state (runActors (traced_plugin p) (map traced as) True c r) (w, tr) = ((Inr c', r'), w', tr') \<Longrightarrow>
   c' = c \<and> tr' = tr @ map (Retrieved \<circ> a_type) as"
proof (induction as arbitrary: r w tr)
  case Nil
  then show ?case by simp
next
  case (Cons a as)
  from Cons.prems have
    "run_state (runActors (traced_plugin p) (traced a # map traced as) True c r) (w, tr)
       = ((Inr c', r'), w', tr')"
    by simp
  then show ?case
    by (cases rule: runActors_ConsE) (auto dest: Cons.IH)
qed

lemma runActors_calls:
  "run_state (runActors (traced_plugin p) (map traced as) False None r) (w, tr)
     = ((Inr c', r'), w', tr') \<Longrightarrow>
   (c' = None \<and> tr' = tr @ map (Retrieved \<circ> a_type) as) \<or>
   (\<exists>pre a post. as = pre @ a # post \<and> c' \<noteq> None \<and>
      tr' = tr @ map (Retrieved \<circ> a_type) (pre @ [a]) @ [Ran (a_type a)]
            @ map (Retrieved \<circ> a_type) post)"
proof (induction as arbitrary: r w tr)
  case Nil
  then show ?case by simp
next
  case (Cons a as)
  from Cons.prems have
    "run_state (runActors (traced_plugin p) (traced a # map traced as) False None r) (w, tr)
       = ((Inr c', r'), w', tr')"
    by simp
  then show ?case
  proof (cases rule: runActors_ConsE)
    case (skipped d r1 wt)
    then obtain w1 where "wt = (w1, tr @ [Retrieved (a_type a)])" by (cases wt) auto
    from Cons.IH [OF skipped(3) [unfolded this]] show ?thesis
    proof (elim disjE exE conjE)
      fix pre b post
      assume "as = pre @ b # post" "c' \<noteq> None"
        "tr' = (tr @ [Retrieved (a_type a)]) @ map (Retrieved \<circ> a_type) (pre @ [b])
           @ [Ran (a_type b)] @ map (Retrieved \<circ> a_type) post"
      then show ?thesis by (intro disjI2 exI [of _ "a # pre"]) auto
    qed simp
  next
    case (ran d r1 wt d' r2 wt')
    then obtain w2 where "wt' = (w2, tr @ [Retrieved (a_type a), Ran (a_type a)])"
      by (cases wt; cases wt') auto
    with ran(5) show ?thesis
      by (auto dest!: runActors_after_action intro!: exI [of _ "[]"])
  qed auto
qed

text \<open>Whatever the outcome, at most one action runs in a pass.\<close>

fun is_Ran :: "actor_call \<Rightarrow> bool" where
  "is_Ran (Ran t) = True"
| "is_Ran (Retrieved t) = False"

lemma runActors_one_action:
  "run_state (runActors (traced_plugin p) (map traced as) h c r) (w, tr) = (x, w', tr') \<Longrightarrow>
   \<exists>new. tr' = tr @ new \<and> length (filter is_Ran new) \<le> (if h then 0 else 1)"
proof (induction as arbitrary: h c r w tr)
  case Nil
  then show ?case by simp
next
  case (Cons a as)
  from Cons.prems have
    "run_state (runActors (traced_plugin p) (traced a # map traced as) h c r) (w, tr) = (x, w', tr')"
    by simp
  then show ?case
  proof (cases rule: runActors_ConsE)
    case (skipped d r1 wt)
    then obtain w1 where "wt = (w1, tr @ [Retrieved (a_type a)])" by (cases wt) auto
    with skipped(3) Cons.IH [of h c _ w1] show ?thesis by fastforce
  next
    case (ran d r1 wt d' r2 wt')
    then obtain w2 where "wt' = (w2, tr @ [Retrieved (a_type a), Ran (a_type a)])"
      by (cases wt; cases wt') auto
    with ran(3,5) Cons.IH [of True _ _ w2] show ?thesis by fastforce
  qed auto
qed

section \<open>The condition store of a plugin\<close>

text \<open>
  What the engine needs of \<open>GetConditions\<close> and \<open>PutCondition\<close>: the condition just put is
  the one found under its type, and no other type is affected.
\<close>

locale condition_store =
  fixes get_conds :: "'r \<Rightarrow> condition list"
    and put_cond :: "'r \<Rightarrow> condition \<Rightarrow> 'r"
  assumes get_put_same: "GetCondition (c_type c) (get_conds (put_cond r c)) = Some c"
    and get_put_other:
      "t \<noteq> c_type c \<Longrightarrow> GetCondition t (get_conds (put_cond r c)) = GetCondition t (get_conds r)"

text \<open>
  An actor that answers with a condition of its own type and leaves the stored
  conditions to the engine.
\<close>

definition actor_ok :: "('r \<Rightarrow> condition list) \<Rightarrow> ('w, 'r) actor \<Rightarrow> bool" where
  "actor_ok get_conds a \<longleftrightarrow>
     (\<forall>r prev w c r' w'.
        run_state (a_retrieve a r prev) w = ((Inr c, r'), w') \<or>
        run_state (a_run a r prev) w = ((Inr c, r'), w') \<longrightarrow>
          c_type prev = a_type a \<longrightarrow> c_type c = a_type a \<and> get_conds r' = get_conds r)"

lemma actor_okD:
  assumes "actor_ok get_conds a" "c_type prev = a_type a"
  shows "run_state (a_retrieve a r prev) w = ((Inr c, r'), w') \<Longrightarrow>
           c_type c = a_type a \<and> get_conds r' = get_conds r"
    and "run_state (a_run a r prev) w = ((Inr c, r'), w') \<Longrightarrow>
           c_type c = a_type a \<and> get_conds r' = get_conds r"
  using assms unfolding actor_ok_def by blast+

context condition_store
begin

text \<open>
  A pass that returns no error stores a condition for every actor, leaves every other
  type alone, and, when it reports no critical condition, has stored TRUE everywhere.
\<close>

definition stored_after ::
    "('w, 'r) actor list \<Rightarrow> bool \<Rightarrow> 'r \<Rightarrow> 'r \<Rightarrow> bool" where
  "stored_after as all_true r r' \<longleftrightarrow>
     (\<forall>a\<in>set as. \<exists>c. GetCondition (a_type a) (get_conds r') = Some c \<and>
        (all_true \<longrightarrow> c_status c = CS_TRUE)) \<and>
     (\<forall>t. t \<notin> a_type ` set as \<longrightarrow>
        GetCondition t (get_conds r') = GetCondition t (get_conds r))"

lemma stored_after_Cons:
  assumes "stored_after as all_true (put_cond r1 c) r'" "get_conds r1 = get_conds r"
    "c_type c = a_type a" "a_type a \<notin> a_type ` set as" "all_true \<Longrightarrow> c_status c = CS_TRUE"
  shows "stored_after (a # as) all_true r r'"
  using assms get_put_same [of c r1] get_put_other [of _ c r1]
  unfolding stored_after_def by auto

lemma runActors_stores:
  assumes "run_state (runActors p as h c r) w = ((Inr c', r'), w')"
    and "p_get_conditions p = get_conds" "p_put_condition p = put_cond"
    and "\<forall>a\<in>set as. actor_ok get_conds a" "distinct (map a_type as)"
    and "h \<longleftrightarrow> c \<noteq> None"
  shows "stored_after as (c' = None) r r' \<and> (h \<longrightarrow> c' = c)"
  using assms
proof (induction as arbitrary: h c r w)
  case Nil
  then show ?case by (simp add: stored_after_def)
next
  case (Cons a as)
  note store = Cons.prems(2,3)
  from Cons.prems(4) have ok: "actor_ok get_conds a" and oks: "\<forall>a\<in>set as. actor_ok get_conds a"
    by auto
  from Cons.prems(5) have fresh: "a_type a \<notin> a_type ` set as" and dist: "distinct (map a_type as)"
    by auto
  have prev: "c_type (previousCondition p a r) = a_type a" by simp
  from Cons.prems(1) show ?case
  proof (cases rule: runActors_ConsE)
    case (skipped d r1 w1)
    note d = actor_okD(1) [OF ok prev skipped(1)]
    from skipped(3) store oks dist Cons.prems(6)
    have "stored_after as (c' = None) (put_cond r1 d) r' \<and> (h \<longrightarrow> c' = c)"
      using Cons.IH [of h c "put_cond r1 d" w1] by simp
    with skipped(2) d fresh Cons.prems(6) show ?thesis
      by (auto intro: stored_after_Cons)
  next
    case (ran d r1 w1 d' r2 w2)
    note d = actor_okD(1) [OF ok prev ran(1)]
    note d' = actor_okD(2) [OF ok conjunct1 [OF d] ran(4)]
    from ran(5) store oks dist
    have "stored_after as (c' = None) (put_cond r2 d') r' \<and> c' = Some d'"
      using Cons.IH [of True "Some d'" "put_cond r2 d'" w2] by auto
    with d d' fresh ran(3) show ?thesis
      by (auto intro: stored_after_Cons)
  qed auto
qed

end

section \<open>Invariants of a pass\<close>

text \<open>What every actor and every stored condition keep, a pass keeps.\<close>

lemma runActors_invariant:
  assumes "run_state (runActors p as h c r) w = ((oc, r'), w')" "I r"
    and "\<And>a r c w x r' w'. a \<in> set as \<Longrightarrow> I r \<Longrightarrow> run_state (a_retrieve a r c) w = ((x, r'), w') \<Longrightarrow> I r'"
    and "\<And>a r c w x r' w'. a \<in> set as \<Longrightarrow> I r \<Longrightarrow> run_state (a_run a r c) w = ((x, r'), w') \<Longrightarrow> I r'"
    and "\<And>r c. I r \<Longrightarrow> I (p_put_condition p r c)"
  shows "I r'"
  using assms
proof (induction as arbitrary: h c r w)
  case Nil
  then show ?case by simp
next
  case (Cons a as)
  note retrieve = Cons.prems(3) [OF list.set_intros(1)]
  note action = Cons.prems(4) [OF list.set_intros(1)]
  note put = Cons.prems(5)
  note rest = Cons.IH [OF _ _ Cons.prems(3) [OF list.set_intros(2)]
    Cons.prems(4) [OF list.set_intros(2)] put]
  from Cons.prems(1) show ?case
  proof (cases rule: runActors_ConsE)
    case (retrieve_error e r1)
    with retrieve [OF Cons.prems(2)] show ?thesis by blast
  next
    case (skipped d r1 w1)
    from retrieve [OF Cons.prems(2) skipped(1)] have "I r1" .
    from rest [OF skipped(3) put [OF this]] show ?thesis .
  next
    case (run_error d r1 w1 e r2)
    from action [OF retrieve [OF Cons.prems(2) run_error(1)] run_error(4)] run_error(5)
    show ?thesis by simp
  next
    case (ran d r1 w1 d' r2 w2)
    from rest [OF ran(5) put [OF action [OF retrieve [OF Cons.prems(2) ran(1)] ran(4)]]]
    show ?thesis .
  qed
qed

end
