(* ===== verification/Cascade_Drain.thy ===== *)
theory Cascade_Drain
  imports Prelude
begin

text \<open>
  Graceful cascade deletion (\<^verbatim>\<open>go/cascadedelete\<close>): owner references, the retain policy,
  the persisted drain-counted token, and the driver \<^verbatim>\<open>RunDrainStep\<close> that takes a child one
  step through its drain. The driver writes only through a \<^verbatim>\<open>DrainTarget\<close>; what a target
  promises is the locale \<open>draining\<close>, in which the accounting of the active-drain gauge,
  the progress of a drain and its release conditions are proved once. The pipeline-run
  controller interprets it.
\<close>

section \<open>Owner references\<close>

text \<open>
  \<^verbatim>\<open>metav1.GetControllerOf\<close> and \<^verbatim>\<open>controllerutil.SetControllerReference\<close> are library code:
  parameters that read the controller of an object and compute the references of the child
  once an owner is set, or an error (another controller already owns it).
\<close>

record reflib =
  rl_controller_of :: "owner_ref list \<Rightarrow> owner_ref option"
  rl_set_controller :: "obj_meta \<Rightarrow> obj_meta \<Rightarrow> api_error + owner_ref list"

definition meta_of :: "'z obj_meta_scheme \<Rightarrow> obj_meta" where
  "meta_of obj = obj_meta.truncate obj"

lemma meta_of_sel [simp]:
  "om_annotations (meta_of obj) = om_annotations obj"
  "om_finalizers (meta_of obj) = om_finalizers obj"
  "om_deletion_ts (meta_of obj) = om_deletion_ts obj"
  "om_owner_refs (meta_of obj) = om_owner_refs obj"
  "om_uid (meta_of obj) = om_uid obj" "om_name (meta_of obj) = om_name obj"
  by (simp_all add: meta_of_def obj_meta.defs)

definition EnsureControllerRef ::
    "reflib \<Rightarrow> 'z obj_meta_scheme \<Rightarrow> 'y obj_meta_scheme \<Rightarrow> api_error + bool \<times> 'z obj_meta_scheme" where
  "EnsureControllerRef R child owner =
     (case rl_controller_of R (om_owner_refs child) of
        Some controller \<Rightarrow>
          if or_uid controller = om_uid owner then Inr (False, child)
          else (case rl_set_controller R (meta_of owner) (meta_of child) of
                  Inl err \<Rightarrow> Inl err
                | Inr refs \<Rightarrow> Inr (True, child\<lparr>om_owner_refs := refs\<rparr>))
      | None \<Rightarrow>
          (case rl_set_controller R (meta_of owner) (meta_of child) of
             Inl err \<Rightarrow> Inl err
           | Inr refs \<Rightarrow> Inr (True, child\<lparr>om_owner_refs := refs\<rparr>)))"

text \<open>\<^verbatim>\<open>StampOwnerRefOnCreate\<close> swallows every failure: creation never breaks on it.\<close>

definition StampOwnerRefOnCreate ::
    "reflib \<Rightarrow> 'z obj_meta_scheme \<Rightarrow> 'y obj_meta_scheme option \<Rightarrow> 'z obj_meta_scheme" where
  "StampOwnerRefOnCreate R child owner =
     (case owner of
        None \<Rightarrow> child
      | Some ow \<Rightarrow> (case EnsureControllerRef R child ow of
                     Inl err \<Rightarrow> child
                   | Inr (changed, child') \<Rightarrow> child'))"

lemma EnsureControllerRef_unchanged:
  assumes "EnsureControllerRef R child owner = Inr (changed, child')"
  shows "om_finalizers child' = om_finalizers child"
    "om_annotations child' = om_annotations child" "\<not> changed \<Longrightarrow> child' = child"
  using assms by (auto simp: EnsureControllerRef_def split: option.splits if_splits sum.splits)

section \<open>Retain policy\<close>

type_synonym retain_policy = "string \<Rightarrow> bool"

fun NewStaticRetainPolicy :: "string list \<Rightarrow> (string \<rightharpoonup> bool)" where
  "NewStaticRetainPolicy [] = Map.empty"
| "NewStaticRetainPolicy (k # ks) = (NewStaticRetainPolicy ks)(k \<mapsto> True)"

definition RetainOnCascade :: "(string \<rightharpoonup> bool) \<Rightarrow> string \<Rightarrow> bool" where
  "RetainOnCascade kinds kind = (case kinds kind of Some b \<Rightarrow> b | None \<Rightarrow> False)"

lemma RetainOnCascade_static [simp]:
  "RetainOnCascade (NewStaticRetainPolicy ks) k \<longleftrightarrow> k \<in> set ks"
  by (induction ks) (auto simp: RetainOnCascade_def)

section \<open>The drain-counted token\<close>

definition CascadeDrainTimeout :: int where
  "CascadeDrainTimeout = seconds (24 * 60 * 60)"

definition DrainCountedAnnotation :: string where
  "DrainCountedAnnotation = ''cascade.michelangelo.uber.com/drain-counted''"

definition MarkDrainCounted :: "'z obj_meta_scheme \<Rightarrow> 'z obj_meta_scheme" where
  "MarkDrainCounted obj =
     obj\<lparr>om_annotations := put_entry (om_annotations obj) DrainCountedAnnotation ''true''\<rparr>"

definition IsDrainCounted :: "'z obj_meta_scheme \<Rightarrow> bool" where
  "IsDrainCounted obj \<longleftrightarrow> map_index (om_annotations obj) DrainCountedAnnotation = ''true''"

definition ClearDrainCounted :: "'z obj_meta_scheme \<Rightarrow> 'z obj_meta_scheme" where
  "ClearDrainCounted obj =
     (case om_annotations obj of
        None \<Rightarrow> obj
      | Some _ \<Rightarrow> obj\<lparr>om_annotations := del_entry (om_annotations obj) DrainCountedAnnotation\<rparr>)"

lemma IsDrainCounted_Mark [simp]: "IsDrainCounted (MarkDrainCounted obj)"
  by (simp add: IsDrainCounted_def MarkDrainCounted_def)

lemma IsDrainCounted_Clear [simp]: "\<not> IsDrainCounted (ClearDrainCounted obj)"
  by (auto simp: IsDrainCounted_def ClearDrainCounted_def map_index_def split: option.splits)

lemma IsDrainCounted_meta_of [simp]: "IsDrainCounted (meta_of obj) = IsDrainCounted obj"
  by (simp add: IsDrainCounted_def)

lemma finalizers_Mark_Clear [simp]:
  "om_finalizers (MarkDrainCounted obj) = om_finalizers obj"
  "om_finalizers (ClearDrainCounted obj) = om_finalizers obj"
  by (simp_all add: MarkDrainCounted_def ClearDrainCounted_def split: option.splits)

section \<open>The drain driver\<close>

text \<open>
  \<^verbatim>\<open>DrainState\<close> without its object pointer, which the target owns (\<open>dt_object\<close>); the
  metrics the driver emits; and \<^verbatim>\<open>DrainTarget\<close>, whose methods run over a state \<open>'s\<close> that
  holds the child and everything the controller persists through.
\<close>

record drain_state =
  ds_kind :: string
  ds_finalizer :: string
  ds_is_terminal :: bool
  ds_work_started :: bool

datatype drain_metric =
    DrainTimeout string
  | DrainDuration string int
  | DrainActiveInc string
  | DrainActiveDec string

record 's drain_target =
  dt_object :: "'s \<Rightarrow> obj_meta"
  dt_metric :: "drain_metric \<Rightarrow> ('s, unit) state"
  dt_request_cancel :: "('s, api_error option) state"
  dt_progress :: "('s, api_error + bool) state"
  dt_mark_killed :: "('s, api_error option) state"
  dt_force_kill :: "('s, api_error option) state"
  dt_complete_drain :: "('s, api_error option) state"

definition finish :: "int \<Rightarrow> drain_state \<Rightarrow> 's drain_target \<Rightarrow> ('s, api_error option) state" where
  "finish now st t = do {
     counted \<leftarrow> peek (\<lambda>s. IsDrainCounted (dt_object t s));
     err \<leftarrow> dt_complete_drain t;
     (case err of
        Some e \<Rightarrow> State_Monad.return (Some e)
      | None \<Rightarrow> do {
          ts \<leftarrow> peek (\<lambda>s. om_deletion_ts (dt_object t s));
          (case ts of
             Some d \<Rightarrow> dt_metric t (DrainDuration (ds_kind st) (now - d))
           | None \<Rightarrow> State_Monad.return ());
          (if counted then dt_metric t (DrainActiveDec (ds_kind st))
           else State_Monad.return ());
          State_Monad.return None
        })
   }"

definition timed_out :: "int \<Rightarrow> 'z obj_meta_scheme \<Rightarrow> bool" where
  "timed_out now obj \<longleftrightarrow>
     (case om_deletion_ts obj of None \<Rightarrow> False | Some ts \<Rightarrow> now - ts \<ge> CascadeDrainTimeout)"

definition RunDrainStep ::
    "finlib \<Rightarrow> int \<Rightarrow> drain_state \<Rightarrow> 's drain_target \<Rightarrow> int
     \<Rightarrow> ('s, ctrl_result \<times> api_error option) state" where
  "RunDrainStep L now st t requeue = do {
     obj \<leftarrow> peek (dt_object t);
     if \<not> fl_contains L (om_finalizers obj) (ds_finalizer st) then
       State_Monad.return (no_requeue, None)
     else if ds_is_terminal st then do {
       err \<leftarrow> finish now st t;
       State_Monad.return (no_requeue, err)
     }
     else if timed_out now obj then do {
       dt_metric t (DrainTimeout (ds_kind st));
       _ \<leftarrow> dt_force_kill t;
       err \<leftarrow> finish now st t;
       State_Monad.return (no_requeue, err)
     }
     else if \<not> ds_work_started st then do {
       err \<leftarrow> dt_mark_killed t;
       (case err of
          Some e \<Rightarrow> State_Monad.return (no_requeue, Some e)
        | None \<Rightarrow> do {
            err \<leftarrow> finish now st t;
            State_Monad.return (no_requeue, err)
          })
     }
     else if \<not> IsDrainCounted obj then do {
       err \<leftarrow> dt_request_cancel t;
       (case err of
          Some e \<Rightarrow> State_Monad.return (no_requeue, Some e)
        | None \<Rightarrow> do {
            dt_metric t (DrainActiveInc (ds_kind st));
            State_Monad.return (requeue_after requeue, None)
          })
     }
     else do {
       terminal \<leftarrow> dt_progress t;
       (case terminal of
          Inl e \<Rightarrow> State_Monad.return (no_requeue, Some e)
        | Inr True \<Rightarrow> do {
            err \<leftarrow> finish now st t;
            State_Monad.return (no_requeue, err)
          }
        | Inr False \<Rightarrow> State_Monad.return (requeue_after requeue, None))
     }
   }"

text \<open>The paths through one drain step.\<close>

lemma RunDrainStep_cases:
  assumes "run_state (RunDrainStep L now st t rq) s = (r, s')"
  obtains
    (no_finalizer) "\<not> fl_contains L (om_finalizers (dt_object t s)) (ds_finalizer st)"
      "r = (no_requeue, None)" "s' = s"
  | (terminal) err where "fl_contains L (om_finalizers (dt_object t s)) (ds_finalizer st)"
      "ds_is_terminal st" "run_state (finish now st t) s = (err, s')" "r = (no_requeue, err)"
  | (timeout) s1 k s2 err where
      "fl_contains L (om_finalizers (dt_object t s)) (ds_finalizer st)"
      "\<not> ds_is_terminal st" "timed_out now (dt_object t s)"
      "run_state (dt_metric t (DrainTimeout (ds_kind st))) s = ((), s1)"
      "run_state (dt_force_kill t) s1 = (k, s2)"
      "run_state (finish now st t) s2 = (err, s')" "r = (no_requeue, err)"
  | (kill_error) e where "\<not> timed_out now (dt_object t s)" "\<not> ds_work_started st"
      "run_state (dt_mark_killed t) s = (Some e, s')" "r = (no_requeue, Some e)"
  | (killed) s1 err where "\<not> timed_out now (dt_object t s)" "\<not> ds_work_started st"
      "run_state (dt_mark_killed t) s = (None, s1)"
      "run_state (finish now st t) s1 = (err, s')" "r = (no_requeue, err)"
  | (cancel_error) e where "\<not> IsDrainCounted (dt_object t s)"
      "run_state (dt_request_cancel t) s = (Some e, s')" "r = (no_requeue, Some e)"
  | (cancelled) s1 where "fl_contains L (om_finalizers (dt_object t s)) (ds_finalizer st)"
      "\<not> IsDrainCounted (dt_object t s)"
      "run_state (dt_request_cancel t) s = (None, s1)"
      "run_state (dt_metric t (DrainActiveInc (ds_kind st))) s1 = ((), s')"
      "r = (requeue_after rq, None)"
  | (progress_error) e where "IsDrainCounted (dt_object t s)"
      "run_state (dt_progress t) s = (Inl e, s')" "r = (no_requeue, Some e)"
  | (drained) s1 err where "IsDrainCounted (dt_object t s)"
      "run_state (dt_progress t) s = (Inr True, s1)"
      "run_state (finish now st t) s1 = (err, s')" "r = (no_requeue, err)"
  | (waiting) "IsDrainCounted (dt_object t s)"
      "run_state (dt_progress t) s = (Inr False, s')" "r = (requeue_after rq, None)"
proof -
  let ?fin = "fl_contains L (om_finalizers (dt_object t s)) (ds_finalizer st)"
  consider "\<not> ?fin" | "?fin" "ds_is_terminal st"
    | "?fin" "\<not> ds_is_terminal st" "timed_out now (dt_object t s)"
    | "?fin" "\<not> ds_is_terminal st" "\<not> timed_out now (dt_object t s)" "\<not> ds_work_started st"
    | "?fin" "\<not> ds_is_terminal st" "\<not> timed_out now (dt_object t s)" "ds_work_started st"
      "\<not> IsDrainCounted (dt_object t s)"
    | "?fin" "\<not> ds_is_terminal st" "\<not> timed_out now (dt_object t s)" "ds_work_started st"
      "IsDrainCounted (dt_object t s)"
    by blast
  then show thesis
  proof cases
    case 1
    with assms show thesis by (intro no_finalizer) (auto simp: RunDrainStep_def)
  next
    case 2
    with assms show thesis by (auto simp: RunDrainStep_def split: prod.splits intro: terminal)
  next
    case 3
    with assms show thesis by (auto simp: RunDrainStep_def split: prod.splits intro: timeout)
  next
    case 4
    with assms show thesis
      by (auto simp: RunDrainStep_def split: prod.splits option.splits intro: kill_error killed)
  next
    case 5
    with assms show thesis
      by (auto simp: RunDrainStep_def split: prod.splits option.splits intro: cancel_error cancelled)
  next
    case 6
    with assms show thesis
      by (auto simp: RunDrainStep_def split: prod.splits sum.splits bool.splits
          intro: progress_error drained waiting)
  qed
qed

section \<open>Phases of a drain\<close>

text \<open>
  A child is undrained, counted as draining, or released from the drain finalizer; the
  phases are ordered, and a drain only moves up.
\<close>

datatype drain_phase = Undrained | Counted | Released

fun phase_rank :: "drain_phase \<Rightarrow> nat" where
  "phase_rank Undrained = 0"
| "phase_rank Counted = 1"
| "phase_rank Released = 2"

lemma phase_rank_inj [simp]: "phase_rank a = phase_rank b \<longleftrightarrow> a = b"
  by (cases a; cases b) simp_all

instantiation drain_phase :: linorder
begin

definition less_eq_drain_phase :: "drain_phase \<Rightarrow> drain_phase \<Rightarrow> bool" where
  "a \<le> b \<longleftrightarrow> phase_rank a \<le> phase_rank b"

definition less_drain_phase :: "drain_phase \<Rightarrow> drain_phase \<Rightarrow> bool" where
  "a < b \<longleftrightarrow> phase_rank a < phase_rank b"

instance
  by standard (auto simp: less_eq_drain_phase_def less_drain_phase_def)

end

lemma drain_phase_le [simp]:
  "Undrained \<le> p" "p \<le> Released" "Counted \<le> p \<longleftrightarrow> p \<noteq> Undrained"
  by (cases p; simp add: less_eq_drain_phase_def)+

definition drain_phase :: "string \<Rightarrow> 'z obj_meta_scheme \<Rightarrow> drain_phase" where
  "drain_phase fin obj =
     (if fin \<notin> set (om_finalizers obj) then Released
      else if IsDrainCounted obj then Counted else Undrained)"

text \<open>How a metric event moves the active-drain gauge.\<close>

fun gauge_delta :: "drain_metric \<Rightarrow> int" where
  "gauge_delta (DrainActiveInc k) = 1"
| "gauge_delta (DrainActiveDec k) = - 1"
| "gauge_delta (DrainTimeout k) = 0"
| "gauge_delta (DrainDuration k d) = 0"

section \<open>What a drain target promises\<close>

text \<open>
  \<open>persisted\<close> is the child as the API server holds it, \<open>gauge\<close> the active-drain gauge of
  its kind, \<open>read\<close> the start of a reconcile, which reads the child afresh (its metadata as
  persisted, the rest of it arbitrary), \<open>snapshot\<close> the \<^verbatim>\<open>DrainState\<close> the controller fills in,
  and \<open>lawful\<close> what the provider needs of its own environment to keep the laws. A failed
  update leaves the persisted child alone; a successful \<open>RequestCancel\<close> persists the
  token and keeps the finalizer; a successful \<open>CompleteDrain\<close> persists a child without
  token and finalizer; the other methods touch neither.
\<close>

locale draining =
  fixes t :: "'s drain_target"
    and persisted :: "'s \<Rightarrow> obj_meta"
    and gauge :: "'s \<Rightarrow> int"
    and read :: "'q \<Rightarrow> 's \<Rightarrow> 's"
    and clock :: "'s \<Rightarrow> int"
    and snapshot :: "'s \<Rightarrow> drain_state"
    and fin :: string
    and lawful :: bool
  assumes metric: "lawful \<Longrightarrow> run_state (dt_metric t m) s = ((), s') \<Longrightarrow>
      dt_object t s' = dt_object t s \<and> persisted s' = persisted s \<and>
      gauge s' = gauge s + gauge_delta m"
    and request_ok: "lawful \<Longrightarrow> run_state (dt_request_cancel t) s = (None, s') \<Longrightarrow>
      IsDrainCounted (persisted s') \<and> gauge s' = gauge s \<and>
      om_finalizers (persisted s') = om_finalizers (dt_object t s)"
    and request_fails: "lawful \<Longrightarrow> run_state (dt_request_cancel t) s = (Some e, s') \<Longrightarrow>
      persisted s' = persisted s \<and> gauge s' = gauge s"
    and progress: "lawful \<Longrightarrow> run_state (dt_progress t) s = (x, s') \<Longrightarrow>
      persisted s' = persisted s \<and> gauge s' = gauge s \<and>
      IsDrainCounted (dt_object t s') = IsDrainCounted (dt_object t s)"
    and mark_killed: "lawful \<Longrightarrow> run_state (dt_mark_killed t) s = (y, s') \<Longrightarrow>
      persisted s' = persisted s \<and> gauge s' = gauge s \<and>
      IsDrainCounted (dt_object t s') = IsDrainCounted (dt_object t s)"
    and force_kill: "lawful \<Longrightarrow> run_state (dt_force_kill t) s = (y, s') \<Longrightarrow>
      dt_object t s' = dt_object t s \<and> persisted s' = persisted s \<and> gauge s' = gauge s"
    and complete_ok: "lawful \<Longrightarrow> run_state (dt_complete_drain t) s = (None, s') \<Longrightarrow>
      \<not> IsDrainCounted (persisted s') \<and> fin \<notin> set (om_finalizers (persisted s')) \<and>
      gauge s' = gauge s"
    and complete_fails: "lawful \<Longrightarrow> run_state (dt_complete_drain t) s = (Some e, s') \<Longrightarrow>
      persisted s' = persisted s \<and> gauge s' = gauge s"
    and read: "dt_object t (read q s) = persisted s"
      "persisted (read q s) = persisted s" "gauge (read q s) = gauge s"
    and snapshot: "ds_finalizer (snapshot s) = fin"
begin

text \<open>The share of the gauge that the persisted token accounts for.\<close>

definition weight :: "'s \<Rightarrow> int" where
  "weight s = (if IsDrainCounted (persisted s) then 1 else 0)"

definition in_sync :: "'s \<Rightarrow> bool" where
  "in_sync s \<longleftrightarrow> IsDrainCounted (dt_object t s) = IsDrainCounted (persisted s)"

lemma in_sync_read [simp]: "in_sync (read q s)"
  by (simp add: in_sync_def read)

lemma weight_read [simp]: "weight (read q s) = weight s"
  by (simp add: weight_def read)

text \<open>Finalizing decrements the gauge exactly when it clears a persisted token.\<close>

lemma finish_balance:
  assumes law: lawful
  notes metric = metric [OF law] and request_ok = request_ok [OF law]
    and request_fails = request_fails [OF law] and progress = progress [OF law]
    and mark_killed = mark_killed [OF law] and force_kill = force_kill [OF law]
    and complete_ok = complete_ok [OF law] and complete_fails = complete_fails [OF law]
  assumes run: "run_state (finish now st t) s = (r, s')" and sync: "in_sync s"
  shows "gauge s' - gauge s = weight s' - weight s"
    and "r = None \<Longrightarrow> drain_phase fin (persisted s') = Released"
    and "r \<noteq> None \<Longrightarrow> persisted s' = persisted s"
proof -
  obtain e s1 where c: "run_state (dt_complete_drain t) s = (e, s1)" by (metis prod.exhaust)
  have all: "gauge s' - gauge s = weight s' - weight s \<and>
      (r = None \<longrightarrow> drain_phase fin (persisted s') = Released) \<and>
      (r \<noteq> None \<longrightarrow> persisted s' = persisted s)"
  proof (cases e)
    case (Some err)
    with complete_fails [of s err s1] c run show ?thesis
      by (auto simp: finish_def weight_def)
  next
    case None
    note ok = complete_ok [OF c [unfolded None]]
    define m1 where "m1 = (case om_deletion_ts (dt_object t s1) of
        Some d \<Rightarrow> dt_metric t (DrainDuration (ds_kind st) (now - d))
      | None \<Rightarrow> State_Monad.return ())"
    obtain s2 where s2: "run_state m1 s1 = ((), s2)" by (cases "run_state m1 s1") auto
    have keep2: "persisted s2 = persisted s1 \<and> gauge s2 = gauge s1"
      using s2 metric [of _ s1 s2] unfolding m1_def by (auto split: option.splits)
    define m2 where "m2 = (if IsDrainCounted (dt_object t s)
      then dt_metric t (DrainActiveDec (ds_kind st)) else State_Monad.return ())"
    have m2: "run_state m2 s2 = ((), s')" and r: "r = None"
      using run c None s2 unfolding finish_def m1_def m2_def
      by (auto split: prod.splits)
    have "persisted s' = persisted s2 \<and>
        gauge s' = gauge s2 - (if IsDrainCounted (dt_object t s) then 1 else 0)"
      using m2 metric [of _ s2 s'] unfolding m2_def by (auto split: if_splits)
    with keep2 ok sync r show ?thesis
      by (auto simp: weight_def in_sync_def drain_phase_def)
  qed
  from all show "gauge s' - gauge s = weight s' - weight s"
    and "r = None \<Longrightarrow> drain_phase fin (persisted s') = Released"
    and "r \<noteq> None \<Longrightarrow> persisted s' = persisted s" by auto
qed

text \<open>One step moves the gauge by exactly the change of the persisted token.\<close>

lemma step_balance:
  assumes law: lawful
  notes metric = metric [OF law] and request_ok = request_ok [OF law]
    and request_fails = request_fails [OF law] and progress = progress [OF law]
    and mark_killed = mark_killed [OF law] and force_kill = force_kill [OF law]
    and complete_ok = complete_ok [OF law] and complete_fails = complete_fails [OF law]
  assumes run: "run_state (RunDrainStep L now st t rq) s = (r, s')" and sync: "in_sync s"
  shows "gauge s' - gauge s = weight s' - weight s"
  using run
proof (cases rule: RunDrainStep_cases)
  case (terminal err)
  then show ?thesis using finish_balance(1) [OF law] sync by blast
next
  case (timeout s1 k s2 err)
  with metric [OF timeout(4)] force_kill [OF timeout(5)] sync
  have "in_sync s2" "gauge s2 = gauge s" "weight s2 = weight s"
    by (auto simp: in_sync_def weight_def)
  with finish_balance(1) [OF law timeout(6)] show ?thesis by simp
next
  case (killed s1 err)
  with mark_killed [OF killed(3)] sync
  have "in_sync s1" "gauge s1 = gauge s" "weight s1 = weight s"
    by (auto simp: in_sync_def weight_def)
  with finish_balance(1) [OF law killed(4)] show ?thesis by simp
next
  case (cancelled s1)
  with request_ok [OF cancelled(3)] metric [OF cancelled(4)] sync show ?thesis
    by (auto simp: in_sync_def weight_def)
next
  case (drained s1 err)
  with progress [OF drained(2)] sync
  have "in_sync s1" "gauge s1 = gauge s" "weight s1 = weight s"
    by (auto simp: in_sync_def weight_def)
  with finish_balance(1) [OF law drained(3)] show ?thesis by simp
qed (auto simp: weight_def dest: mark_killed request_fails progress)

text \<open>
  The finalizer goes only when the child was terminal, its drain timed out, its work never
  started, or the cancellation reported a terminal state.
\<close>

lemma step_release:
  assumes law: lawful
  notes metric = metric [OF law] and request_ok = request_ok [OF law]
    and request_fails = request_fails [OF law] and progress = progress [OF law]
    and mark_killed = mark_killed [OF law] and force_kill = force_kill [OF law]
    and complete_ok = complete_ok [OF law] and complete_fails = complete_fails [OF law]
  assumes run: "run_state (RunDrainStep L now st t rq) s = (r, s')" and sync: "in_sync s"
    and lib: "finlib_ok L" and fin: "ds_finalizer st = fin"
    and obj: "om_finalizers (dt_object t s) = om_finalizers (persisted s)"
    and before: "drain_phase fin (persisted s) \<noteq> Released"
    and after: "drain_phase fin (persisted s') = Released"
  shows "ds_is_terminal st \<or> timed_out now (dt_object t s) \<or> \<not> ds_work_started st \<or>
    IsDrainCounted (dt_object t s) \<and> (\<exists>s1. run_state (dt_progress t) s = (Inr True, s1))"
  using run
proof (cases rule: RunDrainStep_cases)
  case (cancelled s1)
  with request_ok [OF cancelled(3)] metric [OF cancelled(4)] obj before after show ?thesis
    by (auto simp: drain_phase_def split: if_splits)
qed (use before after in \<open>auto dest: mark_killed request_fails progress\<close>)

text \<open>A drain never moves back.\<close>

lemma step_monotone:
  assumes law: lawful
  notes metric = metric [OF law] and request_ok = request_ok [OF law]
    and request_fails = request_fails [OF law] and progress = progress [OF law]
    and mark_killed = mark_killed [OF law] and force_kill = force_kill [OF law]
    and complete_ok = complete_ok [OF law] and complete_fails = complete_fails [OF law]
  assumes run: "run_state (RunDrainStep L now st t rq) s = (r, s')" and sync: "in_sync s"
    and lib: "finlib_ok L" and fin: "ds_finalizer st = fin"
    and obj: "om_finalizers (dt_object t s) = om_finalizers (persisted s)"
  shows "drain_phase fin (persisted s) \<le> drain_phase fin (persisted s')"
proof -
  have finish_le: "drain_phase fin (persisted s1) \<le> drain_phase fin (persisted s2)"
    if "run_state (finish now st t) s1 = (e, s2)" "in_sync s1" for s1 e s2
    using finish_balance(2,3) [OF law that] by (cases e) simp_all
  show ?thesis
    using run
  proof (cases rule: RunDrainStep_cases)
    case (terminal err)
    then show ?thesis using finish_le sync by blast
  next
    case (timeout s1 k s2 err)
    with metric [OF timeout(4)] force_kill [OF timeout(5)] sync
    have "in_sync s2" "persisted s2 = persisted s" by (auto simp: in_sync_def)
    with finish_le [OF timeout(6)] show ?thesis by simp
  next
    case (killed s1 err)
    with mark_killed [OF killed(3)] sync
    have "in_sync s1" "drain_phase fin (persisted s1) = drain_phase fin (persisted s)"
      by (auto simp: in_sync_def)
    with finish_le [OF killed(4)] show ?thesis by simp
  next
    case (cancelled s1)
    with request_ok [OF cancelled(3)] metric [OF cancelled(4)] finlib_okD(1) [OF lib] sync fin obj
    show ?thesis by (auto simp: drain_phase_def in_sync_def)
  next
    case (drained s1 err)
    with progress [OF drained(2)] sync
    have "in_sync s1" "drain_phase fin (persisted s1) = drain_phase fin (persisted s)"
      by (auto simp: in_sync_def)
    with finish_le [OF drained(3)] show ?thesis by simp
  qed (auto dest: mark_killed request_fails progress)
qed

text \<open>Once the safety timeout has passed, a step whose update succeeds releases the child.\<close>

lemma step_timeout_releases:
  assumes law: lawful
  notes metric = metric [OF law] and request_ok = request_ok [OF law]
    and request_fails = request_fails [OF law] and progress = progress [OF law]
    and mark_killed = mark_killed [OF law] and force_kill = force_kill [OF law]
    and complete_ok = complete_ok [OF law] and complete_fails = complete_fails [OF law]
  assumes run: "run_state (RunDrainStep L now st t rq) s = ((res, None), s')"
    and sync: "in_sync s" and lib: "finlib_ok L" and fin: "ds_finalizer st = fin"
    and late: "timed_out now (dt_object t s)"
    and obj: "om_finalizers (dt_object t s) = om_finalizers (persisted s)"
  shows "drain_phase fin (persisted s') = Released"
proof (cases "ds_is_terminal st \<or> fin \<notin> set (om_finalizers (dt_object t s))")
  case True
  show ?thesis
  proof (cases "fin \<in> set (om_finalizers (dt_object t s))")
    case False
    with run fin finlib_okD(1) [OF lib] obj show ?thesis
      by (simp add: RunDrainStep_def drain_phase_def)
  next
    case in_fin: True
    with True run fin finlib_okD(1) [OF lib]
    have "run_state (finish now st t) s = (None, s')"
      by (auto simp: RunDrainStep_def split: prod.splits)
    then show ?thesis using sync by (rule finish_balance(2) [OF law _ _ refl])
  qed
next
  case False
  obtain s1 where s1: "run_state (dt_metric t (DrainTimeout (ds_kind st))) s = ((), s1)"
    by (metis prod.exhaust unit.exhaust)
  obtain k s2 where s2: "run_state (dt_force_kill t) s1 = (k, s2)" by (metis prod.exhaust)
  from metric [OF s1] force_kill [OF s2] sync have "in_sync s2" by (simp add: in_sync_def)
  moreover from run False late s1 s2 fin finlib_okD(1) [OF lib]
  have "run_state (finish now st t) s2 = (None, s')"
    by (auto simp: RunDrainStep_def split: prod.splits)
  ultimately show ?thesis by (rule finish_balance(2) [OF law, rotated, OF _ refl])
qed

text \<open>
  Any number of reconciles, each on a freshly read child: the gauge is off by nothing but
  the token, so a drain that ends decrements exactly what it incremented.
\<close>

fun drain_reconciles :: "finlib \<Rightarrow> int \<Rightarrow> 'q list \<Rightarrow> 's \<Rightarrow> 's" where
  "drain_reconciles L rq [] s = s"
| "drain_reconciles L rq (q # qs) s =
     drain_reconciles L rq qs
       (snd (run_state (RunDrainStep L (clock (read q s)) (snapshot (read q s)) t rq) (read q s)))"

lemma drain_reconciles_balance:
  assumes law: lawful
  shows "gauge (drain_reconciles L rq qs s) - weight (drain_reconciles L rq qs s)
     = gauge s - weight s"
proof (induction qs arbitrary: s)
  case Nil
  then show ?case by simp
next
  case (Cons q qs)
  obtain r s' where run: "run_state
      (RunDrainStep L (clock (read q s)) (snapshot (read q s)) t rq) (read q s) = (r, s')"
    by (metis prod.exhaust)
  from step_balance [OF law run] read have "gauge s' - weight s' = gauge s - weight s" by simp
  with Cons.IH [of s'] run show ?case by simp
qed

text \<open>A drain that has started ends: the phases of any number of reconciles only grow.\<close>

lemma drain_reconciles_monotone:
  assumes law: lawful and lib: "finlib_ok L"
  shows "drain_phase fin (persisted s) \<le> drain_phase fin (persisted (drain_reconciles L rq qs s))"
proof (induction qs arbitrary: s)
  case Nil
  then show ?case by simp
next
  case (Cons q qs)
  obtain r s' where run: "run_state
      (RunDrainStep L (clock (read q s)) (snapshot (read q s)) t rq) (read q s) = (r, s')"
    by (metis prod.exhaust)
  from step_monotone [OF law run in_sync_read lib snapshot] read
  have "drain_phase fin (persisted s) \<le> drain_phase fin (persisted s')" by simp
  with Cons.IH [of s'] run show ?case by simp
qed

end

end
