(* ===== verification/Ingester.thy ===== *)
theory Ingester
  imports Prelude Cascade_Drain
begin

text \<open>
  The ingester (\<^verbatim>\<open>go/components/ingester/controller.go\<close>): one generic reconciler per kind
  that mirrors objects of the Kubernetes API server into metadata storage, retires
  immutable objects to storage, and takes objects out of both on deletion. Its handlers
  are modelled call by call over an arbitrary environment; \<open>ingest_plan\<close> is the abstract
  specification of what one reconcile has to do, and the handlers refine it.
\<close>

section \<open>Configuration\<close>

record ingester_config =
  ic_concurrent_reconciles :: int
  ic_requeue_period :: int
  ic_concurrent_reconciles_map :: "string \<rightharpoonup> int"
  ic_requeue_period_map :: "string \<rightharpoonup> int"

definition GetControllerConfig :: "ingester_config \<Rightarrow> string \<Rightarrow> ingester_config" where
  "GetControllerConfig c kind =
     (let concurrency = (case ic_concurrent_reconciles_map c kind of
                           Some val \<Rightarrow> val | None \<Rightarrow> ic_concurrent_reconciles c);
          requeuePeriod = (case ic_requeue_period_map c kind of
                             Some val \<Rightarrow> val | None \<Rightarrow> ic_requeue_period c)
      in \<lparr>ic_concurrent_reconciles = concurrency, ic_requeue_period = requeuePeriod,
          ic_concurrent_reconciles_map = Map.empty, ic_requeue_period_map = Map.empty\<rparr>)"

definition defaultRequeuePeriod :: int where
  "defaultRequeuePeriod = seconds 30"

section \<open>Environment and trace\<close>

text \<open>
  An indexed field (key and rendered value); the calls a reconcile
  makes, each with its outcome. \<open>'o\<close> is the type of objects of the target kind.
\<close>

type_synonym indexed_field = "string \<times> string"

datatype 'o ing_event =
    IGet string string
  | IUpdate 'o "api_error option"
  | IDelete 'o "string option" "api_error option"
  | IUpsert 'o "indexed_field list" "api_error option"
  | IMetaDelete type_meta string string "api_error option"

text \<open>
  The reconciler: its configuration, the library and generated code it calls
  (\<open>scheme.ObjectKinds\<close>, the optional interfaces \<^verbatim>\<open>IndexedObject\<close> and
  \<^verbatim>\<open>immutableKinder\<close>, the finalizer helpers), and the environment's answers.
  \<open>ig_delete\<close> takes the propagation policy, if any; storage upserts are never direct.
\<close>

record 'o ingester =
  ig_config :: ingester_config
  ig_retain :: "string \<rightharpoonup> bool"
  ig_finlib :: finlib
  ig_object_kinds :: "'o \<Rightarrow> api_error + type_meta list"
  ig_indexed :: "'o \<Rightarrow> indexed_field list option"
  ig_immutable_kind :: "'o \<Rightarrow> bool option"
  ig_get :: "'o ing_event list \<Rightarrow> string \<Rightarrow> string \<Rightarrow> api_error + 'o"
  ig_update :: "'o ing_event list \<Rightarrow> 'o \<Rightarrow> api_error option"
  ig_delete :: "'o ing_event list \<Rightarrow> 'o \<Rightarrow> string option \<Rightarrow> api_error option"
  ig_upsert :: "'o ing_event list \<Rightarrow> 'o \<Rightarrow> indexed_field list \<Rightarrow> api_error option"
  ig_meta_delete :: "'o ing_event list \<Rightarrow> type_meta \<Rightarrow> string \<Rightarrow> string \<Rightarrow> api_error option"

definition do_get ::
    "'o ingester \<Rightarrow> string \<Rightarrow> string \<Rightarrow> ('o ing_event, api_error + 'o) io" where
  "do_get R ns nm = ask (\<lambda>h. ig_get R h ns nm) (\<lambda>_. IGet ns nm)"

definition do_update :: "'o ingester \<Rightarrow> 'o \<Rightarrow> ('o ing_event, api_error option) io" where
  "do_update R obj = ask (\<lambda>h. ig_update R h obj) (IUpdate obj)"

definition do_delete ::
    "'o ingester \<Rightarrow> 'o \<Rightarrow> string option \<Rightarrow> ('o ing_event, api_error option) io" where
  "do_delete R obj policy = ask (\<lambda>h. ig_delete R h obj policy) (IDelete obj policy)"

definition do_meta_delete ::
    "'o ingester \<Rightarrow> type_meta \<Rightarrow> string \<Rightarrow> string \<Rightarrow> ('o ing_event, api_error option) io" where
  "do_meta_delete R tm ns nm = ask (\<lambda>h. ig_meta_delete R h tm ns nm) (IMetaDelete tm ns nm)"

lemmas ing_calls [io_simps] = do_get_def do_update_def do_delete_def do_meta_delete_def

section \<open>Helpers\<close>

definition getRequeuePeriod :: "'o ingester \<Rightarrow> int" where
  "getRequeuePeriod R =
     (if ic_requeue_period (ig_config R) > 0 then ic_requeue_period (ig_config R)
      else defaultRequeuePeriod)"

definition isDeletingAnnotationSet :: "'z obj_meta_scheme \<Rightarrow> bool" where
  "isDeletingAnnotationSet obj =
     (case om_annotations obj of
        None \<Rightarrow> False
      | Some annotations \<Rightarrow> map_index (Some annotations) DeletingAnnotation = ''true'')"

definition deleteOptionsFromAnnotations :: "'z obj_meta_scheme \<Rightarrow> string option" where
  "deleteOptionsFromAnnotations obj =
     (case om_annotations obj of
        None \<Rightarrow> None
      | Some annotations \<Rightarrow>
          (case annotations DeletePropagationAnnotation of
             None \<Rightarrow> None
           | Some policy \<Rightarrow> if policy = '''' then None else Some policy))"

definition isImmutable :: "'z obj_meta_scheme \<Rightarrow> bool" where
  "isImmutable obj =
     (case om_annotations obj of
        None \<Rightarrow> False
      | Some annotations \<Rightarrow> map_index (Some annotations) ImmutableAnnotation = ''true'')"

definition isImmutableKind :: "'o ingester \<Rightarrow> 'o \<Rightarrow> bool" where
  "isImmutableKind R obj = (case ig_immutable_kind R obj of Some b \<Rightarrow> b | None \<Rightarrow> False)"

definition hasNonIngesterFinalizer :: "'z obj_meta_scheme \<Rightarrow> bool" where
  "hasNonIngesterFinalizer obj = list_ex (\<lambda>f. f \<noteq> IngesterFinalizer) (om_finalizers obj)"

definition indexed_fields :: "'o ingester \<Rightarrow> 'o \<Rightarrow> indexed_field list" where
  "indexed_fields R obj = (case ig_indexed R obj of Some fs \<Rightarrow> fs | None \<Rightarrow> [])"

definition upsertToStorage :: "'o ingester \<Rightarrow> 'o \<Rightarrow> ('o ing_event, api_error option) io" where
  "upsertToStorage R obj =
     ask (\<lambda>h. ig_upsert R h obj (indexed_fields R obj)) (IUpsert obj (indexed_fields R obj))"

lemma run_upsertToStorage [simp, io_simps]:
  "run_state (upsertToStorage R obj) h =
     (ig_upsert R h obj (indexed_fields R obj),
      h @ [IUpsert obj (indexed_fields R obj) (ig_upsert R h obj (indexed_fields R obj))])"
  by (simp add: upsertToStorage_def)

definition remove_ingester_finalizer ::
    "('z obj_meta_scheme) ingester \<Rightarrow> 'z obj_meta_scheme \<Rightarrow> 'z obj_meta_scheme" where
  "remove_ingester_finalizer R obj =
     obj\<lparr>om_finalizers := fl_remove (ig_finlib R) (om_finalizers obj) IngesterFinalizer\<rparr>"

text \<open>The GVK lookup of \<^verbatim>\<open>handleCascadeDeletion\<close> and \<^verbatim>\<open>handleDeletionAnnotation\<close>: the first kind
  the scheme knows the object under.\<close>

definition first_kind :: "'o ingester \<Rightarrow> 'o \<Rightarrow> api_error + type_meta" where
  "first_kind R obj =
     (case ig_object_kinds R obj of
        Inl err \<Rightarrow> Inl (OtherError ''failed to get GVK'')
      | Inr [] \<Rightarrow> Inl (OtherError ''failed to get GVK'')
      | Inr (tm # _) \<Rightarrow> Inr tm)"

section \<open>Handlers\<close>

type_synonym ('o, 'a) ing = "('o ing_event, 'a) io"

definition handleSync ::
    "('z obj_meta_scheme) ingester \<Rightarrow> 'z obj_meta_scheme
     \<Rightarrow> ('z obj_meta_scheme, ctrl_result \<times> api_error option) ing" where
  "handleSync R obj = do {
     err \<leftarrow> upsertToStorage R obj;
     (case err of
        Some e \<Rightarrow> State_Monad.return (requeue_after (getRequeuePeriod R), Some e)
      | None \<Rightarrow> State_Monad.return (no_requeue, None))
   }"

definition handleCascadeDeletion ::
    "('z obj_meta_scheme) ingester \<Rightarrow> 'z obj_meta_scheme
     \<Rightarrow> ('z obj_meta_scheme, bool \<times> api_error option) ing" where
  "handleCascadeDeletion R obj =
     (case first_kind R obj of
        Inl e \<Rightarrow> State_Monad.return (False, Some e)
      | Inr tm \<Rightarrow>
          if \<not> RetainOnCascade (ig_retain R) (tm_kind tm) then do {
            err \<leftarrow> do_meta_delete R tm (om_namespace obj) (om_name obj);
            (case err of
               Some e \<Rightarrow>
                 if status_code e \<noteq> Code_NotFound then State_Monad.return (False, Some e)
                 else State_Monad.return (False, None)
             | None \<Rightarrow> State_Monad.return (False, None))
          }
          else if hasNonIngesterFinalizer obj then do {
            err \<leftarrow> upsertToStorage R obj;
            (case err of
               Some e \<Rightarrow> State_Monad.return (False, Some e)
             | None \<Rightarrow> State_Monad.return (True, None))
          }
          else do {
            err \<leftarrow> upsertToStorage R obj;
            State_Monad.return (False, err)
          })"

definition release_object ::
    "('z obj_meta_scheme) ingester \<Rightarrow> 'z obj_meta_scheme
     \<Rightarrow> ('z obj_meta_scheme, ctrl_result \<times> api_error option) ing" where
  "release_object R obj = do {
     err \<leftarrow> do_update R (remove_ingester_finalizer R obj);
     (case err of
        Some e \<Rightarrow> State_Monad.return (requeue_after (getRequeuePeriod R), Some e)
      | None \<Rightarrow> State_Monad.return (no_requeue, None))
   }"

definition handleDeletion ::
    "('z obj_meta_scheme) ingester \<Rightarrow> 'z obj_meta_scheme
     \<Rightarrow> ('z obj_meta_scheme, ctrl_result \<times> api_error option) ing" where
  "handleDeletion R obj =
     (if \<not> fl_contains (ig_finlib R) (om_finalizers obj) IngesterFinalizer then
        State_Monad.return (no_requeue, None)
      else if \<not> isDeletingAnnotationSet obj then do {
        (wait, err) \<leftarrow> handleCascadeDeletion R obj;
        (case err of
           Some e \<Rightarrow> State_Monad.return (requeue_after (getRequeuePeriod R), Some e)
         | None \<Rightarrow>
             if wait then State_Monad.return (requeue_after (getRequeuePeriod R), None)
             else release_object R obj)
      }
      else release_object R obj)"

definition handleDeletionAnnotation ::
    "('z obj_meta_scheme) ingester \<Rightarrow> 'z obj_meta_scheme
     \<Rightarrow> ('z obj_meta_scheme, ctrl_result \<times> api_error option) ing" where
  "handleDeletionAnnotation R obj =
     (case first_kind R obj of
        Inl e \<Rightarrow> State_Monad.return (no_requeue, Some e)
      | Inr tm \<Rightarrow> do {
          err \<leftarrow> do_meta_delete R tm (om_namespace obj) (om_name obj);
          (case err of
             Some e \<Rightarrow> State_Monad.return (requeue_after (getRequeuePeriod R), Some e)
           | None \<Rightarrow> do {
               err \<leftarrow> do_delete R obj (deleteOptionsFromAnnotations obj);
               (case err of
                  Some e \<Rightarrow> State_Monad.return (requeue_after (getRequeuePeriod R), Some e)
                | None \<Rightarrow> State_Monad.return (no_requeue, None))
             })
        })"

definition handleImmutableObject ::
    "('z obj_meta_scheme) ingester \<Rightarrow> 'z obj_meta_scheme
     \<Rightarrow> ('z obj_meta_scheme, ctrl_result \<times> api_error option) ing" where
  "handleImmutableObject R obj = do {
     err \<leftarrow> upsertToStorage R obj;
     (case err of
        Some e \<Rightarrow> State_Monad.return (requeue_after (getRequeuePeriod R), Some e)
      | None \<Rightarrow> do {
          let obj' = remove_ingester_finalizer R obj;
          err \<leftarrow> do_update R obj';
          (case err of
             Some e \<Rightarrow> State_Monad.return (requeue_after (getRequeuePeriod R), Some e)
           | None \<Rightarrow> do {
               err \<leftarrow> do_delete R obj' (deleteOptionsFromAnnotations obj');
               (case err of
                  Some e \<Rightarrow> State_Monad.return (requeue_after (getRequeuePeriod R), Some e)
                | None \<Rightarrow> State_Monad.return (no_requeue, None))
             })
        })
   }"

text \<open>\<^verbatim>\<open>ensureMetadataStoragePrimaryKey\<close> answers whether it stamped the annotation.\<close>

definition stamp_primary_key :: "'z obj_meta_scheme \<Rightarrow> 'z obj_meta_scheme" where
  "stamp_primary_key obj =
     obj\<lparr>om_annotations := put_entry (om_annotations obj) MetadataStoragePrimaryKeyAnnotation
            (om_uid obj)\<rparr>"

definition ensureMetadataStoragePrimaryKey ::
    "('z obj_meta_scheme) ingester \<Rightarrow> 'z obj_meta_scheme
     \<Rightarrow> ('z obj_meta_scheme, bool \<times> api_error option) ing" where
  "ensureMetadataStoragePrimaryKey R obj =
     (case map_lookup (om_annotations obj) MetadataStoragePrimaryKeyAnnotation of
        Some _ \<Rightarrow> State_Monad.return (False, None)
      | None \<Rightarrow> do {
          err \<leftarrow> do_update R (stamp_primary_key obj);
          (case err of
             Some e \<Rightarrow> State_Monad.return (False, Some e)
           | None \<Rightarrow> State_Monad.return (True, None))
        })"

text \<open>The body of \<^verbatim>\<open>Reconcile\<close> once the object is fetched, and \<^verbatim>\<open>Reconcile\<close> itself.\<close>

definition reconcileObject ::
    "('z obj_meta_scheme) ingester \<Rightarrow> 'z obj_meta_scheme
     \<Rightarrow> ('z obj_meta_scheme, ctrl_result \<times> api_error option) ing" where
  "reconcileObject R obj =
     (if om_deletion_ts obj \<noteq> None then handleDeletion R obj
      else if isDeletingAnnotationSet obj then handleDeletionAnnotation R obj
      else do {
        (updated, err) \<leftarrow> ensureMetadataStoragePrimaryKey R obj;
        (case err of
           Some e \<Rightarrow> State_Monad.return (requeue_after (getRequeuePeriod R), Some e)
         | None \<Rightarrow>
             if updated then State_Monad.return (no_requeue, None)
             else if isImmutable obj \<or> isImmutableKind R obj then handleImmutableObject R obj
             else handleSync R obj)
      })"

definition Reconcile ::
    "('z obj_meta_scheme) ingester \<Rightarrow> string \<Rightarrow> string
     \<Rightarrow> ('z obj_meta_scheme, ctrl_result \<times> api_error option) ing" where
  "Reconcile R ns nm = do {
     got \<leftarrow> do_get R ns nm;
     (case got of
        Inl err \<Rightarrow>
          if k8s_is_not_found err then State_Monad.return (no_requeue, None)
          else State_Monad.return (no_requeue, Some err)
      | Inr obj \<Rightarrow> reconcileObject R obj)
   }"

section \<open>What a reconcile has to do\<close>

text \<open>
  The writes of a trace, and the abstract plan for one object: which writes, in which
  order, and how the reconcile ends when none of them fails. The plan is the contract of
  the component, stated without the handlers' control flow: an object being deleted is
  released from its finalizer only after its row is settled, an object marked for deletion
  leaves storage before the API server, an object is keyed before it is stored, and an
  immutable object is stored before it leaves the API server.
\<close>

datatype 'o ing_op =
    OpUpsert 'o
  | OpMetaDelete type_meta string string
  | OpUpdate 'o
  | OpDelete 'o "string option"

fun op_of :: "'o ing_event \<Rightarrow> 'o ing_op option" where
  "op_of (IGet ns nm) = None"
| "op_of (IUpdate obj e) = Some (OpUpdate obj)"
| "op_of (IDelete obj pol e) = Some (OpDelete obj pol)"
| "op_of (IUpsert obj fs e) = Some (OpUpsert obj)"
| "op_of (IMetaDelete tm ns nm e) = Some (OpMetaDelete tm ns nm)"

definition writes :: "'o ing_event list \<Rightarrow> 'o ing_op list" where
  "writes tr = List.map_filter op_of tr"

lemma writes_simps [simp]:
  "writes [] = []"
  "writes (IGet ns nm # tr) = writes tr"
  "writes (IUpdate obj e # tr) = OpUpdate obj # writes tr"
  "writes (IDelete obj pol e # tr) = OpDelete obj pol # writes tr"
  "writes (IUpsert obj fs e # tr) = OpUpsert obj # writes tr"
  "writes (IMetaDelete tm ns nm e # tr) = OpMetaDelete tm ns nm # writes tr"
  by (simp_all add: writes_def List.map_filter_simps)

fun failure :: "'o ing_event \<Rightarrow> api_error option" where
  "failure (IGet ns nm) = None"
| "failure (IUpdate obj e) = e"
| "failure (IDelete obj pol e) = e"
| "failure (IUpsert obj fs e) = e"
| "failure (IMetaDelete tm ns nm e) = e"

text \<open>
  Writes whose failure does not stop the reconcile: deleting a row that is already gone,
  for an object that is itself being deleted.
\<close>

fun tolerated :: "bool \<Rightarrow> 'o ing_event \<Rightarrow> bool" where
  "tolerated deleted (IMetaDelete tm ns nm (Some e)) \<longleftrightarrow> deleted \<and> status_code e = Code_NotFound"
| "tolerated deleted ev \<longleftrightarrow> failure ev = None"

definition ingest_plan ::
    "('z obj_meta_scheme) ingester \<Rightarrow> 'z obj_meta_scheme
     \<Rightarrow> ('z obj_meta_scheme) ing_op list \<times> ctrl_result \<times> api_error option" where
  "ingest_plan R obj =
     (let released = remove_ingester_finalizer R obj;
          row_delete = (\<lambda>tm. OpMetaDelete tm (om_namespace obj) (om_name obj));
          ok = (no_requeue, None);
          again = requeue_after (getRequeuePeriod R)
      in
      if om_deletion_ts obj \<noteq> None then
        if IngesterFinalizer \<notin> set (om_finalizers obj) then ([], ok)
        else if isDeletingAnnotationSet obj then ([OpUpdate released], ok)
        else (case first_kind R obj of
            Inl e \<Rightarrow> ([], again, Some e)
          | Inr tm \<Rightarrow>
              if \<not> RetainOnCascade (ig_retain R) (tm_kind tm)
                then ([row_delete tm, OpUpdate released], ok)
              else if set (om_finalizers obj) \<noteq> {IngesterFinalizer}
                then ([OpUpsert obj], again, None)
              else ([OpUpsert obj, OpUpdate released], ok))
      else if isDeletingAnnotationSet obj then
        (case first_kind R obj of
            Inl e \<Rightarrow> ([], no_requeue, Some e)
          | Inr tm \<Rightarrow> ([row_delete tm, OpDelete obj (deleteOptionsFromAnnotations obj)], ok))
      else if map_lookup (om_annotations obj) MetadataStoragePrimaryKeyAnnotation = None then
        ([OpUpdate (stamp_primary_key obj)], ok)
      else if isImmutable obj \<or> isImmutableKind R obj then
        ([OpUpsert obj, OpUpdate released,
          OpDelete released (deleteOptionsFromAnnotations obj)], ok)
      else ([OpUpsert obj], ok))"

text \<open>
  A run carries out a plan when every write succeeded and it ended as planned, or when it
  stopped, with the error and a requeue, at the first write that failed.
\<close>

definition carries_out ::
    "int \<Rightarrow> bool \<Rightarrow> 'o ing_op list \<times> ctrl_result \<times> api_error option
     \<Rightarrow> 'o ing_event list \<Rightarrow> ctrl_result \<times> api_error option \<Rightarrow> bool" where
  "carries_out period deleted plan tr res \<longleftrightarrow>
     (list_all (tolerated deleted) tr \<and> writes tr = fst plan \<and> res = snd plan) \<or>
     (\<exists>done_ops ev rest.
        tr = done_ops @ [ev] \<and> list_all (tolerated deleted) done_ops \<and> \<not> tolerated deleted ev \<and>
        fst plan = writes tr @ rest \<and> res = (requeue_after period, failure ev))"

lemma carries_outI1:
  "list_all (tolerated deleted) tr \<Longrightarrow> writes tr = fst plan \<Longrightarrow> res = snd plan \<Longrightarrow>
   carries_out period deleted plan tr res"
  by (simp add: carries_out_def)

lemma carries_outI2:
  "tr = done_ops @ [ev] \<Longrightarrow> list_all (tolerated deleted) done_ops \<Longrightarrow> \<not> tolerated deleted ev \<Longrightarrow>
   fst plan = writes tr @ rest \<Longrightarrow> res = (requeue_after period, failure ev) \<Longrightarrow>
   carries_out period deleted plan tr res"
  unfolding carries_out_def by blast

text \<open>The shapes a run of at most three writes can take.\<close>

lemma carries_out_shapes:
  "carries_out period d ([], r) [] r"
  "tolerated d a \<Longrightarrow> writes [a] = ops \<Longrightarrow> carries_out period d (ops, r) [a] r"
  "tolerated d a \<Longrightarrow> tolerated d b \<Longrightarrow> writes [a, b] = ops \<Longrightarrow> carries_out period d (ops, r) [a, b] r"
  "tolerated d a \<Longrightarrow> tolerated d b \<Longrightarrow> tolerated d c \<Longrightarrow> writes [a, b, c] = ops \<Longrightarrow>
     carries_out period d (ops, r) [a, b, c] r"
  "\<not> tolerated d a \<Longrightarrow> ops = writes [a] @ rest \<Longrightarrow>
     carries_out period d (ops, r) [a] (requeue_after period, failure a)"
  "tolerated d a \<Longrightarrow> \<not> tolerated d b \<Longrightarrow> ops = writes [a, b] @ rest \<Longrightarrow>
     carries_out period d (ops, r) [a, b] (requeue_after period, failure b)"
  "tolerated d a \<Longrightarrow> tolerated d b \<Longrightarrow> \<not> tolerated d c \<Longrightarrow> ops = writes [a, b, c] @ rest \<Longrightarrow>
     carries_out period d (ops, r) [a, b, c] (requeue_after period, failure c)"
  unfolding carries_out_def by simp_all

lemma hasNonIngesterFinalizer_iff:
  "IngesterFinalizer \<in> set (om_finalizers obj) \<Longrightarrow>
   hasNonIngesterFinalizer obj \<longleftrightarrow> set (om_finalizers obj) \<noteq> {IngesterFinalizer}"
  by (auto simp: hasNonIngesterFinalizer_def list_ex_iff)

lemma deleteOptions_release [simp]:
  "deleteOptionsFromAnnotations (remove_ingester_finalizer R obj) = deleteOptionsFromAnnotations obj"
  by (simp add: deleteOptionsFromAnnotations_def remove_ingester_finalizer_def)

text \<open>
  Each handler carries out its part of the plan. \<open>runs\<close> relates a handler, its trace and
  its answer, from any earlier trace.
\<close>

definition runs :: "('e, 'a) io \<Rightarrow> 'e list \<Rightarrow> 'e list \<Rightarrow> 'a \<Rightarrow> bool" where
  "runs m h tr res \<longleftrightarrow> run_state m h = (res, h @ tr)"

lemma handleSync_runs:
  "\<exists>tr res. runs (handleSync R obj) h tr res \<and>
     carries_out (getRequeuePeriod R) False ([OpUpsert obj], no_requeue, None) tr res"
  by (cases "ig_upsert R h obj (indexed_fields R obj)")
    (auto simp: runs_def handleSync_def carries_out_def)

lemma release_object_runs:
  "run_state (release_object R obj) h =
     (case ig_update R h (remove_ingester_finalizer R obj) of
        None \<Rightarrow> ((no_requeue, None), h @ [IUpdate (remove_ingester_finalizer R obj) None])
      | Some e \<Rightarrow> ((requeue_after (getRequeuePeriod R), Some e),
                   h @ [IUpdate (remove_ingester_finalizer R obj) (Some e)]))"
  by (simp add: release_object_def do_update_def split: option.splits)

lemma handleDeletion_runs:
  assumes "finlib_ok (ig_finlib R)" "om_deletion_ts obj \<noteq> None"
  shows "\<exists>tr res. runs (handleDeletion R obj) h tr res \<and>
     carries_out (getRequeuePeriod R) True (ingest_plan R obj) tr res"
proof (cases "IngesterFinalizer \<in> set (om_finalizers obj)")
  case False
  with assms finlib_okD(1) [OF assms(1)] show ?thesis
    by (auto simp: runs_def handleDeletion_def ingest_plan_def carries_out_def)
next
  case True
  note fin = hasNonIngesterFinalizer_iff [OF True]
  show ?thesis
  proof (cases "isDeletingAnnotationSet obj")
    case deleting: True
    with True assms finlib_okD(1) [OF assms(1)] show ?thesis
      by (auto simp: runs_def handleDeletion_def ingest_plan_def release_object_runs
          carries_out_def Let_def split: option.splits)
  next
    case False
    show ?thesis
    proof (cases "first_kind R obj")
      case (Inl e)
      with False True assms finlib_okD(1) [OF assms(1)] show ?thesis
        by (auto simp: runs_def handleDeletion_def handleCascadeDeletion_def ingest_plan_def
            carries_out_def Let_def)
    next
      case (Inr tm)
      show ?thesis
      proof (cases "RetainOnCascade (ig_retain R) (tm_kind tm)")
        case retained: True
        with False True Inr assms finlib_okD(1) [OF assms(1)] fin show ?thesis
          by (auto simp: runs_def handleDeletion_def handleCascadeDeletion_def ingest_plan_def
              release_object_runs carries_out_def Let_def split: option.splits)
      next
        case soft: False
        with False True Inr assms finlib_okD(1) [OF assms(1)] show ?thesis
          by (auto simp: runs_def handleDeletion_def handleCascadeDeletion_def ingest_plan_def
              release_object_runs do_meta_delete_def carries_out_def Let_def split: option.splits)
      qed
    qed
  qed
qed

lemma handleDeletionAnnotation_runs:
  assumes "om_deletion_ts obj = None" "isDeletingAnnotationSet obj"
  shows "\<exists>tr res. runs (handleDeletionAnnotation R obj) h tr res \<and>
     carries_out (getRequeuePeriod R) False (ingest_plan R obj) tr res"
  using assms
  by (auto simp: runs_def handleDeletionAnnotation_def ingest_plan_def do_meta_delete_def
      do_delete_def carries_out_def Let_def split: sum.splits option.splits)

lemma handleImmutableObject_runs:
  "\<exists>tr res. runs (handleImmutableObject R obj) h tr res \<and>
     carries_out (getRequeuePeriod R) False
       ([OpUpsert obj, OpUpdate (remove_ingester_finalizer R obj),
         OpDelete (remove_ingester_finalizer R obj) (deleteOptionsFromAnnotations obj)],
        no_requeue, None) tr res"
  by (auto simp: runs_def handleImmutableObject_def do_update_def do_delete_def
      carries_out_def Let_def split: option.splits)

lemma reconcileObject_carries_out:
  assumes "finlib_ok (ig_finlib R)"
  shows "\<exists>tr res. runs (reconcileObject R obj) h tr res \<and>
     carries_out (getRequeuePeriod R) (om_deletion_ts obj \<noteq> None) (ingest_plan R obj) tr res"
proof (cases "om_deletion_ts obj = None")
  case False
  with handleDeletion_runs [OF assms] show ?thesis by (simp add: reconcileObject_def)
next
  case alive: True
  show ?thesis
  proof (cases "isDeletingAnnotationSet obj")
    case True
    with alive handleDeletionAnnotation_runs show ?thesis
      by (simp add: reconcileObject_def)
  next
    case False
    show ?thesis
    proof (cases "map_lookup (om_annotations obj) MetadataStoragePrimaryKeyAnnotation")
      case None
      with alive False show ?thesis
        by (cases "ig_update R h (stamp_primary_key obj)")
          (auto simp: reconcileObject_def runs_def ensureMetadataStoragePrimaryKey_def
            ingest_plan_def do_update_def carries_out_def Let_def)
    next
      case (Some key)
      with alive False handleImmutableObject_runs [of R obj h] handleSync_runs [of R obj h]
      show ?thesis
        by (simp add: reconcileObject_def runs_def ensureMetadataStoragePrimaryKey_def
            ingest_plan_def Let_def)
    qed
  qed
qed

lemma Reconcile_fetched:
  assumes "ig_get R h ns nm = Inr obj"
  shows "run_state (Reconcile R ns nm) h = run_state (reconcileObject R obj) (h @ [IGet ns nm])"
  using assms by (simp add: Reconcile_def do_get_def)

lemma reconcileObject_run:
  assumes "finlib_ok (ig_finlib R)" "run_state (reconcileObject R obj) h = (res, h')"
  obtains tr where "h' = h @ tr"
    "carries_out (getRequeuePeriod R) (om_deletion_ts obj \<noteq> None) (ingest_plan R obj) tr res"
  using reconcileObject_carries_out [OF assms(1), of obj h] assms(2)
  by (auto simp: runs_def)

text \<open>The writes of a run are an initial segment of the plan.\<close>

lemma writes_append [simp]: "writes (xs @ ys) = writes xs @ writes ys"
  by (induction xs) (auto simp: writes_def List.map_filter_def)

lemma carries_out_prefix:
  assumes "carries_out period d plan tr res"
  obtains rest where "fst plan = writes tr @ rest"
    and "tr \<noteq> [] \<Longrightarrow> list_all (tolerated d) (butlast tr)"
  using assms unfolding carries_out_def
proof (elim disjE exE conjE)
  assume "list_all (tolerated d) tr" "writes tr = fst plan"
  then show thesis by (intro that [of "[]"]) (auto simp: list_all_iff dest: in_set_butlastD)
qed auto

lemma writes_mem:
  "IUpsert obj fs e \<in> set tr \<Longrightarrow> OpUpsert obj \<in> set (writes tr)"
  "IUpdate obj e \<in> set tr \<Longrightarrow> OpUpdate obj \<in> set (writes tr)"
  "IMetaDelete tm ns nm e \<in> set tr \<Longrightarrow> OpMetaDelete tm ns nm \<in> set (writes tr)"
  by (auto simp: writes_def List.map_filter_def image_iff intro: rev_bexI)

lemma op_of_SomeD:
  "op_of ev = Some (OpUpsert obj) \<Longrightarrow> \<exists>fs e. ev = IUpsert obj fs e"
  "op_of ev = Some (OpMetaDelete tm ns nm) \<Longrightarrow> \<exists>e. ev = IMetaDelete tm ns nm e"
  "op_of ev = Some (OpUpdate obj) \<Longrightarrow> \<exists>e. ev = IUpdate obj e"
  by (cases ev; simp)+

text \<open>Without a fetch inside, a trace has one event per write.\<close>

lemma writes_Cons_inv:
  assumes "\<forall>ns nm. IGet ns nm \<notin> set tr" "writes tr = op # ops"
  obtains ev tr' where "tr = ev # tr'" "op_of ev = Some op" "writes tr' = ops"
proof (cases tr)
  case Nil
  with assms show thesis by simp
next
  case (Cons ev tr')
  with assms show thesis by (cases ev) (auto intro: that)
qed

section \<open>Examples for the witnesses\<close>

definition example_object :: obj_meta where
  "example_object =
     \<lparr>om_namespace = ''ns'', om_name = ''run'', om_uid = ''u1'', om_generation = 1,
      om_creation_ts = Some 0, om_deletion_ts = None, om_labels = None,
      om_annotations = Some [MetadataStoragePrimaryKeyAnnotation \<mapsto> ''u1''],
      om_finalizers = [IngesterFinalizer], om_owner_refs = []\<rparr>"

definition example_ingester :: "obj_meta \<Rightarrow> string list \<Rightarrow> obj_meta ingester" where
  "example_ingester stored retained =
     \<lparr>ig_config = \<lparr>ic_concurrent_reconciles = 1, ic_requeue_period = 0,
        ic_concurrent_reconciles_map = Map.empty, ic_requeue_period_map = Map.empty\<rparr>,
      ig_retain = NewStaticRetainPolicy retained, ig_finlib = list_finlib,
      ig_object_kinds = (\<lambda>_. Inr [\<lparr>tm_kind = ''PipelineRun'', tm_api_version = ''v2''\<rparr>]),
      ig_indexed = (\<lambda>_. None), ig_immutable_kind = (\<lambda>_. None),
      ig_get = (\<lambda>_ _ _. Inr stored), ig_update = (\<lambda>_ _. None), ig_delete = (\<lambda>_ _ _. None),
      ig_upsert = (\<lambda>_ _ _. None), ig_meta_delete = (\<lambda>_ _ _ _. None)\<rparr>"

lemma example_ingester_sel [simp]:
  "ig_finlib (example_ingester obj ks) = list_finlib"
  "ig_get (example_ingester obj ks) h ns nm = Inr obj"
  by (simp_all add: example_ingester_def)

section \<open>Properties\<close>

text \<open>
  C3. One reconcile of the ingester, against any API server and any metadata storage,
  carries out exactly the plan of the object it fetched: either every write of the plan
  succeeded, in the plan's order, and the reconcile ended as planned; or it stopped at the
  first write that failed (a missing row does not count as a failure while the object is
  being deleted), having done only a prefix of the plan, and it reports that error and asks
  to be requeued.
\<close>

theorem reconcile_refines_plan:
  assumes "finlib_ok (ig_finlib R)"
    and "ig_get R h ns nm = Inr obj"
    and "run_state (Reconcile R ns nm) h = (res, h')"
  shows "\<exists>tr. h' = h @ IGet ns nm # tr \<and>
    carries_out (getRequeuePeriod R) (om_deletion_ts obj \<noteq> None) (ingest_plan R obj) tr res"
proof -
  from assms(2,3) have "run_state (reconcileObject R obj) (h @ [IGet ns nm]) = (res, h')"
    by (simp add: Reconcile_fetched)
  with assms(1) show ?thesis by (rule reconcileObject_run) auto
qed

text \<open>Events that settle the row of an object, and updates that take its finalizer.\<close>

fun settles_row :: "'z obj_meta_scheme \<Rightarrow> ('z obj_meta_scheme) ing_event \<Rightarrow> bool" where
  "settles_row obj (IUpsert o1 fs e) \<longleftrightarrow> o1 = obj \<and> e = None"
| "settles_row obj (IMetaDelete tm ns nm e) \<longleftrightarrow>
     ns = om_namespace obj \<and> nm = om_name obj \<and>
     (case e of None \<Rightarrow> True | Some er \<Rightarrow> status_code er = Code_NotFound)"
| "settles_row obj _ \<longleftrightarrow> False"

fun takes_finalizer :: "('z obj_meta_scheme) ing_event \<Rightarrow> bool" where
  "takes_finalizer (IUpdate o1 e) \<longleftrightarrow> IngesterFinalizer \<notin> set (om_finalizers o1)"
| "takes_finalizer _ \<longleftrightarrow> False"

lemma takes_finalizer_release [simp]:
  "finlib_ok (ig_finlib R) \<Longrightarrow> takes_finalizer (IUpdate (remove_ingester_finalizer R obj) e)"
  by (simp add: remove_ingester_finalizer_def finlib_okD)

lemma takes_finalizer_stamp [simp]:
  "takes_finalizer (IUpdate (stamp_primary_key obj) e) \<longleftrightarrow>
     IngesterFinalizer \<notin> set (om_finalizers obj)"
  by (simp add: stamp_primary_key_def)

lemma finalizers_stamp [simp]: "om_finalizers (stamp_primary_key obj) = om_finalizers obj"
  by (simp add: stamp_primary_key_def)

lemma reconcileObject_settles_first:
  assumes "finlib_ok (ig_finlib R)" "run_state (reconcileObject R obj) h = (res, h @ tr)"
    and "IngesterFinalizer \<in> set (om_finalizers obj)"
    and "om_deletion_ts obj = None \<or> \<not> isDeletingAnnotationSet obj"
  shows "preceded_by (settles_row obj) takes_finalizer tr"
  using assms(2) [unfolded reconcileObject_def handleDeletion_def handleCascadeDeletion_def
      handleDeletionAnnotation_def ensureMetadataStoragePrimaryKey_def handleImmutableObject_def
      handleSync_def ing_calls] assms(1,3,4)
  by (auto simp: release_object_runs Let_def finlib_okD split: if_splits sum.splits option.splits)


lemma reconcile_refines_plan_witness:
  "\<exists>tr res h'. run_state (Reconcile (example_ingester example_object []) ''ns'' ''run'') [] = (res, h') \<and>
     h' = IGet ''ns'' ''run'' # tr \<and>
     carries_out (getRequeuePeriod (example_ingester example_object [])) False
       (ingest_plan (example_ingester example_object []) example_object) tr res"
proof -
  let ?R = "example_ingester example_object []"
  obtain res h' where run: "run_state (Reconcile ?R ''ns'' ''run'') [] = (res, h')"
    by (cases "run_state (Reconcile ?R ''ns'' ''run'') []")
  from reconcile_refines_plan [OF _ _ this, of example_object] run show ?thesis
    by (auto simp: example_object_def)
qed


text \<open>
  No live object is mirrored into metadata storage before it is keyed: every upsert of
  a reconcile of an object without a deletion timestamp, successful or not, stores exactly
  the fetched object, and that object carries the primary-key annotation under which the
  row is filed and is not marked for deletion.
\<close>

theorem stored_objects_are_keyed:
  assumes "finlib_ok (ig_finlib R)"
    and "ig_get R h ns nm = Inr obj"
    and "run_state (Reconcile R ns nm) h = (res, h @ tr)"
    and "om_deletion_ts obj = None"
    and "IUpsert o1 fs e \<in> set tr"
  shows "o1 = obj \<and> map_lookup (om_annotations obj) MetadataStoragePrimaryKeyAnnotation \<noteq> None \<and>
    \<not> isDeletingAnnotationSet obj"
proof -
  from assms(2,3) have "run_state (reconcileObject R obj) (h @ [IGet ns nm]) = (res, h @ tr)"
    by (simp add: Reconcile_fetched)
  from reconcileObject_run [OF assms(1) this] obtain tr' where
    tr: "tr = IGet ns nm # tr'" and
    c: "carries_out (getRequeuePeriod R) False (ingest_plan R obj) tr' res"
    using assms(4) by auto
  from c obtain rest where "fst (ingest_plan R obj) = writes tr' @ rest"
    by (rule carries_out_prefix)
  moreover from tr assms(5) have "OpUpsert o1 \<in> set (writes tr')" by (auto intro: writes_mem)
  ultimately have "OpUpsert o1 \<in> set (fst (ingest_plan R obj))" by simp
  with assms(4) show ?thesis
    by (simp add: ingest_plan_def Let_def split: if_splits sum.splits)
qed

lemma stored_objects_are_keyed_witness:
  "map_lookup (om_annotations example_object) MetadataStoragePrimaryKeyAnnotation \<noteq> None \<and>
   \<not> isDeletingAnnotationSet example_object"
proof -
  let ?R = "example_ingester example_object []"
  have obj: "om_deletion_ts example_object = None" "\<not> isDeletingAnnotationSet example_object"
    "\<not> isImmutable example_object"
    "map_lookup (om_annotations example_object) MetadataStoragePrimaryKeyAnnotation = Some ''u1''"
    by (simp_all add: isDeletingAnnotationSet_def isImmutable_def map_index_def example_object_def)
  have env: "ig_upsert ?R h o1 fs = None" "indexed_fields ?R o1 = []" "\<not> isImmutableKind ?R o1"
    for h o1 fs by (simp_all add: example_ingester_def indexed_fields_def isImmutableKind_def)
  have run: "run_state (Reconcile ?R ''ns'' ''run'') [] =
     ((no_requeue, None), [] @ [IGet ''ns'' ''run'', IUpsert example_object [] None])"
    by (simp add: Reconcile_fetched reconcileObject_def ensureMetadataStoragePrimaryKey_def
        handleSync_def obj env)
  have fin: "finlib_ok (ig_finlib ?R)" and got: "ig_get ?R [] ''ns'' ''run'' = Inr example_object"
    by simp_all
  have mem: "IUpsert example_object [] None \<in>
      set [IGet ''ns'' ''run'', IUpsert example_object [] None]" by simp
  from stored_objects_are_keyed [OF fin got run obj(1) mem] show ?thesis by (rule conjunct2)
qed

text \<open>The deletion of a retained object, evaluated.\<close>

lemma handleDeletion_retained:
  assumes "finlib_ok (ig_finlib R)" "\<not> isDeletingAnnotationSet obj"
    and "first_kind R obj = Inr tm" "RetainOnCascade (ig_retain R) (tm_kind tm)"
    and "IngesterFinalizer \<in> set (om_finalizers obj)"
  shows "run_state (handleDeletion R obj) h =
    (let fs = indexed_fields R obj; up = ig_upsert R h obj fs; h1 = h @ [IUpsert obj fs up] in
     case up of
       Some e \<Rightarrow> ((requeue_after (getRequeuePeriod R), Some e), h1)
     | None \<Rightarrow> if hasNonIngesterFinalizer obj then ((requeue_after (getRequeuePeriod R), None), h1)
               else run_state (release_object R obj) h1)"
  using assms
  by (simp add: handleDeletion_def handleCascadeDeletion_def finlib_okD Let_def split: option.splits)

text \<open>
  Cascade retention: when an object of a retained kind is deleted by garbage collection
  (deletion timestamp, no deleting annotation), the ingester never deletes its row, whatever
  the API server and the storage answer; and it releases its own finalizer only when no
  other finalizer is left, right after a successful upsert that recorded the object in the
  state it is then released in.
\<close>

theorem cascade_retains_row:
  assumes "finlib_ok (ig_finlib R)"
    and "ig_get R h ns nm = Inr obj"
    and "run_state (Reconcile R ns nm) h = (res, h @ tr)"
    and "om_deletion_ts obj \<noteq> None" "\<not> isDeletingAnnotationSet obj"
    and "first_kind R obj = Inr tm" "RetainOnCascade (ig_retain R) (tm_kind tm)"
  shows "(\<forall>t n1 n2 e. IMetaDelete t n1 n2 e \<notin> set tr) \<and>
    (\<forall>o1 e. IUpdate o1 e \<in> set tr \<longrightarrow>
       o1 = remove_ingester_finalizer R obj \<and> set (om_finalizers obj) = {IngesterFinalizer} \<and>
       tr = [IGet ns nm, IUpsert obj (indexed_fields R obj) None, IUpdate o1 e])"
proof (cases "IngesterFinalizer \<in> set (om_finalizers obj)")
  case True
  have run: "run_state (handleDeletion R obj) (h @ [IGet ns nm]) = (res, h @ tr)"
    using assms(2-4) by (simp add: Reconcile_fetched reconcileObject_def)
  show ?thesis
  proof (cases "ig_upsert R (h @ [IGet ns nm]) obj (indexed_fields R obj) = None \<and>
      \<not> hasNonIngesterFinalizer obj")
    case released: True
    with hasNonIngesterFinalizer_iff [OF True] have "set (om_finalizers obj) = {IngesterFinalizer}"
      by simp
    moreover from released run obtain e where
      "tr = [IGet ns nm, IUpsert obj (indexed_fields R obj) None,
             IUpdate (remove_ingester_finalizer R obj) e]"
      by (auto simp: handleDeletion_retained [OF assms(1,5-7) True] release_object_runs Let_def
          split: option.splits)
    ultimately show ?thesis by simp
  next
    case False
    with run obtain e where "tr = [IGet ns nm, IUpsert obj (indexed_fields R obj) e]"
      by (auto simp: handleDeletion_retained [OF assms(1,5-7) True] Let_def
          split: option.splits if_splits)
    then show ?thesis by simp
  qed
next
  case False
  with assms(1-4) have "tr = [IGet ns nm]"
    by (simp add: Reconcile_fetched reconcileObject_def handleDeletion_def finlib_okD)
  then show ?thesis by simp
qed

lemma cascade_retains_row_witness:
  "\<exists>obj tr. om_deletion_ts obj = Some 5 \<and>
     run_state (Reconcile (example_ingester obj [''PipelineRun'']) ''ns'' ''run'') []
       = ((no_requeue, None), tr) \<and> length tr = 3 \<and>
     (\<forall>t n1 n2 e. IMetaDelete t n1 n2 e \<notin> set tr)"
proof -
  let ?o = "example_object\<lparr>om_deletion_ts := Some 5\<rparr>"
  let ?R = "example_ingester ?o [''PipelineRun'']"
  let ?tr = "[IGet ''ns'' ''run'', IUpsert ?o [] None, IUpdate (remove_ingester_finalizer ?R ?o) None]"
  have retain: "RetainOnCascade (ig_retain ?R) ''PipelineRun''"
    by (simp add: example_ingester_def RetainOnCascade_def)
  have kind: "first_kind ?R ?o = Inr \<lparr>tm_kind = ''PipelineRun'', tm_api_version = ''v2''\<rparr>"
    by (simp add: first_kind_def example_ingester_def)
  have del: "\<not> isDeletingAnnotationSet ?o"
    by (simp add: isDeletingAnnotationSet_def example_object_def map_index_def)
  have fin: "hasNonIngesterFinalizer ?o = False"
    by (simp add: hasNonIngesterFinalizer_def example_object_def)
  have has: "IngesterFinalizer \<in> set (om_finalizers ?o)" by (simp add: example_object_def)
  have env: "ig_upsert ?R h o1 fs = None" "ig_update ?R h o1 = None" "indexed_fields ?R ?o = []"
    for h o1 fs by (simp_all add: example_ingester_def indexed_fields_def)
  have run: "run_state (Reconcile ?R ''ns'' ''run'') [] = ((no_requeue, None), [] @ ?tr)"
    using retain kind del fin has finlib_okD(1) [OF list_finlib_ok]
    by (simp add: Reconcile_def do_get_def reconcileObject_def handleDeletion_def
        handleCascadeDeletion_def release_object_runs env)
  with cascade_retains_row [OF _ _ run _ del kind] retain show ?thesis
    by (intro exI [of _ ?o] exI [of _ ?tr]) simp
qed

text \<open>
  A reconcile never asks to be requeued at once: it asks for no requeue or for one after
  a strictly positive period, the configured one when that is positive and thirty seconds
  otherwise.
\<close>

theorem ingester_requeues_after_positive_period:
  assumes "finlib_ok (ig_finlib R)"
    and "run_state (Reconcile R ns nm) h = ((w, err), h')"
  shows "getRequeuePeriod R > 0 \<and> (w = no_requeue \<or> w = requeue_after (getRequeuePeriod R))"
proof
  show "getRequeuePeriod R > 0" by (simp add: getRequeuePeriod_def defaultRequeuePeriod_def)
  show "w = no_requeue \<or> w = requeue_after (getRequeuePeriod R)"
  proof (cases "ig_get R h ns nm")
    case (Inl e)
    with assms(2) show ?thesis by (auto simp: Reconcile_def do_get_def split: if_splits)
  next
    case (Inr obj)
    with assms(2) have "run_state (reconcileObject R obj) (h @ [IGet ns nm]) = ((w, err), h')"
      by (simp add: Reconcile_fetched)
    from reconcileObject_run [OF assms(1) this] obtain tr where
      "carries_out (getRequeuePeriod R) (om_deletion_ts obj \<noteq> None) (ingest_plan R obj) tr (w, err)" .
    then have "(w, err) = snd (ingest_plan R obj) \<or> w = requeue_after (getRequeuePeriod R)"
      by (auto simp: carries_out_def)
    then show ?thesis by (auto simp: ingest_plan_def Let_def split: if_splits sum.splits)
  qed
qed

lemma ingester_requeues_after_positive_period_witness:
  "\<exists>w err h'. run_state (Reconcile (example_ingester example_object []) ''ns'' ''run'') [] = ((w, err), h') \<and>
     (w = no_requeue \<or> w = requeue_after (seconds 30))"
proof -
  let ?R = "example_ingester example_object []"
  obtain w err h' where run: "run_state (Reconcile ?R ''ns'' ''run'') [] = ((w, err), h')"
    by (metis surj_pair)
  have "getRequeuePeriod ?R = seconds 30"
    by (simp add: getRequeuePeriod_def example_ingester_def defaultRequeuePeriod_def)
  with ingester_requeues_after_positive_period [OF _ run] run show ?thesis by simp
qed

end
