(* ===== verification/Api_Handler.thy ===== *)
theory Api_Handler
  imports Prelude
begin

text \<open>
  The API handler (\<^verbatim>\<open>go/api/handler\<close>): the one place through which the API server and the
  controllers create, read, update and delete objects. An object lives in the Kubernetes
  API server, in metadata storage, or in both; the handler decides which of them a request
  goes to. The controller-runtime client, the storage backends and the scheme are
  parameters; the four small handlers (Kubernetes, metadata, blob, validation), the builder
  that wires them and every operation of \<^verbatim>\<open>apiHandler\<close> are modelled. Loggers and metrics are
  not, nor are two branches Go's type system makes dead: \<^verbatim>\<open>meta.Accessor\<close> failing on a
  \<^verbatim>\<open>client.Object\<close>, and a deep copy that is not one.
\<close>

section \<open>Wiring: \<^verbatim>\<open>builder.go\<close>\<close>

text \<open>
  What \<^verbatim>\<open>Params\<close> provides: the storage configuration and which optional backends exist
  (\<open>None\<close> is a nil interface). The backends themselves are \<open>'m\<close> and \<open>'b\<close>.
\<close>

record ('m, 'b) handler_params =
  hp_client_error :: "api_error option"
  hp_manager :: bool
  hp_enable_metadata :: bool
  hp_metadata :: "'m option"
  hp_blob :: "'b option"

record ('m, 'b) builder =
  bd_k8s_client :: bool
  bd_metadata :: "'m option"
  bd_blob :: "'b option"
  bd_enable_metadata :: bool

definition NewAPIHandlerBuilder :: "('m, 'b) builder" where
  "NewAPIHandlerBuilder =
     \<lparr>bd_k8s_client = False, bd_metadata = None, bd_blob = None, bd_enable_metadata = False\<rparr>"

definition WithK8sClient :: "bool \<Rightarrow> ('m, 'b) builder \<Rightarrow> ('m, 'b) builder" where
  "WithK8sClient client b = b\<lparr>bd_k8s_client := client\<rparr>"

definition WithMetadataStorage ::
    "'m option \<Rightarrow> bool \<Rightarrow> ('m, 'b) builder \<Rightarrow> ('m, 'b) builder" where
  "WithMetadataStorage storage enable b =
     b\<lparr>bd_metadata := storage, bd_enable_metadata := enable\<rparr>"

definition WithBlobStorage :: "'b option \<Rightarrow> ('m, 'b) builder \<Rightarrow> ('m, 'b) builder" where
  "WithBlobStorage storage b = b\<lparr>bd_blob := storage\<rparr>"

definition builder_validate :: "('m, 'b) builder \<Rightarrow> api_error option" where
  "builder_validate b =
     (if \<not> bd_k8s_client b then Some (OtherError ''k8s client is required'')
      else if bd_enable_metadata b \<and> bd_metadata b = None
        then Some (OtherError ''metadata storage is required when EnableMetadataStorage is true'')
      else None)"

definition Build :: "('m, 'b) builder \<Rightarrow> api_error + ('m, 'b) builder" where
  "Build b = (case builder_validate b of Some err \<Rightarrow> Inl err | None \<Rightarrow> Inr b)"

text \<open>The tail shared by the two factory functions that read \<^verbatim>\<open>Params\<close>.\<close>

definition configure_storages ::
    "('m, 'b) handler_params \<Rightarrow> ('m, 'b) builder \<Rightarrow> ('m, 'b) builder" where
  "configure_storages params b =
     (let b1 = (if hp_enable_metadata params \<and> hp_metadata params \<noteq> None
                then WithMetadataStorage (hp_metadata params) (hp_enable_metadata params) b else b)
      in if hp_blob params \<noteq> None then WithBlobStorage (hp_blob params) b1 else b1)"

definition NewAPIServerHandler :: "('m, 'b) handler_params \<Rightarrow> api_error + ('m, 'b) builder" where
  "NewAPIServerHandler params =
     (case hp_client_error params of
        Some err \<Rightarrow> Inl (OtherError ''failed to create k8s client'')
      | None \<Rightarrow> Build (configure_storages params (WithK8sClient True NewAPIHandlerBuilder)))"

definition NewCtrlManagerHandler :: "('m, 'b) handler_params \<Rightarrow> api_error + ('m, 'b) builder" where
  "NewCtrlManagerHandler params =
     (if \<not> hp_manager params
      then Inl (OtherError ''manager is required for controller manager handler'')
      else Build (configure_storages params (WithK8sClient True NewAPIHandlerBuilder)))"

text \<open>\<^verbatim>\<open>apiHandlerFactory.GetAPIHandler\<close>, which passes the storage on without looking at it.\<close>

definition GetAPIHandler :: "('m, 'b) handler_params \<Rightarrow> bool \<Rightarrow> api_error + ('m, 'b) builder" where
  "GetAPIHandler params client =
     (let b = WithK8sClient client NewAPIHandlerBuilder;
          b1 = (if hp_enable_metadata params
                then WithMetadataStorage (hp_metadata params) (hp_enable_metadata params) b else b);
          b2 = (if hp_blob params \<noteq> None then WithBlobStorage (hp_blob params) b1 else b1)
      in Build b2)"

lemmas builder_defs = NewAPIHandlerBuilder_def WithK8sClient_def WithMetadataStorage_def
  WithBlobStorage_def builder_validate_def Build_def configure_storages_def
  NewAPIServerHandler_def NewCtrlManagerHandler_def GetAPIHandler_def

section \<open>Requests, errors and panics\<close>

text \<open>Options of the Kubernetes API; the preconditions are an opaque value.\<close>

record write_opts =
  wo_dry_run :: "string list"
  wo_field_manager :: string

record delete_opts =
  do_dry_run :: "string list"
  do_propagation :: "string option"
  do_grace :: "int option"
  do_preconditions :: "string option"

record list_opts =
  lo_label_selector :: string
  lo_field_selector :: string
  lo_limit :: int
  lo_continue :: string

text \<open>\<^verbatim>\<open>checkDryRun\<close>.\<close>

definition DryRunAll :: string where "DryRunAll = ''All''"

definition checkDryRun :: "string list \<Rightarrow> api_error + bool" where
  "checkDryRun dryRun =
     (if length dryRun = 0 then Inr False
      else if length dryRun > 1 then Inl (GrpcError Code_InvalidArgument)
      else if dryRun ! 0 = DryRunAll then Inr True
      else Inl (GrpcError Code_InvalidArgument))"

text \<open>
  \<^verbatim>\<open>K8sStatusReasonToGrpcError\<close> and \<^verbatim>\<open>GetGrpcStatusCode\<close> of \<^verbatim>\<open>go/api/api.go\<close>; a missing map
  entry is \<open>None\<close>. \<^verbatim>\<open>status.Errorf\<close> of the code \<^verbatim>\<open>OK\<close> is a nil error.
\<close>

fun K8sStatusReasonToGrpcError :: "status_reason \<Rightarrow> grpc_code option" where
  "K8sStatusReasonToGrpcError ReasonUnknown = Some Code_Unknown"
| "K8sStatusReasonToGrpcError ReasonUnauthorized = Some Code_Unauthenticated"
| "K8sStatusReasonToGrpcError ReasonForbidden = Some Code_PermissionDenied"
| "K8sStatusReasonToGrpcError ReasonNotFound = Some Code_NotFound"
| "K8sStatusReasonToGrpcError ReasonAlreadyExists = Some Code_AlreadyExists"
| "K8sStatusReasonToGrpcError ReasonConflict = Some Code_FailedPrecondition"
| "K8sStatusReasonToGrpcError ReasonGone = Some Code_NotFound"
| "K8sStatusReasonToGrpcError ReasonInvalid = Some Code_InvalidArgument"
| "K8sStatusReasonToGrpcError ReasonServerTimeout = Some Code_DeadlineExceeded"
| "K8sStatusReasonToGrpcError ReasonTimeout = Some Code_DeadlineExceeded"
| "K8sStatusReasonToGrpcError ReasonTooManyRequests = Some Code_ResourceExhausted"
| "K8sStatusReasonToGrpcError ReasonBadRequest = Some Code_InvalidArgument"
| "K8sStatusReasonToGrpcError ReasonMethodNotAllowed = Some Code_InvalidArgument"
| "K8sStatusReasonToGrpcError ReasonNotAcceptable = Some Code_InvalidArgument"
| "K8sStatusReasonToGrpcError ReasonRequestEntityTooLarge = Some Code_InvalidArgument"
| "K8sStatusReasonToGrpcError ReasonUnsupportedMediaType = Some Code_InvalidArgument"
| "K8sStatusReasonToGrpcError ReasonInternalError = Some Code_Internal"
| "K8sStatusReasonToGrpcError ReasonExpired = Some Code_NotFound"
| "K8sStatusReasonToGrpcError ReasonServiceUnavailable = Some Code_Unavailable"
| "K8sStatusReasonToGrpcError (ReasonOther s) = None"

definition GetGrpcStatusCode :: "api_error option \<Rightarrow> grpc_code" where
  "GetGrpcStatusCode err =
     (case err of
        None \<Rightarrow> Code_OK
      | Some (K8sStatusError r) \<Rightarrow>
          (case K8sStatusReasonToGrpcError r of None \<Rightarrow> Code_Unknown | Some c \<Rightarrow> c)
      | Some _ \<Rightarrow> Code_Unknown)"

definition status_errorf :: "grpc_code \<Rightarrow> api_error option" where
  "status_errorf c = (if c = Code_OK then None else Some (GrpcError c))"

definition K8sError2GrpcError :: "api_error option \<Rightarrow> api_error option" where
  "K8sError2GrpcError err =
     (case err of None \<Rightarrow> None | Some e \<Rightarrow> status_errorf (GetGrpcStatusCode (Some e)))"

fun is_api_status :: "api_error \<Rightarrow> bool" where
  "is_api_status (K8sStatusError r) = True"
| "is_api_status (K8sOtherAPIStatus r) = True"
| "is_api_status _ = False"

definition surfaceGrpcError :: "api_error option \<Rightarrow> api_error option" where
  "surfaceGrpcError err =
     (case err of
        None \<Rightarrow> None
      | Some e \<Rightarrow>
          if is_api_status e then K8sError2GrpcError (Some e)
          else status_errorf (status_code e))"

lemma surfaceGrpcError_None [simp]: "surfaceGrpcError None = None"
  by (simp add: surfaceGrpcError_def)

section \<open>Environment and trace\<close>

text \<open>
  The calls of a request, with their outcomes: \<open>K\<close> events go to the Kubernetes API server,
  \<open>M\<close> events to metadata storage, \<open>B\<close> events to blob storage.
\<close>

datatype 'o api_event =
    KGet string string
  | KCreate 'o write_opts "api_error option"
  | KUpdate 'o write_opts "api_error option"
  | KUpdateStatus 'o write_opts "api_error option"
  | KDelete 'o delete_opts "api_error option"
  | KDeleteAllOf 'o string delete_opts list_opts "api_error option"
  | KList string list_opts
  | MGet string string
  | MGetByID string
  | MUpsert 'o bool "api_error option"
  | MDelete type_meta string string "api_error option"
  | MList type_meta string list_opts "string option"
  | BMerge 'o
  | BDelete 'o

text \<open>A list object: its items and the continue token.\<close>

record 'o obj_list =
  ol_items :: "'o list"
  ol_continue :: string

text \<open>
  The handler and its environment. Calls with an out-parameter return the object as they
  leave it, also when they fail. \<open>ah_listing\<close> is the metadata part of a list response;
  \<open>ah_list_gvk\<close>, \<open>ah_new_list\<close>, \<open>ah_set_list\<close> and \<open>ah_extract\<close> are the scheme's and apimachinery's
  functions on list objects (\<open>Inr None\<close>: not an \<^verbatim>\<open>ObjectList\<close>); \<open>ah_spec\<close> is the reflective
  comparison of two specs, \<open>None\<close> when a type has no \<^verbatim>\<open>GetSpec\<close>; the extended list options
  are an opaque string, empty when they equal the zero message.
\<close>

record 'o api_env =
  ah_enabled :: bool
  ah_has_validation :: bool
  ah_metadata :: bool
  ah_blob :: bool
  ah_validator :: "'o \<Rightarrow> api_error option option"
  ah_finlib :: finlib
  ah_spec :: "'o \<Rightarrow> 'o \<Rightarrow> bool option"
  ah_fresh :: "'o \<Rightarrow> 'o"
  ah_gvk :: "'o \<Rightarrow> api_error + type_meta"
  ah_list_gvk :: "'o obj_list \<Rightarrow> api_error + type_meta"
  ah_new_list :: "type_meta \<Rightarrow> api_error + 'o obj_list option"
  ah_set_list :: "'o obj_list \<Rightarrow> 'o list \<Rightarrow> api_error option \<times> 'o obj_list"
  ah_extract :: "'o obj_list \<Rightarrow> api_error + 'o list"
  ah_parse_labels :: "string \<Rightarrow> bool"
  ah_parse_fields :: "string \<Rightarrow> bool"
  ah_interesting :: "'o \<Rightarrow> bool"
  ah_now :: "'o api_event list \<Rightarrow> int"
  ah_kget :: "'o api_event list \<Rightarrow> string \<Rightarrow> string \<Rightarrow> 'o \<Rightarrow> 'o \<times> api_error option"
  ah_kcreate :: "'o api_event list \<Rightarrow> 'o \<Rightarrow> write_opts \<Rightarrow> 'o \<times> api_error option"
  ah_kupdate :: "'o api_event list \<Rightarrow> 'o \<Rightarrow> write_opts \<Rightarrow> 'o \<times> api_error option"
  ah_kupdate_status :: "'o api_event list \<Rightarrow> 'o \<Rightarrow> write_opts \<Rightarrow> 'o \<times> api_error option"
  ah_kdelete :: "'o api_event list \<Rightarrow> 'o \<Rightarrow> delete_opts \<Rightarrow> api_error option"
  ah_kdelete_all :: "'o api_event list \<Rightarrow> 'o \<Rightarrow> string \<Rightarrow> delete_opts \<Rightarrow> list_opts \<Rightarrow> api_error option"
  ah_klist :: "'o api_event list \<Rightarrow> string \<Rightarrow> list_opts \<Rightarrow> 'o obj_list \<Rightarrow> 'o obj_list \<times> api_error option"
  ah_mget :: "'o api_event list \<Rightarrow> string \<Rightarrow> string \<Rightarrow> 'o \<Rightarrow> 'o \<times> api_error option"
  ah_mget_id :: "'o api_event list \<Rightarrow> string \<Rightarrow> 'o \<Rightarrow> 'o \<times> api_error option"
  ah_mupsert :: "'o api_event list \<Rightarrow> 'o \<Rightarrow> bool \<Rightarrow> api_error option"
  ah_mdelete :: "'o api_event list \<Rightarrow> type_meta \<Rightarrow> string \<Rightarrow> string \<Rightarrow> api_error option"
  ah_mlist :: "'o api_event list \<Rightarrow> type_meta \<Rightarrow> string \<Rightarrow> list_opts \<Rightarrow> string option \<Rightarrow> api_error + 'o obj_list"
  ah_merge :: "'o api_event list \<Rightarrow> 'o \<Rightarrow> 'o \<times> api_error option"

type_synonym ('o, 'a) api = "('o api_event, 'a) io"

section \<open>The Kubernetes handler\<close>

definition k8s_Get :: "'o api_env \<Rightarrow> string \<Rightarrow> string \<Rightarrow> 'o \<Rightarrow> ('o, 'o \<times> api_error option) api" where
  "k8s_Get R ns nm obj = ask (\<lambda>h. ah_kget R h ns nm obj) (\<lambda>_. KGet ns nm)"

definition k8s_Create :: "'o api_env \<Rightarrow> 'o \<Rightarrow> write_opts \<Rightarrow> ('o, 'o \<times> api_error option) api" where
  "k8s_Create R obj opts = ask (\<lambda>h. ah_kcreate R h obj opts) (\<lambda>a. KCreate obj opts (snd a))"

definition k8s_Update :: "'o api_env \<Rightarrow> 'o \<Rightarrow> write_opts \<Rightarrow> ('o, 'o \<times> api_error option) api" where
  "k8s_Update R obj opts = ask (\<lambda>h. ah_kupdate R h obj opts) (\<lambda>a. KUpdate obj opts (snd a))"

definition k8s_UpdateStatus ::
    "'o api_env \<Rightarrow> 'o \<Rightarrow> write_opts \<Rightarrow> ('o, 'o \<times> api_error option) api" where
  "k8s_UpdateStatus R obj opts =
     ask (\<lambda>h. ah_kupdate_status R h obj opts) (\<lambda>a. KUpdateStatus obj opts (snd a))"

definition k8s_Delete :: "'o api_env \<Rightarrow> 'o \<Rightarrow> delete_opts \<Rightarrow> ('o, api_error option) api" where
  "k8s_Delete R obj opts = ask (\<lambda>h. ah_kdelete R h obj opts) (KDelete obj opts)"

text \<open>\<^verbatim>\<open>getCRTListOptions\<close> only fails, or hands the options on.\<close>

definition getCRTListOptions :: "'o api_env \<Rightarrow> list_opts \<Rightarrow> api_error + list_opts" where
  "getCRTListOptions R opts =
     (if length (lo_label_selector opts) > 0 \<and> \<not> ah_parse_labels R (lo_label_selector opts)
        then Inl (GrpcError Code_InvalidArgument)
      else if length (lo_field_selector opts) > 0 \<and> \<not> ah_parse_fields R (lo_field_selector opts)
        then Inl (GrpcError Code_InvalidArgument)
      else Inr opts)"

definition k8s_List ::
    "'o api_env \<Rightarrow> string \<Rightarrow> list_opts \<Rightarrow> 'o obj_list \<Rightarrow> ('o, 'o obj_list \<times> api_error option) api" where
  "k8s_List R ns opts list =
     (case getCRTListOptions R opts of
        Inl err \<Rightarrow> State_Monad.return (list, Some err)
      | Inr parsed \<Rightarrow> ask (\<lambda>h. ah_klist R h ns parsed list) (\<lambda>_. KList ns parsed))"

definition k8s_DeleteCollection ::
    "'o api_env \<Rightarrow> 'o \<Rightarrow> string \<Rightarrow> delete_opts \<Rightarrow> list_opts \<Rightarrow> ('o, api_error option) api" where
  "k8s_DeleteCollection R obj ns dopts lopts =
     (case getCRTListOptions R lopts of
        Inl err \<Rightarrow> State_Monad.return (Some err)
      | Inr parsed \<Rightarrow>
          ask (\<lambda>h. ah_kdelete_all R h obj ns dopts parsed) (KDeleteAllOf obj ns dopts parsed))"

lemmas k8s_calls [io_simps] = k8s_Get_def k8s_Create_def k8s_Update_def k8s_UpdateStatus_def
  k8s_Delete_def k8s_List_def k8s_DeleteCollection_def

section \<open>The metadata, blob and validation handlers\<close>

text \<open>
  \<^verbatim>\<open>NewMetadataHandler\<close> answers the null handler when there is no storage, \<^verbatim>\<open>NewBlobHandler\<close>
  likewise; each operation below is that choice followed by the operation.
\<close>

definition GetObjectTypeMetafromObject :: "'o api_env \<Rightarrow> 'o \<Rightarrow> api_error + type_meta" where
  "GetObjectTypeMetafromObject R obj =
     (case ah_gvk R obj of
        Inl err \<Rightarrow> Inl (GrpcError Code_InvalidArgument)
      | Inr gvk \<Rightarrow> Inr gvk)"

definition GetObjectTypeMetaFromList :: "'o api_env \<Rightarrow> 'o obj_list \<Rightarrow> api_error + type_meta" where
  "GetObjectTypeMetaFromList R list =
     (case ah_list_gvk R list of
        Inl err \<Rightarrow> Inl (GrpcError Code_InvalidArgument)
      | Inr gvk \<Rightarrow>
          let kindLen = length (tm_kind gvk) in
          if kindLen < 4 \<or> drop (kindLen - 4) (tm_kind gvk) \<noteq> ''List''
            then Inl (GrpcError Code_InvalidArgument)
          else Inr (gvk\<lparr>tm_kind := take (kindLen - 4) (tm_kind gvk)\<rparr>))"

definition metadata_Get :: "'o api_env \<Rightarrow> string \<Rightarrow> string \<Rightarrow> 'o \<Rightarrow> ('o, 'o \<times> api_error option) api" where
  "metadata_Get R ns nm obj =
     (if ah_metadata R then ask (\<lambda>h. ah_mget R h ns nm obj) (\<lambda>_. MGet ns nm)
      else State_Monad.return (obj, Some (K8sStatusError ReasonNotFound)))"

definition metadata_Update :: "'o api_env \<Rightarrow> 'o \<Rightarrow> ('o, api_error option) api" where
  "metadata_Update R obj =
     (if ah_metadata R then ask (\<lambda>h. ah_mupsert R h obj True) (MUpsert obj True)
      else State_Monad.return None)"

definition storage_Delete ::
    "'o api_env \<Rightarrow> type_meta \<Rightarrow> string \<Rightarrow> string \<Rightarrow> ('o, api_error option) api" where
  "storage_Delete R tm ns nm = ask (\<lambda>h. ah_mdelete R h tm ns nm) (MDelete tm ns nm)"

text \<open>\<^verbatim>\<open>handleDelete\<close>: the blob storage it is handed may be a nil interface.\<close>

definition handleDelete ::
    "('z obj_meta_scheme) api_env \<Rightarrow> type_meta \<Rightarrow> 'z obj_meta_scheme
     \<Rightarrow> ('z obj_meta_scheme, api_error option outcome) api" where
  "handleDelete R tm object =
     (if \<not> ah_blob R then State_Monad.return Panicked
      else if ah_interesting R object then do {
        (object, getErr) \<leftarrow> ask (\<lambda>h. ah_mget_id R h (om_uid object) object)
                             (\<lambda>_. MGetByID (om_uid object));
        err \<leftarrow> storage_Delete R tm (om_namespace object) (om_name object);
        (case err of
           Some e \<Rightarrow> State_Monad.return (Returned (Some e))
         | None \<Rightarrow>
             if getErr = None then do {
               _ \<leftarrow> emit (BDelete object);
               State_Monad.return (Returned None)
             }
             else State_Monad.return (Returned None))
      }
      else do {
        err \<leftarrow> storage_Delete R tm (om_namespace object) (om_name object);
        State_Monad.return (Returned err)
      })"

definition metadata_Delete ::
    "('z obj_meta_scheme) api_env \<Rightarrow> 'z obj_meta_scheme
     \<Rightarrow> ('z obj_meta_scheme, api_error option outcome) api" where
  "metadata_Delete R obj =
     (if ah_metadata R then
        (case GetObjectTypeMetafromObject R obj of
           Inl err \<Rightarrow> State_Monad.return (Returned (Some err))
         | Inr tm \<Rightarrow> handleDelete R tm obj)
      else State_Monad.return (Returned None))"

definition metadata_List ::
    "'o api_env \<Rightarrow> string \<Rightarrow> list_opts \<Rightarrow> string option \<Rightarrow> 'o obj_list
     \<Rightarrow> ('o, 'o obj_list \<times> api_error option) api" where
  "metadata_List R ns opts ext list =
     (if \<not> ah_metadata R then State_Monad.return (list, Some (K8sStatusError ReasonNotFound))
      else (case GetObjectTypeMetaFromList R list of
        Inl err \<Rightarrow> State_Monad.return (list, Some err)
      | Inr tm \<Rightarrow> do {
          response \<leftarrow> ask (\<lambda>h. ah_mlist R h tm ns opts ext) (\<lambda>_. MList tm ns opts ext);
          (case response of
             Inl err \<Rightarrow> State_Monad.return (list, Some err)
           | Inr found \<Rightarrow> do {
               let (err, list') = ah_set_list R (list\<lparr>ol_continue := ol_continue found\<rparr>) (ol_items found);
               State_Monad.return (list', err)
             })
        }))"

definition blob_IsObjectInteresting :: "'o api_env \<Rightarrow> 'o \<Rightarrow> bool" where
  "blob_IsObjectInteresting R obj \<longleftrightarrow> ah_blob R \<and> ah_interesting R obj"

definition blob_MergeWithExternalBlob ::
    "'o api_env \<Rightarrow> 'o \<Rightarrow> ('o, 'o \<times> api_error option) api" where
  "blob_MergeWithExternalBlob R obj =
     (if ah_blob R then ask (\<lambda>h. ah_merge R h obj) (\<lambda>_. BMerge obj)
      else State_Monad.return (obj, None))"

text \<open>\<^verbatim>\<open>api.Validate\<close>, for objects that have the generated method and for those that do not;
  the validation handler, when there is one, only calls it.\<close>

definition Validate :: "'o api_env \<Rightarrow> 'o \<Rightarrow> api_error option" where
  "Validate R obj = (case ah_validator R obj of Some result \<Rightarrow> result | None \<Rightarrow> None)"

definition ValidateCreate :: "'o api_env \<Rightarrow> 'o \<Rightarrow> api_error option" where
  "ValidateCreate R obj = Validate R obj"

definition ValidateUpdate :: "'o api_env \<Rightarrow> 'o \<Rightarrow> api_error option" where
  "ValidateUpdate R obj = Validate R obj"

section \<open>Helpers of \<^verbatim>\<open>apiHandler\<close>\<close>

text \<open>\<^verbatim>\<open>setUpdateTimestamp\<close>, given the clock in microseconds.\<close>

definition setUpdateTimestamp :: "int \<Rightarrow> 'z obj_meta_scheme \<Rightarrow> bool \<Rightarrow> 'z obj_meta_scheme" where
  "setUpdateTimestamp now obj specChange =
     (let t = FormatInt now;
          labels = put_entry (om_labels obj) UpdateTimestampLabel t
      in obj\<lparr>om_labels := if specChange then put_entry labels SpecUpdateTimestampLabel t else labels\<rparr>)"

definition isDeletedImmutableObject :: "'z obj_meta_scheme \<Rightarrow> bool" where
  "isDeletedImmutableObject obj \<longleftrightarrow> IsImmutable obj \<and> om_deletion_ts obj \<noteq> None"

text \<open>\<^verbatim>\<open>hasSpecChange\<close> swallows the error of the comparison; it never fails.\<close>

definition hasSpecChange ::
    "('z obj_meta_scheme) api_env \<Rightarrow> 'z obj_meta_scheme \<Rightarrow> ('z obj_meta_scheme, bool) api" where
  "hasSpecChange R obj = do {
     (apiServerObj, err) \<leftarrow> k8s_Get R (om_namespace obj) (om_name obj) (ah_fresh R obj);
     State_Monad.return (case err of
         None \<Rightarrow> (case ah_spec R apiServerObj obj of
                     None \<Rightarrow> False
                   | Some isEqual \<Rightarrow> \<not> isEqual)
       | Some _ \<Rightarrow> False)
   }"

text \<open>
  \<^verbatim>\<open>handleMetadataStorageForCreate\<close>: the lookup writes into the object being created (the
  code's \<^verbatim>\<open>tmpObj := obj\<close> copies a pointer), so what a failed lookup leaves in it is what is
  created.
\<close>

definition handleMetadataStorageForCreate ::
    "('z obj_meta_scheme) api_env \<Rightarrow> 'z obj_meta_scheme
     \<Rightarrow> ('z obj_meta_scheme, 'z obj_meta_scheme \<times> api_error option) api" where
  "handleMetadataStorageForCreate R obj =
     (if \<not> ah_enabled R then State_Monad.return (obj, None)
      else do {
        (obj, err) \<leftarrow> metadata_Get R (om_namespace obj) (om_name obj) obj;
        (case err of
           None \<Rightarrow> State_Monad.return (obj, Some (GrpcError Code_AlreadyExists))
         | Some _ \<Rightarrow>
             State_Monad.return
               (obj\<lparr>om_finalizers := fl_add (ah_finlib R) (om_finalizers obj) IngesterFinalizer\<rparr>, None))
      })"

definition handleBlobStorageForGet ::
    "'o api_env \<Rightarrow> 'o \<Rightarrow> ('o, 'o) api" where
  "handleBlobStorageForGet R obj =
     (if blob_IsObjectInteresting R obj then do {
        (obj, terrablobErr) \<leftarrow> blob_MergeWithExternalBlob R obj;
        State_Monad.return obj
      }
      else State_Monad.return obj)"

definition deleteObjectFromMetadataStorage ::
    "('z obj_meta_scheme) api_env \<Rightarrow> 'z obj_meta_scheme
     \<Rightarrow> ('z obj_meta_scheme, api_error option outcome) api" where
  "deleteObjectFromMetadataStorage R obj = do {
     result \<leftarrow> metadata_Delete R obj;
     State_Monad.return (case result of
         Panicked \<Rightarrow> Panicked
       | Returned err \<Rightarrow> Returned (surfaceGrpcError err))
   }"

section \<open>Operations of \<^verbatim>\<open>apiHandler\<close>\<close>

text \<open>Operations that write into their argument return it with the error.\<close>

definition validated_create :: "'o api_env \<Rightarrow> 'o \<Rightarrow> api_error option" where
  "validated_create R obj = (if ah_has_validation R then ValidateCreate R obj else Validate R obj)"

definition validated_update :: "'o api_env \<Rightarrow> 'o \<Rightarrow> api_error option" where
  "validated_update R obj = (if ah_has_validation R then ValidateUpdate R obj else Validate R obj)"

definition Create ::
    "('z obj_meta_scheme) api_env \<Rightarrow> 'z obj_meta_scheme \<Rightarrow> write_opts
     \<Rightarrow> ('z obj_meta_scheme, 'z obj_meta_scheme \<times> api_error option) api" where
  "Create R obj opts =
     (case validated_create R obj of
        Some err \<Rightarrow> State_Monad.return (obj, Some err)
      | None \<Rightarrow> do {
          (obj, metadataErr) \<leftarrow> handleMetadataStorageForCreate R obj;
          (case metadataErr of
             Some err \<Rightarrow> State_Monad.return (obj, Some err)
           | None \<Rightarrow> do {
               now \<leftarrow> peek (ah_now R);
               let obj = setUpdateTimestamp now obj True;
               (case checkDryRun (wo_dry_run opts) of
                  Inl err \<Rightarrow> State_Monad.return (obj, Some err)
                | Inr _ \<Rightarrow> do {
                    (obj, err) \<leftarrow> k8s_Create R obj opts;
                    State_Monad.return (obj, surfaceGrpcError err)
                  })
             })
        })"

definition not_found :: "api_error option \<Rightarrow> bool" where
  "not_found err = (case err of None \<Rightarrow> False | Some e \<Rightarrow> k8s_is_not_found e)"

lemma not_found_simps [simp]:
  "\<not> not_found None" "not_found (Some e) = k8s_is_not_found e"
  by (simp_all add: not_found_def)

definition Get ::
    "('z obj_meta_scheme) api_env \<Rightarrow> string \<Rightarrow> string \<Rightarrow> 'z obj_meta_scheme
     \<Rightarrow> ('z obj_meta_scheme, 'z obj_meta_scheme \<times> api_error option) api" where
  "Get R ns nm obj = do {
     (obj, err) \<leftarrow> k8s_Get R ns nm obj;
     if err = None \<and> \<not> isDeletedImmutableObject obj then State_Monad.return (obj, None)
     else if \<not> not_found err then State_Monad.return (obj, surfaceGrpcError err)
     else if ah_enabled R then do {
       (obj, err) \<leftarrow> metadata_Get R ns nm obj;
       (case err of
          Some e \<Rightarrow> State_Monad.return (obj, surfaceGrpcError (Some e))
        | None \<Rightarrow> do {
            obj \<leftarrow> handleBlobStorageForGet R obj;
            State_Monad.return (obj, surfaceGrpcError None)
          })
     }
     else State_Monad.return (obj, surfaceGrpcError err)
   }"

definition Update ::
    "('z obj_meta_scheme) api_env \<Rightarrow> 'z obj_meta_scheme \<Rightarrow> write_opts
     \<Rightarrow> ('z obj_meta_scheme, 'z obj_meta_scheme \<times> api_error option) api" where
  "Update R obj opts =
     (case validated_update R obj of
        Some err \<Rightarrow> State_Monad.return (obj, Some err)
      | None \<Rightarrow> do {
          specChange \<leftarrow> hasSpecChange R obj;
          now \<leftarrow> peek (ah_now R);
          let tmpObj = setUpdateTimestamp now obj specChange;
          (case checkDryRun (wo_dry_run opts) of
             Inl err \<Rightarrow> State_Monad.return (tmpObj, Some err)
           | Inr dryRun \<Rightarrow> do {
               (obj, err) \<leftarrow> k8s_Update R tmpObj opts;
               if not_found err \<and> ah_enabled R then
                 if dryRun then State_Monad.return (obj, None)
                 else do {
                   err \<leftarrow> metadata_Update R tmpObj;
                   State_Monad.return (obj, surfaceGrpcError err)
                 }
               else State_Monad.return (obj, surfaceGrpcError err)
             })
        })"

definition UpdateStatus ::
    "('z obj_meta_scheme) api_env \<Rightarrow> 'z obj_meta_scheme \<Rightarrow> write_opts
     \<Rightarrow> ('z obj_meta_scheme, 'z obj_meta_scheme \<times> api_error option) api" where
  "UpdateStatus R obj opts =
     (case validated_update R obj of
        Some err \<Rightarrow> State_Monad.return (obj, Some err)
      | None \<Rightarrow> do {
          now \<leftarrow> peek (ah_now R);
          let obj = setUpdateTimestamp now obj False;
          (case checkDryRun (wo_dry_run opts) of
             Inl err \<Rightarrow> State_Monad.return (obj, Some err)
           | Inr _ \<Rightarrow> do {
               (obj, err) \<leftarrow> k8s_UpdateStatus R obj opts;
               State_Monad.return (obj, surfaceGrpcError err)
             })
        })"

text \<open>The update of \<^verbatim>\<open>Delete\<close>: the deleting annotation, and the caller's propagation policy.\<close>

definition mark_deleting :: "'z obj_meta_scheme \<Rightarrow> delete_opts \<Rightarrow> 'z obj_meta_scheme" where
  "mark_deleting obj opts =
     (let annotation = put_entry (om_annotations obj) DeletingAnnotation ''true''
      in obj\<lparr>om_annotations :=
           (case do_propagation opts of
              None \<Rightarrow> annotation
            | Some policy \<Rightarrow> put_entry annotation DeletePropagationAnnotation policy)\<rparr>)"

definition no_write_opts :: write_opts where
  "no_write_opts = \<lparr>wo_dry_run = [], wo_field_manager = ''''\<rparr>"

definition Delete ::
    "('z obj_meta_scheme) api_env \<Rightarrow> 'z obj_meta_scheme \<Rightarrow> delete_opts
     \<Rightarrow> ('z obj_meta_scheme, api_error option outcome) api" where
  "Delete R obj opts =
     (case checkDryRun (do_dry_run opts) of
        Inl err \<Rightarrow> State_Monad.return (Returned (Some err))
      | Inr dryRun \<Rightarrow>
          if \<not> ah_enabled R then do {
            err \<leftarrow> k8s_Delete R obj opts;
            State_Monad.return (Returned (surfaceGrpcError err))
          }
          else do {
            (tmpObj, err) \<leftarrow> k8s_Get R (om_namespace obj) (om_name obj) obj;
            (case err of
               None \<Rightarrow>
                 if IsImmutable tmpObj then
                   if om_deletion_ts tmpObj \<noteq> None then
                     if dryRun then State_Monad.return (Returned None)
                     else deleteObjectFromMetadataStorage R tmpObj
                   else State_Monad.return (Returned (Some (GrpcError Code_Unavailable)))
                 else if dryRun then State_Monad.return (Returned None)
                 else do {
                   (tmpObj, err) \<leftarrow> k8s_Update R (mark_deleting tmpObj opts) no_write_opts;
                   State_Monad.return (Returned (surfaceGrpcError err))
                 }
             | Some e \<Rightarrow>
                 if not_found err \<and> ah_enabled R then
                   if dryRun then State_Monad.return (Returned None)
                   else deleteObjectFromMetadataStorage R obj
                 else State_Monad.return (Returned (Some e)))
          })"

definition List ::
    "('z obj_meta_scheme) api_env \<Rightarrow> string \<Rightarrow> list_opts \<Rightarrow> string option
     \<Rightarrow> ('z obj_meta_scheme) obj_list
     \<Rightarrow> ('z obj_meta_scheme, ('z obj_meta_scheme) obj_list \<times> api_error option) api" where
  "List R ns opts ext list =
     (if ah_enabled R then metadata_List R ns opts ext list
      else do {
        (list, err) \<leftarrow> k8s_List R ns opts list;
        State_Monad.return (list, surfaceGrpcError err)
      })"

text \<open>The loop of \<^verbatim>\<open>DeleteCollection\<close> over the listed items, and the operation.\<close>

fun delete_items ::
    "('z obj_meta_scheme) api_env \<Rightarrow> delete_opts \<Rightarrow> 'z obj_meta_scheme list
     \<Rightarrow> ('z obj_meta_scheme, api_error option outcome) api" where
  "delete_items R opts [] = State_Monad.return (Returned None)"
| "delete_items R opts (item # items) = do {
     result \<leftarrow> Delete R item opts;
     (case result of
        Returned None \<Rightarrow> delete_items R opts items
      | _ \<Rightarrow> State_Monad.return result)
   }"

definition DeleteCollection ::
    "('z obj_meta_scheme) api_env \<Rightarrow> 'z obj_meta_scheme \<Rightarrow> string \<Rightarrow> delete_opts \<Rightarrow> list_opts
     \<Rightarrow> ('z obj_meta_scheme, api_error option outcome) api" where
  "DeleteCollection R obj ns dopts lopts =
     (case checkDryRun (do_dry_run dopts) of
        Inl err \<Rightarrow> State_Monad.return (Returned (Some err))
      | Inr _ \<Rightarrow>
          if \<not> ah_enabled R then do {
            err \<leftarrow> k8s_DeleteCollection R obj ns dopts lopts;
            State_Monad.return (Returned (surfaceGrpcError err))
          }
          else if ns = '''' then
            State_Monad.return (Returned (Some (GrpcError Code_InvalidArgument)))
          else (case ah_gvk R obj of
             Inl err \<Rightarrow> State_Monad.return (Returned (Some (GrpcError Code_InvalidArgument)))
           | Inr gvk \<Rightarrow>
               (case ah_new_list R (gvk\<lparr>tm_kind := tm_kind gvk @ ''List''\<rparr>) of
                  Inl err \<Rightarrow> State_Monad.return (Returned (Some (GrpcError Code_InvalidArgument)))
                | Inr None \<Rightarrow> State_Monad.return (Returned (Some (GrpcError Code_Internal)))
                | Inr (Some listObj) \<Rightarrow> do {
                    (listObj, err) \<leftarrow> metadata_List R ns lopts None listObj;
                    (case err of
                       Some e \<Rightarrow> State_Monad.return (Returned (Some e))
                     | None \<Rightarrow>
                         (case ah_extract R listObj of
                            Inl err \<Rightarrow> State_Monad.return (Returned (Some err))
                          | Inr items \<Rightarrow>
                              if items = [] then State_Monad.return (Returned None)
                              else delete_items R dopts items))
                  })))"

section \<open>Library\<close>

lemma checkDryRun_cases [simp]:
  "checkDryRun [] = Inr False"
  "checkDryRun [DryRunAll] = Inr True"
  by (simp_all add: checkDryRun_def)

lemma checkDryRun_Inr_True: "checkDryRun ds = Inr True \<longleftrightarrow> ds = [DryRunAll]"
  by (cases ds rule: remdups_adj.cases) (auto simp: checkDryRun_def)

lemma checkDryRun_Inl: "checkDryRun ds = Inl e \<Longrightarrow> e = GrpcError Code_InvalidArgument"
  by (auto simp: checkDryRun_def split: if_splits)

text \<open>Events that change nothing when a dry run is asked for.\<close>

fun dry_event :: "'o api_event \<Rightarrow> bool" where
  "dry_event (KCreate obj w e) \<longleftrightarrow> wo_dry_run w = [DryRunAll]"
| "dry_event (KUpdate obj w e) \<longleftrightarrow> wo_dry_run w = [DryRunAll]"
| "dry_event (KUpdateStatus obj w e) \<longleftrightarrow> wo_dry_run w = [DryRunAll]"
| "dry_event (KDelete obj d e) \<longleftrightarrow> do_dry_run d = [DryRunAll]"
| "dry_event (KDeleteAllOf obj ns d l e) \<longleftrightarrow> do_dry_run d = [DryRunAll]"
| "dry_event (MUpsert obj d e) \<longleftrightarrow> False"
| "dry_event (MDelete tm ns nm e) \<longleftrightarrow> False"
| "dry_event (BDelete obj) \<longleftrightarrow> False"
| "dry_event _ \<longleftrightarrow> True"

datatype 'o request =
    ReqCreate 'o write_opts
  | ReqUpdate 'o write_opts
  | ReqUpdateStatus 'o write_opts
  | ReqDelete 'o delete_opts
  | ReqDeleteCollection 'o string delete_opts list_opts

fun request_dry_run :: "'o request \<Rightarrow> string list" where
  "request_dry_run (ReqCreate obj w) = wo_dry_run w"
| "request_dry_run (ReqUpdate obj w) = wo_dry_run w"
| "request_dry_run (ReqUpdateStatus obj w) = wo_dry_run w"
| "request_dry_run (ReqDelete obj d) = do_dry_run d"
| "request_dry_run (ReqDeleteCollection obj ns d l) = do_dry_run d"

fun serve ::
    "('z obj_meta_scheme) api_env \<Rightarrow> ('z obj_meta_scheme) request
     \<Rightarrow> ('z obj_meta_scheme, api_error option outcome) api" where
  "serve R (ReqCreate obj w) =
     State_Monad.bind (Create R obj w) (\<lambda>r. State_Monad.return (Returned (snd r)))"
| "serve R (ReqUpdate obj w) =
     State_Monad.bind (Update R obj w) (\<lambda>r. State_Monad.return (Returned (snd r)))"
| "serve R (ReqUpdateStatus obj w) =
     State_Monad.bind (UpdateStatus R obj w) (\<lambda>r. State_Monad.return (Returned (snd r)))"
| "serve R (ReqDelete obj d) = Delete R obj d"
| "serve R (ReqDeleteCollection obj ns d l) = DeleteCollection R obj ns d l"

lemma dry_run_Create: "wo_dry_run w = [DryRunAll] \<Longrightarrow> emits dry_event (Create R obj w)"
  by (auto simp: Create_def handleMetadataStorageForCreate_def metadata_Get_def k8s_calls
      Let_def intro!: emits_bind emits_ask split: option.splits prod.splits)

lemma dry_run_Update: "wo_dry_run w = [DryRunAll] \<Longrightarrow> emits dry_event (Update R obj w)"
  by (auto simp: Update_def hasSpecChange_def k8s_calls
      Let_def intro!: emits_bind emits_ask split: option.splits prod.splits)

lemma dry_run_UpdateStatus:
  "wo_dry_run w = [DryRunAll] \<Longrightarrow> emits dry_event (UpdateStatus R obj w)"
  by (auto simp: UpdateStatus_def k8s_calls
      Let_def intro!: emits_bind emits_ask split: option.splits prod.splits)

lemma dry_run_Delete: "do_dry_run d = [DryRunAll] \<Longrightarrow> emits dry_event (Delete R obj d)"
  by (auto simp: Delete_def k8s_calls intro!: emits_bind emits_ask split: option.splits prod.splits)

lemma dry_run_delete_items:
  "do_dry_run d = [DryRunAll] \<Longrightarrow> emits dry_event (delete_items R d items)"
  by (induction items)
    (auto intro!: emits_bind dry_run_Delete split: option.splits outcome.splits)

lemma dry_run_DeleteCollection:
  "do_dry_run d = [DryRunAll] \<Longrightarrow> emits dry_event (DeleteCollection R obj ns d l)"
  by (auto simp: DeleteCollection_def metadata_List_def k8s_calls Let_def
      intro!: emits_bind emits_ask dry_run_delete_items
      split: option.splits prod.splits sum.splits)

lemmas dry_run_ops = dry_run_Create dry_run_Update dry_run_UpdateStatus dry_run_Delete
  dry_run_DeleteCollection

lemma surfaceGrpcError_eq_None:
  "surfaceGrpcError err = None \<longleftrightarrow> err = None \<or> err = Some (GrpcError Code_OK)"
proof (cases err)
  case (Some e)
  have "K8sStatusReasonToGrpcError r \<noteq> Some Code_OK" for r by (cases r) auto
  with Some show ?thesis
    by (cases e) (auto simp: surfaceGrpcError_def status_errorf_def K8sError2GrpcError_def
        GetGrpcStatusCode_def split: option.splits if_splits)
qed simp

lemma surfaceGrpcError_SomeD:
  "surfaceGrpcError err = Some e \<Longrightarrow> \<exists>c. e = GrpcError c \<and> c \<noteq> Code_OK"
  by (auto simp: surfaceGrpcError_def status_errorf_def K8sError2GrpcError_def
      split: option.splits if_splits)

text \<open>A successful removal of a row from metadata storage, by cases.\<close>

lemma deleteObject_success:
  assumes "run_state (deleteObjectFromMetadataStorage R obj) h = (Returned None, h')"
    and "ah_metadata R"
  obtains tr tm e where "h' = h @ tr" "surfaceGrpcError e = None"
    "tr = [MDelete tm (om_namespace obj) (om_name obj) e]"
  | tr tm o1 e where "h' = h @ tr" "surfaceGrpcError e = None"
    "fst (ah_mget_id R h (om_uid obj) obj) = o1"
    "MDelete tm (om_namespace o1) (om_name o1) e \<in> set tr"
    "\<forall>ev\<in>set tr. (\<exists>u. ev = MGetByID u) \<or> (\<exists>o2. ev = BDelete o2) \<or>
       ev = MDelete tm (om_namespace o1) (om_name o1) e"
proof (cases "GetObjectTypeMetafromObject R obj")
  case (Inl err)
  with assms have "surfaceGrpcError (Some err) = None"
    by (simp add: deleteObjectFromMetadataStorage_def metadata_Delete_def)
  moreover from Inl have "err = GrpcError Code_InvalidArgument"
    by (simp add: GetObjectTypeMetafromObject_def split: sum.splits)
  ultimately show thesis by (simp add: surfaceGrpcError_eq_None)
next
  case (Inr tm)
  show thesis
  proof (cases "ah_interesting R obj")
    case False
    with assms Inr show thesis
      by (intro that(1) [of "[MDelete tm (om_namespace obj) (om_name obj)
            (ah_mdelete R h tm (om_namespace obj) (om_name obj))]"
            "ah_mdelete R h tm (om_namespace obj) (om_name obj)" tm])
        (auto simp: deleteObjectFromMetadataStorage_def metadata_Delete_def handleDelete_def
          storage_Delete_def split: if_splits)
  next
    case True
    obtain o1 ge where get: "ah_mget_id R h (om_uid obj) obj = (o1, ge)"
      by (cases "ah_mget_id R h (om_uid obj) obj")
    let ?h1 = "h @ [MGetByID (om_uid obj)]"
    let ?e = "ah_mdelete R ?h1 tm (om_namespace o1) (om_name o1)"
    let ?ev = "MDelete tm (om_namespace o1) (om_name o1) ?e"
    from assms Inr True get have
      "surfaceGrpcError ?e = None \<and> (h' = h @ [MGetByID (om_uid obj), ?ev] \<or>
        h' = h @ [MGetByID (om_uid obj), ?ev, BDelete o1])"
      by (auto simp: deleteObjectFromMetadataStorage_def metadata_Delete_def handleDelete_def
          storage_Delete_def split: if_splits option.splits)
    with get show thesis by (elim conjE disjE) (rule that(2), auto)+
  qed
qed

text \<open>The two paths of a delete that reach metadata storage are the only ones.\<close>

definition gone_from_k8s :: "('z obj_meta_scheme) \<times> api_error option \<Rightarrow> bool" where
  "gone_from_k8s answer \<longleftrightarrow> not_found (snd answer) \<or>
     (snd answer = None \<and> isDeletedImmutableObject (fst answer))"

lemma Delete_marks:
  assumes "ah_enabled R" "checkDryRun (do_dry_run opts) = Inr False"
    and "ah_kget R h (om_namespace obj) (om_name obj) obj = (stored, None)" "\<not> IsImmutable stored"
  shows "run_state (Delete R obj opts) h =
    (let h1 = h @ [KGet (om_namespace obj) (om_name obj)];
         e = snd (ah_kupdate R h1 (mark_deleting stored opts) no_write_opts)
     in (Returned (surfaceGrpcError e), h1 @ [KUpdate (mark_deleting stored opts) no_write_opts e]))"
  using assms by (simp add: Delete_def k8s_calls Let_def split: prod.splits)

lemma Delete_removes:
  assumes "ah_enabled R" "checkDryRun (do_dry_run opts) = Inr False"
    and "ah_kget R h (om_namespace obj) (om_name obj) obj = answer" "gone_from_k8s answer"
  shows "run_state (Delete R obj opts) h =
    run_state (deleteObjectFromMetadataStorage R (if snd answer = None then fst answer else obj))
      (h @ [KGet (om_namespace obj) (om_name obj)])"
  using assms
  by (cases answer) (auto simp: Delete_def k8s_calls gone_from_k8s_def isDeletedImmutableObject_def
      split: option.splits)

lemma Delete_refuses:
  assumes "ah_enabled R" "checkDryRun (do_dry_run opts) = Inr False"
    and "ah_kget R h (om_namespace obj) (om_name obj) obj = answer" "\<not> gone_from_k8s answer"
    and "snd answer = None \<longrightarrow> IsImmutable (fst answer)"
  shows "\<exists>e. run_state (Delete R obj opts) h =
    (Returned (Some e), h @ [KGet (om_namespace obj) (om_name obj)])"
  using assms
  by (cases answer) (auto simp: Delete_def k8s_calls gone_from_k8s_def isDeletedImmutableObject_def
      split: option.splits)

section \<open>Examples for the witnesses\<close>

definition example_pipeline :: obj_meta where
  "example_pipeline =
     \<lparr>om_namespace = ''ns'', om_name = ''p'', om_uid = ''u7'', om_generation = 1,
      om_creation_ts = Some 0, om_deletion_ts = None, om_labels = None, om_annotations = None,
      om_finalizers = [], om_owner_refs = []\<rparr>"

text \<open>An API server that answers every read with \<open>got\<close>, a storage that answers every lookup
  with \<open>found\<close>, and writes that all succeed.\<close>

definition example_env ::
    "(obj_meta \<Rightarrow> obj_meta \<times> api_error option) \<Rightarrow> api_error option \<Rightarrow> obj_meta api_env" where
  "example_env got found =
     \<lparr>ah_enabled = True, ah_has_validation = True, ah_metadata = True, ah_blob = False,
      ah_validator = (\<lambda>_. None), ah_finlib = list_finlib, ah_spec = (\<lambda>a b. Some True),
      ah_fresh = (\<lambda>o1. o1),
      ah_gvk = (\<lambda>_. Inr \<lparr>tm_kind = ''Pipeline'', tm_api_version = ''v2''\<rparr>),
      ah_list_gvk = (\<lambda>_. Inr \<lparr>tm_kind = ''PipelineList'', tm_api_version = ''v2''\<rparr>),
      ah_new_list = (\<lambda>_. Inr (Some \<lparr>ol_items = [], ol_continue = ''''\<rparr>)),
      ah_set_list = (\<lambda>l os. (None, l\<lparr>ol_items := os\<rparr>)), ah_extract = (\<lambda>l. Inr (ol_items l)),
      ah_parse_labels = (\<lambda>_. True), ah_parse_fields = (\<lambda>_. True), ah_interesting = (\<lambda>_. False),
      ah_now = (\<lambda>_. 1700), ah_kget = (\<lambda>_ _ _ o1. got o1),
      ah_kcreate = (\<lambda>_ o1 _. (o1, None)), ah_kupdate = (\<lambda>_ o1 _. (o1, None)),
      ah_kupdate_status = (\<lambda>_ o1 _. (o1, None)), ah_kdelete = (\<lambda>_ _ _. None),
      ah_kdelete_all = (\<lambda>_ _ _ _ _. None), ah_klist = (\<lambda>_ _ _ l. (l, None)),
      ah_mget = (\<lambda>_ _ _ o1. (o1, found)), ah_mget_id = (\<lambda>_ _ o1. (o1, None)),
      ah_mupsert = (\<lambda>_ _ _. None), ah_mdelete = (\<lambda>_ _ _ _. None),
      ah_mlist = (\<lambda>_ _ _ _ _. Inr \<lparr>ol_items = [example_pipeline], ol_continue = ''''\<rparr>),
      ah_merge = (\<lambda>_ o1. (o1, None))\<rparr>"

definition missing :: "obj_meta \<Rightarrow> obj_meta \<times> api_error option" where
  "missing o1 = (o1, Some (K8sStatusError ReasonNotFound))"

definition present :: "obj_meta \<Rightarrow> obj_meta \<times> api_error option" where
  "present o1 = (example_pipeline, None)"

definition delete_now :: "string list \<Rightarrow> delete_opts" where
  "delete_now dry =
     \<lparr>do_dry_run = dry, do_propagation = Some ''Foreground'', do_grace = None, do_preconditions = None\<rparr>"

lemma example_env_sel [simp]:
  "ah_enabled (example_env g f)" "ah_metadata (example_env g f)" "\<not> ah_blob (example_env g f)"
  "ah_kget (example_env g f) h ns nm o1 = g o1" "ah_finlib (example_env g f) = list_finlib"
  "ah_mget (example_env g f) h ns nm o1 = (o1, f)"
  "ah_kupdate (example_env g f) h o1 w = (o1, None)" "ah_kcreate (example_env g f) h o1 w = (o1, None)"
  "ah_has_validation (example_env g f)" "ah_validator (example_env g f) o1 = None"
  "ah_gvk (example_env g f) o1 = Inr \<lparr>tm_kind = ''Pipeline'', tm_api_version = ''v2''\<rparr>"
  "ah_now (example_env g f) h = 1700"
  by (simp_all add: example_env_def)

lemma delete_now_sel [simp]:
  "do_dry_run (delete_now dry) = dry" "do_propagation (delete_now dry) = Some ''Foreground''"
  by (simp_all add: delete_now_def)

section \<open>Properties\<close>

text \<open>
  C10. A dry run changes nothing, whatever the request and whatever the backends answer: a
  create, update, status update, delete or delete-collection with the dry-run option \<open>All\<close>
  sends no write to metadata storage and none to blob storage, and every write it sends to
  the API server carries the dry-run option on.
\<close>

theorem dry_run_changes_nothing:
  assumes "request_dry_run req = [DryRunAll]"
    and "run_state (serve R req) h = (res, h')"
  shows "\<exists>tr. h' = h @ tr \<and> list_all dry_event tr"
proof -
  from assms(1) have "emits dry_event (serve R req)"
    by (cases req) (auto intro: dry_run_ops)
  from this assms(2) show ?thesis by (rule emitsE) blast
qed

lemma dry_run_changes_nothing_witness:
  "\<exists>res tr. run_state (serve (example_env present None) (ReqDelete example_pipeline (delete_now [DryRunAll]))) []
      = (res, tr) \<and> list_all dry_event tr"
proof -
  let ?m = "serve (example_env present None) (ReqDelete example_pipeline (delete_now [DryRunAll]))"
  obtain res h' where run: "run_state ?m [] = (res, h')" by (cases "run_state ?m []")
  from dry_run_changes_nothing [OF _ run] run show ?thesis by auto
qed

lemma mark_deleting_marks:
  "mark_deleting obj opts = obj\<lparr>om_annotations := om_annotations (mark_deleting obj opts)\<rparr>"
  "IsDeleting (mark_deleting obj opts)"
  "do_propagation opts = Some p \<Longrightarrow>
     map_lookup (om_annotations (mark_deleting obj opts)) DeletePropagationAnnotation = Some p"
  by (auto simp: mark_deleting_def Let_def IsDeleting_def checkAnnotation_index split: option.splits)



text \<open>
  With metadata storage enabled and present, a create that succeeds sent exactly one
  write, to the API server, after a lookup in metadata storage that did not find the object;
  and what it created carries the ingester's finalizer and the two update timestamps, equal
  to each other: no object is created that the ingester will not mirror and keep until its
  row is settled.
\<close>

theorem successful_create_is_guarded:
  assumes "finlib_ok (ah_finlib R)" "ah_enabled R" "ah_metadata R"
    and "run_state (Create R obj opts) h = ((created, None), h')"
    and "ah_mget R h (om_namespace obj) (om_name obj) obj = (left, err)"
  shows "\<exists>e o1 stamp. err = Some e \<and>
    h' = h @ [MGet (om_namespace obj) (om_name obj), KCreate o1 opts (snd (ah_kcreate R (h @ [MGet (om_namespace obj) (om_name obj)]) o1 opts))] \<and>
    set (om_finalizers o1) = insert IngesterFinalizer (set (om_finalizers left)) \<and>
    map_lookup (om_labels o1) UpdateTimestampLabel = Some stamp \<and>
    map_lookup (om_labels o1) SpecUpdateTimestampLabel = Some stamp"
proof -
  have valid: "validated_create R obj = None" using assms(4)
    by (cases "validated_create R obj") (auto simp: Create_def)
  obtain e where e: "err = Some e" using assms(2-5) valid
    by (cases err) (auto simp: Create_def handleMetadataStorageForCreate_def metadata_Get_def)
  let ?h1 = "h @ [MGet (om_namespace obj) (om_name obj)]"
  let ?o = "setUpdateTimestamp (ah_now R ?h1)
    (left\<lparr>om_finalizers := fl_add (ah_finlib R) (om_finalizers left) IngesterFinalizer\<rparr>) True"
  have "h' = ?h1 @ [KCreate ?o opts (snd (ah_kcreate R ?h1 ?o opts))]"
    using assms(2-5) valid e
    by (simp add: Create_def handleMetadataStorageForCreate_def metadata_Get_def k8s_calls Let_def
        split: sum.splits prod.splits)
  moreover have "map_lookup (om_labels ?o) l = Some (FormatInt (ah_now R ?h1))"
    if "l = UpdateTimestampLabel \<or> l = SpecUpdateTimestampLabel" for l
    using that by (auto simp: setUpdateTimestamp_def Let_def)
  moreover have "set (om_finalizers ?o) = insert IngesterFinalizer (set (om_finalizers left))"
    by (simp add: setUpdateTimestamp_def Let_def finlib_okD [OF assms(1)])
  ultimately show ?thesis using e
    by (intro exI [of _ e] exI [of _ ?o] exI [of _ "FormatInt (ah_now R ?h1)"]) simp
qed

lemma successful_create_is_guarded_witness:
  "\<exists>created h' o1. run_state (Create (example_env missing (Some (GrpcError Code_NotFound))) example_pipeline no_write_opts) []
      = ((created, None), h') \<and>
     h' = [MGet ''ns'' ''p'', KCreate o1 no_write_opts None] \<and> IngesterFinalizer \<in> set (om_finalizers o1)"
proof -
  let ?R = "example_env missing (Some (GrpcError Code_NotFound))"
  obtain created err h' where run: "run_state (Create ?R example_pipeline no_write_opts) [] = ((created, err), h')"
    by (metis surj_pair)
  have nm: "om_namespace example_pipeline = ''ns''" "om_name example_pipeline = ''p''"
    by (simp_all add: example_pipeline_def)
  from run have "err = None"
    by (auto simp: Create_def handleMetadataStorageForCreate_def metadata_Get_def k8s_calls Let_def
        validated_create_def ValidateCreate_def Validate_def no_write_opts_def)
  with successful_create_is_guarded [of ?R example_pipeline no_write_opts "[]" created h'] run show ?thesis
    by (force simp: nm)
qed

text \<open>
  Every error a get returns is a gRPC status error with a code other than \<open>OK\<close>, whatever
  kind of error the API server or the storage answered with.
\<close>

theorem get_errors_are_grpc:
  assumes "run_state (Get R ns nm obj) h = ((o1, Some e), h')"
  shows "\<exists>c. e = GrpcError c \<and> c \<noteq> Code_OK"
proof -
  from assms have "\<exists>err. surfaceGrpcError err = Some e"
    by (auto simp: Get_def k8s_calls metadata_Get_def split: if_splits option.splits prod.splits)
  then show ?thesis by (auto dest: surfaceGrpcError_SomeD)
qed

lemma get_errors_are_grpc_witness:
  "\<exists>o1 e h' c. run_state (Get (example_env missing (Some (GrpcError Code_Internal))) ''ns'' ''p'' example_pipeline) []
     = ((o1, Some e), h') \<and> e = GrpcError c \<and> c \<noteq> Code_OK"
proof -
  let ?R = "example_env missing (Some (GrpcError Code_Internal))"
  have "run_state (Get ?R ''ns'' ''p'' example_pipeline) [] =
      ((example_pipeline, Some (GrpcError Code_Internal)), [KGet ''ns'' ''p'', MGet ''ns'' ''p''])"
    by (simp add: Get_def k8s_calls metadata_Get_def missing_def surfaceGrpcError_def
        status_errorf_def)
  with get_errors_are_grpc [OF this] show ?thesis by blast
qed

text \<open>
  A delete does not keep that contract: when reading the object from the API server fails
  with anything but not-found, the delete hands the API server's own error back unchanged,
  although its documentation promises a gRPC status error.
\<close>

theorem delete_returns_raw_read_error:
  assumes "ah_enabled R" "checkDryRun (do_dry_run opts) = Inr dry"
    and "ah_kget R h (om_namespace obj) (om_name obj) obj = (o1, Some e)" "\<not> k8s_is_not_found e"
  shows "fst (run_state (Delete R obj opts) h) = Returned (Some e)"
  using assms by (simp add: Delete_def k8s_calls)

lemma delete_returns_raw_read_error_witness:
  "fst (run_state (Delete (example_env (\<lambda>o1. (o1, Some (K8sStatusError ReasonForbidden))) None)
      example_pipeline (delete_now [])) []) = Returned (Some (K8sStatusError ReasonForbidden))"
  by (rule delete_returns_raw_read_error [of _ _ False]) simp_all

text \<open>
  An immutable object that is still in the API server with a deletion timestamp is
  answered from there: a get that finds the object in the API server never asks metadata
  storage, although the comment in the code says this is the case that proceeds to it.
\<close>

theorem get_never_falls_back_for_deleted_immutable:
  assumes "ah_kget R h ns nm obj = (o1, None)"
  shows "run_state (Get R ns nm obj) h = ((o1, None), h @ [KGet ns nm])"
  using assms by (simp add: Get_def k8s_calls)

lemma get_never_falls_back_for_deleted_immutable_witness:
  "\<exists>o1. isDeletedImmutableObject o1 \<and>
     run_state (Get (example_env (\<lambda>_. (o1, None)) None) ''ns'' ''p'' example_pipeline) []
       = ((o1, None), [KGet ''ns'' ''p''])"
proof -
  let ?o = "MarkImmutable (example_pipeline\<lparr>om_deletion_ts := Some 9\<rparr>)"
  have "isDeletedImmutableObject ?o"
    by (simp add: isDeletedImmutableObject_def) (simp add: MarkImmutable_def)
  with get_never_falls_back_for_deleted_immutable
      [of "example_env (\<lambda>_. (?o, None)) None" "[]" "''ns''" "''p''" example_pipeline ?o]
  show ?thesis by auto
qed

text \<open>
  Without a blob storage, a delete of an object that lives in metadata storage only (the
  API server does not have it, metadata storage is enabled and present, the request is not a
  dry run, the object's type is registered) panics: the metadata handler calls the nil blob
  storage it was built with, and no row is deleted.
\<close>

theorem delete_panics_without_blob_storage:
  assumes "ah_enabled R" "ah_metadata R" "\<not> ah_blob R"
    and "do_dry_run opts = []" "ah_gvk R obj = Inr tm"
    and "not_found (snd (ah_kget R h (om_namespace obj) (om_name obj) obj))"
  shows "run_state (Delete R obj opts) h =
    (Panicked, h @ [KGet (om_namespace obj) (om_name obj)])"
proof -
  have "gone_from_k8s (ah_kget R h (om_namespace obj) (om_name obj) obj)"
    using assms(6) by (simp add: gone_from_k8s_def)
  moreover obtain e where "snd (ah_kget R h (om_namespace obj) (om_name obj) obj) = Some e"
    using assms(6) by (auto simp: not_found_def split: option.splits)
  ultimately show ?thesis using assms
    by (simp add: Delete_removes deleteObjectFromMetadataStorage_def metadata_Delete_def
        GetObjectTypeMetafromObject_def handleDelete_def)
qed

lemma delete_panics_without_blob_storage_witness:
  "run_state (Delete (example_env missing None) example_pipeline (delete_now [])) [] =
     (Panicked, [KGet ''ns'' ''p''])"
  using delete_panics_without_blob_storage
    [of "example_env missing None" "delete_now []" example_pipeline _ "[]"]
  by (simp add: missing_def example_pipeline_def)

text \<open>
  What the builders guarantee. A handler that was built has a Kubernetes client, and has
  a metadata storage whenever metadata storage is enabled in it. The controllers' factory
  refuses a configuration that enables metadata storage without providing one, but the API
  server's and the controller manager's constructors accept it and build a handler in which
  metadata storage is silently disabled.
\<close>

theorem built_handlers_have_their_storage:
  "(Build b = Inr b' \<longrightarrow> bd_k8s_client b' \<and> (bd_enable_metadata b' \<longrightarrow> bd_metadata b' \<noteq> None)) \<and>
   (hp_enable_metadata params \<and> hp_metadata params = None \<and> hp_client_error params = None \<and> hp_manager params \<longrightarrow>
     (\<exists>err. GetAPIHandler params True = Inl err) \<and>
     (\<exists>b1. NewAPIServerHandler params = Inr b1 \<and> \<not> bd_enable_metadata b1) \<and>
     (\<exists>b2. NewCtrlManagerHandler params = Inr b2 \<and> \<not> bd_enable_metadata b2))"
  by (auto simp: builder_defs Let_def split: if_splits option.splits)

definition example_params :: "(unit, unit) handler_params" where
  "example_params =
     \<lparr>hp_client_error = None, hp_manager = True, hp_enable_metadata = True, hp_metadata = None,
      hp_blob = None\<rparr>"

lemma built_handlers_have_their_storage_witness:
  "\<exists>b1. NewAPIServerHandler example_params = Inr b1 \<and> \<not> bd_enable_metadata b1"
  using built_handlers_have_their_storage [of NewAPIHandlerBuilder NewAPIHandlerBuilder example_params]
  by (auto simp: example_params_def)

end
