(* ===== verification/Crd_Schema.thy ===== *)
theory Crd_Schema
  imports Prelude
begin

text \<open>
  Compatibility of CRD schemas (\<^verbatim>\<open>go/api/crd/schema_diff.go\<close>): the structural difference of
  two OpenAPI schemas, the verdict on a difference, and the comparison of two CRDs. The
  reference is the relation \<open>upgrades\<close>: the new schema keeps the type and every property of
  the old one, at every level. The difference algorithm is shown to decide it.
\<close>

section \<open>Schemas\<close>

text \<open>
  \<^verbatim>\<open>JSONSchemaProps\<close>, with the fields the comparison reads; \<open>sc_other\<close> stands for the rest
  (documentation, validation), which only matters for equality. A nil map, pointer or slice
  is \<open>None\<close>; \<^verbatim>\<open>Items\<close> is a pointer to a struct that holds a pointer. A Go map is an
  association list sorted by its keys, so that deep equality is equality.
\<close>

datatype schema = Schema
  (sc_type: string)
  (sc_properties: "(string \<times> schema) list option")
  (sc_items: "schema option option")
  (sc_one_of: "schema list option")
  (sc_any_of: "schema list option")
  (sc_all_of: "schema list option")
  (sc_other: string)

definition empty_schema :: schema where
  "empty_schema = Schema '''' None None None None None ''''"

definition deref :: "schema option \<Rightarrow> schema" where
  "deref s = (case s of None \<Rightarrow> empty_schema | Some s' \<Rightarrow> s')"

lemma deref_simps [simp]: "deref None = empty_schema" "deref (Some s) = s"
  by (simp_all add: deref_def)

text \<open>Reading a nil map or slice.\<close>

definition elems :: "'a list option \<Rightarrow> 'a list" where
  "elems xs = (case xs of None \<Rightarrow> [] | Some ys \<Rightarrow> ys)"

lemma elems_simps [simp]: "elems None = []" "elems (Some xs) = xs"
  by (simp_all add: elems_def)

text \<open>\<^verbatim>\<open>old.Items.Schema\<close>, nil when \<^verbatim>\<open>Items\<close> is.\<close>

definition item_schema :: "schema \<Rightarrow> schema option" where
  "item_schema s = (case sc_items s of None \<Rightarrow> None | Some i \<Rightarrow> i)"

section \<open>Differences\<close>

datatype value_diff = ValueDiff (vd_from: "string option") (vd_to: "string option")

datatype schema_diff = SchemaDiff
    (sd_type: "value_diff option")
    (sd_properties: "object_diff option")
    (sd_items: "schema_diff option")
    (sd_one_of: "array_diff option")
    (sd_any_of: "array_diff option")
    (sd_all_of: "array_diff option")
and array_diff = ArrayDiff
    (ad_deleted: "schema list") (ad_added: "schema list") (ad_modified: "schema_diff list")
and object_diff = ObjectDiff
    (od_deleted: "(string \<times> schema) list") (od_added: "(string \<times> schema) list")
    (od_modified: "(string \<times> schema_diff) list")

subsection \<open>Computing them\<close>

text \<open>
  The measure of the mutual recursion: both sides are traversed together, and either may be
  missing. A missing schema counts nothing, so \<^verbatim>\<open>Items\<close> with a nil schema still decreases.
\<close>

definition osize :: "schema option \<Rightarrow> nat" where
  "osize s = (case s of None \<Rightarrow> 0 | Some s' \<Rightarrow> size s')"

lemma size_prop:
  "(k, v) \<in> set kvs \<Longrightarrow> size v < size_list (size_prod (\<lambda>_. 0) size) kvs"
  by (induction kvs) auto

lemma size_list_elem: "x \<in> set xs \<Longrightarrow> size x < size_list size (xs :: schema list)"
  by (induction xs) auto

lemma map_of_size:
  "map_of kvs k = Some v \<Longrightarrow> size v < size_list (size_prod (\<lambda>_. 0) size) kvs"
  by (drule map_of_SomeD) (rule size_prop)

lemma item_size: "sc_items s \<noteq> None \<Longrightarrow> osize (item_schema s) < size s"
  by (cases s) (auto simp: item_schema_def osize_def split: option.splits)

lemma item_size_le: "osize (item_schema s) \<le> size s"
proof (cases "sc_items s")
  case None
  then show ?thesis by (simp add: item_schema_def osize_def)
next
  case (Some i)
  then show ?thesis using item_size [of s] by simp
qed

lemma parts_size:
  "size_list (size_prod (\<lambda>_. 0) size) (elems (sc_properties s)) < size s"
  "size_list size (elems (sc_one_of s)) < size s"
  "size_list size (elems (sc_any_of s)) < size s"
  "size_list size (elems (sc_all_of s)) < size s"
  by (cases s; auto simp: elems_def split: option.splits)+

abbreviation asize :: "schema list \<Rightarrow> nat" where
  "asize \<equiv> size_list size"

abbreviation psize :: "(string \<times> schema) list \<Rightarrow> nat" where
  "psize \<equiv> size_list (size_prod (\<lambda>_. 0) size)"

lemma deref_parts_size:
  "psize (elems (sc_properties (deref s))) \<le> osize s"
  "asize (elems (sc_one_of (deref s))) \<le> osize s"
  "asize (elems (sc_any_of (deref s))) \<le> osize s"
  "asize (elems (sc_all_of (deref s))) \<le> osize s"
  "osize (item_schema (deref s)) \<le> osize s"
  using parts_size item_size_le
  by (cases s; auto simp: osize_def empty_schema_def item_schema_def intro: less_imp_le)+

lemma deref_parts_size_less:
  "sc_properties (deref s) \<noteq> None \<Longrightarrow> psize (elems (sc_properties (deref s))) < osize s"
  "sc_one_of (deref s) \<noteq> None \<Longrightarrow> asize (elems (sc_one_of (deref s))) < osize s"
  "sc_any_of (deref s) \<noteq> None \<Longrightarrow> asize (elems (sc_any_of (deref s))) < osize s"
  "sc_all_of (deref s) \<noteq> None \<Longrightarrow> asize (elems (sc_all_of (deref s))) < osize s"
  "sc_items (deref s) \<noteq> None \<Longrightarrow> osize (item_schema (deref s)) < osize s"
  using parts_size item_size
  by (cases s; auto simp: osize_def empty_schema_def)+

lemma call_sizes:
  "sc_properties (deref a) \<noteq> None \<or> sc_properties (deref b) \<noteq> None \<Longrightarrow>
     psize (elems (sc_properties (deref a))) + psize (elems (sc_properties (deref b))) < osize a + osize b"
  "sc_items (deref a) \<noteq> None \<or> sc_items (deref b) \<noteq> None \<Longrightarrow>
     osize (item_schema (deref a)) + osize (item_schema (deref b)) < osize a + osize b"
  "sc_one_of (deref a) \<noteq> None \<or> sc_one_of (deref b) \<noteq> None \<Longrightarrow>
     asize (elems (sc_one_of (deref a))) + asize (elems (sc_one_of (deref b))) < osize a + osize b"
  "sc_any_of (deref a) \<noteq> None \<or> sc_any_of (deref b) \<noteq> None \<Longrightarrow>
     asize (elems (sc_any_of (deref a))) + asize (elems (sc_any_of (deref b))) < osize a + osize b"
  "sc_all_of (deref a) \<noteq> None \<or> sc_all_of (deref b) \<noteq> None \<Longrightarrow>
     asize (elems (sc_all_of (deref a))) + asize (elems (sc_all_of (deref b))) < osize a + osize b"
  by (elim disjE;
      use deref_parts_size [of a] deref_parts_size [of b]
        deref_parts_size_less [of a] deref_parts_size_less [of b] in simp)+

lemma elem_sizes:
  "(a, b) \<in> set (zip os ns) \<Longrightarrow> osize (Some a) + osize (Some b) < asize os + asize ns"
  "(k, a) \<in> set okvs \<Longrightarrow> map_of nkvs k = Some b \<Longrightarrow>
     osize (Some a) + osize (Some b) < psize okvs + psize nkvs"
  unfolding osize_def
  by (auto intro: add_strict_mono size_list_elem size_prop map_of_size
      dest: set_zip_leftD set_zip_rightD)

text \<open>
  \<^verbatim>\<open>newSchemaDiff\<close>, \<^verbatim>\<open>newSchemaArrayDiff\<close> and \<^verbatim>\<open>newSchemaObjectDiff\<close>. Two arrays are compared
  position by position, two property maps key by key.
\<close>

function newSchemaDiff :: "schema option \<Rightarrow> schema option \<Rightarrow> schema_diff option"
  and newSchemaArrayDiff :: "schema list \<Rightarrow> schema list \<Rightarrow> array_diff option"
  and newSchemaObjectDiff ::
    "(string \<times> schema) list \<Rightarrow> (string \<times> schema) list \<Rightarrow> object_diff option" where
  "newSchemaDiff old0 new0 =
     (let old = deref old0; new = deref new0;
          diff = SchemaDiff
            (if sc_type old \<noteq> sc_type new
             then Some (ValueDiff (Some (sc_type old)) (Some (sc_type new))) else None)
            (if sc_properties old \<noteq> None \<or> sc_properties new \<noteq> None
             then newSchemaObjectDiff (elems (sc_properties old)) (elems (sc_properties new)) else None)
            (if sc_items old \<noteq> None \<or> sc_items new \<noteq> None
             then newSchemaDiff (item_schema old) (item_schema new) else None)
            (if sc_one_of old \<noteq> None \<or> sc_one_of new \<noteq> None
             then newSchemaArrayDiff (elems (sc_one_of old)) (elems (sc_one_of new)) else None)
            (if sc_any_of old \<noteq> None \<or> sc_any_of new \<noteq> None
             then newSchemaArrayDiff (elems (sc_any_of old)) (elems (sc_any_of new)) else None)
            (if sc_all_of old \<noteq> None \<or> sc_all_of new \<noteq> None
             then newSchemaArrayDiff (elems (sc_all_of old)) (elems (sc_all_of new)) else None)
      in if diff = SchemaDiff None None None None None None then None else Some diff)"
| "newSchemaArrayDiff old new =
     (let deletedProps = drop (length new) old;
          addedProps = drop (length old) new;
          modifiedProps = concat (map (\<lambda>(o1, n1).
              case newSchemaDiff (Some o1) (Some n1) of None \<Rightarrow> [] | Some d \<Rightarrow> [d]) (zip old new))
      in if length deletedProps > 0 \<or> length addedProps > 0 \<or> length modifiedProps > 0
         then Some (ArrayDiff deletedProps addedProps modifiedProps) else None)"
| "newSchemaObjectDiff old new =
     (let deletedProps = filter (\<lambda>(k, v). map_of new k = None) old;
          addedProps = filter (\<lambda>(k, v). map_of old k = None) new;
          modifiedProps = concat (map (\<lambda>(k, ov).
              case map_of new k of
                None \<Rightarrow> []
              | Some nv \<Rightarrow> (case newSchemaDiff (Some ov) (Some nv) of
                  None \<Rightarrow> [] | Some d \<Rightarrow> [(k, d)])) old)
      in if length deletedProps \<noteq> 0 \<or> length addedProps \<noteq> 0 \<or> length modifiedProps \<noteq> 0
         then Some (ObjectDiff deletedProps addedProps modifiedProps) else None)"
  by pat_completeness auto

termination
proof (relation "measure (\<lambda>x. case x of
    Inl (o1, n1) \<Rightarrow> osize o1 + osize n1
  | Inr (Inl (os, ns)) \<Rightarrow> asize os + asize ns
  | Inr (Inr (os, ns)) \<Rightarrow> psize os + psize ns)", goal_cases)
qed (auto simp: call_sizes intro: elem_sizes)

declare newSchemaDiff.simps [simp del] newSchemaArrayDiff.simps [simp del]
  newSchemaObjectDiff.simps [simp del]

subsection \<open>The verdict\<close>

definition value_compatible :: "value_diff option \<Rightarrow> bool" where
  "value_compatible vd \<longleftrightarrow> vd = None \<or> vd = Some (ValueDiff None None)"

fun diff_compatible :: "schema_diff option \<Rightarrow> bool"
  and array_compatible :: "array_diff option \<Rightarrow> bool"
  and object_compatible :: "object_diff option \<Rightarrow> bool" where
  "diff_compatible None \<longleftrightarrow> True"
| "diff_compatible (Some (SchemaDiff t p i one any all)) \<longleftrightarrow>
     (if \<not> value_compatible t then False
      else if \<not> object_compatible p then False
      else if \<not> diff_compatible i then False
      else if \<not> array_compatible any then False
      else if \<not> array_compatible all then False
      else if \<not> array_compatible one then False
      else True)"
| "array_compatible None \<longleftrightarrow> True"
| "array_compatible (Some (ArrayDiff del add mods)) \<longleftrightarrow>
     (if length del > 0 then False else list_all (\<lambda>v. diff_compatible (Some v)) mods)"
| "object_compatible None \<longleftrightarrow> True"
| "object_compatible (Some (ObjectDiff del add mods)) \<longleftrightarrow>
     (if length del > 0 then False else list_all (\<lambda>(k, v). diff_compatible (Some v)) mods)"

section \<open>The reference relation\<close>

text \<open>
  \<open>upgrades old new\<close>: every document shape the old schema names is still there, with the same
  type, in the new one. Alternatives (\<^verbatim>\<open>oneOf\<close>, \<^verbatim>\<open>anyOf\<close>, \<^verbatim>\<open>allOf\<close>) may only be appended.
\<close>

definition list_upgrades :: "('a \<Rightarrow> 'a \<Rightarrow> bool) \<Rightarrow> 'a list \<Rightarrow> 'a list \<Rightarrow> bool" where
  "list_upgrades R os ns \<longleftrightarrow> length os \<le> length ns \<and> (\<forall>(a, b)\<in>set (zip os ns). R a b)"

definition map_upgrades ::
    "('a \<Rightarrow> 'a \<Rightarrow> bool) \<Rightarrow> (string \<times> 'a) list \<Rightarrow> (string \<times> 'a) list \<Rightarrow> bool" where
  "map_upgrades R os ns \<longleftrightarrow> (\<forall>(k, a)\<in>set os. \<exists>b. map_of ns k = Some b \<and> R a b)"

lemma list_upgrades_mono [mono]: "R \<le> S \<Longrightarrow> list_upgrades R os ns \<longrightarrow> list_upgrades S os ns"
  unfolding list_upgrades_def by (auto simp: le_fun_def)

lemma map_upgrades_mono [mono]: "R \<le> S \<Longrightarrow> map_upgrades R os ns \<longrightarrow> map_upgrades S os ns"
  unfolding map_upgrades_def by (fastforce simp: le_fun_def)

inductive upgrades :: "schema \<Rightarrow> schema \<Rightarrow> bool" where
  upgradesI:
    "sc_type old = sc_type new \<Longrightarrow>
     map_upgrades upgrades (elems (sc_properties old)) (elems (sc_properties new)) \<Longrightarrow>
     (sc_items old \<noteq> None \<or> sc_items new \<noteq> None \<longrightarrow>
        upgrades (deref (item_schema old)) (deref (item_schema new))) \<Longrightarrow>
     list_upgrades upgrades (elems (sc_one_of old)) (elems (sc_one_of new)) \<Longrightarrow>
     list_upgrades upgrades (elems (sc_any_of old)) (elems (sc_any_of new)) \<Longrightarrow>
     list_upgrades upgrades (elems (sc_all_of old)) (elems (sc_all_of new)) \<Longrightarrow>
     upgrades old new"

lemma upgrades_iff:
  "upgrades old new \<longleftrightarrow>
     sc_type old = sc_type new \<and>
     map_upgrades upgrades (elems (sc_properties old)) (elems (sc_properties new)) \<and>
     (sc_items old \<noteq> None \<or> sc_items new \<noteq> None \<longrightarrow>
        upgrades (deref (item_schema old)) (deref (item_schema new))) \<and>
     list_upgrades upgrades (elems (sc_one_of old)) (elems (sc_one_of new)) \<and>
     list_upgrades upgrades (elems (sc_any_of old)) (elems (sc_any_of new)) \<and>
     list_upgrades upgrades (elems (sc_all_of old)) (elems (sc_all_of new))"
  by (subst upgrades.simps) blast

lemma list_upgrades_Nil [simp]: "list_upgrades R [] ns"
  by (simp add: list_upgrades_def)

lemma map_upgrades_Nil [simp]: "map_upgrades R [] ns"
  by (simp add: map_upgrades_def)

section \<open>The algorithm decides the relation\<close>

lemma modified_items:
  "list_all (\<lambda>v. diff_compatible (Some v)) (concat (map (\<lambda>(o1, n1).
       case f o1 n1 of None \<Rightarrow> [] | Some d \<Rightarrow> [d]) ps)) \<longleftrightarrow>
   (\<forall>(a, b)\<in>set ps. diff_compatible (f a b))"
  by (induction ps) (auto split: option.splits)

lemma modified_props:
  "list_all (\<lambda>(k, v). diff_compatible (Some v)) (concat (map (\<lambda>(k, ov).
       case g k of None \<Rightarrow> [] | Some nv \<Rightarrow> (case f ov nv of None \<Rightarrow> [] | Some d \<Rightarrow> [(k, d)])) kvs)) \<longleftrightarrow>
   (\<forall>(k, a)\<in>set kvs. \<forall>b. g k = Some b \<longrightarrow> diff_compatible (f a b))"
  by (induction kvs) (auto split: option.splits)

lemma compatible_build:
  "array_compatible (if length del > 0 \<or> length add > 0 \<or> length mods > 0
      then Some (ArrayDiff del add mods) else None) \<longleftrightarrow>
     del = [] \<and> list_all (\<lambda>v. diff_compatible (Some v)) mods"
  "object_compatible (if length pdel \<noteq> 0 \<or> length padd \<noteq> 0 \<or> length pmods \<noteq> 0
      then Some (ObjectDiff pdel padd pmods) else None) \<longleftrightarrow>
     pdel = [] \<and> list_all (\<lambda>(k, v). diff_compatible (Some v)) pmods"
  by auto

lemma array_compatible_iff:
  "array_compatible (newSchemaArrayDiff old new) \<longleftrightarrow>
     list_upgrades (\<lambda>a b. diff_compatible (newSchemaDiff (Some a) (Some b))) old new"
  unfolding newSchemaArrayDiff.simps [of old new] Let_def compatible_build modified_items
    list_upgrades_def by simp

lemma object_compatible_iff:
  "object_compatible (newSchemaObjectDiff old new) \<longleftrightarrow>
     map_upgrades (\<lambda>a b. diff_compatible (newSchemaDiff (Some a) (Some b))) old new"
  unfolding newSchemaObjectDiff.simps [of old new] Let_def compatible_build
    modified_props map_upgrades_def
  by (fastforce simp: filter_empty_conv)

text \<open>An empty difference is compatible, so the difference of two schemas is judged part by part.\<close>

lemma diff_compatible_iff:
  "diff_compatible (newSchemaDiff old new) \<longleftrightarrow>
     sc_type (deref old) = sc_type (deref new) \<and>
     (sc_properties (deref old) \<noteq> None \<or> sc_properties (deref new) \<noteq> None \<longrightarrow>
        object_compatible (newSchemaObjectDiff (elems (sc_properties (deref old)))
          (elems (sc_properties (deref new))))) \<and>
     (sc_items (deref old) \<noteq> None \<or> sc_items (deref new) \<noteq> None \<longrightarrow>
        diff_compatible (newSchemaDiff (item_schema (deref old)) (item_schema (deref new)))) \<and>
     (sc_one_of (deref old) \<noteq> None \<or> sc_one_of (deref new) \<noteq> None \<longrightarrow>
        array_compatible (newSchemaArrayDiff (elems (sc_one_of (deref old))) (elems (sc_one_of (deref new))))) \<and>
     (sc_any_of (deref old) \<noteq> None \<or> sc_any_of (deref new) \<noteq> None \<longrightarrow>
        array_compatible (newSchemaArrayDiff (elems (sc_any_of (deref old))) (elems (sc_any_of (deref new))))) \<and>
     (sc_all_of (deref old) \<noteq> None \<or> sc_all_of (deref new) \<noteq> None \<longrightarrow>
        array_compatible (newSchemaArrayDiff (elems (sc_all_of (deref old))) (elems (sc_all_of (deref new)))))"
proof -
  have build: "diff_compatible (if d = SchemaDiff None None None None None None then None else Some d)
      \<longleftrightarrow> diff_compatible (Some d)" for d
    by (auto simp: value_compatible_def)
  show ?thesis
    unfolding newSchemaDiff.simps [of old new] Let_def build
    by (simp add: value_compatible_def)
qed

lemma list_upgrades_cong:
  "(\<And>a b. (a, b) \<in> set (zip os ns) \<Longrightarrow> R a b = S a b) \<Longrightarrow> list_upgrades R os ns = list_upgrades S os ns"
  by (auto simp: list_upgrades_def)

lemma map_upgrades_cong:
  "(\<And>k a b. (k, a) \<in> set os \<Longrightarrow> map_of ns k = Some b \<Longrightarrow> R a b = S a b) \<Longrightarrow>
   map_upgrades R os ns = map_upgrades S os ns"
  unfolding map_upgrades_def by fastforce

lemma diff_decides_upgrades:
  "diff_compatible (newSchemaDiff old new) \<longleftrightarrow> upgrades (deref old) (deref new)"
proof (induction "osize old + osize new" arbitrary: old new rule: less_induct)
  case less
  have IH: "diff_compatible (newSchemaDiff (Some a) (Some b)) \<longleftrightarrow> upgrades a b"
    if "osize (Some a) + osize (Some b) < osize old + osize new" for a b
    using less [OF that] by simp
  have arr: "array_compatible (newSchemaArrayDiff os ns) \<longleftrightarrow> list_upgrades upgrades os ns"
    if "asize os + asize ns < osize old + osize new" for os ns
    unfolding array_compatible_iff using that
    by (intro list_upgrades_cong IH) (auto dest!: elem_sizes)
  have obj: "object_compatible (newSchemaObjectDiff os ns) \<longleftrightarrow> map_upgrades upgrades os ns"
    if "psize os + psize ns < osize old + osize new" for os ns
    unfolding object_compatible_iff using that
    by (intro map_upgrades_cong IH) (auto dest!: elem_sizes(2))
  have item: "diff_compatible (newSchemaDiff (item_schema (deref old)) (item_schema (deref new))) \<longleftrightarrow>
      upgrades (deref (item_schema (deref old))) (deref (item_schema (deref new)))"
    if "sc_items (deref old) \<noteq> None \<or> sc_items (deref new) \<noteq> None"
    using less [OF call_sizes(2) [OF that]] .
  have guarded: "(sc_properties (deref old) \<noteq> None \<or> sc_properties (deref new) \<noteq> None \<longrightarrow>
        object_compatible (newSchemaObjectDiff (elems (sc_properties (deref old))) (elems (sc_properties (deref new))))) \<longleftrightarrow>
      map_upgrades upgrades (elems (sc_properties (deref old))) (elems (sc_properties (deref new)))"
    "(sc_one_of (deref old) \<noteq> None \<or> sc_one_of (deref new) \<noteq> None \<longrightarrow>
        array_compatible (newSchemaArrayDiff (elems (sc_one_of (deref old))) (elems (sc_one_of (deref new))))) \<longleftrightarrow>
      list_upgrades upgrades (elems (sc_one_of (deref old))) (elems (sc_one_of (deref new)))"
    "(sc_any_of (deref old) \<noteq> None \<or> sc_any_of (deref new) \<noteq> None \<longrightarrow>
        array_compatible (newSchemaArrayDiff (elems (sc_any_of (deref old))) (elems (sc_any_of (deref new))))) \<longleftrightarrow>
      list_upgrades upgrades (elems (sc_any_of (deref old))) (elems (sc_any_of (deref new)))"
    "(sc_all_of (deref old) \<noteq> None \<or> sc_all_of (deref new) \<noteq> None \<longrightarrow>
        array_compatible (newSchemaArrayDiff (elems (sc_all_of (deref old))) (elems (sc_all_of (deref new))))) \<longleftrightarrow>
      list_upgrades upgrades (elems (sc_all_of (deref old))) (elems (sc_all_of (deref new)))"
    using obj [OF call_sizes(1)] arr [OF call_sizes(3)] arr [OF call_sizes(4)] arr [OF call_sizes(5)]
    by auto
  show ?case
    by (simp only: diff_compatible_iff [of old new] guarded
        upgrades_iff [of "deref old" "deref new"]) (use item in blast)
qed

text \<open>The relation composes: a chain of compatible upgrades is one.\<close>

lemma list_upgrades_trans:
  assumes "list_upgrades R as bs" "list_upgrades S bs cs"
    and "\<And>a b c. a \<in> set as \<Longrightarrow> R a b \<Longrightarrow> S b c \<Longrightarrow> T a c"
  shows "list_upgrades T as cs"
  unfolding list_upgrades_def
proof (intro conjI ballI, safe)
  show "length as \<le> length cs" using assms(1,2) by (simp add: list_upgrades_def)
next
  fix a c assume "(a, c) \<in> set (zip as cs)"
  then obtain i where i: "i < length as" "i < length cs" "a = as ! i" "c = cs ! i"
    by (auto simp: set_zip)
  from i(1) assms(1) have bs: "i < length bs" by (simp add: list_upgrades_def)
  from i bs have "(a, bs ! i) \<in> set (zip as bs)" "(bs ! i, c) \<in> set (zip bs cs)"
    by (auto simp: set_zip)
  with assms(1,2) have "R a (bs ! i)" "S (bs ! i) c" by (auto simp: list_upgrades_def)
  with i assms(3) show "T a c" by simp
qed

lemma map_upgrades_trans:
  assumes "map_upgrades R as bs" "map_upgrades S bs cs"
    and "\<And>k a b c. (k, a) \<in> set as \<Longrightarrow> R a b \<Longrightarrow> S b c \<Longrightarrow> T a c"
  shows "map_upgrades T as cs"
  unfolding map_upgrades_def
proof safe
  fix k a assume a: "(k, a) \<in> set as"
  with assms(1) obtain b where b: "map_of bs k = Some b" "R a b"
    by (auto simp: map_upgrades_def)
  from map_of_SomeD [OF b(1)] assms(2) obtain c where "map_of cs k = Some c" "S b c"
    by (auto simp: map_upgrades_def)
  with a b assms(3) show "\<exists>c. map_of cs k = Some c \<and> T a c" by blast
qed

lemma upgrades_trans:
  assumes "upgrades a b" "upgrades b c"
  shows "upgrades a c"
  using assms
proof (induction a b arbitrary: c rule: upgrades.induct)
  case (upgradesI old new)
  from upgradesI.prems have new: "upgrades new c" .
  note parts = new [unfolded upgrades_iff [of new c]]
  have "sc_items old \<noteq> None \<or> sc_items c \<noteq> None \<longrightarrow>
      upgrades (deref (item_schema old)) (deref (item_schema c))"
    using upgradesI.IH(2) parts by (auto simp: item_schema_def)
  with upgradesI.hyps upgradesI.IH parts show ?case
    unfolding upgrades_iff [of old c]
    by (auto elim: map_upgrades_trans list_upgrades_trans)
qed

section \<open>Comparing two CRDs\<close>

text \<open>
  A CRD version holds a pointer to its validation (\<open>None\<close> is nil, and reading the schema
  through it panics), which holds a pointer to the schema. \<open>crd_other\<close> stands for the fields
  the synchronisation never reads.
\<close>

record crd_version =
  cv_name :: string
  cv_storage :: bool
  cv_schema :: "schema option option"
  cv_other :: string

datatype conversion = WebhookConverter string | NoneConverter

record crd =
  crd_name :: string
  crd_group :: string
  crd_plural :: string
  crd_versions :: "crd_version list"
  crd_conversion :: "conversion option"
  crd_resource_version :: string
  crd_other :: string

record compare_result =
  HasChange :: bool
  Compatible :: bool

definition hasChange :: "crd \<Rightarrow> crd \<Rightarrow> bool" where
  "hasChange old new \<longleftrightarrow>
     crd_versions old \<noteq> crd_versions new \<or> crd_conversion old \<noteq> crd_conversion new"

text \<open>A map from version names, filled in the order of the list.\<close>

definition version_map :: "crd_version list \<Rightarrow> string \<rightharpoonup> crd_version" where
  "version_map vs = foldl (\<lambda>m v. m(cv_name v \<mapsto> v)) Map.empty vs"

definition version_names :: "crd_version list \<Rightarrow> string list" where
  "version_names vs = remdups (map cv_name vs)"

fun compare_versions ::
    "(string \<rightharpoonup> crd_version) \<Rightarrow> (string \<rightharpoonup> crd_version) \<Rightarrow> string list
     \<Rightarrow> (api_error + bool) outcome" where
  "compare_versions oldVersions newVersions [] = Returned (Inr True)"
| "compare_versions oldVersions newVersions (k # ks) =
     (case oldVersions k of
        None \<Rightarrow> compare_versions oldVersions newVersions ks
      | Some oldVersion \<Rightarrow>
          (case newVersions k of
             None \<Rightarrow> Returned (Inl (OtherError ''version is not in the new CRD''))
           | Some newVersion \<Rightarrow>
               (case (cv_schema oldVersion, cv_schema newVersion) of
                  (Some oldSchema, Some newSchema) \<Rightarrow>
                    let diff = newSchemaDiff oldSchema newSchema in
                    if diff \<noteq> None \<and> \<not> diff_compatible diff then Returned (Inr False)
                    else compare_versions oldVersions newVersions ks
                | _ \<Rightarrow> Panicked)))"

definition isSpecChangeCompatible ::
    "(string list \<Rightarrow> string list) \<Rightarrow> crd \<Rightarrow> crd \<Rightarrow> (api_error + bool) outcome" where
  "isSpecChangeCompatible ord old new =
     (let oldVersions = version_map (crd_versions old);
          newVersions = version_map (crd_versions new)
      in if version_names (crd_versions new) = [] then Returned (Inr False)
         else compare_versions oldVersions newVersions (ord (version_names (crd_versions old))))"

definition CompareCRDSchemas ::
    "(string list \<Rightarrow> string list) \<Rightarrow> crd \<Rightarrow> crd \<Rightarrow> (api_error + compare_result) outcome" where
  "CompareCRDSchemas ord old new =
     (if \<not> hasChange old new then Returned (Inr \<lparr>HasChange = False, Compatible = True\<rparr>)
      else (case isSpecChangeCompatible ord old new of
          Panicked \<Rightarrow> Panicked
        | Returned (Inl err) \<Rightarrow> Returned (Inl err)
        | Returned (Inr ok) \<Rightarrow> Returned (Inr \<lparr>HasChange = True, Compatible = ok\<rparr>)))"

subsection \<open>Lemmas\<close>

lemma foldl_version_map:
  "foldl (\<lambda>m v. m(cv_name v \<mapsto> v)) m0 vs k =
     (case map_of (rev (map (\<lambda>v. (cv_name v, v)) vs)) k of None \<Rightarrow> m0 k | Some v \<Rightarrow> Some v)"
  by (induction vs arbitrary: m0) (auto simp: map_add_def split: option.splits)

lemma version_map_rev:
  "version_map vs k = map_of (rev (map (\<lambda>v. (cv_name v, v)) vs)) k"
  by (simp add: version_map_def foldl_version_map split: option.splits)

lemma version_map_Some: "version_map vs k = Some v \<Longrightarrow> v \<in> set vs \<and> cv_name v = k"
  by (auto simp: version_map_rev dest!: map_of_SomeD)

lemma version_map_None: "version_map vs k = None \<longleftrightarrow> k \<notin> cv_name ` set vs"
  by (auto simp: version_map_rev map_of_eq_None_iff image_image)

lemma version_names_set [simp]:
  "set (version_names vs) = cv_name ` set vs" "distinct (version_names vs)"
  by (simp_all add: version_names_def)

definition version_upgrades :: "crd_version option \<Rightarrow> crd_version option \<Rightarrow> bool" where
  "version_upgrades a b \<longleftrightarrow>
     (\<exists>va vb sa sb. a = Some va \<and> b = Some vb \<and> cv_schema va = Some sa \<and> cv_schema vb = Some sb \<and>
        upgrades (deref sa) (deref sb))"

lemma compare_versions_verdict:
  assumes "\<forall>k\<in>set ks. oldm k \<noteq> None \<and> newm k \<noteq> None"
    and "\<forall>k v. (oldm k = Some v \<or> newm k = Some v) \<longrightarrow> cv_schema v \<noteq> None"
  shows "compare_versions oldm newm ks =
    Returned (Inr (\<forall>k\<in>set ks. version_upgrades (oldm k) (newm k)))"
  using assms(1)
proof (induction ks)
  case Nil
  then show ?case by simp
next
  case (Cons k ks)
  then obtain va vb where k: "oldm k = Some va" "newm k = Some vb" by auto
  with assms(2) obtain sa sb where s: "cv_schema va = Some sa" "cv_schema vb = Some sb" by blast
  show ?case
  proof (cases "diff_compatible (newSchemaDiff sa sb)")
    case True
    with k s Cons show ?thesis
      by (simp add: version_upgrades_def diff_decides_upgrades)
  next
    case False
    then have "newSchemaDiff sa sb \<noteq> None" by (cases "newSchemaDiff sa sb") auto
    with False k s show ?thesis
      by (simp add: version_upgrades_def diff_decides_upgrades)
  qed
qed

lemma CompareCRDSchemas_verdict:
  assumes "range_order ord"
    and "\<forall>v\<in>set (crd_versions old) \<union> set (crd_versions new). cv_schema v \<noteq> None"
    and "cv_name ` set (crd_versions old) \<subseteq> cv_name ` set (crd_versions new)"
  shows "CompareCRDSchemas ord old new = Returned (Inr
    \<lparr>HasChange = hasChange old new,
     Compatible = (hasChange old new \<longrightarrow> crd_versions new \<noteq> [] \<and>
        (\<forall>k\<in>cv_name ` set (crd_versions old).
           version_upgrades (version_map (crd_versions old) k) (version_map (crd_versions new) k)))\<rparr>)"
proof -
  let ?ks = "ord (version_names (crd_versions old))"
  have ks: "set ?ks = cv_name ` set (crd_versions old)"
    using range_orderD(1) [OF assms(1)] by simp
  have "compare_versions (version_map (crd_versions old)) (version_map (crd_versions new)) ?ks =
    Returned (Inr (\<forall>k\<in>set ?ks. version_upgrades (version_map (crd_versions old) k)
       (version_map (crd_versions new) k)))"
  proof (rule compare_versions_verdict)
    show "\<forall>k\<in>set ?ks. version_map (crd_versions old) k \<noteq> None \<and> version_map (crd_versions new) k \<noteq> None"
      using assms(3) unfolding ks version_map_None by blast
    show "\<forall>k v. (version_map (crd_versions old) k = Some v \<or> version_map (crd_versions new) k = Some v) \<longrightarrow>
        cv_schema v \<noteq> None"
      using assms(2) by (blast dest: version_map_Some)
  qed
  then show ?thesis
    unfolding ks by (auto simp: CompareCRDSchemas_def isSpecChangeCompatible_def Let_def
        version_names_def)
qed

section \<open>Properties\<close>

text \<open>
  C4. The schema difference decides backward compatibility: the difference computed for two
  schemas is judged compatible exactly when the new schema keeps, at every level of
  properties, items and alternatives, the type and every property of the old one, and only
  appends alternatives. In particular the recursion of the algorithm ends on every pair of
  schemas.
\<close>

theorem schema_diff_decides_compatibility:
  "diff_compatible (newSchemaDiff (Some old) (Some new)) \<longleftrightarrow> upgrades old new"
  by (simp add: diff_decides_upgrades)

text \<open>
  Compatible schema changes compose: if each of two successive changes is judged
  compatible, so is the change from the first schema to the last, and an apiserver that
  skipped a release accepts it.
\<close>

theorem compatible_changes_compose:
  assumes "diff_compatible (newSchemaDiff (Some a) (Some b))"
    and "diff_compatible (newSchemaDiff (Some b) (Some c))"
  shows "diff_compatible (newSchemaDiff (Some a) (Some c))"
  using assms upgrades_trans by (simp add: diff_decides_upgrades)

definition leaf :: "string \<Rightarrow> schema" where
  "leaf t = Schema t None None None None None ''''"

definition object_of :: "(string \<times> schema) list \<Rightarrow> schema" where
  "object_of ps = Schema ''object'' (Some ps) None None None None ''''"

lemma upgrades_leaf [simp]: "upgrades (leaf t) (leaf t)"
  by (subst upgrades_iff) (simp add: leaf_def)

lemma upgrades_object:
  "map_upgrades upgrades ps qs \<Longrightarrow> upgrades (object_of ps) (object_of qs)"
  by (subst upgrades_iff) (simp add: object_of_def)

lemma compatible_changes_compose_witness:
  "diff_compatible (newSchemaDiff (Some (object_of []))
     (Some (object_of [(''a'', leaf ''string''), (''b'', leaf ''integer'')])))"
proof (rule compatible_changes_compose)
  show "diff_compatible (newSchemaDiff (Some (object_of [])) (Some (object_of [(''a'', leaf ''string'')])))"
    by (simp add: diff_decides_upgrades upgrades_object)
  show "diff_compatible (newSchemaDiff (Some (object_of [(''a'', leaf ''string'')]))
      (Some (object_of [(''a'', leaf ''string''), (''b'', leaf ''integer'')])))"
    by (simp add: diff_decides_upgrades upgrades_object map_upgrades_def)
qed

text \<open>
  The verdict on two CRDs. When every version carries a schema object and every version
  of the old CRD is still in the new one, the comparison succeeds whatever order the version
  map is ranged over in; it reports a change exactly when the versions or the conversion
  differ, and a reported change is compatible exactly when the new CRD has a version and
  every old version's schema upgrades to the new schema of the same name.
\<close>

theorem crd_comparison_verdict:
  assumes "range_order ord"
    and "\<forall>v\<in>set (crd_versions old) \<union> set (crd_versions new). cv_schema v \<noteq> None"
    and "cv_name ` set (crd_versions old) \<subseteq> cv_name ` set (crd_versions new)"
  shows "CompareCRDSchemas ord old new = Returned (Inr
    \<lparr>HasChange = hasChange old new,
     Compatible = (hasChange old new \<longrightarrow> crd_versions new \<noteq> [] \<and>
        (\<forall>k\<in>cv_name ` set (crd_versions old).
           version_upgrades (version_map (crd_versions old) k) (version_map (crd_versions new) k)))\<rparr>)"
  by (rule CompareCRDSchemas_verdict [OF assms])

definition example_version :: "string \<Rightarrow> schema \<Rightarrow> crd_version" where
  "example_version name s =
     \<lparr>cv_name = name, cv_storage = True, cv_schema = Some (Some s), cv_other = ''''\<rparr>"

definition example_crd :: "crd_version list \<Rightarrow> crd" where
  "example_crd vs =
     \<lparr>crd_name = ''pipelines.michelangelo.api'', crd_group = ''michelangelo.api'', crd_plural = ''pipelines'',
      crd_versions = vs, crd_conversion = None, crd_resource_version = ''7'', crd_other = ''''\<rparr>"

lemma example_sel [simp]:
  "cv_name (example_version n s) = n" "cv_schema (example_version n s) = Some (Some s)"
  "crd_versions (example_crd vs) = vs" "crd_conversion (example_crd vs) = None"
  "crd_name (example_crd vs) = ''pipelines.michelangelo.api''"
  "cv_storage (example_version n s)"
  by (simp_all add: example_version_def example_crd_def)

text \<open>Removing a property is a change, and an incompatible one.\<close>

lemma crd_comparison_verdict_witness:
  "CompareCRDSchemas (\<lambda>ks. ks)
     (example_crd [example_version ''v2'' (object_of [(''a'', leaf ''string'')])])
     (example_crd [example_version ''v2'' (object_of [])])
   = Returned (Inr \<lparr>HasChange = True, Compatible = False\<rparr>)"
proof -
  have no: "\<not> upgrades (object_of [(''a'', leaf ''string'')]) (object_of [])"
    by (subst upgrades_iff) (simp add: object_of_def map_upgrades_def)
  then have "object_of [(''a'', leaf ''string'')] \<noteq> object_of []"
    by (simp add: object_of_def)
  then have "example_version ''v2'' (object_of [(''a'', leaf ''string'')]) \<noteq> example_version ''v2'' (object_of [])"
    by (metis example_sel(2) option.inject)
  with no show ?thesis
    by (subst crd_comparison_verdict)
      (auto simp: hasChange_def version_map_def version_upgrades_def)
qed

end
