(* ===== verification/Crd_Sync.thy ===== *)
theory Crd_Sync
  imports Crd_Schema
begin

text \<open>
  Synchronising the CRDs of the API server with the ones the program was built with
  (\<^verbatim>\<open>go/api/crd/gateway.go\<close> and \<^verbatim>\<open>go/api/crd/sync.go\<close>): the gateway's guarded upsert and
  delete, the merge of single-version CRDs under the version configuration, and the
  start-up hook that puts them together. The API server's client, the YAML decoder and the
  back-off library are parameters. Wrapping an error with \<^verbatim>\<open>%w\<close> keeps what the predicates on
  errors look at, so a wrapped error is the error.
\<close>

section \<open>Environment and trace\<close>

datatype crd_event =
    CGet string
  | CCreate crd "api_error option"
  | CUpdate crd "api_error option"
  | CDelete string "api_error option"
  | CList
  | CInstances string string string "api_error + nat"

text \<open>
  \<open>ce_instances\<close> lists at most one object of a group, version and plural; \<open>ce_decode\<close> is the
  YAML decoder; \<open>ce_unexpected\<close> is \<^verbatim>\<open>IsUnexpectedServerError\<close>; \<open>ce_stop\<close> is the exponential
  back-off giving up before the retries are used up (its elapsed time is bounded).
\<close>

record crd_env =
  ce_get :: "crd_event list \<Rightarrow> string \<Rightarrow> api_error + crd"
  ce_create :: "crd_event list \<Rightarrow> crd \<Rightarrow> api_error option"
  ce_update :: "crd_event list \<Rightarrow> crd \<Rightarrow> api_error option"
  ce_delete :: "crd_event list \<Rightarrow> string \<Rightarrow> api_error option"
  ce_list :: "crd_event list \<Rightarrow> api_error + crd list"
  ce_instances :: "crd_event list \<Rightarrow> string \<Rightarrow> string \<Rightarrow> string \<Rightarrow> api_error + nat"
  ce_stop :: "crd_event list \<Rightarrow> bool"
  ce_decode :: "string \<Rightarrow> api_error + crd"
  ce_unexpected :: "api_error \<Rightarrow> bool"
  ce_order :: "string list \<Rightarrow> string list"

type_synonym 'a crd_io = "(crd_event, 'a) io"

section \<open>The gateway\<close>

fun hasInstances_loop :: "crd_env \<Rightarrow> crd \<Rightarrow> crd_version list \<Rightarrow> (api_error + bool) crd_io" where
  "hasInstances_loop R c [] = State_Monad.return (Inr False)"
| "hasInstances_loop R c (v # vs) =
     (if \<not> cv_storage v then hasInstances_loop R c vs
      else do {
        result \<leftarrow> ask (\<lambda>h. ce_instances R h (crd_group c) (cv_name v) (crd_plural c))
                    (CInstances (crd_group c) (cv_name v) (crd_plural c));
        (case result of
           Inl err \<Rightarrow> if IsNotFoundError err then hasInstances_loop R c vs
                      else State_Monad.return (Inl err)
         | Inr items \<Rightarrow> if items > 0 then State_Monad.return (Inr True)
                        else hasInstances_loop R c vs)
      })"

definition hasInstances :: "crd_env \<Rightarrow> crd \<Rightarrow> (api_error + bool) crd_io" where
  "hasInstances R c = hasInstances_loop R c (crd_versions c)"

definition version_dropped :: "crd \<Rightarrow> crd \<Rightarrow> bool" where
  "version_dropped onServer c \<longleftrightarrow>
     (\<exists>v\<in>set (crd_versions onServer). \<not> list_ex (\<lambda>n. cv_name v = cv_name n) (crd_versions c))"

text \<open>The update at the end of \<^verbatim>\<open>ConditionalUpsert\<close> writes the resource version into the
  caller's CRD, so the CRD is returned with the error.\<close>

definition update_crd :: "crd_env \<Rightarrow> crd \<Rightarrow> crd \<Rightarrow> (crd \<times> api_error option) crd_io" where
  "update_crd R onServer c = do {
     let c' = c\<lparr>crd_resource_version := crd_resource_version onServer\<rparr>;
     err \<leftarrow> ask (\<lambda>h. ce_update R h c') (CUpdate c');
     State_Monad.return (c', err)
   }"

definition ConditionalUpsert ::
    "crd_env \<Rightarrow> crd \<Rightarrow> bool \<Rightarrow> (crd \<times> api_error option) outcome crd_io" where
  "ConditionalUpsert R c enableIncompatibleUpdate = do {
     got \<leftarrow> ask (\<lambda>h. ce_get R h (crd_name c)) (\<lambda>_. CGet (crd_name c));
     (case got of
        Inl err \<Rightarrow>
          if k8s_is_not_found err then do {
            err \<leftarrow> ask (\<lambda>h. ce_create R h c) (CCreate c);
            State_Monad.return (Returned (c, err))
          }
          else State_Monad.return (Returned (c, Some err))
      | Inr onServer \<Rightarrow>
          if version_dropped onServer c then
            State_Monad.return (Returned (c, Some (OtherError ''version is not in the new CRD'')))
          else (case CompareCRDSchemas (ce_order R) onServer c of
              Panicked \<Rightarrow> State_Monad.return Panicked
            | Returned (Inl err) \<Rightarrow> State_Monad.return (Returned (c, Some err))
            | Returned (Inr compareResult) \<Rightarrow>
                if \<not> HasChange compareResult then State_Monad.return (Returned (c, None))
                else if \<not> Compatible compareResult \<and> \<not> enableIncompatibleUpdate then do {
                  has \<leftarrow> hasInstances R onServer;
                  (case has of
                     Inl e \<Rightarrow> State_Monad.return (Returned (c, Some e))
                   | Inr True \<Rightarrow>
                       State_Monad.return (Returned (c, Some (OtherError ''existing instances'')))
                   | Inr False \<Rightarrow> do {
                       r \<leftarrow> update_crd R onServer c;
                       State_Monad.return (Returned r)
                     })
                }
                else do {
                  r \<leftarrow> update_crd R onServer c;
                  State_Monad.return (Returned r)
                }))
   }"

definition gateway_Delete :: "crd_env \<Rightarrow> crd \<Rightarrow> api_error option crd_io" where
  "gateway_Delete R c = do {
     has \<leftarrow> hasInstances R c;
     (case has of
        Inl err \<Rightarrow> State_Monad.return (Some err)
      | Inr True \<Rightarrow> State_Monad.return (Some (OtherError ''existing resources''))
      | Inr False \<Rightarrow> ask (\<lambda>h. ce_delete R h (crd_name c)) (CDelete (crd_name c)))
   }"

definition gateway_List :: "crd_env \<Rightarrow> (api_error + crd list) crd_io" where
  "gateway_List R = ask (ce_list R) (\<lambda>_. CList)"

section \<open>Merging the versions of a CRD\<close>

record version_config =
  vc_versions :: "string list"
  vc_storage_version :: string

text \<open>Go maps from CRD name to version name to CRD, as association lists in insertion order.\<close>

type_synonym grouped = "(string \<times> (string \<times> crd) list) list"

fun put_version :: "string \<Rightarrow> string \<Rightarrow> crd \<Rightarrow> grouped \<Rightarrow> grouped" where
  "put_version name ver c [] = [(name, [(ver, c)])]"
| "put_version name ver c ((n, vs) # m) =
     (if n = name then (n, vs @ [(ver, c)]) # m else (n, vs) # put_version name ver c m)"

definition versions_of :: "grouped \<Rightarrow> string \<Rightarrow> (string \<times> crd) list" where
  "versions_of m name = (case map_of m name of None \<Rightarrow> [] | Some vs \<Rightarrow> vs)"

fun group_crds :: "grouped \<Rightarrow> crd list \<Rightarrow> api_error + grouped" where
  "group_crds m [] = Inr m"
| "group_crds m (c # cs) =
     (case crd_versions c of
        [v] \<Rightarrow>
          if map_of (versions_of m (crd_name c)) (cv_name v) \<noteq> None
            then Inl (OtherError ''duplicated definitions of version'')
          else group_crds (put_version (crd_name c) (cv_name v) c m) cs
      | _ \<Rightarrow> Inl (OtherError ''each CRD item must only have one version''))"

text \<open>Setting the storage flag of the first version with the given name.\<close>

fun set_storage :: "string \<Rightarrow> crd_version list \<Rightarrow> crd_version list option" where
  "set_storage name [] = None"
| "set_storage name (v # vs) =
     (if cv_name v = name then Some (v\<lparr>cv_storage := True\<rparr> # vs)
      else map_option (\<lambda>vs'. v # vs') (set_storage name vs))"

definition append_versions :: "(string \<times> crd) list \<Rightarrow> crd \<Rightarrow> string list \<Rightarrow> crd" where
  "append_versions versions base names =
     base\<lparr>crd_versions := crd_versions base @
       map (\<lambda>version. crd_versions (the (map_of versions version)) ! 0) names\<rparr>"

definition choose_storage :: "string \<Rightarrow> crd \<Rightarrow> api_error + crd" where
  "choose_storage storageVersion merged =
     (let reset = map (\<lambda>v. v\<lparr>cv_storage := False\<rparr>) (crd_versions merged) in
      if storageVersion = '''' then
        (case reset of
           [v] \<Rightarrow> Inr (merged\<lparr>crd_versions := [v\<lparr>cv_storage := True\<rparr>]\<rparr>)
         | _ \<Rightarrow> Inl (OtherError ''multiple versions, but no storageVersion specified''))
      else (case set_storage storageVersion reset of
           None \<Rightarrow> Inl (OtherError ''does not have the specified storage version'')
         | Some vs \<Rightarrow> Inr (merged\<lparr>crd_versions := vs\<rparr>)))"

definition choose_conversion :: "string option \<Rightarrow> crd \<Rightarrow> crd" where
  "choose_conversion webhook merged =
     (if length (crd_versions merged) > 1
      then merged\<lparr>crd_conversion := Some (case webhook of
             Some w \<Rightarrow> WebhookConverter w | None \<Rightarrow> NoneConverter)\<rparr>
      else merged)"

definition merge_one ::
    "(string \<rightharpoonup> version_config) \<Rightarrow> string option \<Rightarrow> string \<Rightarrow> (string \<times> crd) list
     \<Rightarrow> (api_error + crd) outcome" where
  "merge_one crdVersions webhook name versions =
     (case crdVersions name of
        Some versionConfig \<Rightarrow>
          if list_ex (\<lambda>version. map_of versions version = None) (vc_versions versionConfig)
            then Returned (Inl (OtherError ''version does not exist in crdList''))
          else (case vc_versions versionConfig of
              [] \<Rightarrow> Panicked
            | v0 # rest \<Rightarrow>
                (case choose_storage (vc_storage_version versionConfig)
                    (append_versions versions (the (map_of versions v0)) rest) of
                   Inl err \<Rightarrow> Returned (Inl err)
                 | Inr merged \<Rightarrow> Returned (Inr (choose_conversion webhook merged))))
      | None \<Rightarrow>
          if length versions > 1
            then Returned (Inl (OtherError ''multiple versions but no version config''))
          else (case versions of
              (_, c) # _ \<Rightarrow> Returned (Inr (c\<lparr>crd_versions :=
                 (crd_versions c)[0 := (crd_versions c ! 0)\<lparr>cv_storage := True\<rparr>]\<rparr>))
            | [] \<Rightarrow> Panicked))"

fun merge_all ::
    "(string \<rightharpoonup> version_config) \<Rightarrow> string option \<Rightarrow> grouped \<Rightarrow> string list
     \<Rightarrow> (api_error + crd list) outcome" where
  "merge_all crdVersions webhook m [] = Returned (Inr [])"
| "merge_all crdVersions webhook m (name # names) =
     (case merge_one crdVersions webhook name (versions_of m name) of
        Panicked \<Rightarrow> Panicked
      | Returned (Inl err) \<Rightarrow> Returned (Inl err)
      | Returned (Inr merged) \<Rightarrow>
          (case merge_all crdVersions webhook m names of
             Returned (Inr result) \<Rightarrow> Returned (Inr (merged # result))
           | other \<Rightarrow> other))"

definition mergeCRDVersions ::
    "(string list \<Rightarrow> string list) \<Rightarrow> crd list \<Rightarrow> (string \<rightharpoonup> version_config) \<Rightarrow> string option
     \<Rightarrow> (api_error + crd list) outcome" where
  "mergeCRDVersions ord crdList crdVersions webhook =
     (case group_crds [] crdList of
        Inl err \<Rightarrow> Returned (Inl err)
      | Inr m \<Rightarrow> merge_all crdVersions webhook m (ord (map fst m)))"

section \<open>Synchronisation\<close>

definition k8sMaxRetries :: nat where "k8sMaxRetries = 3"

definition isInAllowList :: "string \<Rightarrow> string list \<Rightarrow> bool" where
  "isInAllowList crdName allowList = list_ex (\<lambda>allowed. crdName = allowed) allowList"

fun error_reason :: "api_error \<Rightarrow> status_reason option" where
  "error_reason (K8sStatusError r) = Some r"
| "error_reason (K8sOtherAPIStatus r) = Some r"
| "error_reason _ = None"

definition transient :: "crd_env \<Rightarrow> api_error \<Rightarrow> bool" where
  "transient R err \<longleftrightarrow>
     error_reason err \<in> {Some ReasonConflict, Some ReasonServerTimeout, Some ReasonTooManyRequests,
       Some ReasonInternalError, Some ReasonServiceUnavailable} \<or> ce_unexpected R err"

text \<open>
  \<^verbatim>\<open>backoff.Retry\<close> with \<open>n\<close> retries left: a permanent error or a success ends it, a transient
  error is retried unless the back-off stops. The closure works on the same CRD every time.
\<close>

fun retry_upsert ::
    "crd_env \<Rightarrow> bool \<Rightarrow> nat \<Rightarrow> crd \<Rightarrow> (crd \<times> api_error option) outcome crd_io" where
  "retry_upsert R incompatible n c = do {
     result \<leftarrow> ConditionalUpsert R c incompatible;
     (case result of
        Returned (c', Some err) \<Rightarrow>
          if transient R err then do {
            stop \<leftarrow> peek (ce_stop R);
            (case n of
               0 \<Rightarrow> State_Monad.return result
             | Suc n' \<Rightarrow> if stop then State_Monad.return result
                         else retry_upsert R incompatible n' c')
          }
          else State_Monad.return result
      | _ \<Rightarrow> State_Monad.return result)
   }"

declare retry_upsert.simps [simp del]

fun upsertCRDs ::
    "crd_env \<Rightarrow> bool \<Rightarrow> string list \<Rightarrow> crd list \<Rightarrow> api_error option outcome crd_io" where
  "upsertCRDs R skipIncompatibleCheck allowList [] = State_Monad.return (Returned None)"
| "upsertCRDs R skipIncompatibleCheck allowList (c # cs) = do {
     let enableIncompatibleUpdate = skipIncompatibleCheck \<or> isInAllowList (crd_name c) allowList;
     result \<leftarrow> retry_upsert R enableIncompatibleUpdate k8sMaxRetries c;
     (case result of
        Panicked \<Rightarrow> State_Monad.return Panicked
      | Returned (_, Some err) \<Rightarrow> State_Monad.return (Returned (Some err))
      | Returned (_, None) \<Rightarrow> upsertCRDs R skipIncompatibleCheck allowList cs)
   }"

text \<open>Decoding one map of schemas, its keys ranged over in some order, and then all of them.\<close>

fun decode_map :: "crd_env \<Rightarrow> string \<Rightarrow> (string \<rightharpoonup> string) \<Rightarrow> string list \<Rightarrow> api_error + crd list" where
  "decode_map R apiGroup schemaMap [] = Inr []"
| "decode_map R apiGroup schemaMap (kind # kinds) =
     (case schemaMap kind of
        None \<Rightarrow> decode_map R apiGroup schemaMap kinds
      | Some yamlStr \<Rightarrow>
          (case ce_decode R yamlStr of
             Inl err \<Rightarrow> Inl err
           | Inr c \<Rightarrow>
               if apiGroup \<noteq> crd_group c then Inl (OtherError ''CRD is not in the specified apiGroup'')
               else (case decode_map R apiGroup schemaMap kinds of
                   Inl err \<Rightarrow> Inl err
                 | Inr cs \<Rightarrow> Inr (c # cs))))"

fun decode_all ::
    "crd_env \<Rightarrow> string \<Rightarrow> (string \<times> string) list list \<Rightarrow> api_error + crd list" where
  "decode_all R apiGroup [] = Inr []"
| "decode_all R apiGroup (schemaMap # schemaMaps) =
     (case decode_map R apiGroup (map_of schemaMap) (ce_order R (map fst schemaMap)) of
        Inl err \<Rightarrow> Inl err
      | Inr cs \<Rightarrow>
          (case decode_all R apiGroup schemaMaps of
             Inl err \<Rightarrow> Inl err
           | Inr rest \<Rightarrow> Inr (cs @ rest)))"

fun delete_stale ::
    "crd_env \<Rightarrow> string \<Rightarrow> bool \<Rightarrow> crd list \<Rightarrow> crd list \<Rightarrow> api_error option crd_io" where
  "delete_stale R apiGroup enableCRDDeletion crdList [] = State_Monad.return None"
| "delete_stale R apiGroup enableCRDDeletion crdList (c # existing) =
     (if apiGroup \<noteq> crd_group c then delete_stale R apiGroup enableCRDDeletion crdList existing
      else if list_ex (\<lambda>newCRD. crd_name c = crd_name newCRD) crdList
        then delete_stale R apiGroup enableCRDDeletion crdList existing
      else if enableCRDDeletion then do {
        err \<leftarrow> gateway_Delete R c;
        (case err of
           Some e \<Rightarrow> if \<not> IsNotFoundError e then State_Monad.return (Some e)
                     else delete_stale R apiGroup enableCRDDeletion crdList existing
         | None \<Rightarrow> delete_stale R apiGroup enableCRDDeletion crdList existing)
      }
      else delete_stale R apiGroup enableCRDDeletion crdList existing)"

record crd_config =
  EnableCRDUpdate :: bool
  EnableCRDDeletion :: bool
  SkipIncompatibleCheck :: bool
  CRDVersions :: "string \<rightharpoonup> version_config"

definition syncCRDs ::
    "crd_env \<Rightarrow> string \<Rightarrow> crd_config \<Rightarrow> string option \<Rightarrow> string list
     \<Rightarrow> (string \<times> string) list list \<Rightarrow> api_error option outcome crd_io" where
  "syncCRDs R apiGroup conf webhook allowList yamlSchemas =
     (case decode_all R apiGroup yamlSchemas of
        Inl err \<Rightarrow> State_Monad.return (Returned (Some err))
      | Inr crdList \<Rightarrow> do {
          existing \<leftarrow> gateway_List R;
          (case existing of
             Inl err \<Rightarrow> State_Monad.return (Returned (Some err))
           | Inr existingCRDs \<Rightarrow> do {
               err \<leftarrow> delete_stale R apiGroup (EnableCRDDeletion conf) crdList existingCRDs;
               (case err of
                  Some e \<Rightarrow> State_Monad.return (Returned (Some e))
                | None \<Rightarrow>
                    (case mergeCRDVersions (ce_order R) crdList (CRDVersions conf) webhook of
                       Panicked \<Rightarrow> State_Monad.return Panicked
                     | Returned (Inl e) \<Rightarrow> State_Monad.return (Returned (Some e))
                     | Returned (Inr mergedCRDList) \<Rightarrow>
                         upsertCRDs R (SkipIncompatibleCheck conf) allowList mergedCRDList))
             })
        })"

definition SyncCRDs ::
    "crd_env \<Rightarrow> string \<Rightarrow> crd_config \<Rightarrow> string option \<Rightarrow> string list
     \<Rightarrow> (string \<times> string) list list \<Rightarrow> api_error option outcome crd_io" where
  "SyncCRDs R apiGroup conf webhook allowList yamlSchemas =
     (if EnableCRDUpdate conf then syncCRDs R apiGroup conf webhook allowList yamlSchemas
      else State_Monad.return (Returned None))"

section \<open>Library\<close>

subsection \<open>The gateway's look at instances\<close>

fun no_instances :: "api_error + nat \<Rightarrow> bool" where
  "no_instances (Inl err) \<longleftrightarrow> IsNotFoundError err"
| "no_instances (Inr items) \<longleftrightarrow> items = 0"

text \<open>\<open>checked_empty c tr\<close>: every storage version of the CRD was listed and had no instance.\<close>

definition checked_empty :: "crd \<Rightarrow> crd_version list \<Rightarrow> crd_event list \<Rightarrow> bool" where
  "checked_empty c vs tr \<longleftrightarrow> (\<forall>v\<in>set vs. cv_storage v \<longrightarrow>
     (\<exists>a. CInstances (crd_group c) (cv_name v) (crd_plural c) a \<in> set tr \<and> no_instances a))"

fun is_look :: "crd_event \<Rightarrow> bool" where
  "is_look (CInstances g v p a) \<longleftrightarrow> True"
| "is_look _ \<longleftrightarrow> False"

lemma hasInstances_loop_run:
  "\<exists>tr r. run_state (hasInstances_loop R c vs) h = (r, h @ tr) \<and> list_all is_look tr \<and>
     (r = Inr False \<longrightarrow> checked_empty c vs tr)"
proof (induction vs arbitrary: h)
  case Nil
  then show ?case by (simp add: checked_empty_def)
next
  case (Cons v vs)
  show ?case
  proof (cases "cv_storage v")
    case False
    then have skip: "checked_empty c (v # vs) tr = checked_empty c vs tr" for tr
      by (simp add: checked_empty_def)
    from False have "hasInstances_loop R c (v # vs) = hasInstances_loop R c vs" by simp
    then show ?thesis unfolding skip using Cons [of h] by simp
  next
    case True
    let ?a = "ce_instances R h (crd_group c) (cv_name v) (crd_plural c)"
    let ?ev = "CInstances (crd_group c) (cv_name v) (crd_plural c) ?a"
    from Cons [of "h @ [?ev]"] obtain tr r where
      IH: "run_state (hasInstances_loop R c vs) (h @ [?ev]) = (r, h @ ?ev # tr)" "list_all is_look tr"
        "r = Inr False \<longrightarrow> checked_empty c vs tr" by auto
    show ?thesis
    proof (cases "no_instances ?a")
      case empty: True
      then have "run_state (hasInstances_loop R c (v # vs)) h = (r, h @ ?ev # tr)"
        using True IH(1) by (cases ?a) auto
      moreover have "checked_empty c vs tr \<longrightarrow> checked_empty c (v # vs) (?ev # tr)"
        using empty unfolding checked_empty_def by auto
      ultimately show ?thesis using IH by auto
    next
      case False
      then show ?thesis using True by (cases ?a) auto
    qed
  qed
qed

lemma hasInstances_run:
  obtains tr r where "run_state (hasInstances R c) h = (r, h @ tr)" "list_all is_look tr"
    "r = Inr False \<longrightarrow> checked_empty c (crd_versions c) tr"
  using hasInstances_loop_run [of R c "crd_versions c" h] unfolding hasInstances_def by blast

lemma list_all_look_no_write:
  "list_all is_look tr \<Longrightarrow> CUpdate c e \<notin> set tr \<and> CDelete nm e \<notin> set tr \<and> CGet nm \<notin> set tr \<and>
     CCreate c e \<notin> set tr"
  by (auto simp: list_all_iff)

text \<open>Deleting a CRD asks for instances first.\<close>

lemma gateway_Delete_run:
  "\<exists>tr r. run_state (gateway_Delete R c) h = (r, h @ tr) \<and>
     (list_all is_look tr \<or>
      (\<exists>looks e. tr = looks @ [CDelete (crd_name c) e] \<and> list_all is_look looks \<and>
         checked_empty c (crd_versions c) looks))"
proof -
  obtain tr r where run: "run_state (hasInstances R c) h = (r, h @ tr)" "list_all is_look tr"
    "r = Inr False \<longrightarrow> checked_empty c (crd_versions c) tr" by (rule hasInstances_run)
  then show ?thesis
    by (cases r) (auto simp: gateway_Delete_def split: bool.splits)
qed

lemma run_update_crd [simp]:
  "run_state (update_crd R onServer c) h =
     (let c' = c\<lparr>crd_resource_version := crd_resource_version onServer\<rparr>; e = ce_update R h c'
      in ((c', e), h @ [CUpdate c' e]))"
  by (simp add: update_crd_def Let_def)

text \<open>Every event of a run of the upsert, by cases on what the server has.\<close>

lemma ConditionalUpsert_run:
  "\<exists>tr r. run_state (ConditionalUpsert R c inc) h = (r, h @ CGet (crd_name c) # tr) \<and>
     (list_all is_look tr \<or>
      (\<exists>e. tr = [CCreate c e] \<and> (\<exists>err. ce_get R h (crd_name c) = Inl err \<and> k8s_is_not_found err)) \<or>
      (\<exists>looks onServer cmp e. tr = looks @ [CUpdate (c\<lparr>crd_resource_version := crd_resource_version onServer\<rparr>) e] \<and>
         list_all is_look looks \<and> ce_get R h (crd_name c) = Inr onServer \<and> \<not> version_dropped onServer c \<and>
         CompareCRDSchemas (ce_order R) onServer c = Returned (Inr cmp) \<and> HasChange cmp \<and>
         (Compatible cmp \<or> inc \<or> checked_empty onServer (crd_versions onServer) looks)))"
proof (cases "ce_get R h (crd_name c)")
  case (Inl err)
  then show ?thesis by (auto simp: ConditionalUpsert_def)
next
  case (Inr onServer)
  show ?thesis
  proof (cases "version_dropped onServer c")
    case True
    with Inr show ?thesis by (auto simp: ConditionalUpsert_def)
  next
    case kept: False
    show ?thesis
    proof (cases "CompareCRDSchemas (ce_order R) onServer c")
      case Panicked
      with Inr kept show ?thesis by (auto simp: ConditionalUpsert_def)
    next
      case (Returned res)
      show ?thesis
      proof (cases res)
        case (Inl err)
        with Returned Inr kept show ?thesis by (auto simp: ConditionalUpsert_def)
      next
        case cmp: (Inr cmp)
        obtain looks r where has: "run_state (hasInstances R onServer) (h @ [CGet (crd_name c)]) =
            (r, (h @ [CGet (crd_name c)]) @ looks)" "list_all is_look looks"
          "r = Inr False \<longrightarrow> checked_empty onServer (crd_versions onServer) looks"
          by (rule hasInstances_run)
        let ?c = "c\<lparr>crd_resource_version := crd_resource_version onServer\<rparr>"
        note facts = Inr kept Returned cmp
        consider (same) "\<not> HasChange cmp" | (direct) "HasChange cmp" "Compatible cmp \<or> inc"
          | (guarded) "HasChange cmp" "\<not> (Compatible cmp \<or> inc)" by blast
        then show ?thesis
        proof cases
          case same
          with facts show ?thesis by (auto simp: ConditionalUpsert_def)
        next
          case direct
          with facts have "run_state (ConditionalUpsert R c inc) h =
            (Returned (?c, ce_update R (h @ [CGet (crd_name c)]) ?c),
             h @ CGet (crd_name c) # [] @ [CUpdate ?c (ce_update R (h @ [CGet (crd_name c)]) ?c)])"
            by (auto simp: ConditionalUpsert_def Let_def)
          with direct facts show ?thesis by fastforce
        next
          case guarded
          show ?thesis
          proof (cases "r = Inr False")
            case True
            with has guarded facts have "run_state (ConditionalUpsert R c inc) h =
              (Returned (?c, ce_update R (h @ CGet (crd_name c) # looks) ?c),
               h @ CGet (crd_name c) # looks @ [CUpdate ?c (ce_update R (h @ CGet (crd_name c) # looks) ?c)])"
              by (simp add: ConditionalUpsert_def Let_def)
            with has(2,3) True guarded facts show ?thesis by blast
          next
            case False
            with has guarded facts obtain res where
              "run_state (ConditionalUpsert R c inc) h = (res, h @ CGet (crd_name c) # looks)"
              by (cases r) (auto simp: ConditionalUpsert_def split: bool.splits)
            with has(2) show ?thesis by blast
          qed
        qed
      qed
    qed
  qed
qed

subsection \<open>Merging\<close>

definition storage_count :: "crd_version list \<Rightarrow> nat" where
  "storage_count vs = length (filter cv_storage vs)"

lemma set_storage_count:
  "set_storage name vs = Some vs' \<Longrightarrow> \<forall>v\<in>set vs. \<not> cv_storage v \<Longrightarrow> storage_count vs' = 1"
proof (induction vs arbitrary: vs')
  case (Cons v vs)
  then show ?case
    by (auto simp: storage_count_def filter_empty_conv split: if_splits)
qed simp

lemma choose_storage_count:
  assumes "choose_storage sv merged = Inr c"
  shows "storage_count (crd_versions c) = 1"
proof (cases "sv = ''''")
  case True
  with assms show ?thesis
    by (auto simp: choose_storage_def storage_count_def Let_def split: list.splits)
next
  case False
  with assms obtain vs where "c = merged\<lparr>crd_versions := vs\<rparr>"
    "set_storage sv (map (\<lambda>v. v\<lparr>cv_storage := False\<rparr>) (crd_versions merged)) = Some vs"
    by (auto simp: choose_storage_def Let_def split: option.splits)
  then show ?thesis using set_storage_count by fastforce
qed

lemma choose_conversion_versions [simp]: "crd_versions (choose_conversion w c) = crd_versions c"
  by (simp add: choose_conversion_def)

lemma choose_conversion_name [simp]: "crd_name (choose_conversion w c) = crd_name c"
  by (simp add: choose_conversion_def)

text \<open>Every CRD of a grouping has one version and is filed under its own name.\<close>

definition grouped_ok :: "grouped \<Rightarrow> bool" where
  "grouped_ok m \<longleftrightarrow> distinct (map fst m) \<and>
     (\<forall>(name, vs)\<in>set m. vs \<noteq> [] \<and> (\<forall>(ver, c)\<in>set vs. crd_name c = name \<and> length (crd_versions c) = 1))"

lemma put_version_names: "fst ` set (put_version name ver c m) = insert name (fst ` set m)"
  by (induction name ver c m rule: put_version.induct) (simp_all add: insert_commute)

lemma put_version_ok:
  assumes "grouped_ok m" "crd_name c = name" "length (crd_versions c) = 1"
  shows "grouped_ok (put_version name ver c m)"
  using assms
proof (induction m)
  case Nil
  then show ?case by (simp add: grouped_ok_def)
next
  case (Cons p m)
  obtain n vs where p: "p = (n, vs)" by (cases p)
  from Cons.prems p have m: "grouped_ok m" by (simp add: grouped_ok_def)
  from Cons.IH [OF m Cons.prems(2,3)] have ih: "grouped_ok (put_version name ver c m)" .
  show ?case
  proof (cases "n = name")
    case True
    with Cons.prems p show ?thesis by (auto simp: grouped_ok_def)
  next
    case False
    with Cons.prems p ih put_version_names [of name ver c m] show ?thesis
      by (auto simp: grouped_ok_def)
  qed
qed

lemma group_crds_ok:
  "group_crds m cs = Inr m' \<Longrightarrow> grouped_ok m \<Longrightarrow> grouped_ok m'"
proof (induction m cs rule: group_crds.induct)
  case (1 m)
  then show ?case by simp
next
  case (2 m c cs)
  then obtain v where v: "crd_versions c = [v]"
    by (auto split: list.splits)
  with 2(3) have "grouped_ok (put_version (crd_name c) (cv_name v) c m)"
    by (intro put_version_ok) auto
  with 2(1) [OF v refl] 2(2) v show ?case by (auto split: if_splits)
qed

lemma grouped_ok_versions_of:
  "grouped_ok m \<Longrightarrow> (ver, c) \<in> set (versions_of m name) \<Longrightarrow>
   crd_name c = name \<and> length (crd_versions c) = 1"
  by (auto simp: versions_of_def grouped_ok_def split: option.splits dest!: map_of_SomeD)

lemma merge_one_ok:
  assumes "merge_one conf w name (versions_of m name) = Returned (Inr c)" "grouped_ok m"
  shows "storage_count (crd_versions c) = 1 \<and> crd_name c = name"
proof (cases "conf name")
  case (Some cfg)
  with assms(1) obtain v0 rest where cfg: "vc_versions cfg = v0 # rest"
    by (auto simp: merge_one_def split: if_splits list.splits)
  let ?vs = "versions_of m name"
  from assms(1) Some cfg obtain merged where
    merged: "choose_storage (vc_storage_version cfg) (append_versions ?vs (the (map_of ?vs v0)) rest) = Inr merged"
    and c: "c = choose_conversion w merged" and v0: "map_of ?vs v0 \<noteq> None"
    by (auto simp: merge_one_def split: if_splits sum.splits)
  from v0 obtain c0 where c0: "map_of ?vs v0 = Some c0" by blast
  with assms(2) have "crd_name c0 = name"
    by (blast dest: map_of_SomeD grouped_ok_versions_of)
  with merged c0 have "crd_name merged = name"
    by (auto simp: choose_storage_def append_versions_def Let_def split: if_splits list.splits option.splits)
  with choose_storage_count [OF merged] c show ?thesis by simp
next
  case None
  with assms(1) obtain ver c0 where only: "versions_of m name = [(ver, c0)]"
    and c: "c = c0\<lparr>crd_versions := (crd_versions c0)[0 := (crd_versions c0 ! 0)\<lparr>cv_storage := True\<rparr>]\<rparr>"
    by (auto simp: merge_one_def split: if_splits list.splits)
  from grouped_ok_versions_of [OF assms(2), of ver c0 name] only
  have "crd_name c0 = name" "length (crd_versions c0) = 1" by auto
  with c show ?thesis
    by (cases "crd_versions c0") (auto simp: storage_count_def)
qed

lemma merge_all_ok:
  "merge_all conf w m names = Returned (Inr cs) \<Longrightarrow> grouped_ok m \<Longrightarrow>
   map crd_name cs = names \<and> (\<forall>c\<in>set cs. storage_count (crd_versions c) = 1)"
proof (induction names arbitrary: cs)
  case (Cons name names)
  then obtain c rest where
    c: "merge_one conf w name (versions_of m name) = Returned (Inr c)" "cs = c # rest"
      "merge_all conf w m names = Returned (Inr rest)"
    by (auto split: outcome.splits sum.splits)
  with Cons merge_one_ok [OF c(1)] show ?case by simp
qed simp

lemma merged_names:
  assumes "mergeCRDVersions ord crdList conf w = Returned (Inr cs)" "range_order ord"
  shows "distinct (map crd_name cs)" "\<forall>c\<in>set cs. storage_count (crd_versions c) = 1"
proof -
  from assms(1) obtain m where m: "group_crds [] crdList = Inr m"
    "merge_all conf w m (ord (map fst m)) = Returned (Inr cs)"
    by (auto simp: mergeCRDVersions_def split: sum.splits)
  from group_crds_ok [OF m(1)] have ok: "grouped_ok m" by (simp add: grouped_ok_def)
  from merge_all_ok [OF m(2) ok] have cs: "map crd_name cs = ord (map fst m)"
    "\<forall>c\<in>set cs. storage_count (crd_versions c) = 1" by auto
  from ok have "distinct (map fst m)" by (simp add: grouped_ok_def)
  with range_orderD(2) [OF assms(2)] cs(1) show "distinct (map crd_name cs)" by simp
  show "\<forall>c\<in>set cs. storage_count (crd_versions c) = 1" by (rule cs(2))
qed

subsection \<open>Retries and deletion\<close>

fun is_get :: "crd_event \<Rightarrow> bool" where
  "is_get (CGet nm) \<longleftrightarrow> True"
| "is_get _ \<longleftrightarrow> False"

definition attempts :: "crd_event list \<Rightarrow> nat" where
  "attempts tr = length (filter is_get tr)"

lemma attempts_simps [simp]:
  "attempts [] = 0" "attempts (e # tr) = (if is_get e then 1 else 0) + attempts tr"
  "attempts (xs @ ys) = attempts xs + attempts ys"
  by (simp_all add: attempts_def)

lemma attempts_looks: "list_all is_look tr \<Longrightarrow> attempts tr = 0"
proof (induction tr)
  case (Cons e tr)
  then show ?case by (cases e) auto
qed simp

lemma ConditionalUpsert_attempts:
  obtains tr r where "run_state (ConditionalUpsert R c inc) h = (r, h @ tr)" "attempts tr = 1"
  using ConditionalUpsert_run [of R c inc h] by (elim exE conjE) (auto simp: attempts_looks)

lemma retry_upsert_attempts:
  "\<exists>tr r. run_state (retry_upsert R inc n c) h = (r, h @ tr) \<and> attempts tr \<le> Suc n"
proof (induction n arbitrary: c h)
  case 0
  obtain tr r where "run_state (ConditionalUpsert R c inc) h = (r, h @ tr)" "attempts tr = 1"
    by (rule ConditionalUpsert_attempts)
  then show ?case
    by (subst retry_upsert.simps) (auto split: outcome.splits option.splits)
next
  case (Suc n)
  obtain tr r where run: "run_state (ConditionalUpsert R c inc) h = (r, h @ tr)" "attempts tr = 1"
    by (rule ConditionalUpsert_attempts)
  show ?case
  proof (cases "\<exists>c' err. r = Returned (c', Some err) \<and> transient R err \<and> \<not> ce_stop R (h @ tr)")
    case True
    then obtain c' err where r: "r = Returned (c', Some err)" "transient R err" "\<not> ce_stop R (h @ tr)"
      by blast
    from Suc [of c' "h @ tr"] obtain tr2 r2 where
      "run_state (retry_upsert R inc n c') (h @ tr) = (r2, (h @ tr) @ tr2)" "attempts tr2 \<le> Suc n"
      by blast
    with run r show ?thesis by (subst retry_upsert.simps) auto
  next
    case False
    with run have "run_state (retry_upsert R inc (Suc n) c) h = (r, h @ tr)"
      by (subst retry_upsert.simps) (auto split: outcome.splits option.splits)
    with run show ?thesis by auto
  qed
qed

lemma upsertCRDs_attempts:
  "\<exists>tr r. run_state (upsertCRDs R skip allow cs) h = (r, h @ tr) \<and>
     attempts tr \<le> Suc k8sMaxRetries * length cs"
proof (induction cs arbitrary: h)
  case Nil
  then show ?case by simp
next
  case (Cons c cs)
  obtain tr r where run: "run_state (retry_upsert R (skip \<or> isInAllowList (crd_name c) allow) k8sMaxRetries c) h =
      (r, h @ tr)" "attempts tr \<le> Suc k8sMaxRetries"
    using retry_upsert_attempts by blast
  obtain tr2 r2 where "run_state (upsertCRDs R skip allow cs) (h @ tr) = (r2, (h @ tr) @ tr2)"
    "attempts tr2 \<le> Suc k8sMaxRetries * length cs" using Cons [of "h @ tr"] by blast
  with run show ?case
    by (auto simp: Let_def split: outcome.splits option.splits)
qed

text \<open>Every deletion of a trace, with what was seen before it.\<close>

definition deletes_after :: "(crd_event list \<Rightarrow> string \<Rightarrow> bool) \<Rightarrow> crd_event list \<Rightarrow> bool" where
  "deletes_after P tr \<longleftrightarrow> (\<forall>pre nm e post. tr = pre @ CDelete nm e # post \<longrightarrow> P pre nm)"

fun is_delete :: "crd_event \<Rightarrow> bool" where
  "is_delete (CDelete nm e) \<longleftrightarrow> True"
| "is_delete _ \<longleftrightarrow> False"

lemma deletes_after_none: "list_all (\<lambda>e. \<not> is_delete e) tr \<Longrightarrow> deletes_after P tr"
  by (auto simp: deletes_after_def)

lemma deletes_after_append:
  assumes "deletes_after P xs" "deletes_after Q ys" "\<And>pre nm. Q pre nm \<Longrightarrow> P (xs @ pre) nm"
  shows "deletes_after P (xs @ ys)"
  unfolding deletes_after_def
proof (intro allI impI)
  fix pre nm e post
  assume "xs @ ys = pre @ CDelete nm e # post"
  then consider (left) us where "xs = pre @ us" "us @ ys = CDelete nm e # post"
    | (right) us where "pre = xs @ us" "ys = us @ CDelete nm e # post"
    unfolding append_eq_append_conv2 by blast
  then show "P pre nm"
  proof cases
    case left
    then show ?thesis
    proof (cases us)
      case Nil
      with left assms(2,3) show ?thesis unfolding deletes_after_def by force
    next
      case (Cons d us')
      with left assms(1) show ?thesis unfolding deletes_after_def by auto
    qed
  next
    case right
    with assms(2,3) show ?thesis unfolding deletes_after_def by blast
  qed
qed

lemma deletes_after_mono:
  "deletes_after P tr \<Longrightarrow> (\<And>pre nm. P pre nm \<Longrightarrow> Q pre nm) \<Longrightarrow> deletes_after Q tr"
  by (auto simp: deletes_after_def)

lemma looks_no_delete: "list_all is_look tr \<Longrightarrow> list_all (\<lambda>e. \<not> is_delete e) tr"
  by (auto simp: list_all_iff elim!: is_look.elims)

lemma checked_empty_append: "checked_empty c vs tr \<Longrightarrow> checked_empty c vs (xs @ tr)"
  by (fastforce simp: checked_empty_def)

definition stale :: "string \<Rightarrow> bool \<Rightarrow> crd list \<Rightarrow> crd list \<Rightarrow> crd_event list \<Rightarrow> string \<Rightarrow> bool" where
  "stale apiGroup enabled crdList existing seen nm \<longleftrightarrow> enabled \<and>
     (\<exists>c\<in>set existing. crd_name c = nm \<and> crd_group c = apiGroup \<and>
        nm \<notin> crd_name ` set crdList \<and> checked_empty c (crd_versions c) seen)"

lemma stale_weaken:
  "stale g b cl ex seen nm \<Longrightarrow> stale g b cl (c # ex) (xs @ seen) nm"
  by (auto simp: stale_def intro: checked_empty_append)

lemma delete_stale_run:
  "\<exists>tr r. run_state (delete_stale R g enabled crdList existing) h = (r, h @ tr) \<and>
     deletes_after (stale g enabled crdList existing) tr"
proof (induction existing arbitrary: h)
  case Nil
  then show ?case by (auto simp: deletes_after_def)
next
  case (Cons c existing)
  let ?skip = "g \<noteq> crd_group c \<or> list_ex (\<lambda>n. crd_name c = crd_name n) crdList \<or> \<not> enabled"
  show ?case
  proof (cases ?skip)
    case True
    then have skip: "delete_stale R g enabled crdList (c # existing) = delete_stale R g enabled crdList existing"
      by auto
    from Cons [of h] obtain tr r where
      IH: "run_state (delete_stale R g enabled crdList existing) h = (r, h @ tr)"
        "deletes_after (stale g enabled crdList existing) tr" by blast
    have "deletes_after (stale g enabled crdList (c # existing)) tr"
      by (rule deletes_after_mono [OF IH(2)]) (use stale_weaken [of _ _ _ _ _ _ c "[]"] in simp)
    with IH(1) skip show ?thesis by auto
  next
    case False
    obtain tr1 r1 where del: "run_state (gateway_Delete R c) h = (r1, h @ tr1)"
      "list_all is_look tr1 \<or> (\<exists>looks e. tr1 = looks @ [CDelete (crd_name c) e] \<and>
         list_all is_look looks \<and> checked_empty c (crd_versions c) looks)"
      using gateway_Delete_run [of R c h] by blast
    have first: "deletes_after (stale g enabled crdList (c # existing)) tr1"
      using del(2)
    proof (elim disjE exE conjE)
      assume "list_all is_look tr1"
      then show ?thesis by (intro deletes_after_none looks_no_delete)
    next
      fix looks e
      assume tr1: "tr1 = looks @ [CDelete (crd_name c) e]" and l: "list_all is_look looks"
        and empty: "checked_empty c (crd_versions c) looks"
      have "stale g enabled crdList (c # existing) looks (crd_name c)"
        using False empty by (auto simp: stale_def list_ex_iff)
      then have "deletes_after (\<lambda>pre. stale g enabled crdList (c # existing) (looks @ pre)) [CDelete (crd_name c) e]"
        by (auto simp: deletes_after_def Cons_eq_append_conv)
      then show ?thesis unfolding tr1
        by (rule deletes_after_append [OF deletes_after_none [OF looks_no_delete [OF l]]])
    qed
    from Cons [of "h @ tr1"] obtain tr r where
      IH: "run_state (delete_stale R g enabled crdList existing) (h @ tr1) = (r, (h @ tr1) @ tr)"
        "deletes_after (stale g enabled crdList existing) tr" by blast
    have both: "deletes_after (stale g enabled crdList (c # existing)) (tr1 @ tr)"
      by (rule deletes_after_append [OF first IH(2)]) (rule stale_weaken)
    show ?thesis
    proof (cases "\<exists>e. r1 = Some e \<and> \<not> IsNotFoundError e")
      case True
      with False del(1) first show ?thesis by auto
    next
      case go: False
      with False del(1) IH(1) have
        "run_state (delete_stale R g enabled crdList (c # existing)) h = (r, h @ tr1 @ tr)"
        by (auto split: option.splits)
      with both show ?thesis by blast
    qed
  qed
qed

lemma emits_hasInstances: "emits (\<lambda>e. \<not> is_delete e) (hasInstances_loop R c vs)"
  by (induction vs) (auto intro!: emits_bind emits_ask split: sum.splits)

lemma emits_ConditionalUpsert: "emits (\<lambda>e. \<not> is_delete e) (ConditionalUpsert R c inc)"
  unfolding ConditionalUpsert_def update_crd_def hasInstances_def Let_def
  by (auto intro!: emits_bind emits_ask emits_hasInstances
      split: sum.splits outcome.splits bool.splits)

lemma emits_retry: "emits (\<lambda>e. \<not> is_delete e) (retry_upsert R inc n c)"
proof (induction n arbitrary: c)
  case 0
  then show ?case by (subst retry_upsert.simps)
      (auto intro!: emits_bind emits_ConditionalUpsert emits_peek emits_return split: outcome.splits option.splits)
next
  case (Suc n)
  then show ?case by (subst retry_upsert.simps)
      (auto intro!: emits_bind emits_ConditionalUpsert emits_peek emits_return split: outcome.splits option.splits)
qed

lemma emits_upsertCRDs: "emits (\<lambda>e. \<not> is_delete e) (upsertCRDs R skip allow cs)"
  by (induction cs)
    (auto simp: Let_def intro!: emits_bind emits_retry emits_return split: outcome.splits option.splits)

lemma syncCRDs_deletes:
  assumes "decode_all R g yamls = Inr crdList" "ce_list R h = Inr existing"
  shows "\<exists>tr r. run_state (syncCRDs R g conf w allow yamls) h = (r, h @ CList # tr) \<and>
    deletes_after (stale g (EnableCRDDeletion conf) crdList existing) tr"
proof -
  obtain tr r where del: "run_state (delete_stale R g (EnableCRDDeletion conf) crdList existing) (h @ [CList]) =
      (r, (h @ [CList]) @ tr)" "deletes_after (stale g (EnableCRDDeletion conf) crdList existing) tr"
    using delete_stale_run by blast
  note eval = syncCRDs_def gateway_List_def assms
  show ?thesis
  proof (cases "\<exists>merged. r = None \<and> mergeCRDVersions (ce_order R) crdList (CRDVersions conf) w = Returned (Inr merged)")
    case False
    with del show ?thesis
      by (cases r) (auto simp: eval split: outcome.splits sum.splits)
  next
    case True
    then obtain merged where r: "r = None"
      "mergeCRDVersions (ce_order R) crdList (CRDVersions conf) w = Returned (Inr merged)" by blast
    obtain res h2 where up: "run_state (upsertCRDs R (SkipIncompatibleCheck conf) allow merged) (h @ CList # tr) = (res, h2)"
      by (cases "run_state (upsertCRDs R (SkipIncompatibleCheck conf) allow merged) (h @ CList # tr)")
    then obtain tr2 where tr2: "h2 = (h @ CList # tr) @ tr2" "list_all (\<lambda>e. \<not> is_delete e) tr2"
      using emitsE [OF emits_upsertCRDs] by blast
    have "deletes_after (stale g (EnableCRDDeletion conf) crdList existing) (tr @ tr2)"
      by (rule deletes_after_append [OF del(2) deletes_after_none [OF tr2(2), of "\<lambda>_ _. False"]]) simp
    with del r up tr2 show ?thesis by (auto simp: eval)
  qed
qed

section \<open>Properties\<close>

text \<open>
  Merging keeps the API server's invariant on CRD versions: when the merge succeeds,
  under any version configuration and whatever order the maps are ranged over in, it yields
  at most one CRD per name, and every merged CRD has exactly one storage version.
\<close>

theorem merged_crds_have_one_storage_version:
  assumes "range_order ord"
    and "mergeCRDVersions ord crdList conf webhook = Returned (Inr cs)"
  shows "distinct (map crd_name cs) \<and>
    (\<forall>c\<in>set cs. length (filter cv_storage (crd_versions c)) = 1)"
  using merged_names [OF assms(2,1)] by (simp add: storage_count_def)

definition v1 :: crd_version where
  "v1 = (example_version ''v1'' (leaf ''object''))\<lparr>cv_storage := False\<rparr>"

definition v2 :: crd_version where
  "v2 = (example_version ''v2'' (leaf ''object''))\<lparr>cv_storage := False\<rparr>"

lemma v_sel [simp]: "cv_name v1 = ''v1''" "cv_name v2 = ''v2''" "\<not> cv_storage v1" "\<not> cv_storage v2"
  by (simp_all add: v1_def v2_def)

definition two_versions :: "string \<rightharpoonup> version_config" where
  "two_versions = [''pipelines.michelangelo.api'' \<mapsto>
     \<lparr>vc_versions = [''v1'', ''v2''], vc_storage_version = ''v2''\<rparr>]"

lemma merged_crds_have_one_storage_version_witness:
  "\<exists>cs. mergeCRDVersions (\<lambda>ks. ks) [example_crd [v1], example_crd [v2]] two_versions None = Returned (Inr cs) \<and>
     cs \<noteq> [] \<and> (\<forall>c\<in>set cs. length (filter cv_storage (crd_versions c)) = 1)"
proof -
  have "\<exists>c. mergeCRDVersions (\<lambda>ks. ks) [example_crd [v1], example_crd [v2]] two_versions None = Returned (Inr [c])"
    by (simp add: mergeCRDVersions_def versions_of_def two_versions_def merge_one_def
        append_versions_def choose_storage_def Let_def)
  then obtain c where
    run: "mergeCRDVersions (\<lambda>ks. ks) [example_crd [v1], example_crd [v2]] two_versions None = Returned (Inr [c])"
    by blast
  from merged_crds_have_one_storage_version [OF range_order_id run] run show ?thesis by blast
qed

text \<open>
  A CRD on the server is only overwritten when nothing can be lost. Whenever an upsert
  sends an update, the server had the CRD, none of its versions is dropped, the versions or
  the conversion really differ, and the update carries the resource version that was read;
  and, when every version carries a schema object, either the caller allowed incompatible
  updates, or every version's schema is an upgrade of the server's, or every storage version
  of the server's CRD was listed before the update and had no instance.
\<close>

theorem update_is_guarded:
  assumes "range_order (ce_order R)"
    and "run_state (ConditionalUpsert R c inc) h = (res, h @ tr)"
    and "tr = pre @ CUpdate c' e # post"
    and "\<forall>v\<in>set (crd_versions c). cv_schema v \<noteq> None"
    and "\<forall>o1. ce_get R h (crd_name c) = Inr o1 \<longrightarrow> (\<forall>v\<in>set (crd_versions o1). cv_schema v \<noteq> None)"
  shows "\<exists>onServer. ce_get R h (crd_name c) = Inr onServer \<and>
    cv_name ` set (crd_versions onServer) \<subseteq> cv_name ` set (crd_versions c) \<and> hasChange onServer c \<and>
    c' = c\<lparr>crd_resource_version := crd_resource_version onServer\<rparr> \<and>
    (inc \<or> (\<forall>k\<in>cv_name ` set (crd_versions onServer).
        version_upgrades (version_map (crd_versions onServer) k) (version_map (crd_versions c) k)) \<or>
     checked_empty onServer (crd_versions onServer) pre)"
proof -
  have mem: "CUpdate c' e \<in> set tr" by (simp add: assms(3))
  from ConditionalUpsert_run [of R c inc h] assms(2) obtain looks onServer cmp e' where
    tr: "tr = CGet (crd_name c) # looks @ [CUpdate (c\<lparr>crd_resource_version := crd_resource_version onServer\<rparr>) e']"
    and looks: "list_all is_look looks"
    and got: "ce_get R h (crd_name c) = Inr onServer" "\<not> version_dropped onServer c"
    and cmp: "CompareCRDSchemas (ce_order R) onServer c = Returned (Inr cmp)" "HasChange cmp"
      "Compatible cmp \<or> inc \<or> checked_empty onServer (crd_versions onServer) looks"
  proof (elim exE conjE disjE)
    fix tr2 r
    assume "run_state (ConditionalUpsert R c inc) h = (r, h @ CGet (crd_name c) # tr2)" "list_all is_look tr2"
    with assms(2) mem list_all_look_no_write [of tr2] show thesis by auto
  next
    fix tr2 r e
    assume "run_state (ConditionalUpsert R c inc) h = (r, h @ CGet (crd_name c) # tr2)" "tr2 = [CCreate c e]"
    with assms(2) mem show thesis by auto
  qed (auto intro: that)
  from got(2) have sub: "cv_name ` set (crd_versions onServer) \<subseteq> cv_name ` set (crd_versions c)"
    by (auto simp: version_dropped_def list_ex_iff)
  have "cmp = \<lparr>HasChange = hasChange onServer c, Compatible = (hasChange onServer c \<longrightarrow> crd_versions c \<noteq> [] \<and>
      (\<forall>k\<in>cv_name ` set (crd_versions onServer).
         version_upgrades (version_map (crd_versions onServer) k) (version_map (crd_versions c) k)))\<rparr>"
    using CompareCRDSchemas_verdict [OF assms(1) _ sub] cmp(1) assms(4,5) got(1) by auto
  with cmp(2,3) have verdict: "hasChange onServer c" "inc \<or> (\<forall>k\<in>cv_name ` set (crd_versions onServer).
        version_upgrades (version_map (crd_versions onServer) k) (version_map (crd_versions c) k)) \<or>
     checked_empty onServer (crd_versions onServer) looks"
    by auto
  from tr assms(3) have "pre @ CUpdate c' e # post = (CGet (crd_name c) # looks) @
      [CUpdate (c\<lparr>crd_resource_version := crd_resource_version onServer\<rparr>) e']" by simp
  from append_last_unique [OF this] list_all_look_no_write [OF looks]
  have "pre = CGet (crd_name c) # looks \<and> c' = c\<lparr>crd_resource_version := crd_resource_version onServer\<rparr>"
    by simp
  with got(1) sub verdict checked_empty_append [of onServer _ looks "[CGet (crd_name c)]"] show ?thesis
    by auto
qed

text \<open>
  C14. A start-up synchronisation deletes a CRD only when deletion is enabled, the CRD is in
  the program's own API group, no decoded schema has its name, and every one of its storage
  versions was listed before and had no instance.
\<close>

theorem sync_deletes_only_unused_crds:
  assumes "decode_all R g yamls = Inr crdList" "ce_list R h = Inr existing"
    and "run_state (syncCRDs R g conf webhook allow yamls) h = (res, h @ CList # tr)"
    and "tr = pre @ CDelete nm e # post"
  shows "EnableCRDDeletion conf \<and>
    (\<exists>c\<in>set existing. crd_name c = nm \<and> crd_group c = g \<and> nm \<notin> crd_name ` set crdList \<and>
       checked_empty c (crd_versions c) pre)"
proof -
  from syncCRDs_deletes [OF assms(1,2), of conf webhook allow] assms(3)
  have "deletes_after (stale g (EnableCRDDeletion conf) crdList existing) tr" by auto
  with assms(4) have "stale g (EnableCRDDeletion conf) crdList existing pre nm"
    by (auto simp: deletes_after_def)
  then show ?thesis by (simp add: stale_def)
qed

text \<open>
  Retries are bounded: however the API server fails, an upsert of \<open>n\<close> CRDs reads from it
  at most four times per CRD (one attempt and three retries), and always returns.
\<close>

theorem upserts_are_bounded:
  "\<exists>tr res. run_state (upsertCRDs R skip allow cs) h = (res, h @ tr) \<and>
     length (filter is_get tr) \<le> 4 * length cs"
  using upsertCRDs_attempts [of R skip allow cs h] by (auto simp: attempts_def k8sMaxRetries_def)

text \<open>
  A version configuration that lists no version for a CRD makes the synchronisation
  panic, instead of reporting an error as it does for every other misconfiguration, and it
  does so only after the stale CRDs were deleted.
\<close>

theorem empty_version_config_panics_after_deletion:
  assumes "decode_all R g yamls = Inr [c]" "crd_versions c = [v]" "range_order (ce_order R)"
    and "CRDVersions conf (crd_name c) = Some \<lparr>vc_versions = [], vc_storage_version = sv\<rparr>"
    and "ce_list R h = Inr existing"
    and "run_state (delete_stale R g (EnableCRDDeletion conf) [c] existing) (h @ [CList]) = (None, h')"
  shows "run_state (syncCRDs R g conf webhook allow yamls) h = (Panicked, h')"
proof -
  have "set (ce_order R [crd_name c]) = {crd_name c}" "distinct (ce_order R [crd_name c])"
    using range_orderD [OF assms(3), of "[crd_name c]"] by auto
  then have ord: "ce_order R [crd_name c] = [crd_name c]"
    by (cases "ce_order R [crd_name c]" rule: remdups_adj.cases) auto
  have "mergeCRDVersions (ce_order R) [c] (CRDVersions conf) webhook = Panicked"
    by (simp add: mergeCRDVersions_def assms(2,4) versions_of_def ord merge_one_def)
  then show ?thesis
    by (simp add: syncCRDs_def gateway_List_def assms(1,5,6))
qed

section \<open>Examples for the witnesses\<close>

text \<open>A server that has the given CRDs, no instance of any of them, and accepts every write.\<close>

definition example_server :: "crd list \<Rightarrow> crd \<Rightarrow> crd_env" where
  "example_server onServer decoded =
     \<lparr>ce_get = (\<lambda>_ nm. case find (\<lambda>c. crd_name c = nm) onServer of
         Some c \<Rightarrow> Inr c | None \<Rightarrow> Inl (K8sStatusError ReasonNotFound)),
      ce_create = (\<lambda>_ _. None), ce_update = (\<lambda>_ _. None), ce_delete = (\<lambda>_ _. None),
      ce_list = (\<lambda>_. Inr onServer), ce_instances = (\<lambda>_ _ _ _. Inr 0), ce_stop = (\<lambda>_. False),
      ce_decode = (\<lambda>_. Inr decoded), ce_unexpected = (\<lambda>_. False), ce_order = (\<lambda>ks. ks)\<rparr>"

lemma example_server_sel [simp]:
  "ce_order (example_server cs d) = (\<lambda>ks. ks)" "ce_list (example_server cs d) h = Inr cs"
  "ce_decode (example_server cs d) y = Inr d"
  "ce_instances (example_server cs d) h g v p = Inr 0"
  "ce_delete (example_server cs d) h nm = None" "ce_update (example_server cs d) h c = None"
  "ce_get (example_server [c] d) h (crd_name c) = Inr c"
  by (simp_all add: example_server_def)

definition old_crd :: crd where
  "old_crd = example_crd [example_version ''v2'' (leaf ''object'')]"

definition new_crd :: crd where
  "new_crd = example_crd [example_version ''v2'' (leaf ''string'')]"

lemma old_new_sel [simp]:
  "crd_name old_crd = ''pipelines.michelangelo.api''" "crd_name new_crd = ''pipelines.michelangelo.api''"
  "crd_versions old_crd = [example_version ''v2'' (leaf ''object'')]"
  "crd_versions new_crd = [example_version ''v2'' (leaf ''string'')]"
  by (simp_all add: old_crd_def new_crd_def)

lemma old_new_differ: "hasChange old_crd new_crd"
proof -
  have "leaf ''object'' \<noteq> leaf ''string''" by (simp add: leaf_def)
  then have "example_version ''v2'' (leaf ''object'') \<noteq> example_version ''v2'' (leaf ''string'')"
    by (metis example_sel(2) option.inject)
  then show ?thesis by (simp add: hasChange_def)
qed

lemma update_is_guarded_witness:
  "\<exists>pre e. run_state (ConditionalUpsert (example_server [old_crd] new_crd) new_crd False) [] =
      (Returned (new_crd\<lparr>crd_resource_version := crd_resource_version old_crd\<rparr>, None),
       pre @ [CUpdate (new_crd\<lparr>crd_resource_version := crd_resource_version old_crd\<rparr>) e]) \<and>
     checked_empty old_crd (crd_versions old_crd) pre"
proof -
  let ?R = "example_server [old_crd] new_crd"
  let ?c = "new_crd\<lparr>crd_resource_version := crd_resource_version old_crd\<rparr>"
  let ?look = "CInstances (crd_group old_crd) ''v2'' (crd_plural old_crd) (Inr 0)"
  have no: "\<not> upgrades (leaf ''object'') (leaf ''string'')"
    by (subst upgrades_iff) (simp add: leaf_def)
  have "ce_order ?R = (\<lambda>ks. ks)" by simp
  have cmp: "CompareCRDSchemas (\<lambda>ks. ks) old_crd new_crd = Returned (Inr \<lparr>HasChange = True, Compatible = False\<rparr>)"
    using no old_new_differ
    by (subst CompareCRDSchemas_verdict)
      (auto simp: version_map_def version_upgrades_def)
  have got: "ce_get ?R h (crd_name new_crd) = Inr old_crd" for h
    using example_server_sel(7) [of old_crd new_crd h] by simp
  have look: "run_state (hasInstances ?R old_crd) h = (Inr False, h @ [?look])" for h
    by (simp add: hasInstances_def)
  have kept: "\<not> version_dropped old_crd new_crd" by (simp add: version_dropped_def)
  have run: "run_state (ConditionalUpsert ?R new_crd False) [] =
      (Returned (?c, None), [] @ [CGet (crd_name new_crd), ?look, CUpdate ?c None])"
    by (simp add: ConditionalUpsert_def got [simplified] kept cmp look Let_def)
  from update_is_guarded [OF _ run, of "[CGet (crd_name new_crd), ?look]" ?c None "[]"]
  have "checked_empty old_crd (crd_versions old_crd) [CGet (crd_name new_crd), ?look]"
    using no by (simp add: got [simplified] version_map_def version_upgrades_def)
  with run show ?thesis by auto
qed

definition sync_config :: "string list \<Rightarrow> crd_config" where
  "sync_config versions =
     \<lparr>EnableCRDUpdate = True, EnableCRDDeletion = True, SkipIncompatibleCheck = False,
      CRDVersions = [''pipelines.michelangelo.api'' \<mapsto>
        \<lparr>vc_versions = versions, vc_storage_version = ''''\<rparr>]\<rparr>"

definition stale_crd :: crd where
  "stale_crd = old_crd\<lparr>crd_name := ''old.michelangelo.api''\<rparr>"

lemma stale_crd_sel [simp]:
  "crd_name stale_crd = ''old.michelangelo.api''" "crd_versions stale_crd = crd_versions old_crd"
  "crd_group stale_crd = ''michelangelo.api''" "crd_group new_crd = ''michelangelo.api''"
  "crd_group old_crd = ''michelangelo.api''"
  by (simp_all add: stale_crd_def old_crd_def new_crd_def example_crd_def)

lemma decode_example:
  "decode_all (example_server cs new_crd) ''michelangelo.api'' [[(''Pipeline'', ''yaml'')]] = Inr [new_crd]"
  by simp

lemma delete_stale_example:
  "run_state (delete_stale (example_server [stale_crd] new_crd) ''michelangelo.api'' True
      [new_crd] [stale_crd]) h =
    (None, h @ [CInstances ''michelangelo.api'' ''v2'' (crd_plural stale_crd) (Inr 0),
                CDelete ''old.michelangelo.api'' None])"
  by (simp add: gateway_Delete_def hasInstances_def)

lemma sync_config_sel [simp]:
  "EnableCRDDeletion (sync_config vs)" "\<not> SkipIncompatibleCheck (sync_config vs)"
  "CRDVersions (sync_config vs) ''pipelines.michelangelo.api'' =
     Some \<lparr>vc_versions = vs, vc_storage_version = ''''\<rparr>"
  by (simp_all add: sync_config_def)

lemma empty_version_config_panics_after_deletion_witness:
  "\<exists>h'. run_state (syncCRDs (example_server [stale_crd] new_crd) ''michelangelo.api'' (sync_config []) None []
      [[(''Pipeline'', ''yaml'')]]) [] = (Panicked, h') \<and> CDelete ''old.michelangelo.api'' None \<in> set h'"
proof -
  let ?R = "example_server [stale_crd] new_crd"
  have "run_state (syncCRDs ?R ''michelangelo.api'' (sync_config []) None [] [[(''Pipeline'', ''yaml'')]]) [] =
    (Panicked, [CList] @ [CInstances ''michelangelo.api'' ''v2'' (crd_plural stale_crd) (Inr 0),
                CDelete ''old.michelangelo.api'' None])"
    using delete_stale_example [of "[CList]"]
    by (intro empty_version_config_panics_after_deletion [OF decode_example])
      (simp_all del: delete_stale.simps)
  then show ?thesis by auto
qed

lemma sync_deletes_only_unused_crds_witness:
  "\<exists>pre. checked_empty stale_crd (crd_versions stale_crd) pre \<and>
     CDelete ''old.michelangelo.api'' None \<in> set (snd (run_state
       (syncCRDs (example_server [stale_crd] new_crd) ''michelangelo.api'' (sync_config []) None []
         [[(''Pipeline'', ''yaml'')]]) []))"
proof -
  let ?R = "example_server [stale_crd] new_crd"
  let ?look = "CInstances ''michelangelo.api'' ''v2'' (crd_plural stale_crd) (Inr 0)"
  have merge: "mergeCRDVersions (\<lambda>ks. ks) [new_crd] (CRDVersions (sync_config [])) None = Panicked"
    by (simp add: mergeCRDVersions_def versions_of_def merge_one_def)
  have run: "run_state (syncCRDs ?R ''michelangelo.api'' (sync_config []) None [] [[(''Pipeline'', ''yaml'')]]) [] =
    (Panicked, [] @ CList # [?look, CDelete ''old.michelangelo.api'' None])"
    unfolding syncCRDs_def decode_example
    by (simp add: gateway_List_def merge delete_stale_example
        del: delete_stale.simps decode_all.simps)
  from sync_deletes_only_unused_crds [OF decode_example _ run, of "[stale_crd]" "[?look]"] run show ?thesis
    by auto
qed

end
