(* ===== verification/Pipeline_Run_Model.thy ===== *)
theory Pipeline_Run_Model
  imports Conditions Cascade_Drain
begin

text \<open>
  The data of the pipeline-run controller (\<^verbatim>\<open>proto/api/v2/pipeline_run.proto\<close>, as far as
  \<^verbatim>\<open>go/components/pipelinerun\<close> reads or writes it), the environment its reconciler and its
  actors talk to, and the plugin's condition store, which interprets the contract of the
  condition engine.
\<close>

section \<open>Values\<close>

datatype run_state_t =
    Run_INVALID | Run_PENDING | Run_RUNNING | Run_SUCCEEDED | Run_KILLED | Run_FAILED
  | Run_SKIPPED

datatype step_state =
    Step_INVALID | Step_PENDING | Step_RUNNING | Step_SUCCEEDED | Step_KILLED | Step_FAILED
  | Step_SKIPPED

datatype workflow_status =
    WF_UnSpecified | WF_Running | WF_Completed | WF_Failed | WF_Canceled | WF_Terminated
  | WF_ContinuedAsNew | WF_TimedOut

section \<open>Steps\<close>

text \<open>
  \<^verbatim>\<open>PipelineRunStepInfo\<close> is recursive in the schema. Here a leaf is the step of one task, a
  step adds its sub-steps, and a step of the run adds the history of its attempts, each a
  snapshot without a history of its own; no other nesting is ever built. A resource is an
  external resource, with name and URL.
\<close>

record leaf_step =
  si_name :: string
  si_display_name :: string
  si_state :: step_state
  si_start_time :: "int option"
  si_end_time :: "int option"
  si_message :: string
  si_log_url :: string
  si_activity_id :: string
  si_input :: "(string \<times> json) list option"
  si_output :: "(string \<times> json) list option"
  si_cached_outputs :: "(string \<times> string) list option"
  si_resources :: "(string \<times> string) list"
  si_attempt_ids :: "string list"

record attempt_step = leaf_step +
  si_sub_steps :: "leaf_step list"

record step_info = attempt_step +
  si_attempt_details :: "(string \<times> attempt_step) list"

text \<open>A leaf with the zero values of the Go struct.\<close>

definition empty_leaf :: leaf_step where
  "empty_leaf =
     \<lparr>si_name = '''', si_display_name = '''', si_state = Step_INVALID, si_start_time = None,
      si_end_time = None, si_message = '''', si_log_url = '''', si_activity_id = '''',
      si_input = None, si_output = None, si_cached_outputs = None, si_resources = [],
      si_attempt_ids = []\<rparr>"

text \<open>A fresh step of the run, as the actors create it.\<close>

definition pending_step :: "string \<Rightarrow> int \<Rightarrow> string \<Rightarrow> step_info" where
  "pending_step name now url =
     \<lparr>si_name = name, si_display_name = name, si_state = Step_PENDING, si_start_time = Some now,
      si_end_time = None, si_message = '''', si_log_url = url, si_activity_id = '''',
      si_input = None, si_output = None, si_cached_outputs = None, si_resources = [],
      si_attempt_ids = [], si_sub_steps = [], si_attempt_details = []\<rparr>"

lemma pending_step_sel [simp]:
  "si_name (pending_step nm now url) = nm" "si_state (pending_step nm now url) = Step_PENDING"
  by (simp_all add: pending_step_def)

section \<open>Runs\<close>

text \<open>
  The manifest content is an opaque \<^verbatim>\<open>Any\<close>, and the manifest may be nil; a pipeline is its
  metadata and its spec. A resource identifier is a namespace and a name.
\<close>

record pipeline_manifest =
  mf_content :: "string option"
  mf_uniflow_tar :: string

record pipeline_spec =
  pl_manifest :: "pipeline_manifest option"

record pipeline = obj_meta +
  pl_spec :: pipeline_spec

record retry_info =
  ri_activity_id :: string
  ri_workflow_run_id :: string
  ri_reason :: string

record resume_spec =
  rs_run :: "(string \<times> string) option"
  rs_from :: "string list"

datatype event_type =
    ET_INVALID | ET_SUCCEEDED | ET_KILLED | ET_FAILED | ET_SKIPPED | ET_RUNNING | ET_STARTED
  | ET_OTHER nat

record run_spec =
  sp_kill :: bool
  sp_pipeline :: "(string \<times> string) option"
  sp_pipeline_spec :: "pipeline_spec option"
  sp_retry :: "retry_info option"
  sp_resume :: "resume_spec option"
  sp_input :: "(string \<rightharpoonup> json) option"
  sp_workspace_root :: string
  sp_notifications :: "event_type list list"

record run_status =
  st_state :: run_state_t
  st_workflow_id :: string
  st_workflow_run_id :: string
  st_conditions :: "condition list"
  st_steps :: "step_info list"
  st_source_pipeline :: "pipeline option option"
  st_end_time :: "int option"
  st_error_message :: string

record pipeline_run = obj_meta +
  pr_spec :: run_spec
  pr_status :: run_status

definition set_state :: "run_state_t \<Rightarrow> pipeline_run \<Rightarrow> pipeline_run" where
  "set_state s run = run\<lparr>pr_status := (pr_status run)\<lparr>st_state := s\<rparr>\<rparr>"

definition set_steps :: "step_info list \<Rightarrow> pipeline_run \<Rightarrow> pipeline_run" where
  "set_steps steps run = run\<lparr>pr_status := (pr_status run)\<lparr>st_steps := steps\<rparr>\<rparr>"

lemma set_state_sel [simp]:
  "st_state (pr_status (set_state s run)) = s" "pr_spec (set_state s run) = pr_spec run"
  "st_steps (pr_status (set_state s run)) = st_steps (pr_status run)"
  "st_workflow_id (pr_status (set_state s run)) = st_workflow_id (pr_status run)"
  "st_workflow_run_id (pr_status (set_state s run)) = st_workflow_run_id (pr_status run)"
  "om_finalizers (set_state s run) = om_finalizers run"
  "om_annotations (set_state s run) = om_annotations run"
  "om_deletion_ts (set_state s run) = om_deletion_ts run"
  by (simp_all add: set_state_def)

lemma set_steps_sel [simp]:
  "st_steps (pr_status (set_steps ss run)) = ss" "pr_spec (set_steps ss run) = pr_spec run"
  "st_state (pr_status (set_steps ss run)) = st_state (pr_status run)"
  "st_workflow_id (pr_status (set_steps ss run)) = st_workflow_id (pr_status run)"
  "st_workflow_run_id (pr_status (set_steps ss run)) = st_workflow_run_id (pr_status run)"
  "st_source_pipeline (pr_status (set_steps ss run)) = st_source_pipeline (pr_status run)"
  "om_namespace (set_steps ss run) = om_namespace run" "om_name (set_steps ss run) = om_name run"
  "om_labels (set_steps ss run) = om_labels run"
  by (simp_all add: set_steps_def)

text \<open>The metadata of a run.\<close>

lemma meta_of_set [simp]:
  "meta_of (run\<lparr>pr_status := s\<rparr>) = meta_of run" "meta_of (run\<lparr>pr_spec := sp\<rparr>) = meta_of run"
  "meta_of (set_state s1 run) = meta_of run" "meta_of (set_steps ss run) = meta_of run"
  by (simp_all add: meta_of_def obj_meta.defs set_state_def set_steps_def)

text \<open>\<^verbatim>\<open>GetStep\<close>: the first step of that name. The code then mutates through the pointer it
  got, which is \<open>update_step\<close>.\<close>

definition GetStep :: "pipeline_run \<Rightarrow> string \<Rightarrow> step_info option" where
  "GetStep run name = find (\<lambda>step. si_name step = name) (st_steps (pr_status run))"

fun update_first :: "(step_info \<Rightarrow> bool) \<Rightarrow> (step_info \<Rightarrow> step_info) \<Rightarrow> step_info list \<Rightarrow> step_info list" where
  "update_first P f [] = []"
| "update_first P f (s # ss) = (if P s then f s # ss else s # update_first P f ss)"

definition update_step ::
    "string \<Rightarrow> (step_info \<Rightarrow> step_info) \<Rightarrow> pipeline_run \<Rightarrow> pipeline_run" where
  "update_step name f run =
     set_steps (update_first (\<lambda>step. si_name step = name) f (st_steps (pr_status run))) run"

lemma GetStep_update [simp]:
  assumes "\<And>s. si_name (f s) = si_name s"
  shows "GetStep (update_step name f run) name = map_option f (GetStep run name)"
proof -
  have "find (\<lambda>s. si_name s = name) (update_first (\<lambda>s. si_name s = name) f ss) =
      map_option f (find (\<lambda>s. si_name s = name) ss)" for ss
    by (induction ss) (auto simp: assms)
  then show ?thesis by (simp add: GetStep_def update_step_def)
qed

lemma update_step_sel [simp]:
  "pr_spec (update_step name f run) = pr_spec run"
  "st_state (pr_status (update_step name f run)) = st_state (pr_status run)"
  "st_workflow_id (pr_status (update_step name f run)) = st_workflow_id (pr_status run)"
  "st_workflow_run_id (pr_status (update_step name f run)) = st_workflow_run_id (pr_status run)"
  "meta_of (update_step name f run) = meta_of run"
  by (simp_all add: update_step_def)

section \<open>The plugin's conditions\<close>

definition run_GetConditions :: "pipeline_run \<Rightarrow> condition list" where
  "run_GetConditions run = st_conditions (pr_status run)"

fun replace_condition :: "condition \<Rightarrow> condition list \<Rightarrow> condition list" where
  "replace_condition c [] = [c]"
| "replace_condition c (d # ds) = (if c_type d = c_type c then c # ds else d # replace_condition c ds)"

definition run_PutCondition :: "pipeline_run \<Rightarrow> condition \<Rightarrow> pipeline_run" where
  "run_PutCondition run c =
     run\<lparr>pr_status := (pr_status run)\<lparr>st_conditions := replace_condition c (st_conditions (pr_status run))\<rparr>\<rparr>"

lemma GetCondition_replace:
  "GetCondition t (replace_condition c cs) = (if t = c_type c then Some c else GetCondition t cs)"
  by (induction cs) auto

text \<open>The plugin keeps the contract of the engine.\<close>

interpretation run_conditions: condition_store run_GetConditions run_PutCondition
  by unfold_locales (simp_all add: run_GetConditions_def run_PutCondition_def GetCondition_replace)

lemma meta_of_PutCondition [simp]: "meta_of (run_PutCondition run c) = meta_of run"
  by (simp add: run_PutCondition_def)

section \<open>Environment and trace\<close>

text \<open>
  The calls the reconciler and its actors make: through the API handler (reads and the two
  kinds of write), to the workflow engine, and to the blob store; and the metrics of a drain.
  \<open>EvPanic\<close> and \<open>EvHang\<close> mark the point at which the code panics or loops for ever: the
  program stops there, so what a trace holds after such an event never happens.
\<close>

datatype reset_request = ResetRequest string string int

datatype pr_event =
    EvGetRun string string
  | EvGetPipeline string string
  | EvGetProject string
  | EvGetCachedOutput string string
  | EvUpdate pipeline_run "api_error option"
  | EvUpdateStatus pipeline_run "api_error option"
  | EvExecInfo string string
  | EvCancel string string "api_error option"
  | EvHistory string string
  | EvReset reset_request "api_error option"
  | EvQuery string string
  | EvStartWorkflow string string "json list" "json list" "string \<rightharpoonup> json"
  | EvBlobGet string
  | EvNotify string "api_error option"
  | EvDrain drain_metric
  | EvPanic
  | EvHang

record exec_info =
  ei_status :: workflow_status
  ei_run_id :: "string option" \<comment> \<open>\<^verbatim>\<open>Execution\<close>, nil or with its run id\<close>

text \<open>A history event: its id, its type and the activity id of its details, if it is a string.\<close>

record history_event =
  he_id :: int
  he_type :: string
  he_activity :: "string option"

type_synonym 'a pr_io = "(pr_event, 'a) io"

end
