(* ===== verification/Pipeline_Run.thy ===== *)
theory Pipeline_Run
  imports Pipeline_Run_Model
begin

text \<open>
  The pipeline-run controller (\<^verbatim>\<open>go/components/pipelinerun/controller.go\<close>) and its notifier
  (\<^verbatim>\<open>notification/notifier.go\<close>): one reconcile of a run, from status reconstruction over the
  condition engine to the status update, the notification and the TTL eviction; and the
  drain target through which cascade deletion tears a run down, which interprets the
  contract \<open>draining\<close>. Metrics other than those of a drain are not modelled.
\<close>

section \<open>Environment\<close>

text \<open>
  The notifier's configuration, and the reconciler. Writes return the object as the server
  left it. \<open>pe_now\<close> is in nanoseconds; the plugin's actors run over the trace.
\<close>

record notifier =
  no_task_list :: string

record pr_env =
  pe_finlib :: finlib
  pe_reflib :: reflib
  pe_ttl_days :: int
  pe_metadata_enabled :: bool
  pe_has_client :: bool
  pe_notifier :: "notifier option"
  pe_plugin :: "(pr_event list, pipeline_run) plugin"
  pe_now :: "pr_event list \<Rightarrow> int"
  pe_get_run :: "pr_event list \<Rightarrow> string \<Rightarrow> string \<Rightarrow> api_error + pipeline_run"
  pe_get_pipeline :: "pr_event list \<Rightarrow> string \<Rightarrow> string \<Rightarrow> api_error + pipeline"
  pe_update :: "pr_event list \<Rightarrow> pipeline_run \<Rightarrow> pipeline_run \<times> api_error option"
  pe_update_status :: "pr_event list \<Rightarrow> pipeline_run \<Rightarrow> pipeline_run \<times> api_error option"
  pe_exec_info :: "pr_event list \<Rightarrow> string \<Rightarrow> string \<Rightarrow> api_error + exec_info"
  pe_cancel :: "pr_event list \<Rightarrow> string \<Rightarrow> string \<Rightarrow> api_error option"
  pe_notify :: "pr_event list \<Rightarrow> string \<Rightarrow> api_error option"

definition handler_Update ::
    "pr_env \<Rightarrow> pipeline_run \<Rightarrow> (pipeline_run \<times> api_error option) pr_io" where
  "handler_Update R run = ask (\<lambda>h. pe_update R h run) (\<lambda>a. EvUpdate run (snd a))"

definition handler_UpdateStatus ::
    "pr_env \<Rightarrow> pipeline_run \<Rightarrow> (pipeline_run \<times> api_error option) pr_io" where
  "handler_UpdateStatus R run = ask (\<lambda>h. pe_update_status R h run) (\<lambda>a. EvUpdateStatus run (snd a))"

lemmas handler_calls [io_simps] = handler_Update_def handler_UpdateStatus_def

section \<open>States\<close>

definition drainFinalizer :: string where
  "drainFinalizer = ''pipelineruns.michelangelo.uber.com/drain''"

definition metricKind :: string where "metricKind = ''pipeline_run''"

definition drainRequeueInterval :: int where "drainRequeueInterval = seconds 10"

definition isTerminalState :: "run_state_t \<Rightarrow> bool" where
  "isTerminalState s \<longleftrightarrow> s = Run_SUCCEEDED \<or> s = Run_FAILED \<or> s = Run_KILLED"

fun mapWorkflowStatusToPipelineRunState :: "workflow_status \<Rightarrow> run_state_t" where
  "mapWorkflowStatusToPipelineRunState WF_Running = Run_RUNNING"
| "mapWorkflowStatusToPipelineRunState WF_Completed = Run_SUCCEEDED"
| "mapWorkflowStatusToPipelineRunState WF_Failed = Run_FAILED"
| "mapWorkflowStatusToPipelineRunState WF_Terminated = Run_KILLED"
| "mapWorkflowStatusToPipelineRunState WF_Canceled = Run_KILLED"
| "mapWorkflowStatusToPipelineRunState WF_TimedOut = Run_FAILED"
| "mapWorkflowStatusToPipelineRunState WF_ContinuedAsNew = Run_RUNNING"
| "mapWorkflowStatusToPipelineRunState WF_UnSpecified = Run_RUNNING"

definition pipelineRunWorkStarted :: "pipeline_run \<Rightarrow> bool" where
  "pipelineRunWorkStarted run \<longleftrightarrow>
     st_workflow_id (pr_status run) \<noteq> '''' \<and> st_workflow_run_id (pr_status run) \<noteq> ''''"

text \<open>The state the reconciler and the drain give a run, from the engine's result.\<close>

definition state_of_result :: "engine_result \<Rightarrow> run_state_t" where
  "state_of_result res =
     (if er_killed res then Run_KILLED
      else if \<not> er_terminal res then Run_RUNNING
      else if er_satisfied res then Run_SUCCEEDED
      else Run_FAILED)"

section \<open>Notifications\<close>

definition NewPipelineRunNotifier :: "string \<Rightarrow> notifier option" where
  "NewPipelineRunNotifier taskList =
     (if taskList = '''' then None else Some \<lparr>no_task_list = taskList\<rparr>)"

definition getEffectiveState :: "pipeline_run option \<Rightarrow> run_state_t" where
  "getEffectiveState run =
     (case run of
        None \<Rightarrow> Run_PENDING
      | Some r \<Rightarrow> if st_state (pr_status r) = Run_INVALID then Run_PENDING
                  else st_state (pr_status r))"

fun event_of_state :: "run_state_t \<Rightarrow> event_type option" where
  "event_of_state Run_FAILED = Some ET_FAILED"
| "event_of_state Run_SUCCEEDED = Some ET_SUCCEEDED"
| "event_of_state Run_KILLED = Some ET_KILLED"
| "event_of_state Run_SKIPPED = Some ET_SKIPPED"
| "event_of_state Run_RUNNING = Some ET_STARTED"
| "event_of_state _ = None"

definition ContainsEventType :: "event_type list \<Rightarrow> run_state_t \<Rightarrow> bool" where
  "ContainsEventType eventTypes prState =
     (case event_of_state prState of
        None \<Rightarrow> False
      | Some mapped \<Rightarrow>
          list_ex (\<lambda>et. et = mapped \<or> (mapped = ET_STARTED \<and> et = ET_RUNNING)) eventTypes)"

definition shouldNotify :: "pipeline_run option \<Rightarrow> pipeline_run \<Rightarrow> bool" where
  "shouldNotify old new =
     (let oldState = getEffectiveState old; newState = getEffectiveState (Some new) in
      if oldState = newState then False
      else if length (sp_notifications (pr_spec new)) = 0 then False
      else list_ex (\<lambda>notif. ContainsEventType notif newState) (sp_notifications (pr_spec new)))"

text \<open>The lower-cased name of a state in the workflow id.\<close>

fun lower_state :: "run_state_t \<Rightarrow> string" where
  "lower_state Run_INVALID = ''pipeline_run_state_invalid''"
| "lower_state Run_PENDING = ''pipeline_run_state_pending''"
| "lower_state Run_RUNNING = ''pipeline_run_state_running''"
| "lower_state Run_SUCCEEDED = ''pipeline_run_state_succeeded''"
| "lower_state Run_KILLED = ''pipeline_run_state_killed''"
| "lower_state Run_FAILED = ''pipeline_run_state_failed''"
| "lower_state Run_SKIPPED = ''pipeline_run_state_skipped''"

definition notification_id :: "pipeline_run \<Rightarrow> string" where
  "notification_id run = om_namespace run @ ''.'' @ om_name run @ ''.notification.'' @
     lower_state (getEffectiveState (Some run))"

definition NotifyOnStateChange ::
    "pr_env \<Rightarrow> pipeline_run option \<Rightarrow> pipeline_run \<Rightarrow> (api_error option) pr_io" where
  "NotifyOnStateChange R old new =
     (if \<not> shouldNotify old new then State_Monad.return None
      else ask (\<lambda>h. pe_notify R h (notification_id new)) (EvNotify (notification_id new)))"

section \<open>Steps of a reconcile\<close>

text \<open>Reconstruction of a lost status from the workflow engine.\<close>

definition reconstruct_status :: "pr_env \<Rightarrow> pipeline_run \<Rightarrow> pipeline_run pr_io" where
  "reconstruct_status R run =
     (if pe_has_client R \<and> (st_workflow_id (pr_status run) = '''' \<or> st_workflow_run_id (pr_status run) = '''')
      then do {
        let workflowID = om_name run;
        got \<leftarrow> ask (\<lambda>h. pe_exec_info R h workflowID '''') (\<lambda>_. EvExecInfo workflowID '''');
        State_Monad.return (case got of
            Inr ex \<Rightarrow>
              (case ei_run_id ex of
                 Some runID \<Rightarrow> run\<lparr>pr_status := (pr_status run)
                   \<lparr>st_workflow_id := workflowID, st_workflow_run_id := runID,
                    st_state := mapWorkflowStatusToPipelineRunState (ei_status ex)\<rparr>\<rparr>
               | None \<Rightarrow> run)
          | Inl _ \<Rightarrow> run)
      }
      else State_Monad.return run)"

definition ensureDrainFinalizer ::
    "pr_env \<Rightarrow> pipeline_run \<Rightarrow> (pipeline_run \<times> api_error option) pr_io" where
  "ensureDrainFinalizer R run =
     (if isTerminalState (st_state (pr_status run)) then State_Monad.return (run, None)
      else if fl_contains (pe_finlib R) (om_finalizers run) drainFinalizer
        then State_Monad.return (run, None)
      else handler_Update R
        (run\<lparr>om_finalizers := fl_add (pe_finlib R) (om_finalizers run) drainFinalizer\<rparr>))"

definition ensureOwnerRef ::
    "pr_env \<Rightarrow> pipeline_run \<Rightarrow> (pipeline_run \<times> api_error option) pr_io" where
  "ensureOwnerRef R run =
     (case sp_pipeline (pr_spec run) of
        None \<Rightarrow> State_Monad.return (run, None)
      | Some (refns, refname) \<Rightarrow>
          if refname = '''' then State_Monad.return (run, None)
          else do {
            let namespace = (if refns = '''' then om_namespace run else refns);
            got \<leftarrow> ask (\<lambda>h. pe_get_pipeline R h namespace refname) (\<lambda>_. EvGetPipeline namespace refname);
            (case got of
               Inl err \<Rightarrow>
                 if IsNotFoundError err then State_Monad.return (run, None)
                 else State_Monad.return (run, Some err)
             | Inr pipeline \<Rightarrow>
                 (case EnsureControllerRef (pe_reflib R) run pipeline of
                    Inl err \<Rightarrow> State_Monad.return (run, Some err)
                  | Inr (changed, run') \<Rightarrow>
                      if \<not> changed then State_Monad.return (run', None)
                      else handler_Update R run'))
          })"

definition updatePipelineRunStatus ::
    "pr_env \<Rightarrow> pipeline_run \<Rightarrow> pipeline_run \<Rightarrow> (pipeline_run \<times> api_error option) pr_io" where
  "updatePipelineRunStatus R run original =
     (if pr_status run \<noteq> pr_status original then handler_UpdateStatus R run
      else State_Monad.return (run, None))"

definition day :: int where "day = seconds (24 * 60 * 60)"

definition ttl_start :: "pipeline_run \<Rightarrow> int option" where
  "ttl_start run = (case st_end_time (pr_status run) of Some t \<Rightarrow> Some t | None \<Rightarrow> om_creation_ts run)"

text \<open>The answer is the requeue delay and whether the run is done.\<close>

definition markImmutableIfExpired ::
    "pr_env \<Rightarrow> pipeline_run \<Rightarrow> (int \<times> bool) pr_io" where
  "markImmutableIfExpired R run =
     (case ttl_start run of
        None \<Rightarrow> State_Monad.return (0, True)
      | Some lastUpdate \<Rightarrow> do {
          now \<leftarrow> peek (pe_now R);
          let remaining = lastUpdate + pe_ttl_days R * day - now;
          if remaining > 0 then State_Monad.return (remaining, False)
          else if map_index (om_annotations run) ImmutableAnnotation = ''true''
            then State_Monad.return (0, True)
          else do {
            _ \<leftarrow> handler_Update R
              (run\<lparr>om_annotations := put_entry (om_annotations run) ImmutableAnnotation ''true''\<rparr>);
            State_Monad.return (0, True)
          }
        })"

section \<open>The drain target\<close>

text \<open>
  The drain works on the run in memory and on the trace; the target's methods are lifted to
  that state.
\<close>

record pr_drain =
  dr_run :: pipeline_run
  dr_log :: "pr_event list"

definition on_run :: "(pipeline_run \<Rightarrow> (pipeline_run \<times> 'a) pr_io) \<Rightarrow> (pr_drain, 'a) state" where
  "on_run f = State (\<lambda>s. case run_state (f (dr_run s)) (dr_log s) of
     ((run', x), log') \<Rightarrow> (x, s\<lparr>dr_run := run', dr_log := log'\<rparr>))"

lemma run_on_run [simp]:
  "run_state (on_run f) s = (case run_state (f (dr_run s)) (dr_log s) of
     ((run', x), log') \<Rightarrow> (x, s\<lparr>dr_run := run', dr_log := log'\<rparr>))"
  by (simp add: on_run_def)

definition drain_RequestCancel :: "pr_env \<Rightarrow> pipeline_run \<Rightarrow> (pipeline_run \<times> api_error option) pr_io" where
  "drain_RequestCancel R run =
     handler_Update R (MarkDrainCounted (run\<lparr>pr_spec := (pr_spec run)\<lparr>sp_kill := True\<rparr>\<rparr>))"

definition drain_Progress ::
    "pr_env \<Rightarrow> pipeline_run \<Rightarrow> (pipeline_run \<times> (api_error + bool)) pr_io" where
  "drain_Progress R run = do {
     (conditionResult, run1) \<leftarrow> engineRun (pe_plugin R) run;
     (run2, err) \<leftarrow> updatePipelineRunStatus R (set_state (state_of_result conditionResult) run1) run;
     State_Monad.return (run2, case err of
         Some e \<Rightarrow> Inl e
       | None \<Rightarrow> Inr (isTerminalState (st_state (pr_status run2))))
   }"

definition drain_MarkKilled :: "pr_env \<Rightarrow> pipeline_run \<Rightarrow> (pipeline_run \<times> api_error option) pr_io" where
  "drain_MarkKilled R run = updatePipelineRunStatus R (set_state Run_KILLED run) run"

definition drain_ForceKill :: "pr_env \<Rightarrow> pipeline_run \<Rightarrow> (pipeline_run \<times> api_error option) pr_io" where
  "drain_ForceKill R run =
     (let wid = st_workflow_id (pr_status run); rid = st_workflow_run_id (pr_status run) in
      if wid = '''' \<or> rid = '''' then State_Monad.return (run, None)
      else do {
        err \<leftarrow> ask (\<lambda>h. pe_cancel R h wid rid) (EvCancel wid rid);
        State_Monad.return (run, err)
      })"

definition drain_CompleteDrain :: "pr_env \<Rightarrow> pipeline_run \<Rightarrow> (pipeline_run \<times> api_error option) pr_io" where
  "drain_CompleteDrain R run =
     (let run1 = (if pe_metadata_enabled R then MarkImmutable run else run);
          run2 = ClearDrainCounted run1
      in handler_Update R
           (run2\<lparr>om_finalizers := fl_remove (pe_finlib R) (om_finalizers run2) drainFinalizer\<rparr>))"

definition pipelineRunDrainTarget :: "pr_env \<Rightarrow> pr_drain drain_target" where
  "pipelineRunDrainTarget R =
     \<lparr>dt_object = (\<lambda>s. meta_of (dr_run s)),
      dt_metric = (\<lambda>m. State (\<lambda>s. ((), s\<lparr>dr_log := dr_log s @ [EvDrain m]\<rparr>))),
      dt_request_cancel = on_run (drain_RequestCancel R),
      dt_progress = on_run (drain_Progress R),
      dt_mark_killed = on_run (drain_MarkKilled R),
      dt_force_kill = on_run (drain_ForceKill R),
      dt_complete_drain = on_run (drain_CompleteDrain R)\<rparr>"

definition drain_state_of :: "pipeline_run \<Rightarrow> drain_state" where
  "drain_state_of run =
     \<lparr>ds_kind = metricKind, ds_finalizer = drainFinalizer,
      ds_is_terminal = isTerminalState (st_state (pr_status run)),
      ds_work_started = pipelineRunWorkStarted run\<rparr>"

text \<open>The drain step as the reconciler runs it, over the trace.\<close>

definition drain_run :: "pr_env \<Rightarrow> pipeline_run \<Rightarrow> (ctrl_result \<times> api_error option) pr_io" where
  "drain_run R run = State (\<lambda>h.
     case run_state (RunDrainStep (pe_finlib R) (pe_now R h) (drain_state_of run)
            (pipelineRunDrainTarget R) drainRequeueInterval)
          \<lparr>dr_run = run, dr_log = h\<rparr> of
       (res, s) \<Rightarrow> (res, dr_log s))"

section \<open>Reconcile\<close>

text \<open>What follows the engine: status, notification, TTL.\<close>

definition finish_reconcile ::
    "pr_env \<Rightarrow> pipeline_run \<Rightarrow> pipeline_run \<Rightarrow> ctrl_result \<Rightarrow> (ctrl_result \<times> api_error option) pr_io" where
  "finish_reconcile R run original result = do {
     let currentIsTerminal = isTerminalState (st_state (pr_status run));
     (run, err) \<leftarrow> updatePipelineRunStatus R run original;
     (case err of
        Some e \<Rightarrow> State_Monad.return (result, Some e)
      | None \<Rightarrow> do {
          (if pe_notifier R \<noteq> None then do {
             _ \<leftarrow> NotifyOnStateChange R (Some original) run;
             State_Monad.return ()
           }
           else State_Monad.return ());
          (if currentIsTerminal \<and> pe_metadata_enabled R then do {
             (requeueAt, done) \<leftarrow> markImmutableIfExpired R run;
             State_Monad.return (if \<not> done then (requeue_after requeueAt, None) else (result, None))
           }
           else State_Monad.return (result, None))
        })
   }"

definition reconcileRun :: "pr_env \<Rightarrow> pipeline_run \<Rightarrow> (ctrl_result \<times> api_error option) pr_io" where
  "reconcileRun R run =
     (if om_deletion_ts run \<noteq> None then drain_run R run
      else do {
        (run, err) \<leftarrow> ensureDrainFinalizer R run;
        (case err of
           Some e \<Rightarrow> State_Monad.return (no_requeue, Some e)
         | None \<Rightarrow> do {
             (run, err) \<leftarrow> ensureOwnerRef R run;
             (case err of
                Some e \<Rightarrow> State_Monad.return (no_requeue, Some e)
              | None \<Rightarrow> do {
                  let original = run;
                  (conditionResult, run) \<leftarrow> engineRun (pe_plugin R) run;
                  finish_reconcile R (set_state (state_of_result conditionResult) run) original
                    (er_result conditionResult)
                })
           })
      })"

definition run_Reconcile ::
    "pr_env \<Rightarrow> string \<Rightarrow> string \<Rightarrow> (ctrl_result \<times> api_error option) pr_io" where
  "run_Reconcile R ns nm = do {
     got \<leftarrow> ask (\<lambda>h. pe_get_run R h ns nm) (\<lambda>_. EvGetRun ns nm);
     (case got of
        Inl err \<Rightarrow> State_Monad.return (no_requeue, Some err)
      | Inr run \<Rightarrow> do {
          run \<leftarrow> reconstruct_status R run;
          reconcileRun R run
        })
   }"

section \<open>The drain target keeps its contract\<close>

text \<open>
  What the API server and the actors are relied on for: a write leaves the annotations,
  finalizers and timestamps of the object in memory as they were sent; an actor of the
  plugin neither changes them nor does the controller's own work (writing the run,
  notifying, drain metrics). The actors of \<^verbatim>\<open>actors/\<close> keep this, as their theory shows.
\<close>

definition same_meta :: "'z obj_meta_scheme \<Rightarrow> 'y obj_meta_scheme \<Rightarrow> bool" where
  "same_meta a b \<longleftrightarrow> om_annotations a = om_annotations b \<and> om_finalizers a = om_finalizers b \<and>
     om_deletion_ts a = om_deletion_ts b \<and> om_creation_ts a = om_creation_ts b"

definition server_keeps :: "pr_env \<Rightarrow> bool" where
  "server_keeps R \<longleftrightarrow> (\<forall>h run. same_meta (fst (pe_update R h run)) run \<and>
     same_meta (fst (pe_update_status R h run)) run)"

fun controller_event :: "pr_event \<Rightarrow> bool" where
  "controller_event (EvUpdate run e) \<longleftrightarrow> True"
| "controller_event (EvUpdateStatus run e) \<longleftrightarrow> True"
| "controller_event (EvDrain m) \<longleftrightarrow> True"
| "controller_event (EvNotify i e) \<longleftrightarrow> True"
| "controller_event _ \<longleftrightarrow> False"

definition quiet_call ::
    "(pipeline_run \<Rightarrow> condition \<Rightarrow> (pr_event list, 'x \<times> pipeline_run) state) \<Rightarrow> bool" where
  "quiet_call m \<longleftrightarrow> (\<forall>run c h x run' h'. run_state (m run c) h = ((x, run'), h') \<longrightarrow>
     same_meta run' run \<and> (\<exists>t. h' = h @ t \<and> list_all (\<lambda>e. \<not> controller_event e) t))"

definition quiet_plugin :: "(pr_event list, pipeline_run) plugin \<Rightarrow> bool" where
  "quiet_plugin p \<longleftrightarrow> p_put_condition p = run_PutCondition \<and>
     (\<forall>a\<in>set (p_actors p). quiet_call (a_retrieve a) \<and> quiet_call (a_run a))"

text \<open>The metadata the API server holds, and the active-drain gauge, as the trace tells;
  \<open>base\<close> is what the server held when the trace began.\<close>

fun last_written :: "obj_meta \<Rightarrow> pr_event list \<Rightarrow> obj_meta" where
  "last_written base [] = base"
| "last_written base (EvUpdate run None # es) = last_written (meta_of run) es"
| "last_written base (_ # es) = last_written base es"

fun event_gauge :: "pr_event \<Rightarrow> int" where
  "event_gauge (EvDrain m) = gauge_delta m"
| "event_gauge _ = 0"

definition log_gauge :: "pr_event list \<Rightarrow> int" where
  "log_gauge h = sum_list (map event_gauge h)"

lemma last_written_append [simp]:
  "last_written base (h @ t) = last_written (last_written base h) t"
  by (induction base h rule: last_written.induct) simp_all

lemma log_gauge_simps [simp]:
  "log_gauge [] = 0" "log_gauge (h @ t) = log_gauge h + log_gauge t"
  "log_gauge (e # t) = event_gauge e + log_gauge t"
  by (simp_all add: log_gauge_def)

lemma not_controller_event:
  assumes "\<not> controller_event e"
  shows "last_written base [e] = base" "event_gauge e = 0"
  using assms by (cases e; simp)+

lemma quiet_log:
  assumes "list_all (\<lambda>e. \<not> controller_event e) t"
  shows "last_written base t = base" "log_gauge t = 0"
proof -
  have "last_written base t = base \<and> log_gauge t = 0"
    using assms
  proof (induction t arbitrary: base)
    case (Cons e t)
    then show ?case
      using not_controller_event [of e] last_written_append [of base "[e]" t] by simp
  qed simp
  then show "last_written base t = base" "log_gauge t = 0" by simp_all
qed

definition drain_persisted :: "obj_meta \<Rightarrow> pr_drain \<Rightarrow> obj_meta" where
  "drain_persisted base s = last_written base (dr_log s)"

definition drain_gauge :: "pr_drain \<Rightarrow> int" where
  "drain_gauge s = log_gauge (dr_log s)"

text \<open>A fresh read: the metadata as persisted, spec and status as the API server says.\<close>

definition drain_read :: "obj_meta \<Rightarrow> pipeline_run \<Rightarrow> pr_drain \<Rightarrow> pr_drain" where
  "drain_read base q s =
     s\<lparr>dr_run := obj_meta.extend (drain_persisted base s) (obj_meta.more q)\<rparr>"

definition drain_clock :: "pr_env \<Rightarrow> pr_drain \<Rightarrow> int" where
  "drain_clock R s = pe_now R (dr_log s)"

definition drain_lawful :: "pr_env \<Rightarrow> bool" where
  "drain_lawful R \<longleftrightarrow> server_keeps R \<and> quiet_plugin (pe_plugin R) \<and> finlib_ok (pe_finlib R)"

lemma same_meta_refl [simp]: "same_meta a a"
  by (simp add: same_meta_def)

lemma same_meta_trans: "same_meta a b \<Longrightarrow> same_meta b c \<Longrightarrow> same_meta a c"
  by (simp add: same_meta_def)

lemma same_meta_set [simp]:
  "same_meta (run_PutCondition run c) run" "same_meta (set_state s run) run"
  by (simp_all add: same_meta_def run_PutCondition_def set_state_def)

lemma same_meta_counted: "same_meta a b \<Longrightarrow> IsDrainCounted a = IsDrainCounted b"
  by (simp add: same_meta_def IsDrainCounted_def)

text \<open>A pass of the engine over quiet actors is quiet.\<close>

lemma quiet_callE:
  assumes "quiet_call m" "run_state (m run c) h = ((x, run'), h')"
  obtains t where "same_meta run' run" "h' = h @ t" "list_all (\<lambda>e. \<not> controller_event e) t"
  using assms unfolding quiet_call_def by meson

definition quiet_move :: "pipeline_run \<Rightarrow> pr_event list \<Rightarrow> pipeline_run \<Rightarrow> pr_event list \<Rightarrow> bool" where
  "quiet_move run h run' h' \<longleftrightarrow>
     same_meta run' run \<and> (\<exists>t. h' = h @ t \<and> list_all (\<lambda>e. \<not> controller_event e) t)"

lemma quiet_move_trans:
  "quiet_move run h run1 h1 \<Longrightarrow> quiet_move run1 h1 run2 h2 \<Longrightarrow> quiet_move run h run2 h2"
  unfolding quiet_move_def by (elim conjE exE) (fastforce intro: same_meta_trans)

lemma quiet_move_call:
  "quiet_call m \<Longrightarrow> run_state (m run c) h = ((x, run'), h') \<Longrightarrow> quiet_move run h run' h'"
  by (erule (1) quiet_callE) (auto simp: quiet_move_def)

lemma quiet_move_put: "quiet_move run h (run_PutCondition run c) h"
  by (simp add: quiet_move_def)

lemma runActors_quiet:
  assumes "run_state (runActors p as f c run) h = ((x, run'), h')"
    and "p_put_condition p = run_PutCondition"
    and "\<forall>a\<in>set as. quiet_call (a_retrieve a) \<and> quiet_call (a_run a)"
  shows "quiet_move run h run' h'"
  using assms
proof (induction as arbitrary: f c run h)
  case Nil
  then show ?case by (simp add: quiet_move_def)
next
  case (Cons a as)
  from Cons.prems(3) have ret: "quiet_call (a_retrieve a)" and rn: "quiet_call (a_run a)"
    and as: "\<forall>a\<in>set as. quiet_call (a_retrieve a) \<and> quiet_call (a_run a)" by simp_all
  note put = Cons.prems(2)
  from Cons.prems(1) show ?case
  proof (cases rule: runActors_ConsE)
    case (retrieve_error e r1)
    with quiet_move_call [OF ret retrieve_error(1)] show ?thesis by simp
  next
    case (skipped d r1 w1)
    from Cons.IH [OF skipped(3) put as] quiet_move_call [OF ret skipped(1)] put show ?thesis
      by (metis quiet_move_put quiet_move_trans)
  next
    case (run_error d r1 w1 e r2)
    with quiet_move_trans [OF quiet_move_call [OF ret run_error(1)] quiet_move_call [OF rn run_error(4)]]
    show ?thesis by simp
  next
    case (ran d r1 w1 d' r2 w2)
    from Cons.IH [OF ran(5) put as] put
      quiet_move_trans [OF quiet_move_call [OF ret ran(1)] quiet_move_call [OF rn ran(4)]]
    show ?thesis by (metis quiet_move_put quiet_move_trans)
  qed
qed

lemma engineRun_quiet:
  assumes "run_state (engineRun p run) h = ((res, run'), h')" "quiet_plugin p"
  shows "quiet_move run h run' h'"
proof -
  from assms(1) obtain oc where "run_state (runActors p (p_actors p) False None run) h = ((oc, run'), h')"
    by (auto simp: run_state_engineRun runPlugin_def split: prod.splits)
  from runActors_quiet [OF this] assms(2)
  show ?thesis by (simp add: quiet_plugin_def)
qed

lemma server_keepsD:
  "server_keeps R \<Longrightarrow> pe_update R h run = (run', e) \<Longrightarrow> same_meta run' run"
  "server_keeps R \<Longrightarrow> pe_update_status R h run = (run', e) \<Longrightarrow> same_meta run' run"
  by (metis server_keeps_def fst_conv)+

lemma updatePipelineRunStatus_run:
  assumes "run_state (updatePipelineRunStatus R run original) h = ((run', err), h')"
  obtains (same) "pr_status run = pr_status original" "run' = run" "err = None" "h' = h"
  | (written) "pr_status run \<noteq> pr_status original" "pe_update_status R h run = (run', err)"
      "h' = h @ [EvUpdateStatus run err]"
  using assms by (auto simp: updatePipelineRunStatus_def handler_calls split: if_splits)

lemma updatePipelineRunStatus_quiet:
  assumes "run_state (updatePipelineRunStatus R run original) h = ((run', err), h')" "server_keeps R"
  shows "same_meta run' run" "last_written base h' = last_written base h" "log_gauge h' = log_gauge h"
  using assms(1) by (rule updatePipelineRunStatus_run; auto dest: server_keepsD(2) [OF assms(2)])+

text \<open>The five methods, each as an elimination rule.\<close>

lemma drain_RequestCancel_run:
  assumes "run_state (drain_RequestCancel R run) h = ((run', err), h')"
  obtains sent where
    "sent = MarkDrainCounted (run\<lparr>pr_spec := (pr_spec run)\<lparr>sp_kill := True\<rparr>\<rparr>)"
    "pe_update R h sent = (run', err)" "h' = h @ [EvUpdate sent err]"
  using assms by (auto simp: drain_RequestCancel_def handler_calls)

lemma drain_Progress_run:
  assumes "run_state (drain_Progress R run) h = ((run', x), h')"
  obtains res run1 h1 err where
    "run_state (engineRun (pe_plugin R) run) h = ((res, run1), h1)"
    "run_state (updatePipelineRunStatus R (set_state (state_of_result res) run1) run) h1
       = ((run', err), h')"
    "x = (case err of Some e \<Rightarrow> Inl e | None \<Rightarrow> Inr (isTerminalState (st_state (pr_status run'))))"
  using assms by (auto simp: drain_Progress_def split: prod.splits)

lemma drain_ForceKill_run:
  assumes "run_state (drain_ForceKill R run) h = ((run', err), h')"
  shows "run' = run" "h' = h \<or> (\<exists>w r e. h' = h @ [EvCancel w r e])"
  using assms by (auto simp: drain_ForceKill_def Let_def split: if_splits)

lemma annotations_ClearDrainCounted:
  "om_annotations (ClearDrainCounted obj) = del_entry (om_annotations obj) DrainCountedAnnotation"
  by (simp add: ClearDrainCounted_def del_entry_def split: option.splits)

lemma drain_CompleteDrain_run:
  assumes "run_state (drain_CompleteDrain R run) h = ((run', err), h')"
  obtains sent where "pe_update R h sent = (run', err)" "h' = h @ [EvUpdate sent err]"
    "\<not> IsDrainCounted sent" "om_finalizers sent = fl_remove (pe_finlib R) (om_finalizers run) drainFinalizer"
    "pr_status sent = pr_status run" "pr_spec sent = pr_spec run" "om_deletion_ts sent = om_deletion_ts run"
    "pe_metadata_enabled R \<Longrightarrow> IsImmutable sent"
proof -
  let ?run1 = "if pe_metadata_enabled R then MarkImmutable run else run"
  let ?sent = "(ClearDrainCounted ?run1)\<lparr>om_finalizers :=
      fl_remove (pe_finlib R) (om_finalizers (ClearDrainCounted ?run1)) drainFinalizer\<rparr>"
  have neq: "ImmutableAnnotation \<noteq> DrainCountedAnnotation"
    by (simp add: ImmutableAnnotation_def DrainCountedAnnotation_def)
  from assms have "pe_update R h ?sent = (run', err)" "h' = h @ [EvUpdate ?sent err]"
    by (auto simp: drain_CompleteDrain_def handler_calls Let_def)
  moreover have "\<not> IsDrainCounted ?sent"
    using IsDrainCounted_Clear [of ?run1] by (simp add: IsDrainCounted_def)
  moreover have "om_finalizers ?sent = fl_remove (pe_finlib R) (om_finalizers run) drainFinalizer"
    by (simp add: MarkImmutable_def)
  moreover have "pr_status ?sent = pr_status run" "pr_spec ?sent = pr_spec run"
    "om_deletion_ts ?sent = om_deletion_ts run"
    by (simp_all add: MarkImmutable_def ClearDrainCounted_def split: option.splits)
  moreover have "IsImmutable ?sent" if "pe_metadata_enabled R"
    using that neq
    by (simp add: IsImmutable_def checkAnnotation_index annotations_ClearDrainCounted MarkImmutable_def)
  ultimately show thesis by (rule that)
qed

lemma meta_of_extend [simp]: "meta_of (obj_meta.extend m x) = m"
  by (simp add: meta_of_def obj_meta.defs)

lemma drain_read_sel [simp]:
  "meta_of (dr_run (drain_read base q s)) = drain_persisted base s"
  "dr_log (drain_read base q s) = dr_log s" "drain_persisted base (drain_read base q s) = drain_persisted base s"
  "drain_gauge (drain_read base q s) = drain_gauge s"
  by (simp_all add: drain_read_def drain_persisted_def drain_gauge_def)

lemma quiet_move_log:
  assumes "quiet_move run h run' h'"
  shows "last_written base h' = last_written base h" "log_gauge h' = log_gauge h"
    "IsDrainCounted run' = IsDrainCounted run"
  using assms quiet_log by (auto simp: quiet_move_def dest: same_meta_counted)

lemmas drain_state_defs = drain_persisted_def drain_gauge_def pipelineRunDrainTarget_def

text \<open>The drain target keeps the contract of the driver.\<close>

interpretation run_drain: draining "pipelineRunDrainTarget R" "drain_persisted base" drain_gauge
    "drain_read base" "drain_clock R" "\<lambda>s. drain_state_of (dr_run s)" drainFinalizer "drain_lawful R" for R base
proof (unfold_locales, goal_cases)
  case (1 m s s')
  then show ?case by (auto simp: drain_state_defs)
next
  case (2 s s')
  then show ?case
    by (auto simp: drain_state_defs split: prod.splits elim!: drain_RequestCancel_run)
next
  case (3 s e s')
  then show ?case
    by (auto simp: drain_state_defs split: prod.splits elim!: drain_RequestCancel_run)
next
  case (4 s x s')
  then obtain run' h' where p: "run_state (drain_Progress R (dr_run s)) (dr_log s) = ((run', x), h')"
    "s' = s\<lparr>dr_run := run', dr_log := h'\<rparr>"
    by (auto simp: drain_state_defs split: prod.splits)
  from p(1) show ?case
  proof (cases rule: drain_Progress_run)
    case (1 res run1 h1 err)
    from 4(1) have law: "server_keeps R" "quiet_plugin (pe_plugin R)" by (auto simp: drain_lawful_def)
    note q = quiet_move_log [OF engineRun_quiet [OF 1(1) law(2)]]
    note u = updatePipelineRunStatus_quiet [OF 1(2) law(1)]
    from q(3) u(1) have "IsDrainCounted run' = IsDrainCounted (dr_run s)"
      by (metis same_meta_counted same_meta_set(2))
    with p(2) q u(2,3) show ?thesis by (simp add: drain_state_defs)
  qed
next
  case (5 s y s')
  then obtain run' h' where p: "run_state (drain_MarkKilled R (dr_run s)) (dr_log s) = ((run', y), h')"
    "s' = s\<lparr>dr_run := run', dr_log := h'\<rparr>"
    by (auto simp: drain_state_defs split: prod.splits)
  from 5(1) have law: "server_keeps R" by (simp add: drain_lawful_def)
  note u = updatePipelineRunStatus_quiet [OF p(1) [unfolded drain_MarkKilled_def] law]
  from u(1) have "IsDrainCounted run' = IsDrainCounted (dr_run s)"
    by (metis same_meta_counted same_meta_set(2))
  with p(2) u show ?case by (simp add: drain_state_defs)
next
  case (6 s y s')
  then obtain run' h' where p: "run_state (drain_ForceKill R (dr_run s)) (dr_log s) = ((run', y), h')"
    "s' = s\<lparr>dr_run := run', dr_log := h'\<rparr>"
    by (auto simp: drain_state_defs split: prod.splits)
  from drain_ForceKill_run [OF p(1)] p(2) show ?case by (auto simp: drain_state_defs)
next
  case (7 s s')
  then obtain run' h' where p: "run_state (drain_CompleteDrain R (dr_run s)) (dr_log s) = ((run', None), h')"
    "s' = s\<lparr>dr_run := run', dr_log := h'\<rparr>"
    by (auto simp: drain_state_defs split: prod.splits)
  from 7(1) have lib: "finlib_ok (pe_finlib R)" by (simp add: drain_lawful_def)
  from p(1) show ?case
    by (rule drain_CompleteDrain_run) (use p(2) finlib_okD(3) [OF lib] in \<open>simp add: drain_state_defs\<close>)
next
  case (8 s e s')
  then show ?case
    by (auto simp: drain_state_defs split: prod.splits elim!: drain_CompleteDrain_run)
next
  case (9 q s)
  then show ?case by (simp add: pipelineRunDrainTarget_def)
next
  case (10 q s)
  then show ?case by simp
next
  case (11 q s)
  then show ?case by simp
next
  case (12 s)
  then show ?case by (simp add: drain_state_of_def)
qed

section \<open>Drains of pipeline runs\<close>

text \<open>Successive reconciles of a run being deleted, each reading it afresh.\<close>

definition drain_pass :: "pr_env \<Rightarrow> pr_drain \<Rightarrow> (ctrl_result \<times> api_error option) \<times> pr_drain" where
  "drain_pass R s = run_state (RunDrainStep (pe_finlib R) (drain_clock R s)
     (drain_state_of (dr_run s)) (pipelineRunDrainTarget R) drainRequeueInterval) s"

fun drain_passes :: "pr_env \<Rightarrow> obj_meta \<Rightarrow> pipeline_run list \<Rightarrow> pr_drain \<Rightarrow> pr_drain" where
  "drain_passes R base [] s = s"
| "drain_passes R base (q # qs) s =
     drain_passes R base qs (snd (drain_pass R (drain_read base q s)))"

definition token :: "obj_meta \<Rightarrow> int" where
  "token m = (if IsDrainCounted m then 1 else 0)"

lemma drain_passes_reconciles:
  "drain_passes R base qs s =
     run_drain.drain_reconciles R base (pe_finlib R) drainRequeueInterval qs s"
  by (induction R base qs s rule: drain_passes.induct) (simp_all add: drain_pass_def)

lemma drain_run_pass:
  assumes "run_state (drain_run R run) h = (res, h')"
  obtains s where "drain_pass R \<lparr>dr_run = run, dr_log = h\<rparr> = (res, s)" "dr_log s = h'"
  using assms by (auto simp: drain_run_def drain_pass_def drain_clock_def split: prod.splits)

subsection \<open>An environment for the witnesses\<close>

text \<open>
  A server that stores what it is sent, and a plugin of one actor that reports the workflow
  done; the record fields of the run are those the examples need.
\<close>

definition still_actor :: "condition_status \<Rightarrow> (pr_event list, pipeline_run) actor" where
  "still_actor st =
     \<lparr>a_type = ''Execute Workflow'',
      a_retrieve = (\<lambda>run c. State_Monad.return (Inr (mk_condition ''Execute Workflow'' st), run)),
      a_run = (\<lambda>run c. State_Monad.return (Inr (mk_condition ''Execute Workflow'' st), run))\<rparr>"

definition still_plugin :: "condition_status \<Rightarrow> (pr_event list, pipeline_run) plugin" where
  "still_plugin st =
     \<lparr>p_actors = [still_actor st], p_get_conditions = run_GetConditions,
      p_put_condition = run_PutCondition\<rparr>"

definition echo_env :: "condition_status \<Rightarrow> int \<Rightarrow> pipeline_run \<Rightarrow> pr_env" where
  "echo_env st now run =
     \<lparr>pe_finlib = list_finlib,
      pe_reflib = \<lparr>rl_controller_of = (\<lambda>_. None), rl_set_controller = (\<lambda>_ _. Inr [])\<rparr>,
      pe_ttl_days = 0, pe_metadata_enabled = True, pe_has_client = False,
      pe_notifier = NewPipelineRunNotifier ''tasks'', pe_plugin = still_plugin st, pe_now = (\<lambda>h. now),
      pe_get_run = (\<lambda>h ns nm. Inr run), pe_get_pipeline = (\<lambda>h ns nm. Inl (GrpcError Code_NotFound)),
      pe_update = (\<lambda>h r. (r, None)), pe_update_status = (\<lambda>h r. (r, None)),
      pe_exec_info = (\<lambda>h w r. Inl (OtherError ''none'')), pe_cancel = (\<lambda>h w r. None),
      pe_notify = (\<lambda>h i. None)\<rparr>"

definition example_run :: "run_state_t \<Rightarrow> string list \<Rightarrow> gomap \<Rightarrow> int option \<Rightarrow> pipeline_run" where
  "example_run st fins annotations deleted =
     \<lparr>om_namespace = ''ns'', om_name = ''r'', om_uid = ''u'', om_generation = 1,
      om_creation_ts = Some 0, om_deletion_ts = deleted, om_labels = None,
      om_annotations = annotations, om_finalizers = fins, om_owner_refs = [],
      pr_spec = \<lparr>sp_kill = False, sp_pipeline = None, sp_pipeline_spec = None, sp_retry = None,
        sp_resume = None, sp_input = None, sp_workspace_root = '''', sp_notifications = [[ET_SUCCEEDED]]\<rparr>,
      pr_status = \<lparr>st_state = st, st_workflow_id = ''w'', st_workflow_run_id = ''x'',
        st_conditions = [], st_steps = [], st_source_pipeline = None, st_end_time = None,
        st_error_message = ''''\<rparr>\<rparr>"

lemma echo_env_sel [simp]:
  "pe_finlib (echo_env st now run) = list_finlib" "pe_now (echo_env st now run) h = now"
  "pe_plugin (echo_env st now run) = still_plugin st" "pe_update (echo_env st now run) h r = (r, None)"
  "pe_update_status (echo_env st now run) h r = (r, None)"
  "pe_metadata_enabled (echo_env st now run)" "pe_cancel (echo_env st now run) h w i = None"
  "pe_get_run (echo_env st now run) h ns nm = Inr run" "pe_ttl_days (echo_env st now run) = 0"
  "pe_notify (echo_env st now run) h i = None" "\<not> pe_has_client (echo_env st now run)"
  by (simp_all add: echo_env_def)

lemma echo_env_lawful [simp]: "drain_lawful (echo_env st now run)"
  by (auto simp: drain_lawful_def server_keeps_def quiet_plugin_def still_plugin_def still_actor_def
      quiet_call_def)

lemma example_run_sel [simp]:
  "om_finalizers (example_run st fins an d) = fins" "om_deletion_ts (example_run st fins an d) = d"
  "om_annotations (example_run st fins an d) = an" "st_state (pr_status (example_run st fins an d)) = st"
  "pipelineRunWorkStarted (example_run st fins an d)" "sp_pipeline (pr_spec (example_run st fins an d)) = None"
  "st_end_time (pr_status (example_run st fins an d)) = None"
  "om_creation_ts (example_run st fins an d) = Some 0"
  "st_workflow_id (pr_status (example_run st fins an d)) = ''w''"
  "st_workflow_run_id (pr_status (example_run st fins an d)) = ''x''"
  by (simp_all add: example_run_def pipelineRunWorkStarted_def)

text \<open>The first pass of a drain, and the pass of a counted run whose plugin reports a state.\<close>

lemma drain_read_same [simp]:
  "drain_read (meta_of q) q \<lparr>dr_run = q, dr_log = []\<rparr> = \<lparr>dr_run = q, dr_log = []\<rparr>"
  by (cases q) (simp add: drain_read_def drain_persisted_def meta_of_def obj_meta.defs)

lemma first_drain_pass:
  assumes "drainFinalizer \<in> set (om_finalizers q)" "\<not> isTerminalState (st_state (pr_status q))"
    "\<not> timed_out now q" "pipelineRunWorkStarted q" "\<not> IsDrainCounted q"
  defines "sent \<equiv> MarkDrainCounted (q\<lparr>pr_spec := (pr_spec q)\<lparr>sp_kill := True\<rparr>\<rparr>)"
  shows "drain_pass (echo_env st now run) \<lparr>dr_run = q, dr_log = h\<rparr> =
    ((requeue_after drainRequeueInterval, None),
     \<lparr>dr_run = sent, dr_log = h @ [EvUpdate sent None, EvDrain (DrainActiveInc metricKind)]\<rparr>)"
  using assms finlib_okD(1) [OF list_finlib_ok]
  by (simp add: drain_pass_def RunDrainStep_def drain_clock_def pipelineRunDrainTarget_def
      drain_state_of_def timed_out_def drain_RequestCancel_def handler_calls)

lemma example_drain_pass:
  assumes "q = example_run Run_RUNNING [drainFinalizer] None (Some 0)"
  shows "drain_pass (echo_env st 5 q) \<lparr>dr_run = q, dr_log = []\<rparr> =
    ((requeue_after drainRequeueInterval, None),
     \<lparr>dr_run = MarkDrainCounted (q\<lparr>pr_spec := (pr_spec q)\<lparr>sp_kill := True\<rparr>\<rparr>),
      dr_log = [EvUpdate (MarkDrainCounted (q\<lparr>pr_spec := (pr_spec q)\<lparr>sp_kill := True\<rparr>\<rparr>)) None,
                EvDrain (DrainActiveInc metricKind)]\<rparr>)"
  using first_drain_pass [of q 5 st q "[]"] assms
  by (simp add: isTerminalState_def timed_out_def CascadeDrainTimeout_def IsDrainCounted_def map_index_def)

text \<open>One reconcile of a run being deleted, through the contract.\<close>

lemma drain_phase_Released [simp]:
  "drain_phase fin obj = Released \<longleftrightarrow> fin \<notin> set (om_finalizers obj)"
  by (simp add: drain_phase_def)

lemma drain_target_sel [simp]:
  "dt_object (pipelineRunDrainTarget R) s = meta_of (dr_run s)"
  "dt_progress (pipelineRunDrainTarget R) = on_run (drain_Progress R)"
  "dt_force_kill (pipelineRunDrainTarget R) = on_run (drain_ForceKill R)"
  "dt_complete_drain (pipelineRunDrainTarget R) = on_run (drain_CompleteDrain R)"
  "dt_mark_killed (pipelineRunDrainTarget R) = on_run (drain_MarkKilled R)"
  "dt_request_cancel (pipelineRunDrainTarget R) = on_run (drain_RequestCancel R)"
  "run_state (dt_metric (pipelineRunDrainTarget R) m) s = ((), s\<lparr>dr_log := dr_log s @ [EvDrain m]\<rparr>)"
  by (simp_all add: pipelineRunDrainTarget_def)

lemma timed_out_meta_of [simp]: "timed_out now (meta_of obj) = timed_out now obj"
  by (simp add: timed_out_def)

lemma drain_state_of_sel [simp]:
  "ds_is_terminal (drain_state_of run) = isTerminalState (st_state (pr_status run))"
  "ds_work_started (drain_state_of run) = pipelineRunWorkStarted run"
  "ds_finalizer (drain_state_of run) = drainFinalizer"
  by (simp_all add: drain_state_of_def)

lemma reconcileRun_drain:
  assumes "run_state (reconcileRun R run) h = (res, h')" "om_deletion_ts run \<noteq> None"
    "last_written base h = meta_of run"
  obtains s where
    "run_state (RunDrainStep (pe_finlib R) (pe_now R h) (drain_state_of run) (pipelineRunDrainTarget R)
       drainRequeueInterval) \<lparr>dr_run = run, dr_log = h\<rparr> = (res, s)" "dr_log s = h'"
    "drain_persisted base s = last_written base h'"
    "run_drain.in_sync R base \<lparr>dr_run = run, dr_log = h\<rparr>"
proof -
  from assms(1,2) have "run_state (drain_run R run) h = (res, h')" by (simp add: reconcileRun_def)
  then obtain s where s: "drain_pass R \<lparr>dr_run = run, dr_log = h\<rparr> = (res, s)" "dr_log s = h'"
    by (rule drain_run_pass)
  have "run_drain.in_sync R base \<lparr>dr_run = run, dr_log = h\<rparr>"
    using assms(3) by (simp add: run_drain.in_sync_def drain_persisted_def)
  with s show thesis by (intro that [of s]) (simp_all add: drain_pass_def drain_clock_def drain_persisted_def)
qed

lemma on_run_finish_cancelled:
  assumes "run_state (finish now st (pipelineRunDrainTarget R)) s = (err, s')" "e \<in> set (dr_log s)"
  shows "e \<in> set (dr_log s')"
  using assms by (auto simp: finish_def split: prod.splits option.splits if_splits elim!: drain_CompleteDrain_run)

lemma timeout_cancels:
  assumes run: "run_state (RunDrainStep (pe_finlib R) now (drain_state_of run) (pipelineRunDrainTarget R) rq)
      \<lparr>dr_run = run, dr_log = h\<rparr> = (r, s)"
    and lib: "finlib_ok (pe_finlib R)" and fin: "drainFinalizer \<in> set (om_finalizers run)"
    and active: "\<not> isTerminalState (st_state (pr_status run))" "pipelineRunWorkStarted run"
    and late: "timed_out now run"
  shows "\<exists>e. EvCancel (st_workflow_id (pr_status run)) (st_workflow_run_id (pr_status run)) e \<in> set (dr_log s)"
proof -
  let ?w = "st_workflow_id (pr_status run)" and ?x = "st_workflow_run_id (pr_status run)"
  let ?h1 = "h @ [EvDrain (DrainTimeout metricKind)]"
  let ?h2 = "?h1 @ [EvCancel ?w ?x (pe_cancel R ?h1 ?w ?x)]"
  have "run_state (drain_ForceKill R run) ?h1 = ((run, pe_cancel R ?h1 ?w ?x), ?h2)"
    using active(2) by (simp add: drain_ForceKill_def pipelineRunWorkStarted_def Let_def)
  with run active late fin finlib_okD(1) [OF lib] obtain err where
    "run_state (finish now (drain_state_of run) (pipelineRunDrainTarget R))
       \<lparr>dr_run = run, dr_log = ?h2\<rparr> = (err, s)"
    by (auto simp: RunDrainStep_def drain_state_of_def split: prod.splits)
  from on_run_finish_cancelled [OF this] show ?thesis by auto
qed

lemma reconcileRun_timeout:
  assumes "drain_lawful R" "om_deletion_ts run \<noteq> None"
    and "run_state (reconcileRun R run) h = ((res, None), h')" "last_written base h = meta_of run"
    and "timed_out (pe_now R h) run"
  shows "drainFinalizer \<notin> set (om_finalizers (last_written base h')) \<and>
    (drainFinalizer \<in> set (om_finalizers run) \<longrightarrow> \<not> isTerminalState (st_state (pr_status run)) \<longrightarrow>
     pipelineRunWorkStarted run \<longrightarrow>
     (\<exists>e. EvCancel (st_workflow_id (pr_status run)) (st_workflow_run_id (pr_status run)) e \<in> set h'))"
proof -
  from assms(1) have lib: "finlib_ok (pe_finlib R)" by (simp add: drain_lawful_def)
  from assms(3,2,4) obtain s where s:
    "run_state (RunDrainStep (pe_finlib R) (pe_now R h) (drain_state_of run) (pipelineRunDrainTarget R)
       drainRequeueInterval) \<lparr>dr_run = run, dr_log = h\<rparr> = ((res, None), s)" "dr_log s = h'"
    "drain_persisted base s = last_written base h'"
    "run_drain.in_sync R base \<lparr>dr_run = run, dr_log = h\<rparr>"
    by (rule reconcileRun_drain)
  from run_drain.step_timeout_releases [OF assms(1) s(1,4) lib] s(3) assms(4,5)
  have "drainFinalizer \<notin> set (om_finalizers (last_written base h'))"
    by (simp add: drain_persisted_def)
  with timeout_cancels [OF s(1) lib] assms(5) s(2) show ?thesis by simp
qed

subsection \<open>Properties\<close>

text \<open>
  C1. The active-drain gauge never drifts. Over any number of drain reconciles of a run,
  each reading the run afresh with an arbitrary spec and status, and whatever writes fail
  or time out in between, the gauge has moved by exactly the change of the persisted
  drain-counted token; so a run whose drain completed has decremented what it incremented.
\<close>

theorem drain_gauge_balances:
  assumes "drain_lawful R"
  shows "drain_gauge (drain_passes R base qs s) - drain_gauge s =
    token (drain_persisted base (drain_passes R base qs s)) - token (drain_persisted base s)"
  using run_drain.drain_reconciles_balance [OF assms, of base "pe_finlib R" drainRequeueInterval qs s]
  by (simp add: drain_passes_reconciles run_drain.weight_def token_def)

theorem drain_gauge_balances_witness:
  "let q = example_run Run_RUNNING [drainFinalizer] None (Some 0);
       s = drain_passes (echo_env CS_UNKNOWN 5 q) (meta_of q) [q] \<lparr>dr_run = q, dr_log = []\<rparr> in
     drain_gauge s = 1 \<and> token (drain_persisted (meta_of q) s) = 1"
proof -
  define q where "q = example_run Run_RUNNING [drainFinalizer] None (Some 0)"
  let ?start = "\<lparr>dr_run = q, dr_log = []\<rparr>"
  let ?s = "drain_passes (echo_env CS_UNKNOWN 5 q) (meta_of q) [q] ?start"
  have "drain_gauge ?s = 1"
    using example_drain_pass [OF q_def, of CS_UNKNOWN] by (simp add: drain_gauge_def)
  moreover have "drain_gauge ?start = 0" by (simp add: drain_gauge_def)
  moreover have "token (drain_persisted (meta_of q) ?start) = 0"
    by (simp add: drain_persisted_def token_def q_def IsDrainCounted_def map_index_def)
  ultimately show ?thesis
    using drain_gauge_balances [OF echo_env_lawful, of CS_UNKNOWN 5 q "meta_of q" "[q]" ?start]
    by (simp add: Let_def q_def)
qed

text \<open>
  C2. A run being deleted loses its drain finalizer only when it is safe: in one reconcile
  of a freshly read run that holds the finalizer, it disappears from the stored object only
  if the run was already terminal, the 24-hour drain timeout has passed, its workflow never
  started, or cancellation had been requested earlier and this reconcile's engine pass
  reported the run terminal.
\<close>

theorem drain_releases_only_when_safe:
  assumes "drain_lawful R" "om_deletion_ts run \<noteq> None"
    and "run_state (reconcileRun R run) h = (res, h')" "last_written base h = meta_of run"
    and "drainFinalizer \<in> set (om_finalizers run)"
    and "drainFinalizer \<notin> set (om_finalizers (last_written base h'))"
  shows "isTerminalState (st_state (pr_status run)) \<or> timed_out (pe_now R h) run \<or>
    \<not> pipelineRunWorkStarted run \<or>
    IsDrainCounted run \<and> (\<exists>run' h1. run_state (drain_Progress R run) h = ((run', Inr True), h1))"
proof -
  from assms(1) have lib: "finlib_ok (pe_finlib R)" by (simp add: drain_lawful_def)
  from assms(3,2,4) obtain s where s:
    "run_state (RunDrainStep (pe_finlib R) (pe_now R h) (drain_state_of run) (pipelineRunDrainTarget R)
       drainRequeueInterval) \<lparr>dr_run = run, dr_log = h\<rparr> = (res, s)" "dr_log s = h'"
    "drain_persisted base s = last_written base h'"
    "run_drain.in_sync R base \<lparr>dr_run = run, dr_log = h\<rparr>"
    by (rule reconcileRun_drain)
  from run_drain.step_release [OF assms(1) s(1,4) lib] s(3) assms(4,5,6) show ?thesis
    by (auto simp: drain_persisted_def split: prod.splits)
qed

text \<open>
  C12. The drain timeout always frees the run: once 24 hours have passed since the deletion,
  a reconcile of the freshly read run that returns no error has removed the finalizer from
  the stored object, and if the run was still active with a started workflow it has asked
  the workflow engine to cancel exactly that workflow.
\<close>

theorem drain_timeout_frees_the_run:
  assumes "drain_lawful R" "om_deletion_ts run \<noteq> None"
    and "run_state (reconcileRun R run) h = ((res, None), h')" "last_written base h = meta_of run"
    and "timed_out (pe_now R h) run"
  shows "drainFinalizer \<notin> set (om_finalizers (last_written base h')) \<and>
    (drainFinalizer \<in> set (om_finalizers run) \<longrightarrow> \<not> isTerminalState (st_state (pr_status run)) \<longrightarrow>
     pipelineRunWorkStarted run \<longrightarrow>
     (\<exists>e. EvCancel (st_workflow_id (pr_status run)) (st_workflow_run_id (pr_status run)) e \<in> set h'))"
  using reconcileRun_timeout [OF assms] by blast

lemma example_timeout_reconcile:
  assumes "q = example_run Run_RUNNING [drainFinalizer] None (Some 0)" "now = CascadeDrainTimeout"
  shows "\<exists>h'. run_state (reconcileRun (echo_env st now q) q) [] = ((no_requeue, None), h')"
proof -
  have "timed_out now q" "om_deletion_ts q \<noteq> None" "drainFinalizer \<in> set (om_finalizers q)"
    "\<not> isTerminalState (st_state (pr_status q))"
    by (simp_all add: assms timed_out_def isTerminalState_def)
  then show ?thesis
    using finlib_okD(1) [OF list_finlib_ok]
    by (auto simp: reconcileRun_def drain_run_def RunDrainStep_def finish_def drain_CompleteDrain_def
        drain_ForceKill_def handler_calls Let_def split: prod.splits option.splits)
qed

theorem drain_timeout_frees_the_run_witness:
  "\<exists>h'. run_state (reconcileRun
      (echo_env CS_UNKNOWN CascadeDrainTimeout (example_run Run_RUNNING [drainFinalizer] None (Some 0)))
      (example_run Run_RUNNING [drainFinalizer] None (Some 0))) [] = ((no_requeue, None), h') \<and>
    drainFinalizer \<notin> set (om_finalizers
      (last_written (meta_of (example_run Run_RUNNING [drainFinalizer] None (Some 0))) h')) \<and>
    (\<exists>e. EvCancel ''w'' ''x'' e \<in> set h')"
proof -
  let ?q = "example_run Run_RUNNING [drainFinalizer] None (Some 0)"
  obtain h' where run: "run_state (reconcileRun (echo_env CS_UNKNOWN CascadeDrainTimeout ?q) ?q) []
      = ((no_requeue, None), h')"
    using example_timeout_reconcile [OF refl refl] by blast
  have "timed_out (pe_now (echo_env CS_UNKNOWN CascadeDrainTimeout ?q) []) ?q"
    by (simp add: timed_out_def)
  from drain_timeout_frees_the_run [OF echo_env_lawful _ run _ this, of "meta_of ?q"] run show ?thesis
    by (simp add: isTerminalState_def)
qed

theorem drain_releases_only_when_safe_witness:
  "timed_out CascadeDrainTimeout (example_run Run_RUNNING [drainFinalizer] None (Some 0))"
proof -
  let ?q = "example_run Run_RUNNING [drainFinalizer] None (Some 0)"
  let ?R = "echo_env CS_UNKNOWN CascadeDrainTimeout ?q"
  obtain h' where run: "run_state (reconcileRun ?R ?q) [] = ((no_requeue, None), h')"
    using example_timeout_reconcile [OF refl refl] by blast
  have "timed_out (pe_now ?R []) ?q" by (simp add: timed_out_def)
  with reconcileRun_timeout [OF echo_env_lawful _ run, of "meta_of ?q"]
  have "drainFinalizer \<notin> set (om_finalizers (last_written (meta_of ?q) h'))" by simp
  from drain_releases_only_when_safe [OF echo_env_lawful _ run _ _ this] show ?thesis
    by (simp add: isTerminalState_def IsDrainCounted_def map_index_def)
qed

section \<open>Reconciles of live runs\<close>

text \<open>The paths of each step, as elimination rules.\<close>

lemma handler_writes_iff:
  "run_state (handler_Update R x) h = ((run', err), h') \<longleftrightarrow>
     pe_update R h x = (run', err) \<and> h' = h @ [EvUpdate x err]"
  "run_state (handler_UpdateStatus R x) h = ((run', err), h') \<longleftrightarrow>
     pe_update_status R h x = (run', err) \<and> h' = h @ [EvUpdateStatus x err]"
  by (auto simp: handler_calls)

lemma ensureDrainFinalizer_run:
  assumes "run_state (ensureDrainFinalizer R run) h = ((run', err), h')"
  obtains (unchanged) "run' = run" "err = None" "h' = h"
      "isTerminalState (st_state (pr_status run)) \<or> fl_contains (pe_finlib R) (om_finalizers run) drainFinalizer"
  | (added) sent where "\<not> fl_contains (pe_finlib R) (om_finalizers run) drainFinalizer"
      "sent = run\<lparr>om_finalizers := fl_add (pe_finlib R) (om_finalizers run) drainFinalizer\<rparr>"
      "pe_update R h sent = (run', err)" "h' = h @ [EvUpdate sent err]"
proof (cases "isTerminalState (st_state (pr_status run)) \<or>
    fl_contains (pe_finlib R) (om_finalizers run) drainFinalizer")
  case True
  with assms have "((run, None), h) = ((run', err), h')"
    by (simp add: ensureDrainFinalizer_def split: if_splits)
  with True show thesis by (intro unchanged) simp_all
next
  case False
  with assms show thesis by (intro added [OF _ refl]) (simp_all add: ensureDrainFinalizer_def handler_writes_iff)
qed

lemma ensureOwnerRef_run:
  assumes "run_state (ensureOwnerRef R run) h = ((run', err), h')"
  obtains (skipped) "run' = run" "h' = h \<or> (\<exists>ns nm. h' = h @ [EvGetPipeline ns nm])"
  | (written) ns nm and pipeline :: pipeline and sent where "EnsureControllerRef (pe_reflib R) run pipeline = Inr (True, sent)"
      "pe_update R (h @ [EvGetPipeline ns nm]) sent = (run', err)"
      "h' = h @ [EvGetPipeline ns nm, EvUpdate sent err]"
proof -
  define m where "m = (\<lambda>namespace refname. do {
      got \<leftarrow> ask (\<lambda>h. pe_get_pipeline R h namespace refname) (\<lambda>_. EvGetPipeline namespace refname);
      (case got of
         Inl err \<Rightarrow>
           if IsNotFoundError err then State_Monad.return (run, None)
           else State_Monad.return (run, Some err)
       | Inr pipeline \<Rightarrow>
           (case EnsureControllerRef (pe_reflib R) run pipeline of
              Inl err \<Rightarrow> State_Monad.return (run, Some err)
            | Inr (changed, run') \<Rightarrow>
                if \<not> changed then State_Monad.return (run', None)
                else handler_Update R run'))
    })"
  from assms consider "((run, None), h) = ((run', err), h')"
    | ns nm where "run_state (m ns nm) h = ((run', err), h')"
    unfolding ensureOwnerRef_def m_def Let_def by (cases "sp_pipeline (pr_spec run)") (auto split: if_splits)
  then show thesis
  proof cases
    case 1
    then show thesis by (intro skipped) simp_all
  next
    case (2 ns nm)
    let ?h1 = "h @ [EvGetPipeline ns nm]"
    consider "run' = run" "h' = ?h1"
      | pipeline :: pipeline and changed r where "EnsureControllerRef (pe_reflib R) run pipeline = Inr (changed, r)"
        "run_state (if \<not> changed then State_Monad.return (r, None) else handler_Update R r) ?h1
           = ((run', err), h')"
    proof (cases "pe_get_pipeline R h ns nm")
      case (Inl e)
      with 2 show thesis by (intro that(1)) (simp_all add: m_def split: if_splits)
    next
      case (Inr pipeline)
      show thesis
      proof (cases "EnsureControllerRef (pe_reflib R) run pipeline")
        case (Inl e)
        with Inr 2 show thesis by (intro that(1)) (simp_all add: m_def)
      next
        case r: (Inr r)
        obtain changed r' where "r = (changed, r')" by (cases r)
        with r Inr 2 show thesis by (intro that(2) [of pipeline changed r']) (simp_all add: m_def)
      qed
    qed
    then show thesis
    proof cases
      case 1
      then show thesis by (intro skipped) simp_all
    next
      case u: (2 pipeline changed r)
      show thesis
      proof (cases changed)
        case True
        with u show thesis by (intro written [of pipeline r ns nm]) (simp_all add: handler_writes_iff)
      next
        case False
        with u EnsureControllerRef_unchanged(3) [OF u(1)] show thesis by (intro skipped) auto
      qed
    qed
  qed
qed

lemma markImmutableIfExpired_run:
  assumes "run_state (markImmutableIfExpired R run) h = (x, h')"
  obtains (kept) "h' = h"
  | (marked) t err sent where "ttl_start run = Some t" "t + pe_ttl_days R * day \<le> pe_now R h"
      "sent = run\<lparr>om_annotations := put_entry (om_annotations run) ImmutableAnnotation ''true''\<rparr>"
      "h' = h @ [EvUpdate sent err]"
proof (cases "ttl_start run")
  case None
  with assms show thesis by (intro kept) (auto simp: markImmutableIfExpired_def)
next
  case (Some t)
  show thesis
  proof (cases "t + pe_ttl_days R * day - pe_now R h > 0 \<or>
      map_index (om_annotations run) ImmutableAnnotation = ''true''")
    case True
    with Some assms show thesis
      by (intro kept) (auto simp: markImmutableIfExpired_def Let_def split: if_splits)
  next
    case False
    with Some assms show thesis
      by (intro marked) (auto simp: markImmutableIfExpired_def handler_calls Let_def)
  qed
qed

lemma NotifyOnStateChange_run:
  assumes "run_state (NotifyOnStateChange R old run) h = (x, h')"
  obtains (silent) "h' = h"
  | (sent) err where "shouldNotify old run" "h' = h @ [EvNotify (notification_id run) err]"
  using assms by (auto simp: NotifyOnStateChange_def split: if_splits)

lemma finish_reconcile_run:
  assumes "run_state (finish_reconcile R run original result) h = (res, h')"
  obtains (write_error) run1 e where
      "run_state (updatePipelineRunStatus R run original) h = ((run1, Some e), h')"
  | (finished) run1 h1 h2 where
      "run_state (updatePipelineRunStatus R run original) h = ((run1, None), h1)"
      "h2 = h1 \<or> pe_notifier R \<noteq> None \<and> shouldNotify (Some original) run1 \<and>
         (\<exists>err. h2 = h1 @ [EvNotify (notification_id run1) err])"
      "h' = h2 \<or> isTerminalState (st_state (pr_status run)) \<and> pe_metadata_enabled R \<and>
         (\<exists>x. run_state (markImmutableIfExpired R run1) h2 = (x, h'))"
proof -
  obtain run1 err h1 where u: "run_state (updatePipelineRunStatus R run original) h = ((run1, err), h1)"
    by (metis prod.exhaust)
  show thesis
  proof (cases err)
    case (Some e)
    with assms u show thesis by (intro write_error) (auto simp: finish_reconcile_def Let_def)
  next
    case None
    define n where "n = (if pe_notifier R \<noteq> None then do {
        _ \<leftarrow> NotifyOnStateChange R (Some original) run1; State_Monad.return () }
      else State_Monad.return ())"
    define m :: "(ctrl_result \<times> api_error option) pr_io" where "m = (if isTerminalState (st_state (pr_status run)) \<and> pe_metadata_enabled R then do {
        (requeueAt, done) \<leftarrow> markImmutableIfExpired R run1;
        State_Monad.return (if \<not> done then (requeue_after requeueAt, None) else (result, None)) }
      else State_Monad.return (result, None))"
    from assms u None have nm: "run_state (n \<bind> (\<lambda>_. m)) h1 = (res, h')"
      unfolding n_def m_def by (simp add: finish_reconcile_def Let_def)
    obtain h2 where n: "run_state n h1 = ((), h2)" by (cases "run_state n h1") auto
    with nm have m: "run_state m h2 = (res, h')" by simp
    have h2: "h2 = h1 \<or> pe_notifier R \<noteq> None \<and> shouldNotify (Some original) run1 \<and>
        (\<exists>err. h2 = h1 @ [EvNotify (notification_id run1) err])"
    proof (cases "pe_notifier R")
      case Some
      with n obtain x where "run_state (NotifyOnStateChange R (Some original) run1) h1 = (x, h2)"
        by (cases "run_state (NotifyOnStateChange R (Some original) run1) h1") (simp add: n_def)
      with Some show ?thesis by (auto elim: NotifyOnStateChange_run)
    qed (use n in \<open>simp add: n_def\<close>)
    have "h' = h2 \<or> isTerminalState (st_state (pr_status run)) \<and> pe_metadata_enabled R \<and>
        (\<exists>x. run_state (markImmutableIfExpired R run1) h2 = (x, h'))"
      using m unfolding m_def
      by (cases "run_state (markImmutableIfExpired R run1) h2") (auto split: if_splits)
    with u None h2 show thesis by (intro finished) auto
  qed
qed

lemma reconcileRun_run:
  assumes "run_state (reconcileRun R run) h = (res, h')" "om_deletion_ts run = None"
  obtains (finalizer_error) r1 e where "run_state (ensureDrainFinalizer R run) h = ((r1, Some e), h')"
  | (owner_error) r1 h1 r2 e where "run_state (ensureDrainFinalizer R run) h = ((r1, None), h1)"
      "run_state (ensureOwnerRef R r1) h1 = ((r2, Some e), h')"
  | (engine) r1 h1 r2 h2 cr r3 h3 where
      "run_state (ensureDrainFinalizer R run) h = ((r1, None), h1)"
      "run_state (ensureOwnerRef R r1) h1 = ((r2, None), h2)"
      "run_state (engineRun (pe_plugin R) r2) h2 = ((cr, r3), h3)"
      "run_state (finish_reconcile R (set_state (state_of_result cr) r3) r2 (er_result cr)) h3 = (res, h')"
proof -
  obtain r1 e1 h1 where f: "run_state (ensureDrainFinalizer R run) h = ((r1, e1), h1)"
    by (metis prod.exhaust)
  obtain r2 e2 h2 where o: "run_state (ensureOwnerRef R r1) h1 = ((r2, e2), h2)"
    by (metis prod.exhaust)
  obtain cr r3 h3 where g: "run_state (engineRun (pe_plugin R) r2) h2 = ((cr, r3), h3)"
    by (metis prod.exhaust)
  show thesis
  proof (cases e1)
    case (Some e)
    with assms f show thesis by (intro finalizer_error) (auto simp: reconcileRun_def)
  next
    case e1: None
    show thesis
    proof (cases e2)
      case (Some e)
      with assms f e1 o show thesis by (intro owner_error) (auto simp: reconcileRun_def)
    next
      case None
      with assms f e1 o g show thesis by (intro engine) (auto simp: reconcileRun_def)
    qed
  qed
qed

subsection \<open>Properties\<close>

fun is_notify :: "pr_event \<Rightarrow> bool" where
  "is_notify (EvNotify i e) \<longleftrightarrow> True"
| "is_notify _ \<longleftrightarrow> False"

fun is_status_write :: "pr_event \<Rightarrow> bool" where
  "is_status_write (EvUpdateStatus run None) \<longleftrightarrow> True"
| "is_status_write _ \<longleftrightarrow> False"

lemma quiet_no_notify:
  assumes "list_all (\<lambda>e. \<not> controller_event e) t"
  shows "filter is_notify t = []"
  using assms by (induction t) (auto elim!: is_notify.elims)

lemma filter_notify_finalizer:
  assumes "run_state (ensureDrainFinalizer R run) h = ((run', err), h')"
  obtains t where "h' = h @ t" "filter is_notify t = []"
  using assms by (cases rule: ensureDrainFinalizer_run) auto

lemma filter_notify_owner:
  assumes "run_state (ensureOwnerRef R run) h = ((run', err), h')"
  obtains t where "h' = h @ t" "filter is_notify t = []"
  using assms by (cases rule: ensureOwnerRef_run) auto

lemma preceded_by_append:
  "filter P xs = [] \<Longrightarrow> preceded_by Q P (xs @ ys) \<longleftrightarrow> (\<exists>x\<in>set xs. Q x) \<or> preceded_by Q P ys"
  by (induction xs) (auto split: if_splits)

lemma preceded_by_none: "filter P xs = [] \<Longrightarrow> preceded_by Q P xs"
  by (induction xs) (auto split: if_splits)

text \<open>The status write and the notification of the tail of a reconcile.\<close>

lemma finish_reconcile_notify:
  assumes "run_state (finish_reconcile R run original result) h = (res, h')"
  obtains t where "h' = h @ t" "preceded_by is_status_write is_notify t" "length (filter is_notify t) \<le> 1"
    "pe_notifier R = None \<longrightarrow> filter is_notify t = []"
  using assms
proof (cases rule: finish_reconcile_run)
  case (write_error run1 e)
  then show thesis
    by (cases rule: updatePipelineRunStatus_run) (auto intro: that)
next
  case (finished run1 h1 h2)
  obtain t3 where t3: "h' = h2 @ t3" "filter is_notify t3 = []"
  proof (cases "h' = h2")
    case True
    then show thesis by (intro that [of "[]"]) simp_all
  next
    case False
    with finished(3) obtain x where "run_state (markImmutableIfExpired R run1) h2 = (x, h')" by blast
    then show thesis by (cases rule: markImmutableIfExpired_run) (auto intro: that)
  qed
  from finished(1) show thesis
  proof (cases rule: updatePipelineRunStatus_run)
    case same
    then have "\<not> shouldNotify (Some original) run1"
      by (simp add: shouldNotify_def getEffectiveState_def Let_def)
    with finished(2) same t3 show thesis by (intro that [of t3]) (auto intro: preceded_by_none)
  next
    case written
    from finished(2) written(3) obtain n where n: "h2 = h @ EvUpdateStatus run None # n"
      "length (filter is_notify n) \<le> 1" "pe_notifier R = None \<longrightarrow> n = []" by auto
    with t3 show thesis by (intro that [of "EvUpdateStatus run None # n @ t3"]) auto
  qed
qed

lemma reconcileRun_notify:
  assumes "quiet_plugin (pe_plugin R)" "om_deletion_ts run = None"
    and "run_state (reconcileRun R run) h = (res, h')"
  obtains t where "h' = h @ t" "preceded_by is_status_write is_notify t" "length (filter is_notify t) \<le> 1"
    "pe_notifier R = None \<longrightarrow> filter is_notify t = []"
  using assms(3,2)
proof (cases rule: reconcileRun_run)
  case (finalizer_error r1 e)
  then obtain t where "h' = h @ t" "filter is_notify t = []" by (rule filter_notify_finalizer)
  then show thesis by (intro that [of t]) (simp_all add: preceded_by_none)
next
  case (owner_error r1 h1 r2 e)
  from owner_error(1) obtain t1 where "h1 = h @ t1" "filter is_notify t1 = []" by (rule filter_notify_finalizer)
  moreover from owner_error(2) obtain t2 where "h' = h1 @ t2" "filter is_notify t2 = []"
    by (rule filter_notify_owner)
  ultimately show thesis by (intro that [of "t1 @ t2"]) (simp_all add: preceded_by_none)
next
  case (engine r1 h1 r2 h2 cr r3 h3)
  from engine(1) obtain t1 where t1: "h1 = h @ t1" "filter is_notify t1 = []" by (rule filter_notify_finalizer)
  from engine(2) obtain t2 where t2: "h2 = h1 @ t2" "filter is_notify t2 = []" by (rule filter_notify_owner)
  from engineRun_quiet [OF engine(3) assms(1)] obtain t3 where
    "h3 = h2 @ t3" "list_all (\<lambda>e. \<not> controller_event e) t3"
    unfolding quiet_move_def by blast
  note t3 = this(1) quiet_no_notify [OF this(2)]
  from engine(4) obtain t4 where "h' = h3 @ t4" "preceded_by is_status_write is_notify t4"
    "length (filter is_notify t4) \<le> 1" "pe_notifier R = None \<longrightarrow> filter is_notify t4 = []"
    by (rule finish_reconcile_notify)
  with t1 t2 t3 preceded_by_append [of is_notify "t1 @ t2 @ t3" is_status_write t4] show thesis
    by (intro that [of "(t1 @ t2 @ t3) @ t4"]) simp_all
qed

text \<open>
  Notifications follow the persisted status: in a reconcile of a run that is not being
  deleted, at most one notification is sent, it comes after a successful write of the
  status in that same reconcile, and none is sent without a notifier. So a status write
  that keeps failing never re-fires a notification.
\<close>

theorem notification_follows_status_write:
  assumes "quiet_plugin (pe_plugin R)" "om_deletion_ts run = None"
    and "run_state (reconcileRun R run) h = (res, h @ tr)"
  shows "preceded_by is_status_write is_notify tr \<and> length (filter is_notify tr) \<le> 1 \<and>
    (pe_notifier R = None \<longrightarrow> filter is_notify tr = [])"
  using assms(1,2,3) by (rule reconcileRun_notify) simp

text \<open>A reconcile in which the run succeeds, written out.\<close>

definition succeeded_run :: pipeline_run where
  "succeeded_run = set_state Run_SUCCEEDED (run_PutCondition
     (example_run Run_RUNNING [drainFinalizer] None None) (mk_condition ''Execute Workflow'' CS_TRUE))"

lemma still_engine:
  assumes "st_conditions (pr_status run) = []"
  shows "run_state (engineRun (still_plugin CS_TRUE) run) h =
    ((classify (Inr None), run_PutCondition run (mk_condition ''Execute Workflow'' CS_TRUE)), h)"
  using assms
  by (simp add: run_state_engineRun runPlugin_def still_plugin_def still_actor_def previousCondition_def
      run_GetConditions_def)

lemma succeeded_run_sel [simp]:
  "st_state (pr_status succeeded_run) = Run_SUCCEEDED" "ttl_start succeeded_run = Some 0"
  "om_annotations succeeded_run = None" "sp_notifications (pr_spec succeeded_run) = [[ET_SUCCEEDED]]"
  "pr_status succeeded_run \<noteq> pr_status (example_run Run_RUNNING [drainFinalizer] None None)"
  by (auto simp: succeeded_run_def ttl_start_def run_PutCondition_def example_run_def set_state_def)

lemma example_reconcile:
  defines "q \<equiv> example_run Run_RUNNING [drainFinalizer] None None"
  shows "\<exists>res. run_state (reconcileRun (echo_env CS_TRUE 5 q) q) [] = (res,
    [EvUpdateStatus succeeded_run None, EvNotify (notification_id succeeded_run) None,
     EvUpdate (succeeded_run\<lparr>om_annotations := put_entry None ImmutableAnnotation ''true''\<rparr>) None])"
proof -
  let ?R = "echo_env CS_TRUE 5 q"
  have fin: "run_state (ensureDrainFinalizer ?R q) [] = ((q, None), [])"
    using finlib_okD(1) [OF list_finlib_ok] by (simp add: ensureDrainFinalizer_def q_def)
  have own: "run_state (ensureOwnerRef ?R q) [] = ((q, None), [])"
    by (simp add: ensureOwnerRef_def q_def)
  have eng: "run_state (engineRun (pe_plugin ?R) q) [] =
      ((classify (Inr None), run_PutCondition q (mk_condition ''Execute Workflow'' CS_TRUE)), [])"
    using still_engine [of q "[]"] by (simp add: q_def example_run_def)
  have st: "set_state (state_of_result (classify (Inr None)))
      (run_PutCondition q (mk_condition ''Execute Workflow'' CS_TRUE)) = succeeded_run"
    by (simp add: succeeded_run_def q_def state_of_result_def classify_def)
  have upd: "run_state (updatePipelineRunStatus ?R succeeded_run q) [] =
      ((succeeded_run, None), [EvUpdateStatus succeeded_run None])"
    by (simp add: updatePipelineRunStatus_def handler_calls q_def)
  have ntf: "shouldNotify (Some q) succeeded_run"
    by (simp add: shouldNotify_def getEffectiveState_def ContainsEventType_def q_def)
  have mark: "\<exists>x. run_state (markImmutableIfExpired ?R succeeded_run) h = (x, h @
      [EvUpdate (succeeded_run\<lparr>om_annotations := put_entry None ImmutableAnnotation ''true''\<rparr>) None])" for h
    by (simp add: markImmutableIfExpired_def handler_calls map_index_def Let_def) blast
  have "om_deletion_ts q = None" "pe_notifier ?R \<noteq> None"
    by (simp_all add: q_def echo_env_def NewPipelineRunNotifier_def)
  with fin own eng st upd ntf mark [of "[EvUpdateStatus succeeded_run None,
      EvNotify (notification_id succeeded_run) None]"] show ?thesis
    by (auto simp: reconcileRun_def finish_reconcile_def NotifyOnStateChange_def isTerminalState_def
        Let_def state_of_result_def classify_def)
qed

theorem notification_follows_status_write_witness:
  "preceded_by is_status_write is_notify
     [EvUpdateStatus succeeded_run None, EvNotify (notification_id succeeded_run) None,
      EvUpdate (succeeded_run\<lparr>om_annotations := put_entry None ImmutableAnnotation ''true''\<rparr>) None]"
proof -
  let ?q = "example_run Run_RUNNING [drainFinalizer] None None"
  obtain res where run: "run_state (reconcileRun (echo_env CS_TRUE 5 ?q) ?q) [] = (res, [] @
     [EvUpdateStatus succeeded_run None, EvNotify (notification_id succeeded_run) None,
      EvUpdate (succeeded_run\<lparr>om_annotations := put_entry None ImmutableAnnotation ''true''\<rparr>) None])"
    using example_reconcile by auto
  have "quiet_plugin (pe_plugin (echo_env CS_TRUE 5 ?q))"
    using echo_env_lawful by (simp add: drain_lawful_def)
  from notification_follows_status_write [OF this _ run] show ?thesis by simp
qed

text \<open>Metadata along a reconcile.\<close>

text \<open>What each later step writes: the finalizers and annotations it was given, except for the
  mark of an expired terminal run.\<close>

definition writes_meta :: "(obj_meta \<Rightarrow> bool) \<Rightarrow> pr_event list \<Rightarrow> bool" where
  "writes_meta P t \<longleftrightarrow> (\<forall>sent e. EvUpdate sent e \<in> set t \<longrightarrow> P (meta_of sent))"

lemma writes_meta_simps [simp]:
  "writes_meta P []" "writes_meta P (s @ t) \<longleftrightarrow> writes_meta P s \<and> writes_meta P t"
  "writes_meta P (EvUpdate sent e # t) \<longleftrightarrow> P (meta_of sent) \<and> writes_meta P t"
  "writes_meta P (EvUpdateStatus sent e # t) \<longleftrightarrow> writes_meta P t"
  "writes_meta P (EvGetPipeline ns nm # t) \<longleftrightarrow> writes_meta P t"
  "writes_meta P (EvNotify i e # t) \<longleftrightarrow> writes_meta P t"
  by (auto simp: writes_meta_def)

lemma writes_meta_quiet: "list_all (\<lambda>e. \<not> controller_event e) t \<Longrightarrow> writes_meta P t"
  by (auto simp: writes_meta_def list_all_iff)

lemma ensureDrainFinalizer_writes:
  assumes "run_state (ensureDrainFinalizer R run) h = ((run', err), h')" "drain_lawful R"
    and "\<not> isTerminalState (st_state (pr_status run))"
  obtains t where "h' = h @ t" "drainFinalizer \<in> set (om_finalizers run')"
    "om_annotations run' = om_annotations run"
    "writes_meta (\<lambda>m. drainFinalizer \<in> set (om_finalizers m) \<and> om_annotations m = om_annotations run) t"
    "drainFinalizer \<notin> set (om_finalizers run) \<Longrightarrow> \<exists>sent. t = [EvUpdate sent err]"
proof -
  from assms(2) have lib: "finlib_ok (pe_finlib R)" and srv: "server_keeps R"
    by (simp_all add: drain_lawful_def)
  from assms(1) show thesis
  proof (cases rule: ensureDrainFinalizer_run)
    case unchanged
    with assms(3) finlib_okD(1) [OF lib] show thesis by (intro that [of "[]"]) simp_all
  next
    case (added sent)
    with server_keepsD(1) [OF srv added(3)] finlib_okD(2) [OF lib] show thesis
      by (intro that [of "[EvUpdate sent err]"]) (simp_all add: same_meta_def)
  qed
qed

lemma ensureOwnerRef_writes:
  assumes "run_state (ensureOwnerRef R run) h = ((run', err), h')" "server_keeps R"
  obtains t where "h' = h @ t" "om_finalizers run' = om_finalizers run"
    "om_annotations run' = om_annotations run"
    "writes_meta (\<lambda>m. om_finalizers m = om_finalizers run \<and> om_annotations m = om_annotations run) t"
  using assms(1)
proof (cases rule: ensureOwnerRef_run)
  case skipped
  then show thesis by (auto intro: that)
next
  case (written ns nm pipeline sent)
  with EnsureControllerRef_unchanged(1,2) [OF written(1)] server_keepsD(1) [OF assms(2) written(2)]
  show thesis by (intro that) (auto simp: same_meta_def)
qed

text \<open>The TTL of a run has passed at a point of the trace; its status is as the API server
  returned it.\<close>

definition expired :: "pr_env \<Rightarrow> pr_event list \<Rightarrow> pipeline_run \<Rightarrow> bool" where
  "expired R h run \<longleftrightarrow> (\<exists>run1 start. same_meta run1 run \<and> ttl_start run1 = Some start \<and>
     start + pe_ttl_days R * day \<le> pe_now R h)"

lemma finish_reconcile_writes:
  assumes "run_state (finish_reconcile R run original result) h = (res, h')" "server_keeps R"
  obtains t where "h' = h @ t"
    "writes_meta (\<lambda>m. om_finalizers m = om_finalizers run \<and>
       (om_annotations m \<noteq> om_annotations run \<longrightarrow>
         isTerminalState (st_state (pr_status run)) \<and> pe_metadata_enabled R \<and>
         expired R (butlast h') run)) t"
  using assms(1)
proof (cases rule: finish_reconcile_run)
  case (write_error run1 e)
  then show thesis by (cases rule: updatePipelineRunStatus_run) (auto intro: that)
next
  case (finished run1 h1 h2)
  note same = updatePipelineRunStatus_quiet(1) [OF finished(1) assms(2)]
  obtain t1 where t1: "h1 = h @ t1" "\<And>P. writes_meta P t1"
    using finished(1) by (cases rule: updatePipelineRunStatus_run) (auto intro: that)
  obtain t2 where t2: "h2 = h1 @ t2" "\<And>P. writes_meta P t2"
    using finished(2) by (auto intro: that)
  from finished(3) consider "h' = h2"
    | x where "isTerminalState (st_state (pr_status run))" "pe_metadata_enabled R"
      "run_state (markImmutableIfExpired R run1) h2 = (x, h')" by blast
  then show thesis
  proof cases
    case 1
    with t1 t2 show thesis by (intro that [of "t1 @ t2"]) simp_all
  next
    case (2 x)
    from 2(3) show thesis
    proof (cases rule: markImmutableIfExpired_run)
      case kept
      with t1 t2 show thesis by (intro that [of "t1 @ t2"]) simp_all
    next
      case (marked start err sent)
      from same marked(3) have "om_finalizers sent = om_finalizers run" by (simp add: same_meta_def)
      moreover from marked(4) have "butlast h' = h2" by simp
      with same marked(1,2) have "expired R (butlast h') run" by (auto simp: expired_def)
      ultimately show thesis
        using t1 t2 2(1,2) marked(4) by (intro that [of "t1 @ t2 @ [EvUpdate sent err]"]) simp_all
    qed
  qed
qed

lemma writes_meta_mono:
  "writes_meta P t \<Longrightarrow> (\<And>m. P m \<Longrightarrow> Q m) \<Longrightarrow> writes_meta Q t"
  by (auto simp: writes_meta_def)

text \<open>The tail of a reconcile, once finalizer and owner reference are in place.\<close>

lemma engine_tail_writes:
  assumes "run_state (engineRun (pe_plugin R) r2) h2 = ((cr, r3), h3)"
    and "run_state (finish_reconcile R (set_state (state_of_result cr) r3) r2 (er_result cr)) h3 = (res, h')"
    and "drain_lawful R"
  obtains t where "h' = h2 @ t"
    "writes_meta (\<lambda>m. om_finalizers m = om_finalizers r2 \<and>
       (om_annotations m \<noteq> om_annotations r2 \<longrightarrow>
         isTerminalState (state_of_result cr) \<and> pe_metadata_enabled R \<and> expired R (butlast h') r2)) t"
proof -
  from assms(3) have q: "quiet_plugin (pe_plugin R)" and srv: "server_keeps R"
    by (simp_all add: drain_lawful_def)
  from engineRun_quiet [OF assms(1) q] obtain t1 where t1: "same_meta r3 r2" "h3 = h2 @ t1"
    "list_all (\<lambda>e. \<not> controller_event e) t1"
    unfolding quiet_move_def by blast
  from assms(2) srv obtain t2 where t2: "h' = h3 @ t2"
    "writes_meta (\<lambda>m. om_finalizers m = om_finalizers (set_state (state_of_result cr) r3) \<and>
       (om_annotations m \<noteq> om_annotations (set_state (state_of_result cr) r3) \<longrightarrow>
         isTerminalState (st_state (pr_status (set_state (state_of_result cr) r3))) \<and>
         pe_metadata_enabled R \<and> expired R (butlast h') (set_state (state_of_result cr) r3))) t2"
    by (rule finish_reconcile_writes)
  have same: "expired R h r2" if "expired R h (set_state (state_of_result cr) r3)" for h
    using that t1(1) unfolding expired_def by (metis same_meta_set(2) same_meta_trans)
  from t1(1) have eqs: "om_finalizers r3 = om_finalizers r2" "om_annotations r3 = om_annotations r2"
    by (simp_all add: same_meta_def)
  have "writes_meta (\<lambda>m. om_finalizers m = om_finalizers r2 \<and>
       (om_annotations m \<noteq> om_annotations r2 \<longrightarrow>
         isTerminalState (state_of_result cr) \<and> pe_metadata_enabled R \<and> expired R (butlast h') r2)) t2"
    using t2(2) by (rule writes_meta_mono) (use same in \<open>auto simp: eqs\<close>)
  with t1(2,3) t2(1) show thesis by (intro that [of "t1 @ t2"]) (simp_all add: writes_meta_quiet)
qed

lemma reconcileRun_finalizers:
  assumes "drain_lawful R" "om_deletion_ts run = None" "\<not> isTerminalState (st_state (pr_status run))"
    and "run_state (reconcileRun R run) h = (res, h')"
  shows "\<exists>t. h' = h @ t \<and> writes_meta (\<lambda>m. drainFinalizer \<in> set (om_finalizers m)) t \<and>
    (drainFinalizer \<notin> set (om_finalizers run) \<longrightarrow>
      (\<exists>sent err rest. t = EvUpdate sent err # rest \<and> (err \<noteq> None \<longrightarrow> rest = [])))"
  using assms(4,2)
proof (cases rule: reconcileRun_run)
  case (finalizer_error r1 e)
  from finalizer_error(1) assms(1,3) obtain t1 where t1: "h' = h @ t1"
    "writes_meta (\<lambda>m. drainFinalizer \<in> set (om_finalizers m) \<and> om_annotations m = om_annotations run) t1"
    "drainFinalizer \<notin> set (om_finalizers run) \<Longrightarrow> \<exists>sent. t1 = [EvUpdate sent (Some e)]"
    by (rule ensureDrainFinalizer_writes) blast
  from t1(2) have "writes_meta (\<lambda>m. drainFinalizer \<in> set (om_finalizers m)) t1"
    by (rule writes_meta_mono) simp
  with t1 show ?thesis by blast
next
  case (owner_error r1 h1 r2 e)
  from owner_error(1) assms(1,3) obtain t1 where t1: "h1 = h @ t1" "drainFinalizer \<in> set (om_finalizers r1)"
    "writes_meta (\<lambda>m. drainFinalizer \<in> set (om_finalizers m) \<and> om_annotations m = om_annotations run) t1"
    "drainFinalizer \<notin> set (om_finalizers run) \<Longrightarrow> \<exists>sent. t1 = [EvUpdate sent None]"
    by (rule ensureDrainFinalizer_writes) blast
  from assms(1) have srv: "server_keeps R" by (simp add: drain_lawful_def)
  from owner_error(2) srv obtain t2 where t2: "h' = h1 @ t2"
    "writes_meta (\<lambda>m. om_finalizers m = om_finalizers r1 \<and> om_annotations m = om_annotations r1) t2"
    by (rule ensureOwnerRef_writes)
  have "writes_meta (\<lambda>m. drainFinalizer \<in> set (om_finalizers m)) t1"
    "writes_meta (\<lambda>m. drainFinalizer \<in> set (om_finalizers m)) t2"
    using writes_meta_mono [OF t1(3)] writes_meta_mono [OF t2(2)] t1(2) by simp_all
  with t1(1,4) t2(1) show ?thesis by (intro exI [of _ "t1 @ t2"]) auto
next
  case (engine r1 h1 r2 h2 cr r3 h3)
  from engine(1) assms(1,3) obtain t1 where t1: "h1 = h @ t1" "drainFinalizer \<in> set (om_finalizers r1)"
    "writes_meta (\<lambda>m. drainFinalizer \<in> set (om_finalizers m) \<and> om_annotations m = om_annotations run) t1"
    "drainFinalizer \<notin> set (om_finalizers run) \<Longrightarrow> \<exists>sent. t1 = [EvUpdate sent None]"
    by (rule ensureDrainFinalizer_writes) blast
  from assms(1) have srv: "server_keeps R" by (simp add: drain_lawful_def)
  from engine(2) srv obtain t2 where t2: "h2 = h1 @ t2" "om_finalizers r2 = om_finalizers r1"
    "writes_meta (\<lambda>m. om_finalizers m = om_finalizers r1 \<and> om_annotations m = om_annotations r1) t2"
    by (rule ensureOwnerRef_writes)
  from engine(3,4) assms(1) obtain t3 where t3: "h' = h2 @ t3"
    "writes_meta (\<lambda>m. om_finalizers m = om_finalizers r2 \<and>
       (om_annotations m \<noteq> om_annotations r2 \<longrightarrow>
         isTerminalState (state_of_result cr) \<and> pe_metadata_enabled R \<and> expired R (butlast h') r2)) t3"
    by (rule engine_tail_writes)
  have "writes_meta (\<lambda>m. drainFinalizer \<in> set (om_finalizers m)) t1"
    "writes_meta (\<lambda>m. drainFinalizer \<in> set (om_finalizers m)) t2"
    "writes_meta (\<lambda>m. drainFinalizer \<in> set (om_finalizers m)) t3"
    using writes_meta_mono [OF t1(3)] writes_meta_mono [OF t2(3)] writes_meta_mono [OF t3(2)] t1(2) t2(2)
    by simp_all
  with t1(1,4) t2(1) t3(1) show ?thesis by (intro exI [of _ "t1 @ t2 @ t3"]) auto
qed

text \<open>
  C13. An active run keeps its drain finalizer: in a reconcile of a live run that is not yet
  terminal, every version of the run sent to the API server carries the drain finalizer,
  and when the run came without it, adding it is the very first thing the reconcile does
  and nothing else happens if that write fails. So no workflow starts on a run a cascading
  delete would not wait for.
\<close>

theorem active_runs_keep_drain_finalizer:
  assumes "drain_lawful R" "om_deletion_ts run = None" "\<not> isTerminalState (st_state (pr_status run))"
    and "run_state (reconcileRun R run) h = (res, h @ tr)"
  shows "writes_meta (\<lambda>m. drainFinalizer \<in> set (om_finalizers m)) tr \<and>
    (drainFinalizer \<notin> set (om_finalizers run) \<longrightarrow>
      (\<exists>sent err rest. tr = EvUpdate sent err # rest \<and> (err \<noteq> None \<longrightarrow> rest = [])))"
  using reconcileRun_finalizers [OF assms(1-3)] assms(4) by (metis same_append_eq)

theorem active_runs_keep_drain_finalizer_witness:
  "writes_meta (\<lambda>m. drainFinalizer \<in> set (om_finalizers m))
     [EvUpdateStatus succeeded_run None, EvNotify (notification_id succeeded_run) None,
      EvUpdate (succeeded_run\<lparr>om_annotations := put_entry None ImmutableAnnotation ''true''\<rparr>) None]"
proof -
  let ?q = "example_run Run_RUNNING [drainFinalizer] None None"
  obtain res where run: "run_state (reconcileRun (echo_env CS_TRUE 5 ?q) ?q) [] = (res, [] @
     [EvUpdateStatus succeeded_run None, EvNotify (notification_id succeeded_run) None,
      EvUpdate (succeeded_run\<lparr>om_annotations := put_entry None ImmutableAnnotation ''true''\<rparr>) None])"
    using example_reconcile by auto
  have "\<not> isTerminalState (st_state (pr_status ?q))" by (simp add: isTerminalState_def)
  from active_runs_keep_drain_finalizer [OF echo_env_lawful _ this run] show ?thesis by simp
qed

lemma ensureDrainFinalizer_annotations:
  assumes "run_state (ensureDrainFinalizer R run) h = ((run', err), h')" "server_keeps R"
  obtains t where "h' = h @ t" "om_annotations run' = om_annotations run"
    "writes_meta (\<lambda>m. om_annotations m = om_annotations run) t"
  using assms(1)
proof (cases rule: ensureDrainFinalizer_run)
  case (added sent)
  with server_keepsD(1) [OF assms(2) added(3)] show thesis
    by (intro that [of "[EvUpdate sent err]"]) (simp_all add: same_meta_def)
qed (simp add: that)

text \<open>
  Eviction is earned: in a reconcile of a live run, a write changes the annotations of
  the run (the mark that lets the ingester evict it) only if metadata storage is enabled,
  the engine pass of this very reconcile gave a terminal state, and at the moment of the
  write the TTL, counted from the run's end or else from its creation, has passed.
\<close>

theorem eviction_is_earned:
  assumes "drain_lawful R" "om_deletion_ts run = None"
    and "run_state (reconcileRun R run) h = (res, h')" "EvUpdate sent e \<in> set (drop (length h) h')"
    and "om_annotations sent \<noteq> om_annotations run"
  shows "pe_metadata_enabled R \<and>
    (\<exists>r2 h2 cr r3 h3. run_state (engineRun (pe_plugin R) r2) h2 = ((cr, r3), h3) \<and>
       isTerminalState (state_of_result cr) \<and> om_annotations r2 = om_annotations run \<and>
       expired R (butlast h') r2)"
proof -
  from assms(1) have srv: "server_keeps R" by (simp add: drain_lawful_def)
  note changed = assms(4,5)
  from assms(3,2) show ?thesis
  proof (cases rule: reconcileRun_run)
    case (finalizer_error r1 e)
    from finalizer_error(1) srv obtain t1 where "h' = h @ t1"
      "writes_meta (\<lambda>m. om_annotations m = om_annotations run) t1"
      by (rule ensureDrainFinalizer_annotations)
    with changed show ?thesis by (auto simp: writes_meta_def)
  next
    case (owner_error r1 h1 r2 e)
    from owner_error(1) srv obtain t1 where "h1 = h @ t1" "om_annotations r1 = om_annotations run"
      "writes_meta (\<lambda>m. om_annotations m = om_annotations run) t1"
      by (rule ensureDrainFinalizer_annotations)
    moreover from owner_error(2) srv obtain t2 where "h' = h1 @ t2"
      "writes_meta (\<lambda>m. om_finalizers m = om_finalizers r1 \<and> om_annotations m = om_annotations r1) t2"
      by (rule ensureOwnerRef_writes)
    ultimately show ?thesis using changed by (auto simp: writes_meta_def)
  next
    case (engine r1 h1 r2 h2 cr r3 h3)
    from engine(1) srv obtain t1 where "h1 = h @ t1" "om_annotations r1 = om_annotations run"
      "writes_meta (\<lambda>m. om_annotations m = om_annotations run) t1"
      by (rule ensureDrainFinalizer_annotations)
    moreover from engine(2) srv obtain t2 where "h2 = h1 @ t2" "om_annotations r2 = om_annotations r1"
      "writes_meta (\<lambda>m. om_finalizers m = om_finalizers r1 \<and> om_annotations m = om_annotations r1) t2"
      by (rule ensureOwnerRef_writes)
    moreover from engine(3,4) assms(1) obtain t3 where "h' = h2 @ t3"
      "writes_meta (\<lambda>m. om_finalizers m = om_finalizers r2 \<and>
         (om_annotations m \<noteq> om_annotations r2 \<longrightarrow>
           isTerminalState (state_of_result cr) \<and> pe_metadata_enabled R \<and> expired R (butlast h') r2)) t3"
      by (rule engine_tail_writes)
    ultimately have "isTerminalState (state_of_result cr) \<and> pe_metadata_enabled R \<and>
        expired R (butlast h') r2 \<and> om_annotations r2 = om_annotations run"
      using changed by (auto simp: writes_meta_def)
    with engine(3) show ?thesis by blast
  qed
qed

theorem eviction_is_earned_witness:
  "pe_metadata_enabled (echo_env CS_TRUE 5 (example_run Run_RUNNING [drainFinalizer] None None))"
proof -
  let ?q = "example_run Run_RUNNING [drainFinalizer] None None"
  let ?sent = "succeeded_run\<lparr>om_annotations := put_entry None ImmutableAnnotation ''true''\<rparr>"
  obtain res where run: "run_state (reconcileRun (echo_env CS_TRUE 5 ?q) ?q) [] = (res,
     [EvUpdateStatus succeeded_run None, EvNotify (notification_id succeeded_run) None, EvUpdate ?sent None])"
    using example_reconcile by auto
  have "om_annotations ?sent \<noteq> om_annotations ?q" by (simp add: put_entry_def)
  from eviction_is_earned [OF echo_env_lawful _ run _ this] show ?thesis by simp
qed

text \<open>
  A TTL of zero days, documented as switching eviction off, evicts at once: a run that
  has ended is marked immutable on the spot.
\<close>

theorem zero_ttl_evicts_at_once:
  assumes "pe_ttl_days R = 0" "ttl_start run = Some t" "t \<le> pe_now R h"
    and "map_index (om_annotations run) ImmutableAnnotation \<noteq> ''true''"
  shows "\<exists>sent err. run_state (markImmutableIfExpired R run) h = ((0, True), h @ [EvUpdate sent err]) \<and>
    IsImmutable sent"
  using assms
  by (simp add: markImmutableIfExpired_def handler_calls Let_def IsImmutable_def checkAnnotation_index)

theorem zero_ttl_evicts_at_once_witness:
  "\<exists>sent err. run_state (markImmutableIfExpired
      (echo_env CS_TRUE 5 (example_run Run_RUNNING [drainFinalizer] None None)) succeeded_run) []
        = ((0, True), [] @ [EvUpdate sent err]) \<and> IsImmutable sent"
  by (rule zero_ttl_evicts_at_once [of _ _ 0]) (simp_all add: map_index_def)

end
