(* ===== verification/Workflow_Inputs.thy ===== *)
theory Workflow_Inputs
  imports Pipeline_Run_Model
begin

text \<open>
  The inputs of a workflow (\<^verbatim>\<open>go/components/pipelinerun/actors/executeworkflow.go\<close>): positional
  and keyword arguments and the environment, from the manifest of the source pipeline, the
  overrides of the run, the image-build step and the runs this one resumes. A Go map with
  interface values is a HOL map of JSON values; nil and empty slices are not told apart.
\<close>

section \<open>Environment of the actors\<close>

record workflow_config =
  wc_task_list :: string
  wc_domain :: string
  wc_execution_url_format :: string

text \<open>What a workflow reports of one task, as the query returns it.\<close>

record task_progress =
  tp_task_path :: string
  tp_task_name :: string
  tp_task_log :: string
  tp_task_message :: string
  tp_task_state :: string
  tp_start_time :: string
  tp_end_time :: string
  tp_output :: string
  tp_input :: string
  tp_retry_attempt_id :: string
  tp_first_activity_id :: string

record cached_output =
  co_is_variable :: bool
  co_storage_uri :: string

text \<open>
  The libraries the actors use: decoding of the manifest's \<^verbatim>\<open>Any\<close> content into a map, JSON in
  its two flavours, time parsing, the URL template (\<open>None\<close> when it does not parse), the text of
  an error; the order of map ranges; the services, each free to answer by the calls made so far; and the types
  the workflow engine gives its history events. \<open>we_fuel\<close> bounds the chain of resumed runs.
\<close>

record wf_env =
  we_fuel :: nat
  we_order :: "string list \<Rightarrow> string list"
  we_decode :: "string \<Rightarrow> api_error + (string \<rightharpoonup> json)"
  we_parse_progress :: "string \<Rightarrow> task_progress option"
  we_parse_time :: "string \<Rightarrow> int option"
  we_unmarshal :: "string \<Rightarrow> json option"
  we_marshal :: "json \<Rightarrow> string option"
  we_parse_struct :: "string \<Rightarrow> (string \<times> json) list option"
  we_config :: "api_error + workflow_config"
  we_render :: "string \<Rightarrow> string \<Rightarrow> string \<Rightarrow> string option"
  we_error_text :: "api_error \<Rightarrow> string"
  we_scheduled_type :: string
  we_completed_type :: string
  we_decision_type :: string
  we_now :: "pr_event list \<Rightarrow> int"
  we_get_pipeline :: "pr_event list \<Rightarrow> string \<Rightarrow> string \<Rightarrow> api_error + pipeline"
  we_get_project :: "pr_event list \<Rightarrow> string \<Rightarrow> api_error + obj_meta"
  we_get_run :: "pr_event list \<Rightarrow> string \<times> string \<Rightarrow> api_error + pipeline_run"
  we_get_cached :: "pr_event list \<Rightarrow> string \<Rightarrow> string \<Rightarrow> api_error + cached_output"
  we_blob :: "pr_event list \<Rightarrow> string \<Rightarrow> api_error + string"
  we_exec_info :: "pr_event list \<Rightarrow> string \<Rightarrow> string \<Rightarrow> api_error + exec_info"
  we_cancel :: "pr_event list \<Rightarrow> string \<Rightarrow> string \<Rightarrow> api_error option"
  we_history :: "pr_event list \<Rightarrow> string \<Rightarrow> string \<Rightarrow> api_error + history_event list"
  we_reset :: "pr_event list \<Rightarrow> reset_request \<Rightarrow> api_error + string"
  we_query :: "pr_event list \<Rightarrow> string \<Rightarrow> string \<Rightarrow> api_error + string list"
  we_start :: "pr_event list \<Rightarrow> string \<Rightarrow> string \<Rightarrow> api_error + (string \<times> string)"

section \<open>Names\<close>

definition SourcePipelineType :: string where "SourcePipelineType = ''SourcePipeline''"
definition SourcePipelineStepName :: string where "SourcePipelineStepName = ''Source Pipeline''"
definition ImageBuildType :: string where "ImageBuildType = ''Image Build''"
definition ImageBuildStepName :: string where "ImageBuildStepName = ''Image Build''"
definition ImageBuildOutputKey :: string where "ImageBuildOutputKey = ''image''"
definition ImageIDAnnotationKey :: string where
  "ImageIDAnnotationKey = ''michelangelo/uniflow-image''"
definition ExecuteWorkflowType :: string where "ExecuteWorkflowType = ''Execute Workflow''"
definition ExecuteWorkflowStepName :: string where
  "ExecuteWorkflowStepName = ''Execute Workflow''"
definition DefaultWorkSpaceRootURL :: string where "DefaultWorkSpaceRootURL = ''s3://default''"
definition PipelineRunExecutionTimestampLabel :: string where
  "PipelineRunExecutionTimestampLabel = ''pipelinerun.michelangelo/execution-timestamp''"

definition WorkflowEnvironKey :: string where "WorkflowEnvironKey = ''environ''"
definition WorkflowKWArgsKey :: string where "WorkflowKWArgsKey = ''kw_args''"
definition WorkflowArgsKey :: string where "WorkflowArgsKey = ''args''"
definition WorkflowTaskConfigsKey :: string where "WorkflowTaskConfigsKey = ''task_configs''"
definition WorkflowConfigKey :: string where "WorkflowConfigKey = ''workflow_config''"

definition cacheEnabledVarName :: string where "cacheEnabledVarName = ''CACHE_ENABLED''"
definition cacheVersionVarName :: string where "cacheVersionVarName = ''CACHE_VERSION''"
definition cacheOperationGet :: string where "cacheOperationGet = ''GET''"

lemmas input_key_defs =
  WorkflowEnvironKey_def WorkflowKWArgsKey_def WorkflowArgsKey_def WorkflowTaskConfigsKey_def
  WorkflowConfigKey_def

lemmas cache_name_defs = cacheEnabledVarName_def cacheVersionVarName_def cacheOperationGet_def

section \<open>Arguments\<close>

type_synonym envs = "string \<rightharpoonup> json"

text \<open>Merging an object into the environment; its keys are distinct.\<close>

definition merge_envs :: "envs \<Rightarrow> (string \<times> json) list \<Rightarrow> envs" where
  "merge_envs envs kvs = envs ++ map_of kvs"

text \<open>The two type assertions, which panic on any other value.\<close>

fun assert_list :: "json \<Rightarrow> json list outcome" where
  "assert_list (JList vs) = Returned vs"
| "assert_list _ = Panicked"

fun assert_map :: "json \<Rightarrow> ((string \<times> json) list) outcome" where
  "assert_map (JObject kvs) = Returned kvs"
| "assert_map _ = Panicked"

definition decodePipelineManifestContent ::
    "wf_env \<Rightarrow> pipeline_spec \<Rightarrow> (api_error + (string \<rightharpoonup> json)) outcome" where
  "decodePipelineManifestContent W spec =
     (case pl_manifest spec of
        None \<Rightarrow> Panicked
      | Some manifest \<Rightarrow>
          (case mf_content manifest of
             None \<Rightarrow> Returned (Inr Map.empty)
           | Some content \<Rightarrow> Returned (we_decode W content)))"

text \<open>Only an object overrides: \<^verbatim>\<open>GetStructValue\<close> is nil for any other value.\<close>

definition applyInputFieldToConfigMap ::
    "(string \<rightharpoonup> json) \<Rightarrow> string \<Rightarrow> (string \<rightharpoonup> json) \<Rightarrow> (string \<rightharpoonup> json)" where
  "applyInputFieldToConfigMap input fieldKey config =
     (case input fieldKey of
        Some (JObject kvs) \<Rightarrow> config(fieldKey \<mapsto> JObject kvs)
      | _ \<Rightarrow> config)"

definition applyInputOverrides ::
    "(string \<rightharpoonup> json) \<Rightarrow> string list \<Rightarrow> (string \<rightharpoonup> json) \<Rightarrow> (string \<rightharpoonup> json)" where
  "applyInputOverrides input fieldKeys config =
     fold (applyInputFieldToConfigMap input) fieldKeys config"

text \<open>
  Only strings may override the environment. Which entry is complained about depends on the
  order of the range; errors carry no text here.
\<close>

fun is_string_value :: "json \<Rightarrow> bool" where
  "is_string_value (JString v) \<longleftrightarrow> True"
| "is_string_value _ \<longleftrightarrow> False"

definition override_envs :: "(string \<times> json) list \<Rightarrow> envs \<Rightarrow> api_error + envs" where
  "override_envs kvs envs =
     (if list_all (\<lambda>(key, v). is_string_value v) kvs then Inr (merge_envs envs kvs)
      else Inl (OtherError ''environment variable must be a string''))"

definition applyDevRunEnvironmentOverrides :: "envs \<Rightarrow> json option \<Rightarrow> api_error + envs" where
  "applyDevRunEnvironmentOverrides baseEnv devInput =
     (case devInput of
        Some (JObject kvs) \<Rightarrow> override_envs kvs baseEnv
      | _ \<Rightarrow> Inr baseEnv)"

definition convertKwArgsMapToList :: "wf_env \<Rightarrow> json \<Rightarrow> json list" where
  "convertKwArgsMapToList W val =
     (case val of
        JObject kvs \<Rightarrow>
          map (\<lambda>key. JList [JString key,
                 case map_of kvs key of Some v \<Rightarrow> v | None \<Rightarrow> JNull])
            (we_order W (map fst kvs))
      | JList vs \<Rightarrow> vs
      | _ \<Rightarrow> [])"

text \<open>An entry that is there and not nil.\<close>

definition non_nil :: "json option \<Rightarrow> json list" where
  "non_nil v = (case v of None \<Rightarrow> [] | Some JNull \<Rightarrow> [] | Some j \<Rightarrow> [j])"

definition extractWorkflowInputs ::
    "wf_env \<Rightarrow> (string \<rightharpoonup> json) \<Rightarrow> envs \<Rightarrow> (json list \<times> json list \<times> envs) outcome" where
  "extractWorkflowInputs W config envs =
     (if config WorkflowTaskConfigsKey \<noteq> None then
        Returned (non_nil (config WorkflowConfigKey) @ non_nil (config WorkflowTaskConfigsKey), [],
          envs(''YAML_BASED_PIPELINE'' \<mapsto> JString ''true''))
      else case config WorkflowArgsKey of
        Some v \<Rightarrow>
          (case assert_list v of Panicked \<Rightarrow> Panicked | Returned args \<Rightarrow> Returned (args, [], envs))
      | None \<Rightarrow>
          (case config WorkflowKWArgsKey of
             Some val \<Rightarrow> Returned ([], convertKwArgsMapToList W val, envs)
           | None \<Rightarrow>
               (case config WorkflowEnvironKey of
                  Some val \<Rightarrow>
                    (case assert_map val of
                       Panicked \<Rightarrow> Panicked
                     | Returned kvs \<Rightarrow> Returned ([], [], merge_envs envs kvs))
                | None \<Rightarrow> Returned ([], [], envs))))"

text \<open>
  The first reading of the manifest. Of its arguments and keyword arguments only the type
  assertions matter, because \<open>extractWorkflowInputs\<close> reads both again.
\<close>

definition manifest_envs :: "(string \<rightharpoonup> json) \<Rightarrow> envs \<Rightarrow> envs outcome" where
  "manifest_envs config envs =
     (case (case config WorkflowArgsKey of None \<Rightarrow> Returned [] | Some v \<Rightarrow> assert_list v) of
        Panicked \<Rightarrow> Panicked
      | Returned _ \<Rightarrow>
          (case (case config WorkflowKWArgsKey of None \<Rightarrow> Returned [] | Some v \<Rightarrow> assert_list v) of
             Panicked \<Rightarrow> Panicked
           | Returned _ \<Rightarrow>
               (case config WorkflowEnvironKey of
                  None \<Rightarrow> Returned envs
                | Some v \<Rightarrow>
                    (case assert_map v of
                       Panicked \<Rightarrow> Panicked
                     | Returned kvs \<Rightarrow> Returned (merge_envs envs kvs)))))"

text \<open>The default of the storage URL, and what the input of the run overrides.\<close>

definition default_envs :: "pipeline_run \<Rightarrow> envs" where
  "default_envs run =
     [''UF_STORAGE_URL'' \<mapsto> JString (if sp_workspace_root (pr_spec run) \<noteq> ''''
        then sp_workspace_root (pr_spec run) else DefaultWorkSpaceRootURL)]"

definition apply_run_input ::
    "pipeline_run \<Rightarrow> (string \<rightharpoonup> json) \<Rightarrow> envs \<Rightarrow> api_error + ((string \<rightharpoonup> json) \<times> envs)" where
  "apply_run_input run config envs =
     (case sp_input (pr_spec run) of
        None \<Rightarrow> Inr (config, envs)
      | Some input \<Rightarrow>
          (case (case input ''environ'' of
                   None \<Rightarrow> Inr envs
                 | Some environ \<Rightarrow> applyDevRunEnvironmentOverrides envs (Some environ)) of
             Inl err \<Rightarrow> Inl err
           | Inr envs' \<Rightarrow>
               Inr (applyInputOverrides input
                 [WorkflowTaskConfigsKey, WorkflowConfigKey, WorkflowArgsKey, WorkflowKWArgsKey] config,
                 envs')))"

section \<open>Environment\<close>

fun GetStringValue :: "json \<Rightarrow> string" where
  "GetStringValue (JString v) = v"
| "GetStringValue _ = ''''"

definition image_env_name :: "nat \<Rightarrow> string \<Rightarrow> string" where
  "image_env_name n taskName =
     (if taskName \<noteq> ImageBuildOutputKey \<and> n > 1 then ''UF_TASK_IMAGE_'' @ taskName
      else ''UF_TASK_IMAGE'')"

definition addTaskImageToEnv :: "pipeline_run \<Rightarrow> envs \<Rightarrow> envs" where
  "addTaskImageToEnv run envs =
     (case GetStep run ImageBuildStepName of
        None \<Rightarrow> envs
      | Some step \<Rightarrow>
          (case si_output step of
             None \<Rightarrow> envs
           | Some output \<Rightarrow>
               fold (\<lambda>(taskName, image) envs.
                   envs(image_env_name (length output) taskName \<mapsto> JString (GetStringValue image)))
                 output envs))"

definition identity_envs :: "pipeline_run \<Rightarrow> envs \<Rightarrow> envs" where
  "identity_envs run envs =
     (let envs1 = envs(''MA_NAMESPACE'' \<mapsto> JString (om_namespace run),
                       ''MA_PIPELINE_RUN_NAME'' \<mapsto> JString (om_name run))
      in case map_lookup (om_labels run) PipelineRunExecutionTimestampLabel of
           None \<Rightarrow> envs1
         | Some executionTs \<Rightarrow> envs1(''STARLARK_TIME'' \<mapsto> JString (''unix:'' @ executionTs)))"

definition source_pipeline :: "pipeline_run \<Rightarrow> pipeline option" where
  "source_pipeline run =
     (case st_source_pipeline (pr_status run) of None \<Rightarrow> None | Some pipeline \<Rightarrow> pipeline)"

lemma source_pipeline_steps [simp]: "source_pipeline (set_steps ss run) = source_pipeline run"
  by (simp add: source_pipeline_def)

definition getWorkflowInputs ::
    "wf_env \<Rightarrow> pipeline_run \<Rightarrow> (api_error + (json list \<times> json list \<times> envs)) outcome" where
  "getWorkflowInputs W run =
     (case source_pipeline run of
        None \<Rightarrow> Panicked
      | Some pipeline \<Rightarrow>
          (case decodePipelineManifestContent W (pl_spec pipeline) of
             Panicked \<Rightarrow> Panicked
           | Returned (Inl err) \<Rightarrow> Returned (Inl err)
           | Returned (Inr config) \<Rightarrow>
               (case manifest_envs config (default_envs run) of
                  Panicked \<Rightarrow> Panicked
                | Returned envs \<Rightarrow>
                    (case apply_run_input run config envs of
                       Inl err \<Rightarrow> Returned (Inl err)
                     | Inr (config', envs') \<Rightarrow>
                         (case extractWorkflowInputs W config' envs' of
                            Panicked \<Rightarrow> Panicked
                          | Returned (args, kwArgs, envs'') \<Rightarrow>
                              Returned (Inr (args, kwArgs,
                                addTaskImageToEnv run (identity_envs run envs''))))))))"

section \<open>Task cache\<close>

text \<open>
  The runs a run resumes form a chain. Each task takes its cached output from the nearest run
  of the chain that has one; the chain is followed as far as it goes, without a check for
  cycles, so the model counts the runs it reads and \<open>Hangs\<close> when the fuel is spent.
\<close>

definition resumed_run :: "pipeline_run \<Rightarrow> (string \<times> string) option" where
  "resumed_run run =
     (case sp_resume (pr_spec run) of None \<Rightarrow> None | Some resume \<Rightarrow> rs_run resume)"

definition cached_successes :: "step_info \<Rightarrow> string list" where
  "cached_successes step =
     map si_display_name
       (filter (\<lambda>sub. si_cached_outputs sub \<noteq> None \<and> si_state sub = Step_SUCCEEDED) (si_sub_steps step))"

definition note_version ::
    "string \<Rightarrow> string \<Rightarrow> (string \<times> string) list \<Rightarrow> (string \<times> string) list" where
  "note_version version task versions =
     (if map_of versions task = None then versions @ [(task, version)] else versions)"

definition getTaskCacheVersionFromResumePipelineRun ::
    "(string \<times> string) list \<Rightarrow> pipeline_run \<Rightarrow> (string \<times> string) list outcome" where
  "getTaskCacheVersionFromResumePipelineRun versions run =
     (case GetStep run ExecuteWorkflowStepName of
        None \<Rightarrow> Panicked
      | Some step \<Rightarrow> Returned (fold (note_version (om_name run)) (cached_successes step) versions))"

fun resume_chain ::
    "wf_env \<Rightarrow> nat \<Rightarrow> string \<times> string \<Rightarrow> (string \<times> string) list \<Rightarrow> (pr_event, (string \<times> string) list) exc_io" where
  "resume_chain W 0 runID versions = State_Monad.return (Inl Hangs)"
| "resume_chain W (Suc n) runID versions =
     and_then (call (\<lambda>h. we_get_run W h runID) (EvGetRun (fst runID) (snd runID)))
       (\<lambda>run. case getTaskCacheVersionFromResumePipelineRun versions run of
          Panicked \<Rightarrow> State_Monad.return (Inl Panics)
        | Returned versions' \<Rightarrow>
            (case resumed_run run of
               None \<Rightarrow> State_Monad.return (Inr versions')
             | Some runID' \<Rightarrow> resume_chain W n runID' versions'))"

definition version_env_name :: "string \<Rightarrow> string" where
  "version_env_name task = cacheVersionVarName @ ''_'' @ cacheOperationGet @ ''_'' @ task"

definition enabled_env_name :: "string \<Rightarrow> string" where
  "enabled_env_name task = cacheEnabledVarName @ ''_'' @ task"

definition resume_envs :: "(string \<times> string) list \<Rightarrow> string list \<Rightarrow> envs \<Rightarrow> envs" where
  "resume_envs versions resumeFrom envs =
     fold (\<lambda>task envs. envs(enabled_env_name task \<mapsto> JString ''false'')) resumeFrom
       (fold (\<lambda>(task, version) envs. envs(version_env_name task \<mapsto> JString version)) versions
         (envs(cacheEnabledVarName \<mapsto> JString ''true'')))"

definition addTaskCacheEnv :: "wf_env \<Rightarrow> pipeline_run \<Rightarrow> envs \<Rightarrow> (pr_event, envs) exc_io" where
  "addTaskCacheEnv W run envs =
     (let envs1 = envs(cacheEnabledVarName \<mapsto> JString ''false'',
                       cacheVersionVarName \<mapsto> JString (om_name run)) in
      case sp_resume (pr_spec run) of
        None \<Rightarrow> State_Monad.return (Inr envs1)
      | Some resume \<Rightarrow>
          (case rs_run resume of
             None \<Rightarrow> State_Monad.return (Inr envs1)
           | Some runID \<Rightarrow>
               and_then (resume_chain W (we_fuel W) runID [])
                 (\<lambda>versions. State_Monad.return (Inr (resume_envs versions (rs_from resume) envs1)))))"

text \<open>The cache touches only its own variables.\<close>

definition cache_key :: "string \<Rightarrow> bool" where
  "cache_key k \<longleftrightarrow> take 6 k = ''CACHE_''"

lemma cache_keys [simp]: "cache_key (version_env_name t)" "cache_key (enabled_env_name t)"
  "cache_key cacheEnabledVarName" "cache_key cacheVersionVarName"
  by (simp_all add: cache_key_def version_env_name_def enabled_env_name_def cache_name_defs)

lemma fold_upd_other:
  "(\<And>x. x \<in> set xs \<Longrightarrow> key x \<noteq> k) \<Longrightarrow> fold (\<lambda>x envs. envs(key x \<mapsto> v x)) xs envs k = envs k"
  by (induction xs arbitrary: envs) auto

lemma resume_envs_other:
  assumes "\<not> cache_key k"
  shows "resume_envs versions tasks envs k = envs k"
proof -
  have key: "version_env_name t \<noteq> k" "enabled_env_name t \<noteq> k" "cacheEnabledVarName \<noteq> k" for t
    using assms by (metis cache_keys)+
  have "fold (\<lambda>(task, version) envs. envs(version_env_name task \<mapsto> JString version)) versions e k = e k" for e
    by (induction versions arbitrary: e) (use not_sym [OF key(1)] in auto)
  then show ?thesis using key by (simp add: resume_envs_def fold_upd_other)
qed

lemma addTaskCacheEnv_other:
  assumes "run_state (addTaskCacheEnv W run envs) h = (Inr envs', h')" "\<not> cache_key k"
  shows "envs' k = envs k"
proof -
  have "k \<noteq> cacheEnabledVarName" "k \<noteq> cacheVersionVarName" using assms(2) cache_keys by metis+
  with assms show ?thesis
    by (auto simp: addTaskCacheEnv_def Let_def resume_envs_other elim!: and_then_InrE split: option.splits)
qed

section \<open>What the environment holds\<close>

text \<open>
  The environment the manifest asks for and the one the input of the run asks for. The
  overrides of the input reach every part of the configuration except its environment.
\<close>

definition object_entries :: "json option \<Rightarrow> envs" where
  "object_entries v = (case v of Some (JObject kvs) \<Rightarrow> map_of kvs | _ \<Rightarrow> Map.empty)"

definition dev_environ :: "pipeline_run \<Rightarrow> envs" where
  "dev_environ run =
     (case sp_input (pr_spec run) of
        None \<Rightarrow> Map.empty
      | Some input \<Rightarrow> object_entries (input ''environ''))"

definition environ_only :: "(string \<rightharpoonup> json) \<Rightarrow> bool" where
  "environ_only config \<longleftrightarrow> config WorkflowTaskConfigsKey = None \<and> config WorkflowArgsKey = None \<and>
     config WorkflowKWArgsKey = None"

definition effective_config :: "pipeline_run \<Rightarrow> (string \<rightharpoonup> json) \<Rightarrow> (string \<rightharpoonup> json)" where
  "effective_config run config =
     (case sp_input (pr_spec run) of
        None \<Rightarrow> config
      | Some input \<Rightarrow> applyInputOverrides input
          [WorkflowTaskConfigsKey, WorkflowConfigKey, WorkflowArgsKey, WorkflowKWArgsKey] config)"

text \<open>The variables the controller sets itself.\<close>

definition controller_key :: "string \<Rightarrow> bool" where
  "controller_key k \<longleftrightarrow>
     k \<in> {''MA_NAMESPACE'', ''MA_PIPELINE_RUN_NAME'', ''STARLARK_TIME'', ''YAML_BASED_PIPELINE''} \<or>
     take 13 k = ''UF_TASK_IMAGE''"

lemma applyInputFieldToConfigMap_other:
  "k \<noteq> fieldKey \<Longrightarrow> applyInputFieldToConfigMap input fieldKey config k = config k"
  by (auto simp: applyInputFieldToConfigMap_def split: option.splits json.splits)

lemma effective_config_environ [simp]:
  "effective_config run config WorkflowEnvironKey = config WorkflowEnvironKey"
  by (simp add: effective_config_def applyInputOverrides_def input_key_defs
      applyInputFieldToConfigMap_other split: option.splits)

lemma assert_list_Returned: "assert_list v = Returned vs \<longleftrightarrow> v = JList vs"
  by (cases v) auto

lemma assert_map_Returned: "assert_map v = Returned kvs \<longleftrightarrow> v = JObject kvs"
  by (cases v) auto

lemma manifest_envs_Returned:
  assumes "manifest_envs config envs = Returned envs'"
  shows "envs' = envs ++ object_entries (config WorkflowEnvironKey)"
proof (cases "config WorkflowEnvironKey")
  case None
  with assms show ?thesis
    by (auto simp: manifest_envs_def object_entries_def split: outcome.splits)
next
  case (Some v)
  with assms show ?thesis
    by (auto simp: manifest_envs_def object_entries_def merge_envs_def assert_map_Returned
        split: outcome.splits)
qed

lemma applyDevRun_Inr:
  "applyDevRunEnvironmentOverrides envs (Some v) = Inr envs' \<Longrightarrow> envs' = envs ++ object_entries (Some v)"
  by (cases v) (auto simp: applyDevRunEnvironmentOverrides_def override_envs_def merge_envs_def
      object_entries_def split: if_splits)

lemma apply_run_input_Inr:
  assumes "apply_run_input run config envs = Inr (config', envs')"
  shows "config' = effective_config run config \<and> envs' = envs ++ dev_environ run"
proof (cases "sp_input (pr_spec run)")
  case None
  with assms show ?thesis by (simp add: apply_run_input_def effective_config_def dev_environ_def)
next
  case (Some input)
  with assms show ?thesis
    by (auto simp: apply_run_input_def effective_config_def dev_environ_def object_entries_def
        dest!: applyDevRun_Inr split: option.splits sum.splits)
qed

lemma extractWorkflowInputs_Returned:
  assumes "extractWorkflowInputs W config envs = Returned (args, kwArgs, envs')"
    and "k \<noteq> ''YAML_BASED_PIPELINE''"
  shows "envs' k = (if environ_only config then envs ++ object_entries (config WorkflowEnvironKey) else envs) k"
  using assms
  by (auto simp: extractWorkflowInputs_def environ_only_def assert_map_Returned merge_envs_def
      object_entries_def split: if_splits option.splits outcome.splits)

lemma addTaskImageToEnv_other:
  assumes "take 13 k \<noteq> ''UF_TASK_IMAGE''"
  shows "addTaskImageToEnv run envs k = envs k"
proof -
  have neq: "image_env_name n t \<noteq> k" for n t
    using assms by (auto simp: image_env_name_def)
  have "fold (\<lambda>(t, image) envs. envs(image_env_name n t \<mapsto> f image)) out envs k = envs k"
    for n f and out :: "(string \<times> json) list"
    by (induction out arbitrary: envs) (use neq in \<open>auto simp: fun_upd_def split: prod.splits\<close>)
  then show ?thesis by (auto simp: addTaskImageToEnv_def split: option.splits)
qed

lemma identity_envs_other:
  "\<not> controller_key k \<Longrightarrow> identity_envs run envs k = envs k"
  by (auto simp: identity_envs_def controller_key_def Let_def split: option.splits)

text \<open>A successful call, step by step.\<close>

lemma getWorkflowInputs_ReturnedE:
  assumes "getWorkflowInputs W run = Returned (Inr (args, kwArgs, envs))"
  obtains pl config env1 env2 env3 where "source_pipeline run = Some pl"
    "decodePipelineManifestContent W (pl_spec pl) = Returned (Inr config)"
    "manifest_envs config (default_envs run) = Returned env1"
    "apply_run_input run config env1 = Inr (effective_config run config, env2)"
    "extractWorkflowInputs W (effective_config run config) env2 = Returned (args, kwArgs, env3)"
    "envs = addTaskImageToEnv run (identity_envs run env3)"
proof -
  from assms obtain pl config env1 config' env2 env3 where "source_pipeline run = Some pl"
    "decodePipelineManifestContent W (pl_spec pl) = Returned (Inr config)"
    "manifest_envs config (default_envs run) = Returned env1"
    and input: "apply_run_input run config env1 = Inr (config', env2)"
    and "extractWorkflowInputs W config' env2 = Returned (args, kwArgs, env3)"
    "envs = addTaskImageToEnv run (identity_envs run env3)"
    by (auto simp: getWorkflowInputs_def split: option.splits outcome.splits sum.splits)
  moreover from apply_run_input_Inr [OF input] have "config' = effective_config run config" by simp
  ultimately show thesis using that by blast
qed

text \<open>
  The environment a workflow is started with. The namespace and the name of the run are
  always the run's own, whatever the manifest or the input of the run say. Any variable the
  controller does not set itself comes from the input of the run (a dev run's overrides),
  then from the manifest, then from the default - except when the configuration has neither
  arguments nor keyword arguments nor task configurations: then the manifest's environment is
  merged a second time, and wins over the overrides of the run.
\<close>

theorem environment_precedence:
  assumes "getWorkflowInputs W run = Returned (Inr (args, kwArgs, envs))"
    and "source_pipeline run = Some pl"
    and "decodePipelineManifestContent W (pl_spec pl) = Returned (Inr config)"
  shows "envs ''MA_NAMESPACE'' = Some (JString (om_namespace run)) \<and>
    envs ''MA_PIPELINE_RUN_NAME'' = Some (JString (om_name run)) \<and>
    (\<forall>k. \<not> controller_key k \<longrightarrow>
       envs k = (if environ_only (effective_config run config)
         then default_envs run ++ dev_environ run ++ object_entries (config WorkflowEnvironKey)
         else default_envs run ++ object_entries (config WorkflowEnvironKey) ++ dev_environ run) k)"
proof -
  from assms obtain env1 env2 env3 where
    manifest: "manifest_envs config (default_envs run) = Returned env1"
    and input: "apply_run_input run config env1 = Inr (effective_config run config, env2)"
    and extracted: "extractWorkflowInputs W (effective_config run config) env2 = Returned (args, kwArgs, env3)"
    and final: "envs = addTaskImageToEnv run (identity_envs run env3)"
    by (elim getWorkflowInputs_ReturnedE) auto
  have ids: "envs ''MA_NAMESPACE'' = Some (JString (om_namespace run))"
    "envs ''MA_PIPELINE_RUN_NAME'' = Some (JString (om_name run))"
    by (simp_all add: final addTaskImageToEnv_other identity_envs_def Let_def split: option.splits)
  from apply_run_input_Inr [OF input] manifest_envs_Returned [OF manifest]
  have env2: "env2 = default_envs run ++ object_entries (config WorkflowEnvironKey) ++ dev_environ run"
    by simp
  have "envs k = (if environ_only (effective_config run config)
         then default_envs run ++ dev_environ run ++ object_entries (config WorkflowEnvironKey)
         else default_envs run ++ object_entries (config WorkflowEnvironKey) ++ dev_environ run) k"
    if k: "\<not> controller_key k" for k
  proof -
    from k have "envs k = env3 k"
      by (simp add: final addTaskImageToEnv_other identity_envs_other controller_key_def)
    with extractWorkflowInputs_Returned [OF extracted, of k] k env2 show ?thesis
      by (auto simp: controller_key_def map_add_def split: option.splits)
  qed
  with ids show ?thesis by blast
qed

section \<open>The chain of resumed runs\<close>

text \<open>
  The chain as the API server holds it: from a run to the one it resumes, down to a run that
  resumes none.
\<close>

inductive resumes ::
    "(string \<times> string \<Rightarrow> api_error + pipeline_run) \<Rightarrow> string \<times> string \<Rightarrow> pipeline_run list \<Rightarrow> bool"
  for store where
  last: "store runID = Inr run \<Longrightarrow> resumed_run run = None \<Longrightarrow> resumes store runID [run]"
| step: "store runID = Inr run \<Longrightarrow> resumed_run run = Some runID' \<Longrightarrow> resumes store runID' runs \<Longrightarrow>
    resumes store runID (run # runs)"

code_pred resumes .

definition executed :: "pipeline_run \<Rightarrow> bool" where
  "executed run \<longleftrightarrow> GetStep run ExecuteWorkflowStepName \<noteq> None"

definition cached_tasks :: "pipeline_run \<Rightarrow> string list" where
  "cached_tasks run =
     (case GetStep run ExecuteWorkflowStepName of None \<Rightarrow> [] | Some step \<Rightarrow> cached_successes step)"

definition nearest_version :: "pipeline_run list \<Rightarrow> string \<rightharpoonup> string" where
  "nearest_version runs task =
     map_option om_name (find (\<lambda>run. task \<in> set (cached_tasks run)) runs)"

lemma note_versions:
  "map_of (fold (note_version v) tasks versions) task =
     (case map_of versions task of
        Some w \<Rightarrow> Some w
      | None \<Rightarrow> if task \<in> set tasks then Some v else None)"
  by (induction tasks arbitrary: versions)
    (auto simp: note_version_def map_add_def split: option.splits)

lemma getTaskCacheVersion_executed:
  "executed run \<Longrightarrow> getTaskCacheVersionFromResumePipelineRun versions run =
     Returned (fold (note_version (om_name run)) (cached_tasks run) versions)"
  by (auto simp: executed_def getTaskCacheVersionFromResumePipelineRun_def cached_tasks_def)

lemma getTaskCacheVersion_not_executed:
  "\<not> executed run \<Longrightarrow> getTaskCacheVersionFromResumePipelineRun versions run = Panicked"
  by (auto simp: executed_def getTaskCacheVersionFromResumePipelineRun_def)

lemma resume_chain_Suc:
  assumes "we_get_run W = (\<lambda>h. store)" "store runID = Inr run" "executed run"
  shows "run_state (resume_chain W (Suc n) runID versions) h =
    (let versions' = fold (note_version (om_name run)) (cached_tasks run) versions;
         h' = h @ [EvGetRun (fst runID) (snd runID)]
     in case resumed_run run of
          None \<Rightarrow> (Inr versions', h')
        | Some runID' \<Rightarrow> run_state (resume_chain W n runID' versions') h')"
  using assms
  by (auto simp: and_then_def getTaskCacheVersion_executed Let_def split: option.splits)

text \<open>Along a chain that ends, enough fuel gives the nearest cached output of every task.\<close>

lemma resume_chain_ends:
  assumes "resumes store runID runs" "we_get_run W = (\<lambda>h. store)" "list_all executed runs"
    and "length runs \<le> fuel"
  obtains versions' h' where "run_state (resume_chain W fuel runID versions) h = (Inr versions', h')"
    "map_of versions' = nearest_version runs ++ map_of versions"
proof -
  from assms have "\<exists>versions' h'. run_state (resume_chain W fuel runID versions) h = (Inr versions', h') \<and>
      map_of versions' = nearest_version runs ++ map_of versions"
  proof (induction arbitrary: versions fuel h)
    case (last runID run)
    then obtain n where fuel: "fuel = Suc n" by (cases fuel) auto
    from last show ?case
      unfolding fuel resume_chain_Suc [OF last(3,1) last(4) [simplified]]
      by (auto simp: Let_def fun_eq_iff note_versions nearest_version_def map_add_def split: option.splits)
  next
    case (step runID run runID' runs)
    then obtain n where fuel: "fuel = Suc n" by (cases fuel) auto
    from step.prems have ex: "executed run" "list_all executed runs" "length runs \<le> n"
      by (simp_all add: fuel)
    let ?versions = "fold (note_version (om_name run)) (cached_tasks run) versions"
    from step.IH [OF step.prems(1) ex(2,3), of ?versions "h @ [EvGetRun (fst runID) (snd runID)]"]
    obtain versions' h' where rest:
      "run_state (resume_chain W n runID' ?versions) (h @ [EvGetRun (fst runID) (snd runID)]) = (Inr versions', h')"
      "map_of versions' = nearest_version runs ++ map_of ?versions" by blast
    have "map_of versions' = nearest_version (run # runs) ++ map_of versions"
      unfolding rest(2)
      by (auto simp: fun_eq_iff note_versions nearest_version_def map_add_def split: option.splits)
    with rest(1) step.hyps(2) show ?case
      unfolding fuel resume_chain_Suc [OF step.prems(1) step.hyps(1) ex(1)]
      by (simp add: Let_def)
  qed
  then show thesis using that by blast
qed

text \<open>An answer means that the chain ends and that every run of it has executed.\<close>

lemma resume_chain_Inr:
  assumes "run_state (resume_chain W fuel runID versions) h = (Inr versions', h')"
    and "we_get_run W = (\<lambda>h. store)"
  shows "\<exists>runs. resumes store runID runs \<and> list_all executed runs \<and> length runs \<le> fuel"
  using assms
proof (induction fuel arbitrary: runID versions h)
  case 0
  then show ?case by simp
next
  case (Suc n)
  from Suc.prems obtain run where run: "store runID = Inr run"
    by (cases "store runID") (auto simp: and_then_def)
  from Suc.prems run have ex: "executed run"
    by (auto simp: and_then_def getTaskCacheVersion_not_executed intro: ccontr)
  show ?case
  proof (cases "resumed_run run")
    case None
    with run ex show ?thesis by (intro exI [of _ "[run]"]) (auto intro: resumes.last)
  next
    case (Some runID')
    let ?versions = "fold (note_version (om_name run)) (cached_tasks run) versions"
    from Suc.prems(1) Some
    have "run_state (resume_chain W n runID' ?versions) (h @ [EvGetRun (fst runID) (snd runID)]) =
        (Inr versions', h')"
      unfolding resume_chain_Suc [OF Suc.prems(2) run ex] by (simp add: Let_def)
    from Suc.IH [OF this Suc.prems(2)] obtain runs where
      "resumes store runID' runs" "list_all executed runs" "length runs \<le> n" by blast
    with run ex Some show ?thesis
      by (intro exI [of _ "run # runs"]) (auto intro: resumes.step)
  qed
qed

lemma version_env_name_inject [simp]: "version_env_name t = version_env_name u \<longleftrightarrow> t = u"
  by (simp add: version_env_name_def)

lemma enabled_env_name_inject [simp]: "enabled_env_name t = enabled_env_name u \<longleftrightarrow> t = u"
  by (simp add: enabled_env_name_def)

lemma cache_names_differ [simp]:
  "version_env_name t \<noteq> enabled_env_name u" "enabled_env_name u \<noteq> version_env_name t"
  "enabled_env_name u \<noteq> cacheEnabledVarName" "version_env_name t \<noteq> cacheEnabledVarName"
  "cacheEnabledVarName \<noteq> enabled_env_name u" "cacheEnabledVarName \<noteq> version_env_name t"
  by (simp_all add: version_env_name_def enabled_env_name_def cache_name_defs)

lemma distinct_note_versions:
  "distinct (map fst versions) \<Longrightarrow> distinct (map fst (fold (note_version v) tasks versions))"
  by (induction tasks arbitrary: versions) (auto simp: note_version_def map_of_eq_None_iff)

lemma resume_chain_distinct:
  "run_state (resume_chain W n runID versions) h = (Inr versions', h') \<Longrightarrow>
   distinct (map fst versions) \<Longrightarrow> distinct (map fst versions')"
proof (induction n arbitrary: runID versions h)
  case 0
  then show ?case by simp
next
  case (Suc n)
  from Suc.prems(1) have "\<exists>v tasks vs. vs = fold (note_version v) tasks versions \<and>
      (versions' = vs \<or> (\<exists>runID' h1. run_state (resume_chain W n runID' vs) h1 = (Inr versions', h')))"
    by (auto elim!: and_then_InrE simp: getTaskCacheVersionFromResumePipelineRun_def
        split: option.splits outcome.splits) blast+
  with distinct_note_versions [OF Suc.prems(2)] obtain vs where "distinct (map fst vs)"
    "versions' = vs \<or> (\<exists>runID' h1. run_state (resume_chain W n runID' vs) h1 = (Inr versions', h'))"
    by blast
  with Suc.IH show ?case by blast
qed

lemma fold_version_envs:
  assumes "distinct (map fst versions)"
  shows "fold (\<lambda>(task, version) envs. envs(version_env_name task \<mapsto> JString version)) versions envs
    (version_env_name task) =
      (case map_of versions task of Some v \<Rightarrow> Some (JString v) | None \<Rightarrow> envs (version_env_name task))"
  using assms
proof (induction versions arbitrary: envs)
  case Nil
  then show ?case by simp
next
  case (Cons entry versions)
  obtain t v where entry: "entry = (t, v)" by (cases entry)
  from Cons.prems entry have "map_of versions t = None" by (simp add: map_of_eq_None_iff)
  with Cons.IH Cons.prems entry show ?case by (auto split: option.splits)
qed

lemma fold_enabled_envs:
  "fold (\<lambda>task envs. envs(enabled_env_name task \<mapsto> v)) tasks envs k =
     (if k \<in> enabled_env_name ` set tasks then Some v else envs k)"
  by (induction tasks arbitrary: envs) auto

text \<open>
  Resuming a run terminates with the right cache exactly when the chain of resumed runs
  ends. If the API server holds a chain of runs that have all executed, fuel for its length is
  enough, and the environment the workflow gets names, for every task, the nearest run of the
  chain that has a cached output of the task; the cache is enabled, and disabled for each task
  the run resumes from.
\<close>

theorem resume_uses_nearest_cache:
  assumes "sp_resume (pr_spec run) = Some \<lparr>rs_run = Some runID, rs_from = tasks\<rparr>"
    and "we_get_run W = (\<lambda>h. store)" "resumes store runID runs" "list_all executed runs"
    and "length runs \<le> we_fuel W" "\<And>task. envs (version_env_name task) = None"
  shows "\<exists>envs' h'. run_state (addTaskCacheEnv W run envs) h = (Inr envs', h') \<and>
    envs' cacheEnabledVarName = Some (JString ''true'') \<and>
    (\<forall>task. envs' (version_env_name task) = map_option JString (nearest_version runs task)) \<and>
    (\<forall>task\<in>set tasks. envs' (enabled_env_name task) = Some (JString ''false''))"
proof -
  obtain versions h1 where chain:
    "run_state (resume_chain W (we_fuel W) runID []) h = (Inr versions, h1)"
    and nearest: "map_of versions = nearest_version runs"
    by (rule resume_chain_ends [OF assms(3,2,4,5), where versions = "[]" and h = h]) auto
  let ?envs = "resume_envs versions tasks
    (envs(cacheEnabledVarName \<mapsto> JString ''false'', cacheVersionVarName \<mapsto> JString (om_name run)))"
  from chain assms(1) have "run_state (addTaskCacheEnv W run envs) h = (Inr ?envs, h1)"
    by (simp add: addTaskCacheEnv_def and_then_def Let_def)
  moreover have "version_env_name task \<noteq> cacheVersionVarName" for task
    by (simp add: version_env_name_def cache_name_defs)
  with resume_chain_distinct [OF chain] assms(6)
  have "?envs (version_env_name task) = map_option JString (nearest_version runs task)" for task
    by (auto simp: resume_envs_def fold_enabled_envs fold_version_envs nearest [symmetric]
        split: option.splits)
  moreover have "?envs cacheEnabledVarName = Some (JString ''true'')"
  proof -
    have "fold (\<lambda>(task, version) envs. envs(version_env_name task \<mapsto> JString version)) vs e
        cacheEnabledVarName = e cacheEnabledVarName" for vs e
      by (induction vs arbitrary: e) (auto split: prod.splits)
    then show ?thesis by (auto simp: resume_envs_def fold_enabled_envs)
  qed
  moreover have "\<forall>task\<in>set tasks. ?envs (enabled_env_name task) = Some (JString ''false'')"
    by (simp add: resume_envs_def fold_enabled_envs)
  ultimately show ?thesis by blast
qed

text \<open>
  C19. Following the resumed runs returns for some amount of fuel, that is, the loop of the code
  terminates without an error, exactly when the chain ends and every run of it has an
  execute-workflow step. On a cycle of runs the loop never ends; a run of the chain that never
  executed makes the code dereference nil.
\<close>

theorem resume_returns_iff_chain_ends:
  assumes "we_get_run W = (\<lambda>h. store)"
  shows "(\<exists>fuel versions h'. run_state (resume_chain W fuel runID []) h = (Inr versions, h')) \<longleftrightarrow>
    (\<exists>runs. resumes store runID runs \<and> list_all executed runs)"
proof
  assume "\<exists>fuel versions h'. run_state (resume_chain W fuel runID []) h = (Inr versions, h')"
  with resume_chain_Inr [OF _ assms] show "\<exists>runs. resumes store runID runs \<and> list_all executed runs"
    by blast
next
  assume "\<exists>runs. resumes store runID runs \<and> list_all executed runs"
  then obtain runs where "resumes store runID runs" "list_all executed runs" by blast
  from resume_chain_ends [OF this(1) assms this(2) le_refl, of "[]" h]
  show "\<exists>fuel versions h'. run_state (resume_chain W fuel runID []) h = (Inr versions, h')" by blast
qed

section \<open>A concrete environment\<close>

text \<open>
  Services that answer from a fixed store, for the witnesses: the manifest content ''m'' asks
  for one variable, the history has one decision before one activity, and a progress report is
  the name of its task.
\<close>

definition example_report :: "string \<Rightarrow> task_progress" where
  "example_report s =
     \<lparr>tp_task_path = s, tp_task_name = s, tp_task_log = ''log'', tp_task_message = '''',
      tp_task_state = ''RUNNING'', tp_start_time = '''', tp_end_time = '''', tp_output = '''',
      tp_input = '''', tp_retry_attempt_id = ''0'', tp_first_activity_id = ''a''\<rparr>"

definition example_history :: "history_event list" where
  "example_history =
     [\<lparr>he_id = 1, he_type = ''decision'', he_activity = None\<rparr>,
      \<lparr>he_id = 2, he_type = ''scheduled'', he_activity = Some ''a''\<rparr>]"

definition example_project :: obj_meta where
  "example_project =
     \<lparr>om_namespace = ''ns'', om_name = ''ns'', om_uid = '''', om_generation = 0, om_creation_ts = None,
      om_deletion_ts = None, om_labels = None, om_annotations = None, om_finalizers = [],
      om_owner_refs = []\<rparr>"

definition example_wf :: "(string \<times> string \<Rightarrow> api_error + pipeline_run) \<Rightarrow> wf_env" where
  "example_wf store =
     \<lparr>we_fuel = 2, we_order = (\<lambda>ks. ks),
      we_decode = (\<lambda>content. Inr [''environ'' \<mapsto> JObject [(''K'', JString ''manifest'')]]),
      we_parse_progress = (\<lambda>s. Some (example_report s)), we_parse_time = (\<lambda>s. None),
      we_unmarshal = (\<lambda>s. None), we_marshal = (\<lambda>j. None), we_parse_struct = (\<lambda>s. None),
      we_config = Inr \<lparr>wc_task_list = ''queue'', wc_domain = '''', wc_execution_url_format = ''''\<rparr>,
      we_render = (\<lambda>f d n. None), we_error_text = (\<lambda>e. ''''),
      we_scheduled_type = ''scheduled'', we_completed_type = ''completed'', we_decision_type = ''decision'',
      we_now = (\<lambda>h. 7), we_get_pipeline = (\<lambda>h ns nm. Inl (GrpcError Code_NotFound)),
      we_get_project = (\<lambda>h ns. Inr example_project), we_get_run = (\<lambda>h. store),
      we_get_cached = (\<lambda>h ns nm. Inl (GrpcError Code_NotFound)), we_blob = (\<lambda>h k. Inr ''tar''),
      we_exec_info = (\<lambda>h w r. Inr \<lparr>ei_status = WF_Running, ei_run_id = Some r\<rparr>),
      we_cancel = (\<lambda>h w r. None), we_history = (\<lambda>h w r. Inr example_history),
      we_reset = (\<lambda>h q. Inr ''new''), we_query = (\<lambda>h w r. Inr [''t'', ''u'', ''t'']),
      we_start = (\<lambda>h i q. Inr (''w'', ''x''))\<rparr>"

lemma example_wf_sel [simp]:
  "we_fuel (example_wf store) = 2" "we_order (example_wf store) ks = ks"
  "we_decode (example_wf store) content = Inr [''environ'' \<mapsto> JObject [(''K'', JString ''manifest'')]]"
  "we_parse_progress (example_wf store) s = Some (example_report s)"
  "we_config (example_wf store) =
     Inr \<lparr>wc_task_list = ''queue'', wc_domain = '''', wc_execution_url_format = ''''\<rparr>"
  "we_scheduled_type (example_wf store) = ''scheduled''"
  "we_completed_type (example_wf store) = ''completed''"
  "we_decision_type (example_wf store) = ''decision''"
  "we_now (example_wf store) h = 7" "we_get_run (example_wf store) = (\<lambda>h. store)"
  "we_blob (example_wf store) h k = Inr ''tar''"
  "we_get_project (example_wf store) h ns = Inr example_project" "om_annotations example_project = None"
  "we_exec_info (example_wf store) h w r = Inr \<lparr>ei_status = WF_Running, ei_run_id = Some r\<rparr>"
  "we_cancel (example_wf store) h w r = None"
  "we_history (example_wf store) h w r = Inr example_history"
  "we_reset (example_wf store) h q = Inr ''new''"
  "we_query (example_wf store) h w r = Inr [''t'', ''u'', ''t'']"
  "we_start (example_wf store) h i q2 = Inr (''w'', ''x'')"
  by (simp_all add: example_wf_def example_project_def)

text \<open>A run whose pipeline has the manifest ''m'', with the given steps, spec and workflow.\<close>

definition example_source_pipeline :: pipeline where
  "example_source_pipeline =
     \<lparr>om_namespace = ''ns'', om_name = ''p'', om_uid = '''', om_generation = 0, om_creation_ts = None,
      om_deletion_ts = None, om_labels = None, om_annotations = None, om_finalizers = [],
      om_owner_refs = [],
      pl_spec = \<lparr>pl_manifest = Some \<lparr>mf_content = Some ''m'', mf_uniflow_tar = ''tar''\<rparr>\<rparr>\<rparr>"

definition example_spec :: run_spec where
  "example_spec =
     \<lparr>sp_kill = False, sp_pipeline = None, sp_pipeline_spec = None, sp_retry = None,
      sp_resume = None, sp_input = None, sp_workspace_root = '''', sp_notifications = []\<rparr>"

definition workflow_run :: "string \<Rightarrow> run_spec \<Rightarrow> string \<Rightarrow> step_info list \<Rightarrow> pipeline_run" where
  "workflow_run name spec rid steps =
     \<lparr>om_namespace = ''ns'', om_name = name, om_uid = ''u'', om_generation = 1, om_creation_ts = Some 0,
      om_deletion_ts = None, om_labels = None, om_annotations = None, om_finalizers = [],
      om_owner_refs = [], pr_spec = spec,
      pr_status = \<lparr>st_state = Run_RUNNING, st_workflow_id = rid, st_workflow_run_id = rid,
        st_conditions = [], st_steps = steps, st_source_pipeline = Some (Some example_source_pipeline),
        st_end_time = None, st_error_message = ''''\<rparr>\<rparr>"

definition example_step :: "string \<Rightarrow> step_state \<Rightarrow> leaf_step list \<Rightarrow> step_info" where
  "example_step name state subs = (pending_step name 0 '''')\<lparr>si_state := state, si_sub_steps := subs\<rparr>"

definition cached_leaf :: "string \<Rightarrow> leaf_step" where
  "cached_leaf task = empty_leaf\<lparr>si_display_name := task, si_state := Step_SUCCEEDED,
     si_cached_outputs := Some [(''ns'', ''out'')]\<rparr>"

lemma workflow_run_sel [simp]:
  "om_namespace (workflow_run name spec rid steps) = ''ns''" "om_name (workflow_run name spec rid steps) = name"
  "om_labels (workflow_run name spec rid steps) = None" "om_annotations (workflow_run name spec rid steps) = None"
  "pr_spec (workflow_run name spec rid steps) = spec"
  "st_steps (pr_status (workflow_run name spec rid steps)) = steps"
  "st_workflow_id (pr_status (workflow_run name spec rid steps)) = rid"
  "st_workflow_run_id (pr_status (workflow_run name spec rid steps)) = rid"
  "st_conditions (pr_status (workflow_run name spec rid steps)) = []"
  "source_pipeline (workflow_run name spec rid steps) = Some example_source_pipeline"
  "GetStep (workflow_run name spec rid steps) nm = find (\<lambda>step. si_name step = nm) steps"
  by (simp_all add: workflow_run_def source_pipeline_def GetStep_def)

lemma example_step_sel [simp]:
  "si_name (example_step name state subs) = name" "si_state (example_step name state subs) = state"
  "si_sub_steps (example_step name state subs) = subs" "si_output (example_step name state subs) = None"
  "si_attempt_details (example_step name state subs) = []"
  by (simp_all add: example_step_def pending_step_def)

lemma example_source_pipeline_sel [simp]:
  "pl_spec example_source_pipeline = \<lparr>pl_manifest = Some \<lparr>mf_content = Some ''m'', mf_uniflow_tar = ''tar''\<rparr>\<rparr>"
  "om_annotations example_source_pipeline = None"
  by (simp_all add: example_source_pipeline_def)

lemma example_spec_sel [simp]:
  "sp_kill example_spec = False" "sp_resume example_spec = None" "sp_input example_spec = None"
  "sp_retry example_spec = None" "sp_workspace_root example_spec = ''''"
  by (simp_all add: example_spec_def)

text \<open>The override of a dev run loses to its manifest.\<close>

definition dev_spec :: run_spec where
  "dev_spec = example_spec\<lparr>sp_input := Some [''environ'' \<mapsto> JObject [(''K'', JString ''dev'')]]\<rparr>"

lemma dev_inputs:
  "\<exists>envs. getWorkflowInputs (example_wf store) (workflow_run ''r'' dev_spec '''' []) =
     Returned (Inr ([], [], envs))"
  by (simp add: getWorkflowInputs_def decodePipelineManifestContent_def manifest_envs_def dev_spec_def
      apply_run_input_def applyDevRunEnvironmentOverrides_def override_envs_def applyInputOverrides_def
      applyInputFieldToConfigMap_def extractWorkflowInputs_def input_key_defs)

theorem environment_precedence_witness:
  "\<exists>envs. getWorkflowInputs (example_wf (\<lambda>_. Inl (OtherError ''none''))) (workflow_run ''r'' dev_spec '''' []) =
     Returned (Inr ([], [], envs)) \<and> envs ''MA_NAMESPACE'' = Some (JString ''ns'') \<and>
     envs ''K'' = Some (JString ''manifest'')"
proof -
  let ?W = "example_wf (\<lambda>_. Inl (OtherError ''none''))" and ?r = "workflow_run ''r'' dev_spec '''' []"
  obtain envs where envs: "getWorkflowInputs ?W ?r = Returned (Inr ([], [], envs))"
    using dev_inputs by blast
  have config: "decodePipelineManifestContent ?W (pl_spec example_source_pipeline) =
      Returned (Inr [''environ'' \<mapsto> JObject [(''K'', JString ''manifest'')]])"
    by (simp add: decodePipelineManifestContent_def)
  have only: "environ_only (effective_config ?r [''environ'' \<mapsto> JObject [(''K'', JString ''manifest'')]])"
    by (simp add: environ_only_def effective_config_def dev_spec_def applyInputOverrides_def
        applyInputFieldToConfigMap_def input_key_defs)
  from environment_precedence [OF envs workflow_run_sel(10) config] only envs show ?thesis
    by (auto simp: controller_key_def object_entries_def WorkflowEnvironKey_def)
qed

definition example_store :: "string \<times> string \<Rightarrow> api_error + pipeline_run" where
  "example_store runID =
     (if snd runID = ''second'' then Inr (workflow_run ''second''
        (example_spec\<lparr>sp_resume := Some \<lparr>rs_run = Some (''ns'', ''first''), rs_from = []\<rparr>\<rparr>) ''x''
        [example_step ExecuteWorkflowStepName Step_FAILED [cached_leaf ''b'']])
      else if snd runID = ''first'' then Inr (workflow_run ''first'' example_spec ''x''
        [example_step ExecuteWorkflowStepName Step_FAILED [cached_leaf ''a'', cached_leaf ''b'']])
      else Inr (workflow_run ''loop''
        (example_spec\<lparr>sp_resume := Some \<lparr>rs_run = Some (''ns'', ''loop''), rs_from = []\<rparr>\<rparr>) ''x'' []))"

definition resuming_spec :: run_spec where
  "resuming_spec = example_spec\<lparr>sp_resume := Some \<lparr>rs_run = Some (''ns'', ''second''), rs_from = [''b'']\<rparr>\<rparr>"

theorem resume_uses_nearest_cache_witness:
  "\<exists>envs' h'. run_state (addTaskCacheEnv (example_wf example_store)
       (workflow_run ''third'' resuming_spec '''' []) Map.empty) [] = (Inr envs', h') \<and>
     envs' (version_env_name ''a'') = Some (JString ''first'') \<and>
     envs' (version_env_name ''b'') = Some (JString ''second'') \<and>
     envs' (enabled_env_name ''b'') = Some (JString ''false'')"
proof -
  let ?W = "example_wf example_store" and ?r = "workflow_run ''third'' resuming_spec '''' []"
  let ?first = "workflow_run ''first'' example_spec ''x''
        [example_step ExecuteWorkflowStepName Step_FAILED [cached_leaf ''a'', cached_leaf ''b'']]"
  let ?second = "workflow_run ''second''
        (example_spec\<lparr>sp_resume := Some \<lparr>rs_run = Some (''ns'', ''first''), rs_from = []\<rparr>\<rparr>) ''x''
        [example_step ExecuteWorkflowStepName Step_FAILED [cached_leaf ''b'']]"
  have "resumes example_store (''ns'', ''first'') [?first]"
    by (rule resumes.last) (simp_all add: example_store_def resumed_run_def)
  from resumes.step [OF _ _ this] have chain: "resumes example_store (''ns'', ''second'') [?second, ?first]"
    by (simp add: example_store_def resumed_run_def)
  have "list_all executed [?second, ?first]" by (simp add: executed_def)
  from resume_uses_nearest_cache [OF _ _ chain this, of ?r "[''b'']" ?W Map.empty "[]"]
  have "\<exists>envs' h'. run_state (addTaskCacheEnv ?W ?r Map.empty) [] = (Inr envs', h') \<and>
    envs' cacheEnabledVarName = Some (JString ''true'') \<and>
    (\<forall>task. envs' (version_env_name task) = map_option JString (nearest_version [?second, ?first] task)) \<and>
    (\<forall>task\<in>set [''b'']. envs' (enabled_env_name task) = Some (JString ''false''))"
    by (simp add: resuming_spec_def)
  moreover have tasks: "cached_tasks ?first = [''a'', ''b'']" "cached_tasks ?second = [''b'']"
    by (simp_all add: cached_tasks_def cached_successes_def cached_leaf_def)
  moreover have "nearest_version [?second, ?first] ''a'' = Some ''first''"
    "nearest_version [?second, ?first] ''b'' = Some ''second''"
    by (simp_all add: nearest_version_def tasks)
  ultimately show ?thesis by auto
qed

theorem resume_returns_iff_chain_ends_witness:
  "\<nexists>fuel versions h'. run_state (resume_chain (example_wf example_store) fuel (''ns'', ''loop'') []) [] =
     (Inr versions, h')"
proof -
  have "\<not> resumes example_store runID runs" if "snd runID = ''loop''" for runID runs
  proof
    assume "resumes example_store runID runs"
    then show False using that
      by (induction rule: resumes.induct) (auto simp: example_store_def resumed_run_def)
  qed
  then show ?thesis
    using resume_returns_iff_chain_ends [of "example_wf example_store" example_store "(''ns'', ''loop'')" "[]"]
    by auto
qed

end
