(* ===== verification/Workflow_Actor.thy ===== *)
theory Workflow_Actor
  imports Workflow_Inputs Pipeline_Run
begin

text \<open>
  The actors of the pipeline-run plugin (\<^verbatim>\<open>go/components/pipelinerun/actors\<close>): the source
  pipeline, the image build, and the execution of the workflow with its retry, its
  termination and the progress of its tasks; and the plugin that lists them
  (\<^verbatim>\<open>plugin/plugin.go\<close>).
\<close>

section \<open>Progress of the tasks\<close>

definition structFromMap :: "wf_env \<Rightarrow> json \<Rightarrow> (string \<times> json) list option" where
  "structFromMap W m =
     (case we_marshal W m of None \<Rightarrow> None | Some b \<Rightarrow> we_parse_struct W b)"

text \<open>The input of a task, when it is a JSON object or null.\<close>

definition task_input :: "wf_env \<Rightarrow> string \<Rightarrow> (string \<times> json) list option" where
  "task_input W inp =
     (if inp = '''' then None
      else case we_unmarshal W inp of
        Some (JObject kvs) \<Rightarrow> structFromMap W (JObject kvs)
      | Some JNull \<Rightarrow> structFromMap W JNull
      | _ \<Rightarrow> None)"

definition task_state :: "string \<Rightarrow> step_state" where
  "task_state s =
     (if s = ''RUNNING'' then Step_RUNNING
      else if s = ''SUCCEEDED'' then Step_SUCCEEDED
      else if s = ''FAILED'' then Step_FAILED
      else if s = ''KILLED'' then Step_KILLED
      else if s = ''SKIPPED'' then Step_SKIPPED
      else Step_PENDING)"

definition attempt_resource_name :: "string \<Rightarrow> string" where
  "attempt_resource_name attempt =
     (if attempt \<noteq> ''0'' then ''Retry-Attempt'' else ''Attempt'') @ attempt @ ''-DriverURL''"

definition getStepInfoFromTaskProgress :: "wf_env \<Rightarrow> task_progress \<Rightarrow> string \<Rightarrow> leaf_step" where
  "getStepInfoFromTaskProgress W tp namespace =
     \<lparr>si_name = tp_task_path tp, si_display_name = tp_task_name tp,
      si_state = task_state (tp_task_state tp),
      si_start_time = (if tp_start_time tp = '''' then None else we_parse_time W (tp_start_time tp)),
      si_end_time = (if tp_end_time tp = '''' then None else we_parse_time W (tp_end_time tp)),
      si_message = (if task_state (tp_task_state tp) \<in> {Step_FAILED, Step_KILLED}
                    then tp_task_message tp else ''''),
      si_log_url = tp_task_log tp, si_activity_id = tp_first_activity_id tp,
      si_input = task_input W (tp_input tp), si_output = None,
      si_cached_outputs = (if tp_output tp = '''' then None else Some [(namespace, tp_output tp)]),
      si_resources = (if tp_retry_attempt_id tp = '''' then []
        else [(attempt_resource_name (tp_retry_attempt_id tp), tp_task_log tp)]),
      si_attempt_ids = (if tp_retry_attempt_id tp = '''' then [] else [tp_retry_attempt_id tp])\<rparr>"

text \<open>\<^verbatim>\<open>maxStepOutputBytes\<close>, and the two ways cached content is read.\<close>

definition maxStepOutputBytes :: nat where "maxStepOutputBytes = 64 * 1024"

definition step_output :: "wf_env \<Rightarrow> string \<Rightarrow> (string \<times> json) list option" where
  "step_output W content =
     (let data = take maxStepOutputBytes content in
      case we_parse_struct W data of
        Some s \<Rightarrow> Some s
      | None \<Rightarrow> we_parse_struct W (''{\"result\":'' @ data @ ''}''))"

definition enrichStepOutput :: "wf_env \<Rightarrow> string \<Rightarrow> task_progress \<Rightarrow> leaf_step \<Rightarrow> leaf_step pr_io" where
  "enrichStepOutput W namespace tp step =
     (if tp_output tp = '''' then State_Monad.return step
      else do {
        got \<leftarrow> ask (\<lambda>h. we_get_cached W h namespace (tp_output tp))
          (\<lambda>_. EvGetCachedOutput namespace (tp_output tp));
        (case got of
           Inl err \<Rightarrow> State_Monad.return step
         | Inr co \<Rightarrow>
             if \<not> co_is_variable co then State_Monad.return step
             else if co_storage_uri co = '''' then State_Monad.return step
             else do {
               content \<leftarrow> ask (\<lambda>h. we_blob W h (co_storage_uri co)) (\<lambda>_. EvBlobGet (co_storage_uri co));
               State_Monad.return (case content of
                   Inl err \<Rightarrow> step
                 | Inr data \<Rightarrow>
                     (case step_output W data of
                        None \<Rightarrow> step
                      | Some s \<Rightarrow> step\<lparr>si_output := Some s\<rparr>))
             })
      })"

text \<open>Two reports of one task. The newest attempt replaces or extends the list of attempts.\<close>

definition attemptIDAlreadyExists :: "leaf_step \<Rightarrow> leaf_step \<Rightarrow> bool" where
  "attemptIDAlreadyExists old new \<longleftrightarrow>
     si_attempt_ids new \<noteq> [] \<and> si_attempt_ids old \<noteq> [] \<and>
     hd (si_attempt_ids new) = last (si_attempt_ids old)"

definition merged_resources :: "leaf_step \<Rightarrow> leaf_step \<Rightarrow> (string \<times> string) list" where
  "merged_resources old new =
     (if attemptIDAlreadyExists old new then
        (if si_resources old \<noteq> [] \<and> si_resources new \<noteq> []
         then (si_resources old)[length (si_resources old) - 1 := hd (si_resources new)]
         else si_resources old)
      else si_resources old @ si_resources new)"

definition mergePipelineRunStepInfo :: "leaf_step \<Rightarrow> leaf_step \<Rightarrow> leaf_step" where
  "mergePipelineRunStepInfo old new =
     new\<lparr>si_attempt_ids := (if attemptIDAlreadyExists old new then si_attempt_ids old
                           else si_attempt_ids old @ si_attempt_ids new),
         si_resources := merged_resources old new,
         si_activity_id := (if si_activity_id old \<noteq> '''' then si_activity_id old
                            else si_activity_id new),
         si_message := (if si_state old = Step_FAILED \<and> si_state new = Step_PENDING
                        then ''Retrying task (previous failure: '' @ si_message old @ '')''
                        else si_message new)\<rparr>"

text \<open>The step map with its order, as a list of tasks in the order they were first seen.\<close>

fun put_step :: "string \<Rightarrow> leaf_step \<Rightarrow> (string \<times> leaf_step) list \<Rightarrow> (string \<times> leaf_step) list" where
  "put_step task step [] = [(task, step)]"
| "put_step task step ((t, s) # steps) =
     (if t = task then (t, mergePipelineRunStepInfo s step) # steps
      else (t, s) # put_step task step steps)"

fun progress_loop ::
    "wf_env \<Rightarrow> string \<Rightarrow> string list \<Rightarrow> (string \<times> leaf_step) list \<Rightarrow> ((string \<times> leaf_step) list) pr_io" where
  "progress_loop W namespace [] steps = State_Monad.return steps"
| "progress_loop W namespace (progress # rest) steps =
     (case we_parse_progress W progress of
        None \<Rightarrow> progress_loop W namespace rest steps
      | Some tp \<Rightarrow>
          if tp_task_name tp = '''' then progress_loop W namespace rest steps
          else do {
            step \<leftarrow> enrichStepOutput W namespace tp (getStepInfoFromTaskProgress W tp namespace);
            progress_loop W namespace rest (put_step (tp_task_name tp) step steps)
          })"

definition constructPipelineRunStepInfo :: "wf_env \<Rightarrow> pipeline_run \<Rightarrow> (pr_event, leaf_step list) exc_io" where
  "constructPipelineRunStepInfo W run =
     (let wid = st_workflow_id (pr_status run); rid = st_workflow_run_id (pr_status run) in
      and_then (call (\<lambda>h. we_query W h wid rid) (EvQuery wid rid))
        (\<lambda>progress. do {
           steps \<leftarrow> progress_loop W (om_namespace run) progress [];
           State_Monad.return (Inr (map snd steps))
         }))"

section \<open>Manual retry\<close>

definition scheduled_event_id :: "wf_env \<Rightarrow> history_event list \<Rightarrow> string \<Rightarrow> int" where
  "scheduled_event_id W events activity =
     (case find (\<lambda>e. he_type e = we_scheduled_type W \<and> he_activity e = Some activity) events of
        None \<Rightarrow> 0
      | Some e \<Rightarrow> he_id e)"

definition reset_event_id :: "wf_env \<Rightarrow> history_event list \<Rightarrow> int \<Rightarrow> int" where
  "reset_event_id W events scheduled =
     (case find (\<lambda>e. he_id e < scheduled \<and>
              (he_type e = we_completed_type W \<or> he_type e = we_decision_type W)) (rev events) of
        None \<Rightarrow> 0
      | Some e \<Rightarrow> he_id e)"

definition find_reset_event :: "wf_env \<Rightarrow> history_event list \<Rightarrow> string \<Rightarrow> stop + int" where
  "find_reset_event W events activity =
     (let scheduled = scheduled_event_id W events activity in
      if scheduled = 0 then Inl (Failing (OtherError ''no scheduled event''))
      else let reset = reset_event_id W events scheduled in
        if reset = 0 then Inl (Failing (OtherError ''no safe reset boundary''))
        else Inr reset)"

definition findTaskResetEventIDByActivityID ::
    "wf_env \<Rightarrow> string \<Rightarrow> string \<Rightarrow> string \<Rightarrow> (pr_event, int) exc_io" where
  "findTaskResetEventIDByActivityID W workflowID runID activity =
     and_then (call (\<lambda>h. we_history W h workflowID runID) (EvHistory workflowID runID))
       (\<lambda>events. State_Monad.return (find_reset_event W events activity))"

text \<open>The condition under which a retry is processed, and what it does to the step.\<close>

definition retry_requested :: "pipeline_run \<Rightarrow> retry_info option" where
  "retry_requested run =
     (case sp_retry (pr_spec run) of
        None \<Rightarrow> None
      | Some ri \<Rightarrow>
          if ri_activity_id ri \<noteq> '''' \<and> ri_workflow_run_id ri \<noteq> '''' \<and>
             ri_workflow_run_id ri = st_workflow_run_id (pr_status run)
          then Some ri else None)"

definition retry_step :: "string \<Rightarrow> step_info \<Rightarrow> step_info" where
  "retry_step activity step =
     (let attempt = (decimal (length (si_attempt_details step) + 1), attempt_step.truncate step);
          step1 = step\<lparr>si_attempt_details := si_attempt_details step @ [attempt]\<rparr>
      in if si_state step1 \<in> {Step_SUCCEEDED, Step_FAILED, Step_KILLED}
         then step1\<lparr>si_state := Step_RUNNING, si_message := ''Retry started for activity: '' @ activity\<rparr>
         else step1)"

definition processManualRetrySpec :: "wf_env \<Rightarrow> pipeline_run \<Rightarrow> (pr_event, pipeline_run) exc_io" where
  "processManualRetrySpec W run =
     (case retry_requested run of
        None \<Rightarrow> State_Monad.return (Inr run)
      | Some ri \<Rightarrow>
          (let wid = st_workflow_id (pr_status run); rid = st_workflow_run_id (pr_status run) in
           and_then (findTaskResetEventIDByActivityID W wid rid (ri_activity_id ri)) (\<lambda>eventID.
           and_then (do {
               got \<leftarrow> ask (\<lambda>h. we_reset W h (ResetRequest wid rid eventID))
                 (\<lambda>got. EvReset (ResetRequest wid rid eventID) (case got of Inl e \<Rightarrow> Some e | Inr _ \<Rightarrow> None));
               State_Monad.return (map_sum Failing id got)
             }) (\<lambda>newRunID.
           State_Monad.return (Inr
             (update_step ExecuteWorkflowStepName (retry_step (ri_activity_id ri))
               (run\<lparr>pr_spec := (pr_spec run)\<lparr>sp_kill := False\<rparr>,
                    pr_status := (pr_status run)\<lparr>st_state := Run_RUNNING,
                      st_workflow_run_id := newRunID\<rparr>\<rparr>)))))))"

section \<open>Starting the workflow\<close>

definition getTaskList :: "wf_env \<Rightarrow> obj_meta \<Rightarrow> api_error + string" where
  "getTaskList W project =
     (let workerQueue = map_index (om_annotations project) ''michelangelo/worker_queue'' in
      if workerQueue \<noteq> '''' then Inr workerQueue
      else map_sum id wc_task_list (we_config W))"

definition uniflow_tar :: "pipeline_run \<Rightarrow> string" where
  "uniflow_tar run =
     (case source_pipeline run of
        None \<Rightarrow> ''''
      | Some pl \<Rightarrow> (case pl_manifest (pl_spec pl) of None \<Rightarrow> '''' | Some mf \<Rightarrow> mf_uniflow_tar mf))"

definition StartWorkflow :: "wf_env \<Rightarrow> pipeline_run \<Rightarrow> string \<Rightarrow> (pr_event, string \<times> string) exc_io" where
  "StartWorkflow W run taskList =
     and_then (State_Monad.return (of_outcome (getWorkflowInputs W run))) (\<lambda>(args, kwArgs, envs).
     and_then (addTaskCacheEnv W run envs) (\<lambda>envs.
     and_then (call (\<lambda>h. we_blob W h (uniflow_tar run)) (EvBlobGet (uniflow_tar run))) (\<lambda>tarContent.
     call (\<lambda>h. we_start W h (om_name run) taskList)
       (EvStartWorkflow (om_name run) taskList args kwArgs envs))))"

text \<open>The project of the run's namespace names the worker queue.\<close>

definition start_workflow :: "wf_env \<Rightarrow> pipeline_run \<Rightarrow> (pr_event, string \<times> string) exc_io" where
  "start_workflow W run =
     and_then (call (\<lambda>h. we_get_project W h (om_namespace run)) (EvGetProject (om_namespace run)))
       (\<lambda>project.
          case getTaskList W project of
            Inl err \<Rightarrow> State_Monad.return (Inl (Failing err))
          | Inr taskList \<Rightarrow>
              if taskList = '''' then
                State_Monad.return (Inl (Failing (OtherError ''WorkflowClient TaskList is empty'')))
              else StartWorkflow W run taskList)"

section \<open>Ending the workflow\<close>

definition processJobTermination :: "wf_env \<Rightarrow> pipeline_run \<Rightarrow> (pr_event, bool) exc_io" where
  "processJobTermination W run =
     (let wid = st_workflow_id (pr_status run); rid = st_workflow_run_id (pr_status run) in
      if wid \<noteq> '''' \<and> rid \<noteq> '''' then do {
        got \<leftarrow> ask (\<lambda>h. we_exec_info W h wid rid) (\<lambda>_. EvExecInfo wid rid);
        (case got of
           Inl err \<Rightarrow> State_Monad.return (Inr False)
         | Inr ex \<Rightarrow>
             if ei_status ex \<noteq> WF_Completed \<and> ei_status ex \<noteq> WF_Terminated then do {
               err \<leftarrow> ask (\<lambda>h. we_cancel W h wid rid) (EvCancel wid rid);
               State_Monad.return (case err of Some e \<Rightarrow> Inl (Failing e) | None \<Rightarrow> Inr True)
             }
             else State_Monad.return (Inr False))
      }
      else State_Monad.return (Inr False))"

definition end_substep :: "int \<Rightarrow> step_state \<Rightarrow> string \<Rightarrow> leaf_step \<Rightarrow> leaf_step" where
  "end_substep now terminalState message substep =
     (let ended = (case si_end_time substep of None \<Rightarrow> Some now | Some t \<Rightarrow> Some t) in
      case si_state substep of
        Step_PENDING \<Rightarrow>
          substep\<lparr>si_state := Step_INVALID, si_message := ''Workflow ended before step could start'',
                  si_end_time := ended\<rparr>
      | Step_RUNNING \<Rightarrow>
          substep\<lparr>si_state := terminalState, si_message := message, si_end_time := ended\<rparr>
      | _ \<Rightarrow> substep)"

definition propagateTerminalStateToSubsteps ::
    "int \<Rightarrow> step_state \<Rightarrow> string \<Rightarrow> step_info \<Rightarrow> step_info" where
  "propagateTerminalStateToSubsteps now terminalState message step =
     step\<lparr>si_sub_steps := map (end_substep now terminalState message) (si_sub_steps step)\<rparr>"

definition end_step :: "int \<Rightarrow> step_state \<Rightarrow> step_info \<Rightarrow> step_info" where
  "end_step now state step = step\<lparr>si_state := state, si_end_time := Some now\<rparr>"

definition kill_step :: "int \<Rightarrow> step_info \<Rightarrow> step_info" where
  "kill_step now step =
     propagateTerminalStateToSubsteps now Step_KILLED KillReason (end_step now Step_KILLED step)"

definition kill_condition :: condition where
  "kill_condition = (mk_condition ExecuteWorkflowType CS_FALSE)\<lparr>c_reason := KillReason\<rparr>"

section \<open>Execution\<close>

type_synonym actor_result = "(stop + condition) \<times> pipeline_run"

definition GetWorkflowUrl :: "wf_env \<Rightarrow> string \<Rightarrow> string outcome" where
  "GetWorkflowUrl W name =
     (case we_config W of
        Inl err \<Rightarrow> Returned ''''
      | Inr config \<Rightarrow>
          if wc_execution_url_format config = '''' \<or> wc_domain config = '''' then Returned ''''
          else (case we_render W (wc_execution_url_format config) (wc_domain config) name of
                  None \<Rightarrow> Panicked
                | Some url \<Rightarrow> Returned url))"

text \<open>The step, added when the run has none.\<close>

definition ensure_execute_step ::
    "wf_env \<Rightarrow> int \<Rightarrow> pipeline_run \<Rightarrow> (step_info \<times> pipeline_run) outcome" where
  "ensure_execute_step W now run =
     (case GetStep run ExecuteWorkflowStepName of
        Some step \<Rightarrow> Returned (step, run)
      | None \<Rightarrow>
          (case GetWorkflowUrl W (om_name run) of
             Panicked \<Rightarrow> Panicked
           | Returned url \<Rightarrow>
               (let step = pending_step ExecuteWorkflowStepName now url in
                Returned (step, set_steps (st_steps (pr_status run) @ [step]) run))))"

text \<open>The workflow's status and the progress of its tasks, and what they make of the step.\<close>

definition observe_workflow ::
    "wf_env \<Rightarrow> pipeline_run \<Rightarrow> (pr_event, workflow_status \<times> leaf_step list) exc_io" where
  "observe_workflow W run =
     (let wid = st_workflow_id (pr_status run); rid = st_workflow_run_id (pr_status run) in
      and_then (call (\<lambda>h. we_exec_info W h wid rid) (EvExecInfo wid rid)) (\<lambda>ex.
      and_then (constructPipelineRunStepInfo W run) (\<lambda>taskSteps.
      State_Monad.return (Inr (ei_status ex, taskSteps)))))"

definition set_task_steps :: "leaf_step list \<Rightarrow> step_info \<Rightarrow> step_info" where
  "set_task_steps taskSteps step =
     (if taskSteps \<noteq> [] then step\<lparr>si_sub_steps := taskSteps\<rparr> else step)"

fun observed_step :: "int \<Rightarrow> workflow_status \<Rightarrow> step_info \<Rightarrow> step_info" where
  "observed_step now WF_Running step = step\<lparr>si_state := Step_RUNNING\<rparr>"
| "observed_step now WF_Completed step = end_step now Step_SUCCEEDED step"
| "observed_step now WF_Failed step =
     propagateTerminalStateToSubsteps now Step_FAILED ''Failed due to workflow failure''
       (end_step now Step_FAILED step)"
| "observed_step now WF_TimedOut step =
     propagateTerminalStateToSubsteps now Step_FAILED ''Failed due to workflow failure''
       (end_step now Step_FAILED step)"
| "observed_step now WF_Canceled step = kill_step now step"
| "observed_step now WF_Terminated step = kill_step now step"
| "observed_step now WF_ContinuedAsNew step = step"
| "observed_step now WF_UnSpecified step = step"

fun observed_condition :: "workflow_status \<Rightarrow> condition" where
  "observed_condition WF_Completed = mk_condition ExecuteWorkflowType CS_TRUE"
| "observed_condition WF_Failed = mk_condition ExecuteWorkflowType CS_FALSE"
| "observed_condition WF_TimedOut = mk_condition ExecuteWorkflowType CS_FALSE"
| "observed_condition WF_Canceled = kill_condition"
| "observed_condition WF_Terminated = kill_condition"
| "observed_condition _ = mk_condition ExecuteWorkflowType CS_UNKNOWN"

definition started_step :: "int \<Rightarrow> step_info \<Rightarrow> step_info" where
  "started_step now step =
     step\<lparr>si_state := Step_RUNNING, si_start_time := Some now, si_end_time := None\<rparr>"

definition start_or_observe :: "wf_env \<Rightarrow> pipeline_run \<Rightarrow> actor_result pr_io" where
  "start_or_observe W run =
     (if st_workflow_run_id (pr_status run) = '''' \<or> st_workflow_id (pr_status run) = '''' then do {
        started \<leftarrow> start_workflow W run;
        (case started of
           Inl e \<Rightarrow> State_Monad.return (Inl e, run)
         | Inr (wid, rid) \<Rightarrow> do {
             now \<leftarrow> peek (we_now W);
             let run1 = update_step ExecuteWorkflowStepName (started_step now) run;
             State_Monad.return (Inr (mk_condition ExecuteWorkflowType CS_UNKNOWN),
               run1\<lparr>pr_status := (pr_status run1)\<lparr>st_workflow_run_id := rid, st_workflow_id := wid\<rparr>\<rparr>)
           })
      }
      else do {
        observed \<leftarrow> observe_workflow W run;
        (case observed of
           Inl e \<Rightarrow> State_Monad.return (Inl e, run)
         | Inr (status, taskSteps) \<Rightarrow> do {
             now \<leftarrow> peek (we_now W);
             State_Monad.return (Inr (observed_condition status),
               update_step ExecuteWorkflowStepName
                 (\<lambda>step. observed_step now status (set_task_steps taskSteps step)) run)
           })
      })"

definition execute_step :: "wf_env \<Rightarrow> step_info \<Rightarrow> pipeline_run \<Rightarrow> actor_result pr_io" where
  "execute_step W step run =
     (if si_state step = Step_KILLED then State_Monad.return (Inr kill_condition, run)
      else if si_state step = Step_FAILED then
        State_Monad.return (Inr (mk_condition ExecuteWorkflowType CS_FALSE), run)
      else if sp_kill (pr_spec run) then do {
        terminated \<leftarrow> processJobTermination W run;
        (case terminated of
           Inl e \<Rightarrow> State_Monad.return (Inl e, run)
         | Inr True \<Rightarrow> do {
             now \<leftarrow> peek (we_now W);
             State_Monad.return (Inr kill_condition,
               update_step ExecuteWorkflowStepName (kill_step now) run)
           }
         | Inr False \<Rightarrow> start_or_observe W run)
      }
      else start_or_observe W run)"

definition ExecuteWorkflow_Run :: "wf_env \<Rightarrow> pipeline_run \<Rightarrow> condition \<Rightarrow> actor_result pr_io" where
  "ExecuteWorkflow_Run W run previous = do {
     retried \<leftarrow> processManualRetrySpec W run;
     (case retried of
        Inl e \<Rightarrow> State_Monad.return (Inl e, run)
      | Inr run \<Rightarrow> do {
          now \<leftarrow> peek (we_now W);
          (case ensure_execute_step W now run of
             Panicked \<Rightarrow> State_Monad.return (Inl Panics, run)
           | Returned (step, run) \<Rightarrow> execute_step W step run)
        })
   }"

text \<open>\<^verbatim>\<open>Retrieve\<close> only reads: a step that succeeded is TRUE unless a retry is requested, anything
  else FALSE.\<close>

definition ExecuteWorkflow_Retrieve ::
    "wf_env \<Rightarrow> pipeline_run \<Rightarrow> condition \<Rightarrow> actor_result pr_io" where
  "ExecuteWorkflow_Retrieve W run previous =
     State_Monad.return
       (if retry_requested run \<noteq> None then (Inr (mk_condition ExecuteWorkflowType CS_FALSE), run)
        else case GetStep run ExecuteWorkflowStepName of
          None \<Rightarrow> (Inr (mk_condition ExecuteWorkflowType CS_FALSE), run)
        | Some step \<Rightarrow>
            if si_state step = Step_SUCCEEDED then (Inr (mk_condition ExecuteWorkflowType CS_TRUE), run)
            else (Inr (mk_condition ExecuteWorkflowType CS_FALSE), run))"

section \<open>Source pipeline\<close>

definition SourcePipeline_Retrieve ::
    "wf_env \<Rightarrow> pipeline_run \<Rightarrow> condition \<Rightarrow> actor_result pr_io" where
  "SourcePipeline_Retrieve W run previous =
     (if source_pipeline run \<noteq> None then
        State_Monad.return (Inr (mk_condition SourcePipelineType CS_TRUE), run)
      else if sp_pipeline_spec (pr_spec run) \<noteq> None then
        State_Monad.return (Inr (mk_condition SourcePipelineType CS_FALSE), run)
      else case sp_pipeline (pr_spec run) of
        None \<Rightarrow> State_Monad.return
          (Inr ((mk_condition SourcePipelineType CS_FALSE)\<lparr>c_reason := ''Missing pipeline reference''\<rparr>), run)
      | Some (refns, refname) \<Rightarrow> do {
          got \<leftarrow> ask (\<lambda>h. we_get_pipeline W h (om_namespace run) refname)
            (\<lambda>_. EvGetPipeline (om_namespace run) refname);
          State_Monad.return (case got of
              Inl err \<Rightarrow>
                (Inr ((mk_condition SourcePipelineType CS_FALSE)
                   \<lparr>c_reason := ''Pipeline not found'', c_message := we_error_text W err\<rparr>), run)
            | Inr pipeline \<Rightarrow> (Inr (mk_condition SourcePipelineType CS_FALSE), run))
        })"

text \<open>A dev run's pipeline is made of the inline specification and the run's annotations.\<close>

definition createPipelineFromSpec :: "pipeline_spec \<Rightarrow> pipeline_run \<Rightarrow> pipeline" where
  "createPipelineFromSpec spec run =
     \<lparr>om_namespace = om_namespace run, om_name = ''devrun-'' @ om_name run, om_uid = '''',
      om_generation = 0, om_creation_ts = None, om_deletion_ts = None, om_labels = None,
      om_annotations = Some (case om_annotations run of None \<Rightarrow> Map.empty | Some annotations \<Rightarrow> annotations),
      om_finalizers = [], om_owner_refs = [], pl_spec = spec\<rparr>"

definition bare_pipeline :: "pipeline \<Rightarrow> pipeline" where
  "bare_pipeline pl =
     \<lparr>om_namespace = om_namespace pl, om_name = om_name pl, om_uid = '''', om_generation = 0,
      om_creation_ts = None, om_deletion_ts = None, om_labels = om_labels pl,
      om_annotations = om_annotations pl, om_finalizers = [], om_owner_refs = [], pl_spec = pl_spec pl\<rparr>"

definition set_source_pipeline :: "pipeline \<Rightarrow> pipeline_run \<Rightarrow> pipeline_run" where
  "set_source_pipeline pl run =
     run\<lparr>pr_status := (pr_status run)\<lparr>st_source_pipeline := Some (Some pl)\<rparr>\<rparr>"

text \<open>The step \<^verbatim>\<open>Run\<close> prepares is never added to the run.\<close>

definition SourcePipeline_Run ::
    "wf_env \<Rightarrow> pipeline_run \<Rightarrow> condition \<Rightarrow> actor_result pr_io" where
  "SourcePipeline_Run W run previous =
     (case sp_pipeline_spec (pr_spec run) of
        Some spec \<Rightarrow> State_Monad.return (Inr (mk_condition SourcePipelineType CS_TRUE),
          set_source_pipeline (createPipelineFromSpec spec run) run)
      | None \<Rightarrow>
          (case sp_pipeline (pr_spec run) of
             None \<Rightarrow> State_Monad.return (Inl (Failing (OtherError ''pipeline resource ID is nil'')), run)
           | Some (refns, refname) \<Rightarrow> do {
               got \<leftarrow> ask (\<lambda>h. we_get_pipeline W h (om_namespace run) refname)
                 (\<lambda>_. EvGetPipeline (om_namespace run) refname);
               State_Monad.return (case got of
                   Inl err \<Rightarrow> (Inl (Failing err), run)
                 | Inr pl \<Rightarrow> (Inr (mk_condition SourcePipelineType CS_TRUE),
                     set_source_pipeline (bare_pipeline pl) run))
             }))"

section \<open>Image build\<close>

definition image_id :: "pipeline_run \<Rightarrow> string" where
  "image_id run =
     (case source_pipeline run of
        None \<Rightarrow> ''''
      | Some pl \<Rightarrow> map_index (om_annotations pl) ImageIDAnnotationKey)"

definition ImageBuild_Retrieve ::
    "wf_env \<Rightarrow> pipeline_run \<Rightarrow> condition \<Rightarrow> actor_result pr_io" where
  "ImageBuild_Retrieve W run previous =
     State_Monad.return
       (case map_option si_state (GetStep run ImageBuildStepName) of
          Some Step_SUCCEEDED \<Rightarrow> (Inr (mk_condition ImageBuildType CS_TRUE), run)
        | Some Step_FAILED \<Rightarrow> (Inr (mk_condition ImageBuildType CS_FALSE), run)
        | _ \<Rightarrow>
            if source_pipeline run = None then (Inr (mk_condition ImageBuildType CS_FALSE), run)
            else if image_id run = '''' then
              (Inr ((mk_condition ImageBuildType CS_FALSE)\<lparr>c_reason := ''Missing image ID'',
                 c_message := ''Source pipeline is available but missing '' @ ImageIDAnnotationKey @
                   '' annotation''\<rparr>), run)
            else (Inr (mk_condition ImageBuildType CS_FALSE), run))"

definition ensure_image_step :: "int \<Rightarrow> pipeline_run \<Rightarrow> pipeline_run" where
  "ensure_image_step now run =
     (case GetStep run ImageBuildStepName of
        Some step \<Rightarrow> run
      | None \<Rightarrow> set_steps (st_steps (pr_status run) @ [pending_step ImageBuildStepName now '''']) run)"

definition ImageBuild_Run ::
    "wf_env \<Rightarrow> pipeline_run \<Rightarrow> condition \<Rightarrow> actor_result pr_io" where
  "ImageBuild_Run W run previous = do {
     now \<leftarrow> peek (we_now W);
     let run1 = ensure_image_step now run;
     State_Monad.return
       (if source_pipeline run1 = None then (Inr previous, run1)
        else if image_id run1 = '''' then
          (Inr (mk_condition ImageBuildType CS_FALSE),
           update_step ImageBuildStepName
             (\<lambda>step. (end_step now Step_FAILED step)\<lparr>si_message :=
                ImageIDAnnotationKey @ '' not found in source pipeline annotations''\<rparr>) run1)
        else (Inr (mk_condition ImageBuildType CS_TRUE),
           update_step ImageBuildStepName
             (\<lambda>step. (end_step now Step_SUCCEEDED step)\<lparr>si_output :=
                Some [(ImageBuildOutputKey, JString (image_id run1))]\<rparr>) run1))
   }"

section \<open>The plugin\<close>

text \<open>
  An actor as the engine sees it. A panic or an endless loop is marked in the trace; the error
  answered after it stands for no behaviour of the code, which has stopped by then.
\<close>

definition answer_engine ::
    "actor_result pr_io \<Rightarrow> (pr_event list, (api_error + condition) \<times> pipeline_run) state" where
  "answer_engine m = do {
     (answer, run) \<leftarrow> m;
     (case answer of
        Inr c \<Rightarrow> State_Monad.return (Inr c, run)
      | Inl (Failing err) \<Rightarrow> State_Monad.return (Inl err, run)
      | Inl Panics \<Rightarrow> do { emit EvPanic; State_Monad.return (Inl (OtherError ''panic''), run) }
      | Inl Hangs \<Rightarrow> do { emit EvHang; State_Monad.return (Inl (OtherError ''endless loop''), run) })
   }"

definition mk_actor ::
    "string \<Rightarrow> (pipeline_run \<Rightarrow> condition \<Rightarrow> actor_result pr_io) \<Rightarrow>
     (pipeline_run \<Rightarrow> condition \<Rightarrow> actor_result pr_io) \<Rightarrow> (pr_event list, pipeline_run) actor" where
  "mk_actor t retrieve run =
     \<lparr>a_type = t, a_retrieve = (\<lambda>r c. answer_engine (retrieve r c)),
      a_run = (\<lambda>r c. answer_engine (run r c))\<rparr>"

definition NewSourcePipelineActor :: "wf_env \<Rightarrow> (pr_event list, pipeline_run) actor" where
  "NewSourcePipelineActor W =
     mk_actor SourcePipelineType (SourcePipeline_Retrieve W) (SourcePipeline_Run W)"

definition NewImageBuildActor :: "wf_env \<Rightarrow> (pr_event list, pipeline_run) actor" where
  "NewImageBuildActor W = mk_actor ImageBuildType (ImageBuild_Retrieve W) (ImageBuild_Run W)"

definition NewExecuteWorkflowActor :: "wf_env \<Rightarrow> (pr_event list, pipeline_run) actor" where
  "NewExecuteWorkflowActor W =
     mk_actor ExecuteWorkflowType (ExecuteWorkflow_Retrieve W) (ExecuteWorkflow_Run W)"

definition NewPlugin :: "wf_env \<Rightarrow> (pr_event list, pipeline_run) plugin" where
  "NewPlugin W =
     \<lparr>p_actors = [NewSourcePipelineActor W, NewImageBuildActor W, NewExecuteWorkflowActor W],
      p_get_conditions = run_GetConditions, p_put_condition = run_PutCondition\<rparr>"

section \<open>The actors are quiet\<close>

text \<open>
  What the actors call: they never write the run, notify or count a drain, and only the start
  of a workflow starts one.
\<close>

fun start_event :: "pr_event \<Rightarrow> bool" where
  "start_event (EvStartWorkflow i q args kw envs) \<longleftrightarrow> True"
| "start_event _ \<longleftrightarrow> False"

definition reads :: "pr_event \<Rightarrow> bool" where
  "reads e \<longleftrightarrow> \<not> controller_event e \<and> \<not> start_event e"

lemma reads_simps [simp]:
  "reads (EvGetRun a b)" "reads (EvGetPipeline a b)" "reads (EvGetProject a)"
  "reads (EvGetCachedOutput a b)" "reads (EvExecInfo a b)" "reads (EvCancel a b r)"
  "reads (EvHistory a b)" "reads (EvReset q r)" "reads (EvQuery a b)" "reads (EvBlobGet a)"
  "reads EvPanic" "reads EvHang"
  by (simp_all add: reads_def)

lemma emits_case_outcome [intro]:
  "(\<And>x. r = Returned x \<Longrightarrow> emits P (f x)) \<Longrightarrow> emits P m \<Longrightarrow>
   emits P (case r of Returned x \<Rightarrow> f x | Panicked \<Rightarrow> m)"
  by (cases r) auto

lemma reads_resume_chain: "emits reads (resume_chain W n runID versions)"
proof (induction n arbitrary: runID versions)
  case 0
  then show ?case by simp
next
  case (Suc n)
  then show ?case by (auto intro!: emits_and_then emits_call split: option.splits outcome.splits)
qed

lemma reads_addTaskCacheEnv: "emits reads (addTaskCacheEnv W run envs)"
  unfolding addTaskCacheEnv_def Let_def
  by (auto intro!: emits_and_then reads_resume_chain split: option.splits)

lemma reads_enrich: "emits reads (enrichStepOutput W ns tp step)"
  unfolding enrichStepOutput_def
  by (auto intro!: emits_bind emits_ask split: sum.splits)

lemma reads_progress_loop: "emits reads (progress_loop W ns progress steps)"
  by (induction W ns progress steps rule: progress_loop.induct)
    (auto intro!: emits_bind reads_enrich split: option.splits)

lemma reads_construct: "emits reads (constructPipelineRunStepInfo W run)"
  unfolding constructPipelineRunStepInfo_def Let_def
  by (auto intro!: emits_and_then emits_bind emits_call reads_progress_loop)

lemma reads_observe: "emits reads (observe_workflow W run)"
  unfolding observe_workflow_def Let_def
  by (auto intro!: emits_and_then emits_call reads_construct)

lemma reads_retry: "emits reads (processManualRetrySpec W run)"
  unfolding processManualRetrySpec_def Let_def findTaskResetEventIDByActivityID_def
  by (auto intro!: emits_and_then emits_bind emits_ask emits_call split: option.splits)

lemma reads_terminate: "emits reads (processJobTermination W run)"
  unfolding processJobTermination_def Let_def
  by (auto intro!: emits_bind emits_ask split: sum.splits)

lemma reads_SourcePipeline: "emits reads (SourcePipeline_Retrieve W run c)"
    "emits reads (SourcePipeline_Run W run c)"
  unfolding SourcePipeline_Retrieve_def SourcePipeline_Run_def
  by (auto intro!: emits_bind emits_ask split: option.splits)

lemma reads_ImageBuild: "emits reads (ImageBuild_Retrieve W run c)"
    "emits reads (ImageBuild_Run W run c)"
  unfolding ImageBuild_Retrieve_def ImageBuild_Run_def Let_def
  by (auto intro!: emits_bind)

lemma reads_ExecuteWorkflow_Retrieve: "emits reads (ExecuteWorkflow_Retrieve W run c)"
  by (simp add: ExecuteWorkflow_Retrieve_def)

lemma emits_start_workflow:
  assumes "\<And>e. reads e \<Longrightarrow> P e" "\<And>i q a k v. P (EvStartWorkflow i q a k v)"
  shows "emits P (start_workflow W run)"
proof -
  note read = emits_mono [OF _ assms(1)]
  show ?thesis
    unfolding start_workflow_def StartWorkflow_def
    by (auto intro!: emits_and_then emits_call read [OF reads_addTaskCacheEnv] assms split: sum.splits)
qed

lemma emits_ExecuteWorkflow_Run:
  assumes "\<And>e. reads e \<Longrightarrow> P e" "\<And>i q a k v. P (EvStartWorkflow i q a k v)"
  shows "emits P (ExecuteWorkflow_Run W run c)"
proof -
  note read = emits_mono [OF _ assms(1)]
  have "emits P (start_or_observe W r)" for r
    unfolding start_or_observe_def Let_def
    by (auto intro!: emits_bind emits_start_workflow assms read [OF reads_observe] split: sum.splits)
  then have "emits P (execute_step W s r)" for s r
    unfolding execute_step_def
    by (auto intro!: emits_bind read [OF reads_terminate] split: sum.splits bool.splits)
  then show ?thesis
    unfolding ExecuteWorkflow_Run_def
    by (auto intro!: emits_bind read [OF reads_retry] split: sum.splits outcome.splits)
qed

lemma emits_answer_engine:
  "emits P m \<Longrightarrow> P EvPanic \<Longrightarrow> P EvHang \<Longrightarrow> emits P (answer_engine m)"
  unfolding answer_engine_def
  by (auto intro!: emits_bind emits_emit split: prod.splits sum.splits stop.splits)

section \<open>What an actor may change\<close>

text \<open>
  An actor keeps the metadata and the stored conditions of the run, and answers with a
  condition of its own type.
\<close>

definition keeps_run :: "pipeline_run \<Rightarrow> pipeline_run \<Rightarrow> bool" where
  "keeps_run run run' \<longleftrightarrow> meta_of run' = meta_of run \<and>
     run_GetConditions run' = run_GetConditions run \<and>
     sp_pipeline_spec (pr_spec run') = sp_pipeline_spec (pr_spec run)"

definition settles :: "string \<Rightarrow> pipeline_run \<Rightarrow> actor_result \<Rightarrow> bool" where
  "settles t run r \<longleftrightarrow> keeps_run run (snd r) \<and> (\<forall>c. fst r = Inr c \<longrightarrow> c_type c = t)"

lemma settlesI [intro]:
  "keeps_run run run' \<Longrightarrow> (\<And>c. answer = Inr c \<Longrightarrow> c_type c = t) \<Longrightarrow> settles t run (answer, run')"
  by (simp add: settles_def)

lemma keeps_run_refl [simp]: "keeps_run run run"
  by (simp add: keeps_run_def)

lemma keeps_run_trans: "keeps_run a b \<Longrightarrow> keeps_run b c \<Longrightarrow> keeps_run a c"
  by (simp add: keeps_run_def)

lemma keeps_run_steps [simp]: "keeps_run run (set_steps ss run)" "keeps_run run (update_step nm f run)"
  by (simp_all add: keeps_run_def run_GetConditions_def set_steps_def update_step_def
      meta_of_def obj_meta.defs)

lemma keeps_run_status:
  "st_conditions s = st_conditions (pr_status run) \<Longrightarrow> keeps_run run (run\<lparr>pr_status := s\<rparr>)"
  by (simp add: keeps_run_def run_GetConditions_def)

lemma c_type_kill [simp]: "c_type kill_condition = ExecuteWorkflowType"
  by (simp add: kill_condition_def)

lemma c_type_observed [simp]: "c_type (observed_condition s) = ExecuteWorkflowType"
  by (cases s) simp_all

lemma settles_SourcePipeline: "gives (settles SourcePipelineType run) (SourcePipeline_Retrieve W run c)"
    "gives (settles SourcePipelineType run) (SourcePipeline_Run W run c)"
  unfolding SourcePipeline_Retrieve_def SourcePipeline_Run_def set_source_pipeline_def
  by (auto intro!: gives_bind gives_return settlesI keeps_run_status split: option.splits sum.splits)

lemma ensure_image_step_keeps [simp]: "keeps_run run (ensure_image_step now run)"
  by (simp add: ensure_image_step_def split: option.splits)

lemma update_ensured_keeps [simp]: "keeps_run run (update_step nm f (ensure_image_step now run))"
  by (rule keeps_run_trans [OF ensure_image_step_keeps keeps_run_steps(2)])

lemma settles_ImageBuild:
  "gives (settles ImageBuildType run) (ImageBuild_Retrieve W run c)"
  "c_type c = ImageBuildType \<Longrightarrow> gives (settles ImageBuildType run) (ImageBuild_Run W run c)"
  unfolding ImageBuild_Retrieve_def ImageBuild_Run_def Let_def
  by (auto intro!: gives_bind gives_return settlesI split: option.splits step_state.splits)

lemma settles_ExecuteWorkflow_Retrieve:
  "gives (settles ExecuteWorkflowType run) (ExecuteWorkflow_Retrieve W run c)"
  unfolding ExecuteWorkflow_Retrieve_def
  by (auto intro!: gives_return settlesI split: option.splits)

lemma ensure_execute_step_keeps:
  "ensure_execute_step W now run = Returned (step, run') \<Longrightarrow> keeps_run run run'"
  by (auto simp: ensure_execute_step_def Let_def split: option.splits outcome.splits)

lemma processManualRetrySpec_keeps:
  assumes "run_state (processManualRetrySpec W run) h = (Inr run', h')"
  shows "keeps_run run run'"
proof (cases "retry_requested run")
  case None
  with assms show ?thesis by (simp add: processManualRetrySpec_def)
next
  case (Some ri)
  with assms obtain rid where "run' = update_step ExecuteWorkflowStepName (retry_step (ri_activity_id ri))
      (run\<lparr>pr_spec := (pr_spec run)\<lparr>sp_kill := False\<rparr>,
           pr_status := (pr_status run)\<lparr>st_state := Run_RUNNING, st_workflow_run_id := rid\<rparr>\<rparr>)"
    by (auto simp: processManualRetrySpec_def Let_def elim!: and_then_InrE)
  then show ?thesis
    by (simp add: keeps_run_def run_GetConditions_def update_step_def set_steps_def meta_of_def obj_meta.defs)
qed

lemma started_run_keeps [simp]:
  "keeps_run run ((update_step nm f run)
     \<lparr>pr_status := (pr_status (update_step nm f run))\<lparr>st_workflow_run_id := rid, st_workflow_id := wid\<rparr>\<rparr>)"
  by (rule keeps_run_trans [OF keeps_run_steps(2) keeps_run_status]) simp

lemma settles_start_or_observe: "gives (settles ExecuteWorkflowType run) (start_or_observe W run)"
  unfolding start_or_observe_def Let_def
  by (auto intro!: gives_bind gives_return settlesI split: sum.splits)

lemma settles_execute_step: "gives (settles ExecuteWorkflowType run) (execute_step W step run)"
  unfolding execute_step_def
  by (auto intro!: gives_bind gives_return settlesI settles_start_or_observe
      split: sum.splits bool.splits)

lemma settles_keeps:
  "keeps_run run run1 \<Longrightarrow> gives (settles t run1) m \<Longrightarrow> gives (settles t run) m"
  unfolding gives_def settles_def by (blast intro: keeps_run_trans)

lemma settles_ExecuteWorkflow_Run:
  "gives (settles ExecuteWorkflowType run) (ExecuteWorkflow_Run W run c)"
  unfolding ExecuteWorkflow_Run_def
proof (rule gives_bind)
  fix h retried h'
  assume retried: "run_state (processManualRetrySpec W run) h = (retried, h')"
  show "gives (settles ExecuteWorkflowType run) (case retried of
        Inl e \<Rightarrow> State_Monad.return (Inl e, run)
      | Inr run \<Rightarrow> do {
          now \<leftarrow> peek (we_now W);
          (case ensure_execute_step W now run of
             Panicked \<Rightarrow> State_Monad.return (Inl Panics, run)
           | Returned (step, run) \<Rightarrow> execute_step W step run)
        })"
  proof (cases retried)
    case (Inl e)
    then show ?thesis by (auto intro!: gives_return settlesI)
  next
    case (Inr run1)
    with retried have keeps: "keeps_run run run1" by (auto intro: processManualRetrySpec_keeps)
    then show ?thesis
      by (auto simp: Inr intro!: gives_bind gives_return settlesI settles_keeps [OF _ settles_execute_step]
          intro: keeps_run_trans dest!: ensure_execute_step_keeps split: outcome.splits)
  qed
qed

section \<open>The plugin keeps its contracts\<close>

lemma answer_engine_run:
  assumes "run_state (answer_engine m) h = ((x, run'), h')"
  obtains (answered) c where "run_state m h = ((Inr c, run'), h')" "x = Inr c"
  | (failed) err where "run_state m h = ((Inl (Failing err), run'), h')" "x = Inl err"
  | (panicked) h1 where "run_state m h = ((Inl Panics, run'), h1)" "h' = h1 @ [EvPanic]" "x = Inl (OtherError ''panic'')"
  | (hung) h1 where "run_state m h = ((Inl Hangs, run'), h1)" "h' = h1 @ [EvHang]" "x = Inl (OtherError ''endless loop'')"
proof -
  obtain a r h1 where m: "run_state m h = ((a, r), h1)" by (metis prod.exhaust)
  show thesis
  proof (cases a)
    case (Inr c)
    with assms m show thesis by (intro answered) (auto simp: answer_engine_def)
  next
    case (Inl stop)
    with assms m show thesis
      by (cases stop) (auto simp: answer_engine_def intro: failed panicked hung)
  qed
qed

lemma answer_engine_keeps:
  assumes "run_state (answer_engine m) h = ((x, run'), h')" "gives (settles t run) m"
  shows "keeps_run run run'" "x = Inr c \<Longrightarrow> c_type c = t"
  using assms(1) by (rule answer_engine_run; use givesD [OF assms(2)] in \<open>fastforce simp: settles_def\<close>)+

lemma same_meta_of: "meta_of a = meta_of b \<Longrightarrow> same_meta a b"
  by (simp add: meta_of_def same_meta_def obj_meta.defs)

lemma quiet_actor_call:
  assumes "\<And>run c. emits reads (m run c) \<or> emits (\<lambda>e. \<not> controller_event e) (m run c)"
    and "\<And>run c. gives (\<lambda>r. keeps_run run (snd r)) (m run c)"
  shows "quiet_call (\<lambda>run c. answer_engine (m run c))"
  unfolding quiet_call_def
proof (intro allI impI)
  fix run c h x run' h'
  assume run: "run_state (answer_engine (m run c)) h = ((x, run'), h')"
  from assms(1) [of run c] have "emits (\<lambda>e. \<not> controller_event e) (m run c)"
    by (auto simp: reads_def elim: emits_mono)
  then have "emits (\<lambda>e. \<not> controller_event e) (answer_engine (m run c))"
    by (rule emits_answer_engine) simp_all
  with run have "\<exists>t. h' = h @ t \<and> list_all (\<lambda>e. \<not> controller_event e) t" by (auto elim: emitsE)
  moreover from run have "keeps_run run run'"
    by (rule answer_engine_run; use givesD [OF assms(2) [of run c]] in fastforce)
  then have "same_meta run' run" by (intro same_meta_of) (simp add: keeps_run_def)
  ultimately show "same_meta run' run \<and> (\<exists>t. h' = h @ t \<and> list_all (\<lambda>e. \<not> controller_event e) t)"
    by blast
qed

lemma gives_settles_keeps: "gives (settles t run) m \<Longrightarrow> gives (\<lambda>r. keeps_run run (snd r)) m"
  by (simp add: gives_def settles_def)

lemma ImageBuild_Run_keeps: "gives (\<lambda>r. keeps_run run (snd r)) (ImageBuild_Run W run c)"
  unfolding ImageBuild_Run_def Let_def by (auto intro!: gives_bind gives_return)

lemma not_controller_start [simp]:
  "reads e \<Longrightarrow> \<not> controller_event e" "\<not> controller_event (EvStartWorkflow i q a k v)"
  by (simp_all add: reads_def)

lemmas actor_defs = NewPlugin_def NewSourcePipelineActor_def NewImageBuildActor_def
  NewExecuteWorkflowActor_def mk_actor_def

lemma NewPlugin_quiet: "quiet_plugin (NewPlugin W)"
  unfolding quiet_plugin_def actor_defs
  by (auto intro!: quiet_actor_call
      simp: reads_SourcePipeline reads_ImageBuild reads_ExecuteWorkflow_Retrieve emits_ExecuteWorkflow_Run
        ImageBuild_Run_keeps gives_settles_keeps [OF settles_SourcePipeline(1)]
        gives_settles_keeps [OF settles_SourcePipeline(2)] gives_settles_keeps [OF settles_ImageBuild(1)]
        gives_settles_keeps [OF settles_ExecuteWorkflow_Retrieve]
        gives_settles_keeps [OF settles_ExecuteWorkflow_Run])

lemma mk_actor_ok:
  assumes "\<And>run c. gives (settles t run) (retrieve run c)"
    and "\<And>run c. c_type c = t \<Longrightarrow> gives (settles t run) (run_it run c)"
  shows "actor_ok run_GetConditions (mk_actor t retrieve run_it)"
  unfolding actor_ok_def
proof (intro allI impI)
  fix r prev w c r' w'
  let ?a = "mk_actor t retrieve run_it"
  assume "run_state (a_retrieve ?a r prev) w = ((Inr c, r'), w') \<or>
      run_state (a_run ?a r prev) w = ((Inr c, r'), w')"
    and "c_type prev = a_type ?a"
  then have "keeps_run r r' \<and> c_type c = t"
    using assms(1) [of r prev] assms(2) [of prev r]
    by (auto simp: mk_actor_def dest: answer_engine_keeps)
  then show "c_type c = a_type ?a \<and> run_GetConditions r' = run_GetConditions r"
    by (simp add: keeps_run_def mk_actor_def)
qed

lemma NewPlugin_actors_ok: "\<forall>a\<in>set (p_actors (NewPlugin W)). actor_ok run_GetConditions a"
  by (auto simp: NewPlugin_def NewSourcePipelineActor_def NewImageBuildActor_def
      NewExecuteWorkflowActor_def intro!: mk_actor_ok settles_SourcePipeline settles_ImageBuild
      settles_ExecuteWorkflow_Retrieve settles_ExecuteWorkflow_Run)

section \<open>One pass of the engine over the plugin\<close>

lemma emits_runActors_retrieve:
  "(\<And>a r c. a \<in> set as \<Longrightarrow> emits P (a_retrieve a r c)) \<Longrightarrow> emits P (runActors p as True c r)"
proof (induction as arbitrary: c r)
  case Nil
  then show ?case by simp
next
  case (Cons a as)
  from Cons show ?case
    by (auto intro!: emits_bind split: prod.splits sum.splits)
qed

lemma reads_retrieve_actors:
  "a \<in> {NewImageBuildActor W, NewExecuteWorkflowActor W} \<Longrightarrow> emits reads (a_retrieve a r c)"
  unfolding actor_defs
  by (auto intro!: emits_answer_engine reads_ImageBuild reads_ExecuteWorkflow_Retrieve)

lemma reads_run_actors:
  "emits reads (a_retrieve (NewSourcePipelineActor W) r c)" "emits reads (a_run (NewSourcePipelineActor W) r c)"
  "emits reads (a_run (NewImageBuildActor W) r c)"
  unfolding actor_defs
  by (auto intro!: emits_answer_engine reads_SourcePipeline reads_ImageBuild)

lemma SourcePipeline_Retrieve_TRUE:
  assumes "run_state (a_retrieve (NewSourcePipelineActor W) run c) h = ((Inr d, run1), h1)"
  shows "run1 = run \<and> (c_status d = CS_TRUE \<longleftrightarrow> source_pipeline run \<noteq> None) \<and>
    (source_pipeline run \<noteq> None \<longrightarrow> h1 = h \<and> d = mk_condition SourcePipelineType CS_TRUE)"
  using assms
  by (auto simp: actor_defs SourcePipeline_Retrieve_def elim!: answer_engine_run
      split: if_splits option.splits prod.splits sum.splits)

lemma ImageBuild_Retrieve_TRUE:
  assumes "run_state (a_retrieve (NewImageBuildActor W) run c) h = ((Inr d, run1), h1)"
  shows "run1 = run \<and> h1 = h \<and>
    (c_status d = CS_TRUE \<longleftrightarrow> map_option si_state (GetStep run ImageBuildStepName) = Some Step_SUCCEEDED) \<and>
    (c_status d = CS_TRUE \<longrightarrow> d = mk_condition ImageBuildType CS_TRUE)"
  using assms
  by (auto simp: actor_defs ImageBuild_Retrieve_def elim!: answer_engine_run
      split: if_splits option.splits step_state.splits)

lemma SourcePipeline_Retrieve_answers:
  "source_pipeline run \<noteq> None \<Longrightarrow> run_state (a_retrieve (NewSourcePipelineActor W) run c) h =
     ((Inr (mk_condition SourcePipelineType CS_TRUE), run), h)"
  by (auto simp: actor_defs SourcePipeline_Retrieve_def answer_engine_def)

lemma ImageBuild_Retrieve_answers:
  "\<exists>d. run_state (a_retrieve (NewImageBuildActor W) run c) h = ((Inr d, run), h)"
  by (auto simp: actor_defs ImageBuild_Retrieve_def answer_engine_def split: option.splits step_state.splits)

lemma ExecuteWorkflow_Retrieve_TRUE:
  assumes "run_state (a_retrieve (NewExecuteWorkflowActor W) run c) h = ((x, run1), h1)"
  shows "run1 = run \<and> h1 = h \<and>
    x = Inr (mk_condition ExecuteWorkflowType
      (if retry_requested run = None \<and>
          map_option si_state (GetStep run ExecuteWorkflowStepName) = Some Step_SUCCEEDED
       then CS_TRUE else CS_FALSE))"
  using assms
  by (auto simp: actor_defs ExecuteWorkflow_Retrieve_def elim!: answer_engine_run
      split: if_splits option.splits)

text \<open>The run with the conditions of the first two actors stored as true, which changes nothing
  the actors read.\<close>

definition prepared_run :: "pipeline_run \<Rightarrow> pipeline_run" where
  "prepared_run run = run_PutCondition (run_PutCondition run (mk_condition SourcePipelineType CS_TRUE))
     (mk_condition ImageBuildType CS_TRUE)"

lemma put_condition_sel [simp]:
  "pr_spec (run_PutCondition run c) = pr_spec run"
  "source_pipeline (run_PutCondition run c) = source_pipeline run"
  "GetStep (run_PutCondition run c) nm = GetStep run nm"
  "retry_requested (run_PutCondition run c) = retry_requested run"
  "st_workflow_id (pr_status (run_PutCondition run c)) = st_workflow_id (pr_status run)"
  "st_workflow_run_id (pr_status (run_PutCondition run c)) = st_workflow_run_id (pr_status run)"
  "om_namespace (run_PutCondition run c) = om_namespace run"
  "om_name (run_PutCondition run c) = om_name run"
  by (simp_all add: run_PutCondition_def source_pipeline_def GetStep_def retry_requested_def
      split: option.splits)

definition image_resolved :: "pipeline_run \<Rightarrow> bool" where
  "image_resolved run \<longleftrightarrow>
     map_option si_state (GetStep run ImageBuildStepName) = Some Step_SUCCEEDED"

definition workflow_succeeded :: "pipeline_run \<Rightarrow> bool" where
  "workflow_succeeded run \<longleftrightarrow> retry_requested run = None \<and>
     map_option si_state (GetStep run ExecuteWorkflowStepName) = Some Step_SUCCEEDED"

lemma prepared_run_sel [simp]:
  "pr_spec (prepared_run run) = pr_spec run"
  "source_pipeline (prepared_run run) = source_pipeline run"
  "GetStep (prepared_run run) nm = GetStep run nm"
  "retry_requested (prepared_run run) = retry_requested run"
  "st_workflow_id (pr_status (prepared_run run)) = st_workflow_id (pr_status run)"
  "st_workflow_run_id (pr_status (prepared_run run)) = st_workflow_run_id (pr_status run)"
  "om_namespace (prepared_run run) = om_namespace run" "om_name (prepared_run run) = om_name run"
  "workflow_succeeded (prepared_run run) = workflow_succeeded run"
  by (simp_all add: prepared_run_def workflow_succeeded_def)

text \<open>An actor that only reads is skipped when its condition is true; otherwise the pass ends
  there, having only read.\<close>

lemma runActors_after:
  "run_state (runActors p as True (Some d) r) w = ((Inr c', r'), w') \<Longrightarrow> c' = Some d"
proof (induction as arbitrary: r w)
  case Nil
  then show ?case by simp
next
  case (Cons a as)
  from Cons.prems show ?case
    by (cases rule: runActors_ConsE) (auto dest: Cons.IH)
qed

lemma reading_actor_pass:
  assumes "run_state (runActors p (a # as) False None r) h = ((oc, r'), h')"
    and ret: "\<And>r c. emits reads (a_retrieve a r c)" and act: "\<And>r c. emits reads (a_run a r c)"
    and rest: "\<And>b r c. b \<in> set as \<Longrightarrow> emits reads (a_retrieve b r c)"
  obtains (early) t where "h' = h @ t" "list_all reads t" "oc \<noteq> Inr None"
      "\<And>d r1 h1. run_state (a_retrieve a r (previousCondition p a r)) h = ((Inr d, r1), h1) \<Longrightarrow>
         c_status d \<noteq> CS_TRUE"
  | (skipped) d r1 h1 where
      "run_state (a_retrieve a r (previousCondition p a r)) h = ((Inr d, r1), h1)" "c_status d = CS_TRUE"
      "run_state (runActors p as False None (p_put_condition p r1 d)) h1 = ((oc, r'), h')"
  using assms(1)
proof (cases rule: runActors_ConsE)
  case (retrieve_error e r1)
  obtain t where "h' = h @ t" "list_all reads t" by (rule emitsE [OF ret retrieve_error(1)])
  with retrieve_error show thesis by (intro early) auto
next
  case (skipped d r1 w1)
  then show thesis by (intro that(2)) auto
next
  case (run_error d r1 w1 e r2)
  obtain t1 where t1: "w1 = h @ t1" "list_all reads t1" by (rule emitsE [OF ret run_error(1)])
  obtain t2 where "h' = w1 @ t2" "list_all reads t2" by (rule emitsE [OF act run_error(4)])
  with t1 run_error show thesis by (intro early [of "t1 @ t2"]) auto
next
  case (ran d r1 w1 d' r2 w2)
  obtain t1 where t1: "w1 = h @ t1" "list_all reads t1" by (rule emitsE [OF ret ran(1)])
  obtain t2 where t2: "w2 = w1 @ t2" "list_all reads t2" by (rule emitsE [OF act ran(4)])
  obtain t3 where t3: "h' = w2 @ t3" "list_all reads t3"
    by (rule emitsE [OF emits_runActors_retrieve [OF rest] ran(5)])
  have "oc \<noteq> Inr None" using runActors_after ran(5) by fastforce
  with t1 t2 t3 ran(1,2) show thesis by (intro early [of "t1 @ t2 @ t3"]) auto
qed

lemma runPlugin_cases:
  assumes "run_state (runPlugin (NewPlugin W) run) h = ((oc, run'), h')"
  obtains (early) t where "h' = h @ t" "list_all reads t" "oc \<noteq> Inr None"
      "source_pipeline run = None \<or> \<not> image_resolved run"
  | (satisfied) "source_pipeline run \<noteq> None" "image_resolved run" "workflow_succeeded run" "h' = h"
      "oc = Inr None"
      "run' = run_PutCondition (prepared_run run) (mk_condition ExecuteWorkflowType CS_TRUE)"
  | (executed) x r2 where "source_pipeline run \<noteq> None" "image_resolved run" "\<not> workflow_succeeded run"
      "run_state (answer_engine (ExecuteWorkflow_Run W (prepared_run run)
         (mk_condition ExecuteWorkflowType CS_FALSE))) h = ((x, r2), h')"
      "case x of Inl err \<Rightarrow> oc = Inl err \<and> run' = r2 | Inr c \<Rightarrow> oc = Inr (Some c) \<and> run' = run_PutCondition r2 c"
proof -
  let ?p = "NewPlugin W"
  let ?image = "NewImageBuildActor W" and ?exec = "NewExecuteWorkflowActor W"
  have put: "p_put_condition ?p = run_PutCondition" by (simp add: NewPlugin_def)
  from assms have "run_state (runActors ?p [NewSourcePipelineActor W, ?image, ?exec] False None run) h =
      ((oc, run'), h')"
    by (simp add: runPlugin_def NewPlugin_def)
  then show thesis
  proof (rule reading_actor_pass [OF _ reads_run_actors(1,2) reads_retrieve_actors])
    fix d r1 h1
    assume skipped: "run_state (a_retrieve (NewSourcePipelineActor W) run
          (previousCondition ?p (NewSourcePipelineActor W) run)) h = ((Inr d, r1), h1)"
      "c_status d = CS_TRUE"
      "run_state (runActors ?p [?image, ?exec] False None (p_put_condition ?p r1 d)) h1 = ((oc, run'), h')"
    from SourcePipeline_Retrieve_TRUE [OF skipped(1)] skipped(2)
    have source: "source_pipeline run \<noteq> None"
      and same: "r1 = run" "h1 = h" "d = mk_condition SourcePipelineType CS_TRUE" by auto
    let ?run1 = "run_PutCondition run d"
    from skipped(3) have "run_state (runActors ?p [?image, ?exec] False None ?run1) h = ((oc, run'), h')"
      by (simp add: put same)
    then show thesis
    proof (rule reading_actor_pass [OF _ reads_retrieve_actors reads_run_actors(3) reads_retrieve_actors])
      fix d2 r2 h2
      assume skipped: "run_state (a_retrieve ?image ?run1 (previousCondition ?p ?image ?run1)) h =
          ((Inr d2, r2), h2)" "c_status d2 = CS_TRUE"
        "run_state (runActors ?p [?exec] False None (p_put_condition ?p r2 d2)) h2 = ((oc, run'), h')"
      from ImageBuild_Retrieve_TRUE [OF skipped(1)] skipped(2)
      have image: "image_resolved run"
        and same2: "r2 = ?run1" "h2 = h" "d2 = mk_condition ImageBuildType CS_TRUE"
        by (auto simp: image_resolved_def)
      from skipped(3) have "run_state (runActors ?p [?exec] False None (prepared_run run)) h = ((oc, run'), h')"
        by (simp add: put same same2 prepared_run_def)
      then show thesis
      proof (cases rule: runActors_ConsE)
        case (retrieve_error e r3)
        with ExecuteWorkflow_Retrieve_TRUE [OF retrieve_error(1)] show thesis by simp
      next
        case (skipped d3 r3 h3)
        with ExecuteWorkflow_Retrieve_TRUE [OF skipped(1)] show thesis
          by (intro satisfied) (auto simp: source image workflow_succeeded_def put split: if_splits)
      next
        case (run_error d3 r3 w3 e r4)
        with ExecuteWorkflow_Retrieve_TRUE [OF run_error(1)] show thesis
          by (intro executed [of "Inl e" r4]) (auto simp: source image workflow_succeeded_def actor_defs split: if_splits)
      next
        case (ran d3 r3 w3 d4 r4 w4)
        with ExecuteWorkflow_Retrieve_TRUE [OF ran(1)] show thesis
          by (intro executed [of "Inr d4" r4]) (auto simp: source image workflow_succeeded_def actor_defs split: if_splits)
      qed
    next
      fix t
      assume t: "h' = h @ t" "list_all reads t" "oc \<noteq> Inr None"
        and not_true: "\<And>d r1 h1. run_state (a_retrieve ?image ?run1 (previousCondition ?p ?image ?run1)) h =
            ((Inr d, r1), h1) \<Longrightarrow> c_status d \<noteq> CS_TRUE"
      have "\<not> image_resolved run"
        using not_true ImageBuild_Retrieve_answers [of W ?run1 "previousCondition ?p ?image ?run1" h]
          ImageBuild_Retrieve_TRUE [of W ?run1 "previousCondition ?p ?image ?run1" h]
        by (auto simp: image_resolved_def)
      with t show thesis by (intro early) auto
    qed auto
  next
    fix t
    assume t: "h' = h @ t" "list_all reads t" "oc \<noteq> Inr None"
      and not_true: "\<And>d r1 h1. run_state (a_retrieve (NewSourcePipelineActor W) run
          (previousCondition ?p (NewSourcePipelineActor W) run)) h = ((Inr d, r1), h1) \<Longrightarrow>
        c_status d \<noteq> CS_TRUE"
    have "source_pipeline run = None"
    proof (rule ccontr)
      assume "source_pipeline run \<noteq> None"
      from not_true [OF SourcePipeline_Retrieve_answers [OF this]] show False by simp
    qed
    with t show thesis by (intro early) auto
  qed auto
qed

section \<open>Starting a workflow\<close>

text \<open>The identity a workflow is given.\<close>

definition identified :: "pipeline_run \<Rightarrow> envs \<Rightarrow> bool" where
  "identified run envs \<longleftrightarrow> envs ''MA_NAMESPACE'' = Some (JString (om_namespace run)) \<and>
     envs ''MA_PIPELINE_RUN_NAME'' = Some (JString (om_name run))"

lemma getWorkflowInputs_identified:
  assumes "getWorkflowInputs W run = Returned (Inr (args, kwArgs, envs))"
  shows "identified run envs"
  using assms by (auto elim!: getWorkflowInputs_ReturnedE
      simp: identified_def addTaskImageToEnv_other identity_envs_def Let_def split: option.splits)

lemma addTaskCacheEnv_identified:
  assumes "run_state (addTaskCacheEnv W run envs) h = (Inr envs', h')" "identified run envs"
  shows "identified run envs'"
  using assms(2) addTaskCacheEnv_other [OF assms(1), of "''MA_NAMESPACE''"]
    addTaskCacheEnv_other [OF assms(1), of "''MA_PIPELINE_RUN_NAME''"]
  by (simp add: identified_def cache_key_def)

lemma StartWorkflow_run:
  assumes "run_state (StartWorkflow W run queue) h = (x, h')"
  obtains (unstarted) e t where "h' = h @ t" "list_all reads t" "x = Inl e"
  | (started) t args kwArgs envs where
      "h' = h @ t @ [EvStartWorkflow (om_name run) queue args kwArgs envs]" "list_all reads t"
      "identified run envs" "x = map_sum Failing id (we_start W (h @ t) (om_name run) queue)"
proof -
  from assms show thesis
    unfolding StartWorkflow_def
  proof (cases rule: and_then_run)
    case (stopped e)
    then show thesis by (intro unstarted [of "[]"]) auto
  next
    case (went_on y h1)
    then obtain args kwArgs envs where y: "y = (args, kwArgs, envs)" "h1 = h"
      and inputs: "getWorkflowInputs W run = Returned (Inr (args, kwArgs, envs))"
      by (cases "getWorkflowInputs W run"; cases y) (auto simp: of_outcome_def map_sum_def split: sum.splits)
    from went_on(2) y have "run_state (and_then (addTaskCacheEnv W run envs) (\<lambda>envs.
        and_then (call (\<lambda>h. we_blob W h (uniflow_tar run)) (EvBlobGet (uniflow_tar run))) (\<lambda>tarContent.
        call (\<lambda>h. we_start W h (om_name run) queue)
          (EvStartWorkflow (om_name run) queue args kwArgs envs)))) h = (x, h')" by simp
    then show thesis
    proof (cases rule: and_then_run)
      case (stopped e)
      then show thesis using emitsE [OF reads_addTaskCacheEnv stopped(1)] unstarted by metis
    next
      case (went_on envs' h2)
      obtain t where t: "h2 = h @ t" "list_all reads t"
        by (rule emitsE [OF reads_addTaskCacheEnv went_on(1)])
      from went_on(2) show thesis
      proof (cases rule: and_then_run)
        case (stopped e)
        with t show thesis by (intro unstarted [of "t @ [EvBlobGet (uniflow_tar run)]"]) auto
      next
        case sent: (went_on tar h3)
        from sent t have "h' = h @ (t @ [EvBlobGet (uniflow_tar run)]) @
            [EvStartWorkflow (om_name run) queue args kwArgs envs']"
          "x = map_sum Failing id (we_start W (h @ t @ [EvBlobGet (uniflow_tar run)]) (om_name run) queue)"
          by auto
        with t show thesis
          using addTaskCacheEnv_identified [OF went_on(1) getWorkflowInputs_identified [OF inputs]]
          by (intro started [of "t @ [EvBlobGet (uniflow_tar run)]"]) auto
      qed
    qed
  qed
qed

lemma start_workflow_run:
  assumes "run_state (start_workflow W run) h = (x, h')"
  obtains (unstarted) e t where "h' = h @ t" "list_all reads t" "x = Inl e"
  | (started) t queue args kwArgs envs where
      "h' = h @ t @ [EvStartWorkflow (om_name run) queue args kwArgs envs]" "list_all reads t"
      "identified run envs" "queue \<noteq> ''''"
      "x = map_sum Failing id (we_start W (h @ t) (om_name run) queue)"
proof -
  from assms show thesis
    unfolding start_workflow_def
  proof (cases rule: and_then_run)
    case (stopped e)
    then show thesis by (intro unstarted [of "[EvGetProject (om_namespace run)]"]) auto
  next
    case (went_on project h1)
    then have h1: "h1 = h @ [EvGetProject (om_namespace run)]" by simp
    show thesis
    proof (cases "\<exists>queue. getTaskList W project = Inr queue \<and> queue \<noteq> ''''")
      case False
      with went_on(2) have "(\<exists>e. x = Inl e) \<and> h' = h1" by (auto split: sum.splits if_splits)
      with h1 show thesis by (elim conjE exE) (auto intro: unstarted [of "[EvGetProject (om_namespace run)]"])
    next
      case True
      then obtain queue where q: "getTaskList W project = Inr queue" "queue \<noteq> ''''" by blast
      with went_on(2) have "run_state (StartWorkflow W run queue) h1 = (x, h')" by simp
      then show thesis
      proof (cases rule: StartWorkflow_run)
        case (unstarted e t)
        with h1 show thesis by (intro that(1) [of "EvGetProject (om_namespace run) # t"]) auto
      next
        case (started t args kwArgs envs)
        with h1 q show thesis
          by (intro that(2) [of "EvGetProject (om_namespace run) # t" queue args kwArgs envs]) auto
      qed
    qed
  qed
qed

text \<open>A call that only reads, and one that ends by starting the workflow and recording it.\<close>

definition only_reads :: "pr_event list \<Rightarrow> pr_event list \<Rightarrow> bool" where
  "only_reads h h' \<longleftrightarrow> (\<exists>t. h' = h @ t \<and> list_all reads t)"

definition workflow_running :: "pipeline_run \<Rightarrow> bool" where
  "workflow_running run \<longleftrightarrow>
     map_option si_state (GetStep run ExecuteWorkflowStepName) = Some Step_RUNNING"

definition starts_workflow ::
    "wf_env \<Rightarrow> pipeline_run \<Rightarrow> pr_event list \<Rightarrow> actor_result \<Rightarrow> pr_event list \<Rightarrow> bool" where
  "starts_workflow W run h r h' \<longleftrightarrow> (\<exists>t queue args kwArgs envs.
     h' = h @ t @ [EvStartWorkflow (om_name run) queue args kwArgs envs] \<and> list_all reads t \<and>
     identified run envs \<and> queue \<noteq> '''' \<and>
     (case we_start W (h @ t) (om_name run) queue of
        Inl e \<Rightarrow> fst r = Inl (Failing e)
      | Inr (wid, rid) \<Rightarrow> fst r = Inr (mk_condition ExecuteWorkflowType CS_UNKNOWN) \<and>
          st_workflow_id (pr_status (snd r)) = wid \<and> st_workflow_run_id (pr_status (snd r)) = rid \<and>
          workflow_running (snd r)))"

lemma only_reads_emits: "emits reads m \<Longrightarrow> run_state m h = (x, h') \<Longrightarrow> only_reads h h'"
  by (auto simp: only_reads_def elim: emitsE)

lemma only_reads_refl [simp]: "only_reads h h"
  by (simp add: only_reads_def)

lemma only_reads_trans: "only_reads h h1 \<Longrightarrow> only_reads h1 h2 \<Longrightarrow> only_reads h h2"
  by (auto simp: only_reads_def)

lemma meta_of_eqD: "meta_of a = meta_of b \<Longrightarrow> om_name a = om_name b \<and> om_namespace a = om_namespace b"
  by (simp add: meta_of_def obj_meta.defs)

lemma starts_after_reads:
  assumes "only_reads h h1" "keeps_run run run1" "starts_workflow W run1 h1 r h'"
  shows "starts_workflow W run h r h'"
proof -
  from assms(1) obtain t0 where t0: "h1 = h @ t0" "list_all reads t0" by (auto simp: only_reads_def)
  from assms(2) have same: "om_name run1 = om_name run" "om_namespace run1 = om_namespace run"
    by (auto simp: keeps_run_def dest: meta_of_eqD)
  from assms(3) obtain t queue args kwArgs envs where t:
    "h' = h1 @ t @ [EvStartWorkflow (om_name run1) queue args kwArgs envs]" "list_all reads t"
    "identified run1 envs" "queue \<noteq> ''''"
    "case we_start W (h1 @ t) (om_name run1) queue of
        Inl e \<Rightarrow> fst r = Inl (Failing e)
      | Inr (wid, rid) \<Rightarrow> fst r = Inr (mk_condition ExecuteWorkflowType CS_UNKNOWN) \<and>
          st_workflow_id (pr_status (snd r)) = wid \<and> st_workflow_run_id (pr_status (snd r)) = rid \<and>
          workflow_running (snd r)"
    unfolding starts_workflow_def by blast
  with t0 same show ?thesis
    unfolding starts_workflow_def
    by (intro exI [of _ "t0 @ t"] exI [of _ queue] exI [of _ args] exI [of _ kwArgs] exI [of _ envs])
      (auto simp: identified_def)
qed

lemma starts_workflow_answer: "\<not> starts_workflow W run h (Inl Panics, r) h'" "\<not> starts_workflow W run h (Inl Hangs, r) h'"
  by (auto simp: starts_workflow_def split: sum.splits)

lemma start_or_observe_run:
  assumes "run_state (start_or_observe W run) h = (r, h')" "GetStep run ExecuteWorkflowStepName = Some step"
  shows "only_reads h h' \<or> starts_workflow W run h r h'"
proof (cases "st_workflow_run_id (pr_status run) = '''' \<or> st_workflow_id (pr_status run) = ''''")
  case False
  then have "start_or_observe W run = do {
        observed \<leftarrow> observe_workflow W run;
        (case observed of
           Inl e \<Rightarrow> State_Monad.return (Inl e, run)
         | Inr (status, taskSteps) \<Rightarrow> do {
             now \<leftarrow> peek (we_now W);
             State_Monad.return (Inr (observed_condition status),
               update_step ExecuteWorkflowStepName
                 (\<lambda>step. observed_step now status (set_task_steps taskSteps step)) run)
           })}"
    by (simp add: start_or_observe_def)
  then have "emits reads (start_or_observe W run)"
    by (auto intro!: emits_bind reads_observe split: sum.splits)
  with assms(1) show ?thesis by (auto intro: only_reads_emits)
next
  case True
  obtain x h1 where start: "run_state (start_workflow W run) h = (x, h1)" by (metis prod.exhaust)
  from start show ?thesis
  proof (cases rule: start_workflow_run)
    case (unstarted e t)
    with assms(1) start True show ?thesis by (auto simp: start_or_observe_def only_reads_def)
  next
    case (started t queue args kwArgs envs)
    have "GetStep ((update_step ExecuteWorkflowStepName (started_step now) run)
        \<lparr>pr_status := (pr_status (update_step ExecuteWorkflowStepName (started_step now) run))
          \<lparr>st_workflow_run_id := rid, st_workflow_id := wid\<rparr>\<rparr>) ExecuteWorkflowStepName =
        map_option (started_step now) (GetStep run ExecuteWorkflowStepName)" for now rid wid
      by (subst GetStep_update [symmetric]) (simp_all add: started_step_def GetStep_def)
    with assms start True started have "starts_workflow W run h r h'"
      unfolding starts_workflow_def
      by (intro exI [of _ t] exI [of _ queue] exI [of _ args] exI [of _ kwArgs] exI [of _ envs])
        (auto simp: start_or_observe_def workflow_running_def started_step_def Let_def split: sum.splits)
    then show ?thesis ..
  qed
qed

lemma find_append: "find P (xs @ ys) = (case find P xs of None \<Rightarrow> find P ys | Some x \<Rightarrow> Some x)"
  by (induction xs) auto

lemma ensure_execute_step_GetStep:
  assumes "ensure_execute_step W now run = Returned (step, run')"
  shows "GetStep run' ExecuteWorkflowStepName = Some step"
proof (cases "GetStep run ExecuteWorkflowStepName")
  case (Some s)
  with assms show ?thesis by (simp add: ensure_execute_step_def)
next
  case None
  with assms obtain url where "run' = set_steps (st_steps (pr_status run) @ [step]) run"
    "step = pending_step ExecuteWorkflowStepName now url"
    by (auto simp: ensure_execute_step_def Let_def split: outcome.splits)
  with None show ?thesis by (simp add: GetStep_def find_append)
qed

lemma execute_step_run:
  assumes "run_state (execute_step W step run) h = (r, h')" "GetStep run ExecuteWorkflowStepName = Some step"
  shows "only_reads h h' \<or> starts_workflow W run h r h'"
proof -
  consider "si_state step \<in> {Step_KILLED, Step_FAILED}"
    | "si_state step \<notin> {Step_KILLED, Step_FAILED}" "\<not> sp_kill (pr_spec run)"
    | "si_state step \<notin> {Step_KILLED, Step_FAILED}" "sp_kill (pr_spec run)" by blast
  then show ?thesis
  proof cases
    case 1
    with assms(1) show ?thesis by (auto simp: execute_step_def)
  next
    case 2
    with assms(1) have "run_state (start_or_observe W run) h = (r, h')" by (simp add: execute_step_def)
    from start_or_observe_run [OF this assms(2)] show ?thesis .
  next
    case 3
    obtain x h1 where ended: "run_state (processJobTermination W run) h = (x, h1)" by (metis prod.exhaust)
    from only_reads_emits [OF reads_terminate ended] have reads: "only_reads h h1" .
    show ?thesis
    proof (cases "x = Inr False")
      case True
      with assms(1) 3 ended have "run_state (start_or_observe W run) h1 = (r, h')"
        by (simp add: execute_step_def)
      from start_or_observe_run [OF this assms(2)] reads show ?thesis
        by (auto intro: only_reads_trans starts_after_reads [OF _ keeps_run_refl])
    next
      case False
      with assms(1) 3 ended reads show ?thesis
        by (auto simp: execute_step_def split: sum.splits bool.splits)
    qed
  qed
qed

lemma ExecuteWorkflow_Run_run:
  assumes "run_state (ExecuteWorkflow_Run W run c) h = (r, h')"
  shows "only_reads h h' \<or> starts_workflow W run h r h'"
proof -
  obtain x h1 where retried: "run_state (processManualRetrySpec W run) h = (x, h1)" by (metis prod.exhaust)
  from only_reads_emits [OF reads_retry retried] have reads: "only_reads h h1" .
  show ?thesis
  proof (cases x)
    case (Inl e)
    with assms retried reads show ?thesis by (simp add: ExecuteWorkflow_Run_def)
  next
    case (Inr run1)
    with retried have keeps: "keeps_run run run1" by (auto intro: processManualRetrySpec_keeps)
    show ?thesis
    proof (cases "ensure_execute_step W (we_now W h1) run1")
      case Panicked
      with assms retried Inr reads show ?thesis by (auto simp: ExecuteWorkflow_Run_def)
    next
      case (Returned sr)
      then obtain step run2 where ensured: "ensure_execute_step W (we_now W h1) run1 = Returned (step, run2)"
        by (cases sr) auto
      with assms retried Inr have "run_state (execute_step W step run2) h1 = (r, h')"
        by (simp add: ExecuteWorkflow_Run_def)
      from execute_step_run [OF this ensure_execute_step_GetStep [OF ensured]]
      show ?thesis
        using reads keeps_run_trans [OF keeps ensure_execute_step_keeps [OF ensured]]
        by (auto intro: only_reads_trans starts_after_reads)
    qed
  qed
qed

text \<open>The engine's view of it.\<close>

lemma answer_engine_starts:
  assumes "run_state (answer_engine (ExecuteWorkflow_Run W run c)) h = ((x, run'), h')"
  shows "only_reads h h' \<or> (\<exists>a. starts_workflow W run h (a, run') h' \<and>
    x = (case a of Inr d \<Rightarrow> Inr d | Inl (Failing e) \<Rightarrow> Inl e | Inl Panics \<Rightarrow> x | Inl Hangs \<Rightarrow> x))"
  using assms
proof (cases rule: answer_engine_run)
  case (answered d)
  from ExecuteWorkflow_Run_run [OF answered(1)] answered(2) show ?thesis
    by (auto intro!: exI [of _ "Inr d"])
next
  case (failed err)
  from ExecuteWorkflow_Run_run [OF failed(1)] failed(2) show ?thesis
    by (auto intro!: exI [of _ "Inl (Failing err)"])
next
  case (panicked h1)
  from ExecuteWorkflow_Run_run [OF panicked(1)] have "only_reads h h1"
    by (simp add: starts_workflow_answer)
  with panicked(2) show ?thesis by (auto simp: only_reads_def)
next
  case (hung h1)
  from ExecuteWorkflow_Run_run [OF hung(1)] have "only_reads h h1"
    by (simp add: starts_workflow_answer)
  with hung(2) show ?thesis by (auto simp: only_reads_def)
qed

section \<open>Tasks of an ended workflow\<close>

text \<open>Once the step has failed or was killed, no task of it is still pending or running.\<close>

definition settled :: "pipeline_run \<Rightarrow> bool" where
  "settled run \<longleftrightarrow>
     (\<forall>step. GetStep run ExecuteWorkflowStepName = Some step \<longrightarrow>
        si_state step \<in> {Step_FAILED, Step_KILLED} \<longrightarrow>
        (\<forall>sub\<in>set (si_sub_steps step). si_state sub \<notin> {Step_PENDING, Step_RUNNING}))"

definition settled_step :: "step_info \<Rightarrow> bool" where
  "settled_step step \<longleftrightarrow> si_state step \<in> {Step_FAILED, Step_KILLED} \<longrightarrow>
     (\<forall>sub\<in>set (si_sub_steps step). si_state sub \<notin> {Step_PENDING, Step_RUNNING})"

lemma settled_step_iff:
  "settled run \<longleftrightarrow> (\<forall>step. GetStep run ExecuteWorkflowStepName = Some step \<longrightarrow> settled_step step)"
  by (auto simp: settled_def settled_step_def)

lemma settled_propagate [simp]:
  "s \<noteq> Step_PENDING \<Longrightarrow> s \<noteq> Step_RUNNING \<Longrightarrow> settled_step (propagateTerminalStateToSubsteps now s msg step)"
  by (auto simp: settled_step_def propagateTerminalStateToSubsteps_def end_substep_def Let_def
      split: step_state.splits)

lemma settled_observed:
  "si_state step \<notin> {Step_FAILED, Step_KILLED} \<Longrightarrow> settled_step (observed_step now s step)"
  by (cases s) (auto simp: kill_step_def settled_step_def [of "step\<lparr>si_state := x\<rparr>" for x]
      settled_step_def [of step] end_step_def settled_step_def [of "step\<lparr>si_state := x, si_end_time := y\<rparr>" for x y])

lemma settled_update:
  assumes "\<And>s. si_name (f s) = si_name s" "\<And>s. GetStep run ExecuteWorkflowStepName = Some s \<Longrightarrow> settled_step (f s)"
  shows "settled (update_step ExecuteWorkflowStepName f run)"
  using assms by (auto simp: settled_step_iff)

lemma GetStep_update_other:
  assumes "\<And>s. si_name (f s) = si_name s" "nm \<noteq> name"
  shows "GetStep (update_step nm f run) name = GetStep run name"
proof -
  have "find (\<lambda>s. si_name s = name) (update_first (\<lambda>s. si_name s = nm) f ss) =
      find (\<lambda>s. si_name s = name) ss" for ss
    by (induction ss) (use assms in auto)
  then show ?thesis by (simp add: GetStep_def update_step_def)
qed

lemma GetStep_status [simp]:
  "GetStep (run\<lparr>pr_status := s\<rparr>) nm = find (\<lambda>step. si_name step = nm) (st_steps s)"
  "GetStep (run\<lparr>pr_spec := sp\<rparr>) nm = GetStep run nm"
  "GetStep (set_source_pipeline pl run) nm = GetStep run nm"
  by (simp_all add: GetStep_def set_source_pipeline_def)

lemma step_names [simp]: "ImageBuildStepName \<noteq> ExecuteWorkflowStepName"
  "ExecuteWorkflowStepName \<noteq> ImageBuildStepName"
  by (simp_all add: ImageBuildStepName_def ExecuteWorkflowStepName_def)

lemma GetStep_ensure_image [simp]:
  "GetStep (ensure_image_step now run) ExecuteWorkflowStepName = GetStep run ExecuteWorkflowStepName"
  by (auto simp: ensure_image_step_def GetStep_def find_append split: option.splits)

lemma settled_GetStep:
  "GetStep run' ExecuteWorkflowStepName = GetStep run ExecuteWorkflowStepName \<Longrightarrow> settled run' = settled run"
  by (simp add: settled_def)

lemma steps_before_execution:
  assumes "run_state (answer_engine m) h = ((x, run'), h')"
    and "m \<in> {SourcePipeline_Retrieve W run c, SourcePipeline_Run W run c, ImageBuild_Retrieve W run c,
           ImageBuild_Run W run c, ExecuteWorkflow_Retrieve W run c}"
  shows "GetStep run' ExecuteWorkflowStepName = GetStep run ExecuteWorkflowStepName"
proof -
  let ?P = "\<lambda>r. GetStep (snd r) ExecuteWorkflowStepName = GetStep run ExecuteWorkflowStepName"
  have "gives ?P (SourcePipeline_Retrieve W run c)"
    unfolding SourcePipeline_Retrieve_def
    by (auto intro!: gives_bind gives_return split: option.splits sum.splits)
  moreover have "gives ?P (SourcePipeline_Run W run c)"
    unfolding SourcePipeline_Run_def
    by (auto intro!: gives_bind gives_return split: option.splits sum.splits)
  moreover have "gives ?P (ImageBuild_Retrieve W run c)"
    unfolding ImageBuild_Retrieve_def
    by (auto intro!: gives_return split: option.splits step_state.splits)
  moreover have "gives ?P (ImageBuild_Run W run c)"
    unfolding ImageBuild_Run_def Let_def
    by (auto intro!: gives_bind gives_return simp: GetStep_update_other end_step_def)
  moreover have "gives ?P (ExecuteWorkflow_Retrieve W run c)"
    unfolding ExecuteWorkflow_Retrieve_def
    by (auto intro!: gives_return split: option.splits)
  ultimately have "gives ?P m" using assms(2) by (elim insertE emptyE) simp_all
  with assms(1) show ?thesis
    by (elim answer_engine_run) (auto dest: givesD)
qed

text \<open>The retry restarts the step; everything the execution does to the step settles it.\<close>

lemma settled_retry: "settled_step (retry_step act step)"
  if "settled_step step"
  using that by (auto simp: settled_step_def retry_step_def Let_def)

lemma si_name_steps [simp]:
  "si_name (retry_step act step) = si_name step" "si_name (kill_step now step) = si_name step"
  "si_name (started_step now step) = si_name step" "si_name (set_task_steps ts step) = si_name step"
  "si_name (observed_step now s step) = si_name step"
  by (cases s; simp add: retry_step_def kill_step_def started_step_def set_task_steps_def end_step_def
      propagateTerminalStateToSubsteps_def Let_def)+

lemma processManualRetrySpec_settled:
  assumes "run_state (processManualRetrySpec W run) h = (Inr run', h')" "settled run"
  shows "settled run'"
proof (cases "retry_requested run")
  case None
  with assms show ?thesis by (simp add: processManualRetrySpec_def)
next
  case (Some ri)
  with assms(1) obtain rid where run': "run' = update_step ExecuteWorkflowStepName (retry_step (ri_activity_id ri))
      (run\<lparr>pr_spec := (pr_spec run)\<lparr>sp_kill := False\<rparr>,
           pr_status := (pr_status run)\<lparr>st_state := Run_RUNNING, st_workflow_run_id := rid\<rparr>\<rparr>)"
    by (auto simp: processManualRetrySpec_def Let_def elim!: and_then_InrE)
  show ?thesis
    unfolding run' by (rule settled_update)
      (use assms(2) in \<open>auto simp: settled_step_iff GetStep_def intro: settled_retry\<close>)
qed

lemma start_or_observe_settled:
  assumes "run_state (start_or_observe W run) h = (r, h')" "GetStep run ExecuteWorkflowStepName = Some step"
    and "si_state step \<notin> {Step_FAILED, Step_KILLED}" "settled run"
  shows "settled (snd r)"
proof -
  have "settled (update_step ExecuteWorkflowStepName (\<lambda>s. observed_step now st (set_task_steps ts s)) run)" for now st ts
    by (rule settled_update) (use assms(2,3) in \<open>auto intro!: settled_observed simp: set_task_steps_def\<close>)
  moreover have "settled ((update_step ExecuteWorkflowStepName (started_step now) run)\<lparr>pr_status :=
      (pr_status (update_step ExecuteWorkflowStepName (started_step now) run))
        \<lparr>st_workflow_run_id := rid, st_workflow_id := wid\<rparr>\<rparr>)" for now rid wid
  proof -
    have "settled (update_step ExecuteWorkflowStepName (started_step now) run)"
      by (rule settled_update) (auto simp: settled_step_def started_step_def)
    then show ?thesis by (subst settled_GetStep) (auto simp: GetStep_def)
  qed
  ultimately have "gives (\<lambda>r. settled (snd r)) (start_or_observe W run)"
    unfolding start_or_observe_def Let_def using assms(4)
    by (auto intro!: gives_bind gives_return split: sum.splits)
  from givesD [OF this assms(1)] show ?thesis .
qed

lemma execute_step_settled:
  assumes "run_state (execute_step W step run) h = (r, h')" "GetStep run ExecuteWorkflowStepName = Some step"
    and "settled run"
  shows "settled (snd r)"
proof (cases "si_state step \<in> {Step_KILLED, Step_FAILED}")
  case True
  with assms show ?thesis by (auto simp: execute_step_def)
next
  case False
  have "settled (update_step ExecuteWorkflowStepName (kill_step now) run)" for now
    by (rule settled_update) (simp, simp add: kill_step_def)
  moreover have "gives (\<lambda>r. settled (snd r)) (start_or_observe W run)"
    unfolding gives_def using start_or_observe_settled [OF _ assms(2)] False assms(3)
    by (metis insert_iff empty_iff prod.exhaust fst_conv)
  ultimately have "gives (\<lambda>r. settled (snd r)) (execute_step W step run)"
    unfolding execute_step_def using assms(3)
    by (auto intro!: gives_bind gives_return split: sum.splits bool.splits)
  from givesD [OF this assms(1)] show ?thesis .
qed

end
