(* ===== verification/Workflow_Properties.thy ===== *)
theory Workflow_Properties
  imports Workflow_Actor
begin

text \<open>
  What the plugin promises beyond one actor: tasks of an ended workflow, the kill of a run, the
  manual retry, the progress of tasks, and the concrete environment on which the properties of
  the workflow actors are exercised.
\<close>

section \<open>Properties of a pass\<close>


text \<open>
  C15. A workflow is started only when everything before it is ready: if a pass of the engine
  starts one, the source pipeline is loaded and the image resolved, the start is the pass's
  last call and its only one with an effect, it goes to a named worker queue and carries the
  run's own namespace and name. A start the engine accepts is recorded on the run, whose step is
  then running, and the pass asks for another; one it refuses ends the run.
\<close>

theorem workflow_starts_prepared:
  assumes "run_state (engineRun (NewPlugin W) run) h = ((res, run'), h @ t)"
    and "e \<in> set t" "start_event e"
  shows "source_pipeline run \<noteq> None \<and> image_resolved run \<and> \<not> workflow_succeeded run \<and>
    (\<exists>pre queue args kwArgs envs. t = pre @ [e] \<and> list_all reads pre \<and>
       e = EvStartWorkflow (om_name run) queue args kwArgs envs \<and> queue \<noteq> '''' \<and> identified run envs \<and>
       (case we_start W (h @ pre) (om_name run) queue of
          Inl err \<Rightarrow> er_terminal res \<and> \<not> er_satisfied res
        | Inr (wid, rid) \<Rightarrow> \<not> er_terminal res \<and> workflow_running run' \<and>
            st_workflow_id (pr_status run') = wid \<and> st_workflow_run_id (pr_status run') = rid))"
proof -
  from assms(1) obtain oc where run: "run_state (runPlugin (NewPlugin W) run) h = ((oc, run'), h @ t)"
    and res: "res = classify oc" by (auto simp: run_state_engineRun split: prod.splits)
  from assms(2,3) have "\<not> list_all reads t" by (auto simp: list_all_iff reads_def)
  from run show ?thesis
  proof (cases rule: runPlugin_cases)
    case (early t')
    with \<open>\<not> list_all reads t\<close> show ?thesis by simp
  next
    case satisfied
    with \<open>\<not> list_all reads t\<close> show ?thesis by simp
  next
    case (executed x r2)
    have "\<not> only_reads h (h @ t)" using \<open>\<not> list_all reads t\<close> by (simp add: only_reads_def)
    with answer_engine_starts [OF executed(4)] obtain a where
      starts: "starts_workflow W (prepared_run run) h (a, r2) (h @ t)"
      and x: "x = (case a of Inr d \<Rightarrow> Inr d | Inl (Failing e) \<Rightarrow> Inl e | Inl Panics \<Rightarrow> x | Inl Hangs \<Rightarrow> x)"
      by blast
    then obtain pre queue args kwArgs envs where
      t: "t = pre @ [EvStartWorkflow (om_name run) queue args kwArgs envs]" "list_all reads pre"
      and envs: "identified run envs" "queue \<noteq> ''''"
      and answer: "case we_start W (h @ pre) (om_name run) queue of
        Inl e \<Rightarrow> a = Inl (Failing e)
      | Inr (wid, rid) \<Rightarrow> a = Inr (mk_condition ExecuteWorkflowType CS_UNKNOWN) \<and>
          st_workflow_id (pr_status r2) = wid \<and> st_workflow_run_id (pr_status r2) = rid \<and>
          workflow_running r2"
      unfolding starts_workflow_def identified_def fst_conv snd_conv prepared_run_sel same_append_eq
      by blast
    from t assms(2,3) have e: "e = EvStartWorkflow (om_name run) queue args kwArgs envs"
      by (auto simp: list_all_iff reads_def)
    have "case we_start W (h @ pre) (om_name run) queue of
          Inl err \<Rightarrow> er_terminal res \<and> \<not> er_satisfied res
        | Inr (wid, rid) \<Rightarrow> \<not> er_terminal res \<and> workflow_running run' \<and>
            st_workflow_id (pr_status run') = wid \<and> st_workflow_run_id (pr_status run') = rid"
      using answer x executed(5)
      by (auto simp: res classify_def workflow_running_def split: sum.splits)
    with executed(1-3) t e envs show ?thesis by blast
  qed
qed

section \<open>Tasks of an ended workflow\<close>

lemma ensure_execute_step_settled:
  assumes "ensure_execute_step W now run = Returned (step, run')" "settled run"
  shows "settled run'"
proof (cases "GetStep run ExecuteWorkflowStepName")
  case (Some s)
  with assms show ?thesis by (simp add: ensure_execute_step_def)
next
  case None
  with assms(1) obtain url where "step = pending_step ExecuteWorkflowStepName now url"
    by (auto simp: ensure_execute_step_def Let_def split: outcome.splits)
  with ensure_execute_step_GetStep [OF assms(1)] show ?thesis by (simp add: settled_def)
qed

lemma ExecuteWorkflow_Run_settled:
  assumes "settled run"
  shows "gives (\<lambda>r. settled (snd r)) (ExecuteWorkflow_Run W run c)"
  unfolding ExecuteWorkflow_Run_def
proof (rule gives_bind)
  fix h x h'
  assume retried: "run_state (processManualRetrySpec W run) h = (x, h')"
  have step: "gives (\<lambda>r. settled (snd r)) (execute_step W step run2)"
    if "settled run1" "ensure_execute_step W now run1 = Returned (step, run2)" for run1 run2 step now
    unfolding gives_def
    using execute_step_settled [OF _ ensure_execute_step_GetStep [OF that(2)]
        ensure_execute_step_settled [OF that(2,1)]]
    by (metis prod.exhaust fst_conv)
  have "settled run1" if "x = Inr run1" for run1
    using processManualRetrySpec_settled [OF _ assms] retried that by simp
  with assms show "gives (\<lambda>r. settled (snd r)) (case x of
        Inl e \<Rightarrow> State_Monad.return (Inl e, run)
      | Inr run \<Rightarrow> do {
          now \<leftarrow> peek (we_now W);
          (case ensure_execute_step W now run of
             Panicked \<Rightarrow> State_Monad.return (Inl Panics, run)
           | Returned (step, run) \<Rightarrow> execute_step W step run)
        })"
    by (auto intro!: gives_bind gives_return step split: sum.splits outcome.splits)
qed

lemma retrieve_keeps_execute_step:
  assumes "a \<in> {NewSourcePipelineActor W, NewImageBuildActor W, NewExecuteWorkflowActor W}"
    and "run_state (a_retrieve a r c) w = ((x, r'), w')"
  shows "GetStep r' ExecuteWorkflowStepName = GetStep r ExecuteWorkflowStepName"
proof -
  from assms obtain m where "run_state (answer_engine m) w = ((x, r'), w')"
    "m \<in> {SourcePipeline_Retrieve W r c, ImageBuild_Retrieve W r c, ExecuteWorkflow_Retrieve W r c}"
    unfolding actor_defs by (elim insertE emptyE) simp_all
  from steps_before_execution [OF this(1)] this(2) show ?thesis by blast
qed

lemma run_keeps_execute_step:
  assumes "a \<in> {NewSourcePipelineActor W, NewImageBuildActor W}"
    and "run_state (a_run a r c) w = ((x, r'), w')"
  shows "GetStep r' ExecuteWorkflowStepName = GetStep r ExecuteWorkflowStepName"
proof -
  from assms obtain m where "run_state (answer_engine m) w = ((x, r'), w')"
    "m \<in> {SourcePipeline_Run W r c, ImageBuild_Run W r c}"
    unfolding actor_defs by (elim insertE emptyE) simp_all
  from steps_before_execution [OF this(1)] this(2) show ?thesis by blast
qed

text \<open>
  C16. No task outlives its workflow: if, before a pass of the engine, every task of a failed or
  killed execute-workflow step has ended, then so it is after the pass, whatever the services
  answer. A run without the step, or with one that has not ended, qualifies.
\<close>

theorem ended_workflows_leave_no_running_task:
  assumes "run_state (engineRun (NewPlugin W) run) h = ((res, run'), h')" "settled run"
  shows "settled run'"
proof -
  from assms(1) obtain oc where "run_state (runActors (NewPlugin W)
      [NewSourcePipelineActor W, NewImageBuildActor W, NewExecuteWorkflowActor W] False None run) h =
      ((oc, run'), h')"
    by (auto simp: run_state_engineRun runPlugin_def NewPlugin_def split: prod.splits)
  then show ?thesis
  proof (rule runActors_invariant [where I = settled, OF _ assms(2)])
    fix a r c w x r' w'
    assume a: "a \<in> set [NewSourcePipelineActor W, NewImageBuildActor W, NewExecuteWorkflowActor W]"
      and r: "settled r"
    show "settled r'" if "run_state (a_retrieve a r c) w = ((x, r'), w')"
      using settled_GetStep [OF retrieve_keeps_execute_step [OF _ that]] a r by auto
    show "settled r'" if ran: "run_state (a_run a r c) w = ((x, r'), w')"
    proof (cases "a = NewExecuteWorkflowActor W")
      case True
      with ran have "run_state (answer_engine (ExecuteWorkflow_Run W r c)) w = ((x, r'), w')"
        by (simp add: actor_defs)
      then show ?thesis
        by (rule answer_engine_run) (auto dest: givesD [OF ExecuteWorkflow_Run_settled [OF r]])
    next
      case False
      with settled_GetStep [OF run_keeps_execute_step [OF _ ran]] a r show ?thesis by auto
    qed
  next
    fix r c
    assume "settled r"
    then show "settled (p_put_condition (NewPlugin W) r c)" by (simp add: NewPlugin_def settled_def)
  qed
qed

section \<open>Conditions of the stages\<close>

text \<open>
  What one pass of the engine over the plugin leaves behind, whatever the services answer:
  the actors never write the run to the API server, never notify and never count a drain, and
  they keep the metadata the drain and the eviction depend on. If no actor fails, a condition is
  stored for each of the three stages, all of them true when the pass found nothing critical,
  and a condition of any other type is as it was.
\<close>

theorem pass_stores_conditions:
  assumes "run_state (runPlugin (NewPlugin W) run) h = ((oc, run'), h')"
  shows "same_meta run' run \<and> (\<exists>t. h' = h @ t \<and> list_all (\<lambda>e. \<not> controller_event e) t) \<and>
    (\<forall>critical. oc = Inr critical \<longrightarrow>
       (\<forall>t\<in>{SourcePipelineType, ImageBuildType, ExecuteWorkflowType}.
          \<exists>c. GetCondition t (run_GetConditions run') = Some c \<and>
            (critical = None \<longrightarrow> c_status c = CS_TRUE)) \<and>
       (\<forall>t. t \<notin> {SourcePipelineType, ImageBuildType, ExecuteWorkflowType} \<longrightarrow>
          GetCondition t (run_GetConditions run') = GetCondition t (run_GetConditions run)))"
proof -
  from NewPlugin_quiet have quiet: "p_put_condition (NewPlugin W) = run_PutCondition"
    "\<forall>a\<in>set (p_actors (NewPlugin W)). quiet_call (a_retrieve a) \<and> quiet_call (a_run a)"
    unfolding quiet_plugin_def by blast+
  from assms have pass: "run_state (runActors (NewPlugin W) (p_actors (NewPlugin W)) False None run) h = ((oc, run'), h')"
    by (simp add: runPlugin_def)
  have types: "map a_type (p_actors (NewPlugin W)) = [SourcePipelineType, ImageBuildType, ExecuteWorkflowType]"
    by (simp add: actor_defs)
  have dist: "distinct (map a_type (p_actors (NewPlugin W)))"
    by (simp add: types SourcePipelineType_def ImageBuildType_def ExecuteWorkflowType_def)
  have stages: "a_type ` set (p_actors (NewPlugin W)) = {SourcePipelineType, ImageBuildType, ExecuteWorkflowType}"
    using arg_cong [OF types, of set] by simp
  have "(\<forall>t\<in>a_type ` set (p_actors (NewPlugin W)).
        \<exists>c. GetCondition t (run_GetConditions run') = Some c \<and> (critical = None \<longrightarrow> c_status c = CS_TRUE)) \<and>
      (\<forall>t. t \<notin> a_type ` set (p_actors (NewPlugin W)) \<longrightarrow>
        GetCondition t (run_GetConditions run') = GetCondition t (run_GetConditions run))"
    if "oc = Inr critical" for critical
    using run_conditions.runActors_stores [OF pass [unfolded that] _ quiet(1) NewPlugin_actors_ok dist]
    by (auto simp: run_conditions.stored_after_def NewPlugin_def)
  note stored = this [unfolded stages]
  with runActors_quiet [OF pass quiet] show ?thesis using stored unfolding quiet_move_def by blast
qed

section \<open>Killing a run\<close>

text \<open>A workflow that runs, with the first two stages done and no retry requested.\<close>

definition killable :: "pipeline_run \<Rightarrow> bool" where
  "killable run \<longleftrightarrow> source_pipeline run \<noteq> None \<and> image_resolved run \<and> workflow_running run \<and>
     retry_requested run = None \<and> st_workflow_id (pr_status run) \<noteq> '''' \<and>
     st_workflow_run_id (pr_status run) \<noteq> ''''"

text \<open>
  C17. A kill reaches the workflow. When a running run is to be killed and the workflow engine
  says its workflow has neither completed nor been terminated, the next pass asks about the
  workflow and cancels exactly it, and calls nothing else. If the engine accepts, the result is
  killed, the step is killed with all its tasks ended; if it refuses, the result is a failure.
\<close>

theorem kill_cancels_the_workflow:
  assumes "run_state (engineRun (NewPlugin W) run) h = ((res, run'), h')"
    and "killable run" "sp_kill (pr_spec run)"
    and "we_exec_info W h (st_workflow_id (pr_status run)) (st_workflow_run_id (pr_status run)) = Inr info"
    and "ei_status info \<noteq> WF_Completed" "ei_status info \<noteq> WF_Terminated"
  shows "\<exists>refused. h' = h @ [EvExecInfo (st_workflow_id (pr_status run)) (st_workflow_run_id (pr_status run)),
      EvCancel (st_workflow_id (pr_status run)) (st_workflow_run_id (pr_status run)) refused] \<and>
    er_terminal res \<and> \<not> er_satisfied res \<and> (er_killed res \<longleftrightarrow> refused = None) \<and>
    (refused = None \<longrightarrow> (\<exists>step. GetStep run' ExecuteWorkflowStepName = Some step \<and>
       si_state step = Step_KILLED \<and> settled run'))"
proof -
  let ?wid = "st_workflow_id (pr_status run)" and ?rid = "st_workflow_run_id (pr_status run)"
  let ?h1 = "h @ [EvExecInfo ?wid ?rid]"
  from assms(1) obtain oc where run: "run_state (runPlugin (NewPlugin W) run) h = ((oc, run'), h')"
    and res: "res = classify oc" by (auto simp: run_state_engineRun split: prod.splits)
  from assms(2) have started: "\<not> (st_workflow_run_id (pr_status run) = '''' \<or> st_workflow_id (pr_status run) = '''')"
    and not_done: "\<not> workflow_succeeded run" and no_retry: "retry_requested run = None"
    by (auto simp: killable_def workflow_succeeded_def workflow_running_def)
  from assms(2) obtain step where step: "GetStep run ExecuteWorkflowStepName = Some step"
    "si_state step = Step_RUNNING"
    by (auto simp: killable_def workflow_running_def)
  let ?c = "mk_condition ExecuteWorkflowType CS_FALSE"
  have act: "run_state (ExecuteWorkflow_Run W (prepared_run run) ?c) h =
      (case we_cancel W ?h1 ?wid ?rid of
         Some e \<Rightarrow> (Inl (Failing e), prepared_run run)
       | None \<Rightarrow> (Inr kill_condition,
           update_step ExecuteWorkflowStepName (kill_step (we_now W (?h1 @ [EvCancel ?wid ?rid None]))) (prepared_run run)),
       ?h1 @ [EvCancel ?wid ?rid (we_cancel W ?h1 ?wid ?rid)])"
    using assms(3-6) started no_retry step
    by (auto simp: ExecuteWorkflow_Run_def processManualRetrySpec_def ensure_execute_step_def
        execute_step_def processJobTermination_def Let_def split: option.splits)
  from run show ?thesis
  proof (cases rule: runPlugin_cases)
    case (early t)
    with assms(2) show ?thesis by (auto simp: killable_def)
  next
    case satisfied
    with not_done show ?thesis by blast
  next
    case (executed x r2)
    show ?thesis
    proof (cases "we_cancel W ?h1 ?wid ?rid")
      case (Some e)
      with executed(4,5) act show ?thesis
        by (auto simp: answer_engine_def res classify_def)
    next
      case None
      let ?killed = "update_step ExecuteWorkflowStepName
        (kill_step (we_now W (?h1 @ [EvCancel ?wid ?rid None]))) (prepared_run run)"
      from None executed(4,5) act have ans: "oc = Inr (Some kill_condition)" "run' = run_PutCondition ?killed kill_condition"
        "h' = ?h1 @ [EvCancel ?wid ?rid None]"
        by (auto simp: answer_engine_def)
      have "settled ?killed" by (rule settled_update) (simp, simp add: kill_step_def)
      then have "settled run'" by (simp add: ans settled_def)
      moreover have "\<exists>s. GetStep run' ExecuteWorkflowStepName = Some s \<and> si_state s = Step_KILLED"
        using step by (simp add: ans kill_step_def propagateTerminalStateToSubsteps_def end_step_def)
      ultimately show ?thesis
        using ans by (auto simp: res classify_def kill_condition_def KillReason_def)
    qed
  qed
qed

section \<open>Manual retry\<close>

text \<open>
  The boundary a reset may use for an activity: a completed task or decision before the
  activity was scheduled, with none after it that is still before.
\<close>

definition boundary_event :: "wf_env \<Rightarrow> history_event \<Rightarrow> bool" where
  "boundary_event W e \<longleftrightarrow> he_type e = we_completed_type W \<or> he_type e = we_decision_type W"

definition precise_boundary :: "wf_env \<Rightarrow> history_event list \<Rightarrow> string \<Rightarrow> int \<Rightarrow> bool" where
  "precise_boundary W events activity eventID \<longleftrightarrow>
     (\<exists>s\<in>set events. he_type s = we_scheduled_type W \<and> he_activity s = Some activity \<and>
        eventID < he_id s \<and> (\<exists>r\<in>set events. boundary_event W r \<and> he_id r = eventID) \<and>
        (\<forall>r\<in>set events. boundary_event W r \<longrightarrow> he_id r < he_id s \<longrightarrow> he_id r \<le> eventID))"

lemma find_rev_Some:
  assumes "find P (rev xs) = Some x"
  obtains ys zs where "xs = ys @ x # zs" "P x" "\<And>z. z \<in> set zs \<Longrightarrow> \<not> P z"
proof -
  have "\<exists>ys zs. xs = ys @ x # zs \<and> P x \<and> (\<forall>z\<in>set zs. \<not> P z)"
    using assms
  proof (induction xs rule: rev_induct)
    case (snoc y xs)
    then show ?case
    proof (cases "P y")
      case False
      with snoc obtain ys zs where "xs = ys @ x # zs" "P x" "\<forall>z\<in>set zs. \<not> P z" by auto
      with False show ?thesis by (intro exI [of _ ys] exI [of _ "zs @ [y]"]) auto
    next
      case True
      with snoc.prems show ?thesis by (intro exI [of _ xs] exI [of _ "[]"]) auto
    qed
  qed simp
  then show thesis using that by blast
qed

lemma find_reset_event_precise:
  assumes "find_reset_event W events activity = Inr eventID" "sorted_wrt (<) (map he_id events)"
  shows "precise_boundary W events activity eventID"
proof -
  from assms(1) have scheduled: "scheduled_event_id W events activity \<noteq> 0"
    and reset: "reset_event_id W events (scheduled_event_id W events activity) = eventID" "eventID \<noteq> 0"
    by (auto simp: find_reset_event_def Let_def split: if_splits)
  from scheduled obtain s where s: "find (\<lambda>e. he_type e = we_scheduled_type W \<and> he_activity e = Some activity) events = Some s"
    and sid: "scheduled_event_id W events activity = he_id s"
    by (auto simp: scheduled_event_id_def split: option.splits)
  from s have s_in: "s \<in> set events" "he_type s = we_scheduled_type W" "he_activity s = Some activity"
    by (auto simp: find_Some_iff)
  from reset sid obtain r where r: "he_id r = eventID"
    and find_r: "find (\<lambda>e. he_id e < he_id s \<and> boundary_event W e) (rev events) = Some r"
    by (auto simp: reset_event_id_def boundary_event_def split: option.splits)
  from find_r obtain ys zs where split: "events = ys @ r # zs" "he_id r < he_id s" "boundary_event W r"
    and none_later: "\<And>z. z \<in> set zs \<Longrightarrow> \<not> (he_id z < he_id s \<and> boundary_event W z)"
    by (auto elim!: find_rev_Some)
  have "he_id q \<le> eventID" if "q \<in> set events" "boundary_event W q" "he_id q < he_id s" for q
  proof -
    from that none_later have "q \<in> set ys \<or> q = r" by (auto simp: split(1))
    with assms(2) r show ?thesis by (auto simp: split(1) sorted_wrt_append)
  qed
  with s_in r split show ?thesis unfolding precise_boundary_def by auto
qed

text \<open>
  A manual retry that succeeds resets the run's own workflow, and only it, at the last
  completed task or decision before the activity was scheduled; it moves the run to the new
  workflow run, clears the kill flag, and adds exactly one snapshot of the step, under the next
  number and without a history of its own, to the attempts of the step, which is no longer
  ended. The events of a history are taken to have increasing ids.
\<close>

theorem retry_resets_before_the_activity:
  assumes "retry_requested run = Some ri" "run_state (processManualRetrySpec W run) h = (Inr run', h')"
    and "\<And>h w r events. we_history W h w r = Inr events \<Longrightarrow> sorted_wrt (<) (map he_id events)"
  shows "\<exists>events eventID.
    we_history W h (st_workflow_id (pr_status run)) (st_workflow_run_id (pr_status run)) = Inr events \<and>
    precise_boundary W events (ri_activity_id ri) eventID \<and>
    h' = h @ [EvHistory (st_workflow_id (pr_status run)) (st_workflow_run_id (pr_status run)),
      EvReset (ResetRequest (st_workflow_id (pr_status run)) (st_workflow_run_id (pr_status run)) eventID) None] \<and>
    st_workflow_id (pr_status run') = st_workflow_id (pr_status run) \<and>
    we_reset W (h @ [EvHistory (st_workflow_id (pr_status run)) (st_workflow_run_id (pr_status run))])
      (ResetRequest (st_workflow_id (pr_status run)) (st_workflow_run_id (pr_status run)) eventID) =
      Inr (st_workflow_run_id (pr_status run')) \<and>
    st_state (pr_status run') = Run_RUNNING \<and> \<not> sp_kill (pr_spec run') \<and>
    (\<forall>step. GetStep run ExecuteWorkflowStepName = Some step \<longrightarrow>
      (\<exists>step'. GetStep run' ExecuteWorkflowStepName = Some step' \<and>
         si_attempt_details step' = si_attempt_details step @
           [(decimal (length (si_attempt_details step) + 1), attempt_step.truncate step)] \<and>
         si_state step' \<notin> {Step_SUCCEEDED, Step_FAILED, Step_KILLED}))"
proof -
  let ?wid = "st_workflow_id (pr_status run)" and ?rid = "st_workflow_run_id (pr_status run)"
  let ?restart = "\<lambda>rid. run\<lparr>pr_spec := (pr_spec run)\<lparr>sp_kill := False\<rparr>,
      pr_status := (pr_status run)\<lparr>st_state := Run_RUNNING, st_workflow_run_id := rid\<rparr>\<rparr>"
  from assms(1,2) obtain eventID newRunID h1 where
    found: "run_state (findTaskResetEventIDByActivityID W ?wid ?rid (ri_activity_id ri)) h = (Inr eventID, h1)"
    and reset: "we_reset W h1 (ResetRequest ?wid ?rid eventID) = Inr newRunID"
    and h': "h' = h1 @ [EvReset (ResetRequest ?wid ?rid eventID) None]"
    and run': "run' = update_step ExecuteWorkflowStepName (retry_step (ri_activity_id ri)) (?restart newRunID)"
    by (auto simp: processManualRetrySpec_def Let_def map_sum_def elim!: and_then_InrE split: sum.splits)
  from found obtain events where history: "we_history W h ?wid ?rid = Inr events"
    and h1: "h1 = h @ [EvHistory ?wid ?rid]"
    and boundary: "find_reset_event W events (ri_activity_id ri) = Inr eventID"
    by (auto simp: findTaskResetEventIDByActivityID_def map_sum_def elim!: and_then_InrE split: sum.splits)
  have steps: "GetStep run' ExecuteWorkflowStepName =
      map_option (retry_step (ri_activity_id ri)) (GetStep run ExecuteWorkflowStepName)"
    by (simp add: run' GetStep_def [of run])
  have "si_attempt_details (retry_step act step) = si_attempt_details step @
        [(decimal (length (si_attempt_details step) + 1), attempt_step.truncate step)] \<and>
      si_state (retry_step act step) \<notin> {Step_SUCCEEDED, Step_FAILED, Step_KILLED}" for act step
    by (auto simp: retry_step_def Let_def)
  with steps history find_reset_event_precise [OF boundary assms(3) [OF history]] show ?thesis
    by (intro exI [of _ events] exI [of _ eventID]) (use reset in \<open>auto simp: h' h1 run'\<close>)
qed

section \<open>Progress of the tasks\<close>

text \<open>
  The attempts of a task: one driver URL per attempt, named after it, and no attempt twice in a
  row. A report carries at most one attempt.
\<close>

definition attempts_ok :: "leaf_step \<Rightarrow> bool" where
  "attempts_ok s \<longleftrightarrow> map fst (si_resources s) = map attempt_resource_name (si_attempt_ids s) \<and>
     successively (\<noteq>) (si_attempt_ids s)"

definition reported_ok :: "string \<Rightarrow> leaf_step \<Rightarrow> bool" where
  "reported_ok task s \<longleftrightarrow> attempts_ok s \<and> length (si_attempt_ids s) \<le> 1 \<and> si_display_name s = task"

definition steps_ok :: "(string \<times> leaf_step) list \<Rightarrow> bool" where
  "steps_ok steps \<longleftrightarrow> distinct (map fst steps) \<and>
     (\<forall>(task, s)\<in>set steps. si_display_name s = task \<and> attempts_ok s)"

lemma reported_fresh: "reported_ok (tp_task_name tp) (getStepInfoFromTaskProgress W tp ns)"
  by (simp add: reported_ok_def attempts_ok_def getStepInfoFromTaskProgress_def)

lemma reported_enriched:
  "reported_ok task s \<Longrightarrow> gives (reported_ok task) (enrichStepOutput W ns tp s)"
  unfolding enrichStepOutput_def
  by (auto intro!: gives_bind gives_return simp: reported_ok_def attempts_ok_def
      split: sum.splits option.splits)

lemma attempts_merge:
  assumes "attempts_ok old" "attempts_ok new" "length (si_attempt_ids new) \<le> 1"
  shows "attempts_ok (mergePipelineRunStepInfo old new)"
proof (cases "attemptIDAlreadyExists old new")
  case False
  with assms show ?thesis
    by (auto simp: attempts_ok_def mergePipelineRunStepInfo_def merged_resources_def
        attemptIDAlreadyExists_def successively_append_iff)
next
  case True
  with assms(3) obtain a where a: "si_attempt_ids new = [a]" "a = last (si_attempt_ids old)"
    "si_attempt_ids old \<noteq> []"
    by (cases "si_attempt_ids new") (auto simp: attemptIDAlreadyExists_def)
  with assms(2) obtain url where url: "si_resources new = [(attempt_resource_name a, url)]"
    by (auto simp: attempts_ok_def)
  from a(3) assms(1) have old: "si_resources old \<noteq> []" "length (si_resources old) = length (si_attempt_ids old)"
    by (auto simp: attempts_ok_def dest: map_eq_imp_length_eq)
  have "map fst ((si_resources old)[length (si_resources old) - 1 := (attempt_resource_name a, url)]) =
      (map attempt_resource_name (si_attempt_ids old))[length (si_resources old) - 1 := attempt_resource_name a]"
    using assms(1) by (simp add: attempts_ok_def map_update)
  also have "\<dots> = map attempt_resource_name (si_attempt_ids old)"
    using a old by (simp add: map_update [symmetric] list_update_same_conv last_conv_nth)
  finally show ?thesis
    using True a url old assms(1)
    by (simp add: attempts_ok_def mergePipelineRunStepInfo_def merged_resources_def)
qed

lemma fst_put_step:
  "map fst (put_step task s steps) =
     (if task \<in> fst ` set steps then map fst steps else map fst steps @ [task])"
  by (induction task s steps rule: put_step.induct) auto

lemma steps_ok_put:
  assumes "steps_ok steps" "reported_ok task s"
  shows "steps_ok (put_step task s steps)"
proof -
  have "\<forall>(t, x)\<in>set (put_step task s steps). si_display_name x = t \<and> attempts_ok x"
    if "\<forall>(t, x)\<in>set steps. si_display_name x = t \<and> attempts_ok x"
    using that
  proof (induction steps)
    case Nil
    with assms(2) show ?case by (simp add: reported_ok_def)
  next
    case (Cons entry steps)
    obtain t x where entry: "entry = (t, x)" by (cases entry)
    with Cons.prems have x: "si_display_name x = t" "attempts_ok x" by auto
    with assms(2) have "attempts_ok (mergePipelineRunStepInfo x s)"
      by (auto simp: reported_ok_def intro: attempts_merge)
    moreover have "si_display_name (mergePipelineRunStepInfo x s) = task"
      using assms(2) by (simp add: reported_ok_def mergePipelineRunStepInfo_def)
    ultimately show ?case using Cons x entry by auto
  qed
  with assms(1) show ?thesis by (auto simp: steps_ok_def fst_put_step)
qed

text \<open>The tasks a list of reports names.\<close>

definition reported_tasks :: "wf_env \<Rightarrow> string list \<Rightarrow> string set" where
  "reported_tasks W progress =
     {tp_task_name tp | tp p. p \<in> set progress \<and> we_parse_progress W p = Some tp \<and> tp_task_name tp \<noteq> ''''}"

lemma reported_tasks_simps [simp]:
  "reported_tasks W [] = {}"
  "reported_tasks W (p # ps) = (case we_parse_progress W p of
     Some tp \<Rightarrow> (if tp_task_name tp \<noteq> '''' then insert (tp_task_name tp) (reported_tasks W ps)
                 else reported_tasks W ps)
   | None \<Rightarrow> reported_tasks W ps)"
  by (auto simp: reported_tasks_def split: option.splits)

lemma progress_loop_ok:
  "steps_ok steps \<Longrightarrow> gives (\<lambda>out. steps_ok out \<and>
     fst ` set out = fst ` set steps \<union> reported_tasks W progress) (progress_loop W ns progress steps)"
proof (induction W ns progress steps rule: progress_loop.induct)
  case (1 W ns steps)
  then show ?case by (auto intro!: gives_return)
next
  case (2 W ns p rest steps)
  show ?case
  proof (cases "\<exists>tp. we_parse_progress W p = Some tp \<and> tp_task_name tp \<noteq> ''''")
    case False
    with 2 show ?thesis by (auto split: option.splits)
  next
    case True
    then obtain tp where tp: "we_parse_progress W p = Some tp" "tp_task_name tp \<noteq> ''''" by blast
    let ?m = "enrichStepOutput W ns tp (getStepInfoFromTaskProgress W tp ns)"
    have "gives (\<lambda>out. steps_ok out \<and> fst ` set out = fst ` set steps \<union> reported_tasks W (p # rest))
        (State_Monad.bind ?m (\<lambda>step. progress_loop W ns rest (put_step (tp_task_name tp) step steps)))"
    proof (rule gives_bind)
      fix h step h'
      assume "run_state ?m h = (step, h')"
      then have "reported_ok (tp_task_name tp) step"
        by (rule givesD [OF reported_enriched [OF reported_fresh]])
      from steps_ok_put [OF 2(4) this] have ok: "steps_ok (put_step (tp_task_name tp) step steps)" .
      have names: "fst ` set (put_step (tp_task_name tp) step steps) = insert (tp_task_name tp) (fst ` set steps)"
        using arg_cong [OF fst_put_step [of "tp_task_name tp" step steps], of set] by auto
      from 2(3) [OF tp ok] tp
      show "gives (\<lambda>out. steps_ok out \<and> fst ` set out = fst ` set steps \<union> reported_tasks W (p # rest))
          (progress_loop W ns rest (put_step (tp_task_name tp) step steps))"
        by (simp add: names)
    qed
    with tp show ?thesis by simp
  qed
qed

text \<open>
  The progress shown for a run is one step per task that the workflow reported, however
  often it reported it and in whatever order: no task is missing, none appears twice. In each
  step the driver URLs stand beside the attempts in the same order, each named after its
  attempt, and no attempt is listed twice in a row.
\<close>

theorem progress_is_one_step_per_task:
  assumes "run_state (constructPipelineRunStepInfo W run) h = (Inr steps, h')"
    and "we_query W h (st_workflow_id (pr_status run)) (st_workflow_run_id (pr_status run)) = Inr progress"
  shows "distinct (map si_display_name steps) \<and>
    set (map si_display_name steps) = reported_tasks W progress \<and> (\<forall>s\<in>set steps. attempts_ok s)"
proof -
  from assms obtain entries where entries: "steps = map snd entries"
    and loop: "\<exists>h1. run_state (progress_loop W (om_namespace run) progress []) h1 = (entries, h')"
    by (auto simp: constructPipelineRunStepInfo_def Let_def elim!: and_then_InrE split: prod.splits) blast
  from loop obtain h1 where h1: "run_state (progress_loop W (om_namespace run) progress []) h1 = (entries, h')" ..
  have "steps_ok []" by (simp add: steps_ok_def)
  from givesD [OF progress_loop_ok [OF this] h1]
  have ok: "steps_ok entries" and names: "fst ` set entries = reported_tasks W progress" by simp_all
  from ok have "map si_display_name steps = map fst entries"
    by (auto simp: entries steps_ok_def)
  moreover have "\<forall>s\<in>set steps. attempts_ok s" using ok by (auto simp: entries steps_ok_def)
  ultimately show ?thesis using ok names by (simp add: steps_ok_def)
qed

section \<open>Witnesses\<close>

definition idle_wf :: wf_env where
  "idle_wf = example_wf (\<lambda>_. Inl (OtherError ''none''))"

lemma idle_wf_sel [simp]:
  "we_config idle_wf = Inr \<lparr>wc_task_list = ''queue'', wc_domain = '''', wc_execution_url_format = ''''\<rparr>"
  "we_now idle_wf h = 7" "we_blob idle_wf h k = Inr ''tar''"
  "we_get_project idle_wf h ns = Inr example_project"
  "we_exec_info idle_wf h w r = Inr \<lparr>ei_status = WF_Running, ei_run_id = Some r\<rparr>"
  "we_cancel idle_wf h w r = None" "we_history idle_wf h w r = Inr example_history"
  "we_reset idle_wf h q = Inr ''new''" "we_query idle_wf h w r = Inr [''t'', ''u'', ''t'']"
  "we_start idle_wf h i q2 = Inr (''w'', ''x'')" "we_parse_progress idle_wf s = Some (example_report s)"
  "we_scheduled_type idle_wf = ''scheduled''" "we_completed_type idle_wf = ''completed''"
  "we_decision_type idle_wf = ''decision''"
  by (simp_all add: idle_wf_def)

abbreviation staged_run :: "run_spec \<Rightarrow> string \<Rightarrow> step_state \<Rightarrow> pipeline_run" where
  "staged_run spec rid state \<equiv> workflow_run ''r'' spec rid
     [example_step ImageBuildStepName Step_SUCCEEDED [], example_step ExecuteWorkflowStepName state
        [empty_leaf\<lparr>si_display_name := ''t'', si_state := (if state = Step_RUNNING then Step_RUNNING else Step_SUCCEEDED)\<rparr>]]"

lemmas pass_defs = run_state_engineRun runPlugin_def actor_defs SourcePipeline_Retrieve_def
  ImageBuild_Retrieve_def ExecuteWorkflow_Retrieve_def answer_engine_def classify_def


lemmas start_defs = ExecuteWorkflow_Run_def processManualRetrySpec_def retry_requested_def
  ensure_execute_step_def GetWorkflowUrl_def execute_step_def start_or_observe_def start_workflow_def
  getTaskList_def StartWorkflow_def addTaskCacheEnv_def getWorkflowInputs_def
  decodePipelineManifestContent_def manifest_envs_def apply_run_input_def extractWorkflowInputs_def
  input_key_defs of_outcome_def and_then_def uniflow_tar_def

theorem pass_stores_conditions_witness:
  "\<exists>run' h'. run_state (runPlugin (NewPlugin idle_wf) (staged_run example_spec ''x'' Step_SUCCEEDED)) [] =
     ((Inr None, run'), h') \<and>
   (\<exists>c. GetCondition ImageBuildType (run_GetConditions run') = Some c \<and> c_status c = CS_TRUE)"
proof -
  let ?run = "staged_run example_spec ''x'' Step_SUCCEEDED"
  obtain run' h' where pass: "run_state (runPlugin (NewPlugin idle_wf) ?run) [] = ((Inr None, run'), h')"
    by (auto simp: pass_defs retry_requested_def)
  from pass_stores_conditions [OF pass] pass show ?thesis by auto
qed

theorem workflow_starts_prepared_witness:
  "\<exists>res run' e t. run_state (engineRun (NewPlugin idle_wf)
       (workflow_run ''r'' example_spec '''' [example_step ImageBuildStepName Step_SUCCEEDED []])) [] =
     ((res, run'), t) \<and> e \<in> set t \<and> start_event e \<and>
     workflow_running run' \<and> st_workflow_id (pr_status run') = ''w''"
proof -
  let ?run = "workflow_run ''r'' example_spec '''' [example_step ImageBuildStepName Step_SUCCEEDED []]"
  obtain res run' args kwArgs envs where pass: "run_state (engineRun (NewPlugin idle_wf) ?run) [] =
      ((res, run'), [] @ [EvGetProject ''ns'', EvBlobGet ''tar'', EvStartWorkflow ''r'' ''queue'' args kwArgs envs])"
    by (auto simp: pass_defs start_defs idle_wf_def map_index_def Let_def)
  let ?e = "EvStartWorkflow ''r'' ''queue'' args kwArgs envs"
  from workflow_starts_prepared [OF pass, of ?e] have "workflow_running run'" "st_workflow_id (pr_status run') = ''w''"
    by auto
  with pass show ?thesis by (intro exI [of _ res] exI [of _ run'] exI [of _ ?e]) auto
qed

theorem ended_workflows_leave_no_running_task_witness:
  "\<exists>res run' h'. run_state (engineRun (NewPlugin (idle_wf\<lparr>we_exec_info :=
       (\<lambda>h w r. Inr \<lparr>ei_status = WF_Failed, ei_run_id = Some r\<rparr>)\<rparr>))
       (staged_run example_spec ''x'' Step_RUNNING)) [] = ((res, run'), h') \<and> settled run'"
proof -
  let ?W = "idle_wf\<lparr>we_exec_info := (\<lambda>h w r. Inr \<lparr>ei_status = WF_Failed, ei_run_id = Some r\<rparr>)\<rparr>"
  obtain res run' h' where pass:
    "run_state (engineRun (NewPlugin ?W) (staged_run example_spec ''x'' Step_RUNNING)) [] = ((res, run'), h')"
    by (metis prod.exhaust)
  have "settled (staged_run example_spec ''x'' Step_RUNNING)" by (simp add: settled_def)
  from ended_workflows_leave_no_running_task [OF pass this] pass show ?thesis by blast
qed

theorem kill_cancels_the_workflow_witness:
  "\<exists>res run' h'. run_state (engineRun (NewPlugin idle_wf)
       (staged_run (example_spec\<lparr>sp_kill := True\<rparr>) ''x'' Step_RUNNING)) [] = ((res, run'), h') \<and>
     (\<exists>refused. h' = [EvExecInfo ''x'' ''x'', EvCancel ''x'' ''x'' refused] \<and> er_terminal res)"
proof -
  let ?run = "staged_run (example_spec\<lparr>sp_kill := True\<rparr>) ''x'' Step_RUNNING"
  obtain res run' h' where pass: "run_state (engineRun (NewPlugin idle_wf) ?run) [] = ((res, run'), h')"
    by (metis prod.exhaust)
  have "killable ?run"
    by (simp add: killable_def image_resolved_def workflow_running_def retry_requested_def)
  from kill_cancels_the_workflow [OF pass this, of "\<lparr>ei_status = WF_Running, ei_run_id = Some ''x''\<rparr>"] pass
  show ?thesis by auto
qed

definition retry_spec :: run_spec where
  "retry_spec = example_spec\<lparr>sp_kill := True,
     sp_retry := Some \<lparr>ri_activity_id = ''a'', ri_workflow_run_id = ''x'', ri_reason = ''''\<rparr>\<rparr>"

theorem retry_resets_before_the_activity_witness:
  "\<exists>run' h'. run_state (processManualRetrySpec idle_wf (staged_run retry_spec ''x'' Step_FAILED)) [] =
     (Inr run', h') \<and> \<not> sp_kill (pr_spec run') \<and> st_workflow_run_id (pr_status run') = ''new'' \<and>
     h' = [EvHistory ''x'' ''x'', EvReset (ResetRequest ''x'' ''x'' 1) None]"
proof -
  let ?run = "staged_run retry_spec ''x'' Step_FAILED"
  let ?ri = "\<lparr>ri_activity_id = ''a'', ri_workflow_run_id = ''x'', ri_reason = ''''\<rparr>"
  have requested: "retry_requested ?run = Some ?ri" by (simp add: retry_requested_def retry_spec_def)
  have "find_reset_event idle_wf example_history ''a'' = Inr 1"
    by (simp add: find_reset_event_def scheduled_event_id_def reset_event_id_def example_history_def Let_def)
  with requested obtain run' h' where answer: "run_state (processManualRetrySpec idle_wf ?run) [] = (Inr run', h')"
    and h': "h' = [EvHistory ''x'' ''x'', EvReset (ResetRequest ''x'' ''x'' 1) None]"
    by (auto simp: processManualRetrySpec_def findTaskResetEventIDByActivityID_def and_then_def Let_def)
  have "sorted_wrt (<) (map he_id example_history)" by (simp add: example_history_def)
  with retry_resets_before_the_activity [OF requested answer] have "\<not> sp_kill (pr_spec run')"
    "st_workflow_run_id (pr_status run') = ''new''" by auto
  with answer h' show ?thesis by blast
qed

theorem progress_is_one_step_per_task_witness:
  "\<exists>steps h'. run_state (constructPipelineRunStepInfo idle_wf (staged_run example_spec ''x'' Step_RUNNING)) [] =
     (Inr steps, h') \<and> set (map si_display_name steps) = {''t'', ''u''} \<and> distinct (map si_display_name steps)"
proof -
  let ?run = "staged_run example_spec ''x'' Step_RUNNING"
  obtain steps h' where answer: "run_state (constructPipelineRunStepInfo idle_wf ?run) [] = (Inr steps, h')"
    by (auto simp: constructPipelineRunStepInfo_def and_then_def Let_def example_report_def enrichStepOutput_def)
  have "reported_tasks idle_wf [''t'', ''u'', ''t''] = {''t'', ''u''}"
    by (auto simp: example_report_def)
  with progress_is_one_step_per_task [OF answer, of "[''t'', ''u'', ''t'']"] answer show ?thesis by auto
qed

end
