(* ===== verification/Job_Queue.thy ===== *)
theory Job_Queue
  imports Prelude
begin

text \<open>
  The scheduler's job queue (\<^verbatim>\<open>go/components/jobs/common/scheduler/queue.go\<close>): a buffered
  channel with two sets of keys that keep a job from being queued twice, guarded by a mutex.
  Producers (\<^verbatim>\<open>Add\<close>, under the mutex) run beside the one scheduler loop (\<^verbatim>\<open>Get\<close>, which takes the
  mutex only after it has received, and \<^verbatim>\<open>Done\<close>), so the queue is a step relation whose steps are
  the operations cut at the points where another thread may come between. The contract of a
  job queue is the locale \<open>fifo_queue\<close>.
\<close>

section \<open>Jobs\<close>

datatype job_type = SparkJob | RayJob | RayCluster

record queue_job =
  qj_name :: string
  qj_namespace :: string
  qj_generation :: int
  qj_type :: job_type

definition NewSchedulableJob :: "string \<Rightarrow> string \<Rightarrow> int \<Rightarrow> job_type \<Rightarrow> queue_job" where
  "NewSchedulableJob name namespace generation jobType =
     \<lparr>qj_name = name, qj_namespace = namespace, qj_generation = generation, qj_type = jobType\<rparr>"

definition getKey :: "queue_job \<Rightarrow> string" where
  "getKey obj = qj_namespace obj @ qj_name obj @ FormatInt (qj_generation obj)"

section \<open>The contract of a job queue\<close>

text \<open>
  What a queue of jobs promises, whoever implements it. Abstractly it holds the pending jobs in
  order and the one being processed. An operation is observed as one of the events below; any
  other step is invisible.
\<close>

datatype 'j queue_event = Enqueued 'j | Refused 'j | Dequeued 'j | Finished 'j | Internal

type_synonym 'j abs_queue = "'j list \<times> 'j option"

fun in_queue :: "('j \<Rightarrow> string) \<Rightarrow> string \<Rightarrow> 'j abs_queue \<Rightarrow> bool" where
  "in_queue key k (pending, active) \<longleftrightarrow> k \<in> key ` set pending \<or> k \<in> key ` set_option active"

fun abs_step :: "('j \<Rightarrow> string) \<Rightarrow> 'j abs_queue \<Rightarrow> 'j queue_event \<Rightarrow> 'j abs_queue \<Rightarrow> bool" where
  "abs_step key q (Enqueued j) q' \<longleftrightarrow> \<not> in_queue key (key j) q \<and> q' = (fst q @ [j], snd q)"
| "abs_step key q (Refused j) q' \<longleftrightarrow> in_queue key (key j) q \<and> q' = q"
| "abs_step key q (Dequeued j) q' \<longleftrightarrow> fst q = j # fst q' \<and> snd q = None \<and> snd q' = Some j"
| "abs_step key q (Finished j) q' \<longleftrightarrow> snd q = Some j \<and> q' = (fst q, None)"
| "abs_step key q Internal q' \<longleftrightarrow> q' = q"

text \<open>Runs of a step relation, with the events they show.\<close>

inductive runs :: "('s \<Rightarrow> 'e \<Rightarrow> 's \<Rightarrow> bool) \<Rightarrow> 's \<Rightarrow> 'e list \<Rightarrow> 's \<Rightarrow> bool" for step s where
  runs_nil: "runs step s [] s"
| runs_snoc: "runs step s es s' \<Longrightarrow> step s' e s'' \<Longrightarrow> runs step s (es @ [e]) s''"

fun enqueued :: "'j queue_event list \<Rightarrow> 'j list" where
  "enqueued [] = []"
| "enqueued (Enqueued j # es) = j # enqueued es"
| "enqueued (_ # es) = enqueued es"

fun dequeued :: "'j queue_event list \<Rightarrow> 'j list" where
  "dequeued [] = []"
| "dequeued (Dequeued j # es) = j # dequeued es"
| "dequeued (_ # es) = dequeued es"

lemma enqueued_append [simp]: "enqueued (es @ fs) = enqueued es @ enqueued fs"
  by (induction es rule: enqueued.induct) simp_all

lemma dequeued_append [simp]: "dequeued (es @ fs) = dequeued es @ dequeued fs"
  by (induction es rule: dequeued.induct) simp_all

text \<open>The keys the queue holds; no two of its jobs have the same.\<close>

definition held_keys :: "('j \<Rightarrow> string) \<Rightarrow> 'j abs_queue \<Rightarrow> string list" where
  "held_keys key q = map key (fst q) @ (case snd q of None \<Rightarrow> [] | Some j \<Rightarrow> [key j])"

locale fifo_queue =
  fixes key :: "'j \<Rightarrow> string"
    and init :: 's
    and step :: "'s \<Rightarrow> 'j queue_event \<Rightarrow> 's \<Rightarrow> bool"
    and contents :: "'s \<Rightarrow> 'j abs_queue"
  assumes starts_empty: "contents init = ([], None)"
    and refines: "runs step init es s \<Longrightarrow> step s e s' \<Longrightarrow> abs_step key (contents s) e (contents s')"
begin

text \<open>Jobs leave in the order they came, none is lost and none is made up.\<close>

lemma fifo: "runs step init es s \<Longrightarrow> enqueued es = dequeued es @ fst (contents s)"
proof (induction rule: runs.induct)
  case (runs_nil)
  then show ?case by (simp add: starts_empty)
next
  case (runs_snoc es s e s')
  from refines [OF runs_snoc.hyps] runs_snoc.IH show ?case by (cases e) auto
qed

text \<open>No two jobs of the queue, pending or being processed, share a key.\<close>

lemma held_once: "runs step init es s \<Longrightarrow> distinct (held_keys key (contents s))"
proof (induction rule: runs.induct)
  case (runs_nil)
  then show ?case by (simp add: starts_empty held_keys_def)
next
  case (runs_snoc es s e s')
  from refines [OF runs_snoc.hyps] runs_snoc.IH show ?case
    by (cases e; cases "contents s"; cases "contents s'") (auto simp: held_keys_def split: option.splits)
qed

text \<open>A job is refused exactly when a job with its key is in the queue.\<close>

lemma refused_iff_held:
  assumes "runs step init es s" "step s e s'"
  shows "e = Enqueued j \<Longrightarrow> key j \<notin> set (held_keys key (contents s))"
    and "e = Refused j \<Longrightarrow> key j \<in> set (held_keys key (contents s))"
  using refines [OF assms] by (cases "contents s"; auto simp: held_keys_def split: option.splits)+

end

section \<open>The channel queue\<close>

text \<open>
  The queue and the place each thread has reached. A producer that is not idle holds the mutex:
  it has found its key absent and waits at the channel (\<open>Sending\<close>), or it has sent and still
  has to mark the key (\<open>Sent\<close>). The scheduler loop has received a job and waits for the mutex
  (\<open>Received\<close>), or processes it.
\<close>

datatype producer = Idle | Sending queue_job | Sent queue_job

datatype consumer = Waiting | Received queue_job | Processing queue_job

record channel_queue =
  cq_q :: "queue_job list"
  cq_dirty :: "string set"
  cq_processing :: "string set"
  cq_producer :: producer
  cq_consumer :: consumer

definition queueSize :: nat where "queueSize = 2000"

definition New :: channel_queue where
  "New = \<lparr>cq_q = [], cq_dirty = {}, cq_processing = {}, cq_producer = Idle, cq_consumer = Waiting\<rparr>"

text \<open>\<^verbatim>\<open>Length\<close>: what waits in the channel and what is being processed.\<close>

definition Length :: "channel_queue \<Rightarrow> nat" where
  "Length cq = length (cq_q cq) + card (cq_processing cq)"

text \<open>The check of \<^verbatim>\<open>Add\<close>.\<close>

definition already_exists :: "channel_queue \<Rightarrow> queue_job \<Rightarrow> bool" where
  "already_exists cq obj \<longleftrightarrow> getKey obj \<in> cq_dirty cq \<or> getKey obj \<in> cq_processing cq"

text \<open>
  The steps. \<^verbatim>\<open>Add\<close> takes the mutex and answers \<^verbatim>\<open>ErrJobAlreadyExists\<close> or goes on to send; the
  send needs room in the channel, and the context may end while it waits; after the send the
  key is marked and the mutex released. \<^verbatim>\<open>Get\<close> receives without the mutex, then takes it to move
  the key from \<^verbatim>\<open>dirty\<close> to \<^verbatim>\<open>processing\<close>. \<^verbatim>\<open>Done\<close> takes the mutex to release the key.
\<close>

inductive cq_step :: "channel_queue \<Rightarrow> queue_job queue_event \<Rightarrow> channel_queue \<Rightarrow> bool" where
  add_refuse: "cq_producer cq = Idle \<Longrightarrow> already_exists cq obj \<Longrightarrow> cq_step cq (Refused obj) cq"
| add_check: "cq_producer cq = Idle \<Longrightarrow> \<not> already_exists cq obj \<Longrightarrow>
    cq_step cq Internal (cq\<lparr>cq_producer := Sending obj\<rparr>)"
| add_send: "cq_producer cq = Sending obj \<Longrightarrow> length (cq_q cq) < queueSize \<Longrightarrow>
    cq_step cq (Enqueued obj) (cq\<lparr>cq_q := cq_q cq @ [obj], cq_producer := Sent obj\<rparr>)"
| add_timeout: "cq_producer cq = Sending obj \<Longrightarrow> cq_step cq Internal (cq\<lparr>cq_producer := Idle\<rparr>)"
| add_mark: "cq_producer cq = Sent obj \<Longrightarrow>
    cq_step cq Internal (cq\<lparr>cq_dirty := insert (getKey obj) (cq_dirty cq), cq_producer := Idle\<rparr>)"
| get_receive: "cq_consumer cq = Waiting \<Longrightarrow> cq_q cq = obj # rest \<Longrightarrow>
    cq_step cq (Dequeued obj) (cq\<lparr>cq_q := rest, cq_consumer := Received obj\<rparr>)"
| get_mark: "cq_consumer cq = Received obj \<Longrightarrow> cq_producer cq = Idle \<Longrightarrow>
    cq_step cq Internal (cq\<lparr>cq_dirty := cq_dirty cq - {getKey obj},
      cq_processing := insert (getKey obj) (cq_processing cq), cq_consumer := Processing obj\<rparr>)"
| finish: "cq_consumer cq = Processing obj \<Longrightarrow> cq_producer cq = Idle \<Longrightarrow>
    cq_step cq (Finished obj) (cq\<lparr>cq_processing := cq_processing cq - {getKey obj}, cq_consumer := Waiting\<rparr>)"

code_pred cq_step .

inductive_cases cq_stepE: "cq_step cq e cq'"

inductive_simps cq_step_full: "cq_step cq (Enqueued obj) cq'"

text \<open>The abstract queue a state stands for.\<close>

definition active_job :: "consumer \<Rightarrow> queue_job option" where
  "active_job c = (case c of Waiting \<Rightarrow> None | Received obj \<Rightarrow> Some obj | Processing obj \<Rightarrow> Some obj)"

definition cq_contents :: "channel_queue \<Rightarrow> queue_job abs_queue" where
  "cq_contents cq = (cq_q cq, active_job (cq_consumer cq))"

lemma active_job_simps [simp]:
  "active_job Waiting = None" "active_job (Received obj) = Some obj" "active_job (Processing obj) = Some obj"
  by (simp_all add: active_job_def)

text \<open>
  The invariant. The marked keys are those of the pending jobs and of a job just received,
  except the one a producer is about to mark; the processing keys are that of the job being
  processed. No key is held twice.
\<close>

definition unmarked :: "channel_queue \<Rightarrow> string set" where
  "unmarked cq = (case cq_producer cq of Sent obj \<Rightarrow> {getKey obj} | _ \<Rightarrow> {})"

definition waiting_keys :: "channel_queue \<Rightarrow> string set" where
  "waiting_keys cq = getKey ` set (cq_q cq) \<union>
     (case cq_consumer cq of Received obj \<Rightarrow> {getKey obj} | _ \<Rightarrow> {})"

definition cq_inv :: "channel_queue \<Rightarrow> bool" where
  "cq_inv cq \<longleftrightarrow>
     distinct (held_keys getKey (cq_contents cq)) \<and>
     cq_dirty cq = waiting_keys cq - unmarked cq \<and>
     cq_processing cq = (case cq_consumer cq of Processing obj \<Rightarrow> {getKey obj} | _ \<Rightarrow> {}) \<and>
     length (cq_q cq) \<le> queueSize \<and>
     (\<forall>obj. cq_producer cq = Sending obj \<longrightarrow> getKey obj \<notin> set (held_keys getKey (cq_contents cq))) \<and>
     (\<forall>obj. cq_producer cq = Sent obj \<longrightarrow> getKey obj \<in> waiting_keys cq)"

lemma cq_inv_New: "cq_inv New"
  by (simp add: cq_inv_def New_def cq_contents_def held_keys_def unmarked_def waiting_keys_def)

text \<open>While no producer is at work, the marked and processing keys are exactly those held.\<close>

lemma already_exists_held:
  assumes "cq_inv cq" "cq_producer cq = Idle"
  shows "already_exists cq obj \<longleftrightarrow> getKey obj \<in> set (held_keys getKey (cq_contents cq))"
  using assms
  by (cases "cq_consumer cq") (auto simp: cq_inv_def already_exists_def held_keys_def cq_contents_def unmarked_def waiting_keys_def)

lemmas cq_defs = cq_inv_def held_keys_def cq_contents_def unmarked_def waiting_keys_def

text \<open>Every step keeps the invariant and is a step of the abstract queue.\<close>

lemma cq_step_inv:
  assumes "cq_step cq e cq'" "cq_inv cq"
  shows "cq_inv cq'"
  using assms
proof (cases rule: cq_step.cases)
  case (add_refuse obj)
  with assms(2) show ?thesis by simp
next
  case (add_check obj)
  from already_exists_held [OF assms(2) add_check(3)] add_check assms(2) show ?thesis
    by (auto simp: cq_defs)
next
  case (add_send obj)
  with assms(2) show ?thesis by (auto simp: cq_defs split: consumer.splits)
next
  case (add_timeout obj)
  with assms(2) show ?thesis by (auto simp: cq_defs)
next
  case (add_mark obj)
  with assms(2) show ?thesis by (auto simp: cq_defs)
next
  case (get_receive obj rest)
  with assms(2) show ?thesis by (auto simp: cq_defs split: producer.splits)
next
  case (get_mark obj)
  with assms(2) show ?thesis by (auto simp: cq_defs)
next
  case (finish obj)
  with assms(2) show ?thesis by (auto simp: cq_defs)
qed

lemma cq_step_refines:
  assumes "cq_step cq e cq'" "cq_inv cq"
  shows "abs_step getKey (cq_contents cq) e (cq_contents cq')"
  using assms
proof (cases rule: cq_step.cases)
  case (add_refuse obj)
  with already_exists_held [OF assms(2) add_refuse(3)] show ?thesis
    by (auto simp: held_keys_def cq_contents_def split: option.splits)
next
  case (add_send obj)
  with assms(2) show ?thesis by (auto simp: cq_defs split: option.splits)
qed (auto simp: cq_contents_def)

lemma cq_runs_inv: "runs cq_step New es cq \<Longrightarrow> cq_inv cq"
  by (induction rule: runs.induct) (auto intro: cq_inv_New cq_step_inv)

interpretation channel: fifo_queue getKey New cq_step cq_contents
proof unfold_locales
  show "cq_contents New = ([], None)" by (simp add: cq_contents_def New_def)
next
  fix es cq e cq'
  assume "runs cq_step New es cq" "cq_step cq e cq'"
  then show "abs_step getKey (cq_contents cq) e (cq_contents cq')"
    by (auto intro: cq_step_refines cq_runs_inv)
qed


text \<open>The jobs the queue answers for: those in the channel and the one the loop has in hand.\<close>

definition held_jobs :: "channel_queue \<Rightarrow> queue_job list" where
  "held_jobs cq = cq_q cq @
     (case cq_consumer cq of Waiting \<Rightarrow> [] | Received obj \<Rightarrow> [obj] | Processing obj \<Rightarrow> [obj])"

lemma held_keys_held_jobs: "held_keys getKey (cq_contents cq) = map getKey (held_jobs cq)"
  by (simp add: held_keys_def held_jobs_def cq_contents_def split: consumer.splits)

lemma Length_held: "cq_inv cq \<Longrightarrow> Length cq \<le> length (held_jobs cq)"
  by (auto simp: Length_def cq_inv_def held_jobs_def split: consumer.splits)

lemma held_jobs_bound: "cq_inv cq \<Longrightarrow> length (held_jobs cq) \<le> Suc queueSize"
  by (auto simp: cq_inv_def held_jobs_def split: consumer.splits)

section \<open>Properties\<close>


text \<open>At every moment the jobs in the channel and the one the loop has in hand have pairwise
  different keys, and there are at most 2001 of them; \<open>Add\<close> sends a job only when none of them
  has its key, and answers \<open>ErrJobAlreadyExists\<close> only when one has. Deduplication holds although
  \<open>Get\<close> receives a job before it takes the mutex.\<close>

theorem job_queue_admits_a_key_once:
  assumes "runs cq_step New es cq"
  shows "distinct (map getKey (held_jobs cq)) \<and> length (held_jobs cq) \<le> Suc queueSize \<and>
    (\<forall>obj cq'. cq_step cq (Enqueued obj) cq' \<longrightarrow> getKey obj \<notin> getKey ` set (held_jobs cq)) \<and>
    (\<forall>obj cq'. cq_step cq (Refused obj) cq' \<longrightarrow> getKey obj \<in> getKey ` set (held_jobs cq))"
  using channel.held_once [OF assms] channel.refused_iff_held [OF assms]
    held_jobs_bound [OF cq_runs_inv [OF assms]]
  by (auto simp: held_keys_held_jobs)

text \<open>A history: one job is accepted, received by the loop, and refused when it comes again.\<close>

definition example_job :: queue_job where
  "example_job = NewSchedulableJob ''train'' ''prod'' 3 RayCluster"

definition example_sending :: channel_queue where
  "example_sending = New\<lparr>cq_producer := Sending example_job\<rparr>"

definition example_sent :: channel_queue where
  "example_sent = New\<lparr>cq_q := [example_job], cq_producer := Sent example_job\<rparr>"

definition example_pending :: channel_queue where
  "example_pending = New\<lparr>cq_q := [example_job], cq_dirty := {getKey example_job}\<rparr>"

definition example_received :: channel_queue where
  "example_received = New\<lparr>cq_dirty := {getKey example_job}, cq_consumer := Received example_job\<rparr>"

lemmas example_queue_defs =
  example_sending_def example_sent_def example_pending_def example_received_def New_def

lemma example_history:
  "runs cq_step New [Internal, Enqueued example_job, Internal, Dequeued example_job] example_received"
proof -
  have s1: "cq_step New Internal example_sending"
    using cq_step.add_check [of New example_job]
    by (simp add: already_exists_def example_queue_defs)
  have s2: "cq_step example_sending (Enqueued example_job) example_sent"
    using cq_step.add_send [of example_sending example_job]
    by (simp add: example_queue_defs queueSize_def)
  have s3: "cq_step example_sent Internal example_pending"
    using cq_step.add_mark [of example_sent example_job] by (simp add: example_queue_defs)
  have s4: "cq_step example_pending (Dequeued example_job) example_received"
    using cq_step.get_receive [of example_pending example_job "[]"] by (simp add: example_queue_defs)
  note snoc = runs_snoc [of cq_step New]
  from snoc [OF snoc [OF snoc [OF snoc [OF runs_nil s1] s2] s3] s4] show ?thesis by simp
qed


theorem job_queue_admits_a_key_once_witness:
  "runs cq_step New [Internal, Enqueued example_job, Internal, Dequeued example_job] example_received \<and>
   distinct (map getKey (held_jobs example_received)) \<and> held_jobs example_received = [example_job]"
  using job_queue_admits_a_key_once [OF example_history] example_history
  by (simp add: held_jobs_def example_queue_defs)

text \<open>\<open>Add\<close> keeps the mutex while it waits for room in the channel. So when the channel is full
  and the scheduler loop has a job in hand, the loop can neither mark the key of a job it has
  received nor finish the one it processes: the only step left is that the context of the
  blocked \<open>Add\<close> ends, and its job is not queued.\<close>

theorem full_queue_waits_for_the_timeout:
  assumes "cq_producer cq = Sending obj" "length (cq_q cq) = queueSize" "cq_consumer cq \<noteq> Waiting"
  shows "cq_step cq e cq' \<longleftrightarrow> e = Internal \<and> cq' = cq\<lparr>cq_producer := Idle\<rparr>"
  using assms by (auto elim!: cq_stepE intro: cq_step.intros)

theorem full_queue_waits_for_the_timeout_witness:
  "cq_step (New\<lparr>cq_q := replicate 2000 example_job, cq_producer := Sending example_job,
      cq_consumer := Received example_job\<rparr>) Internal
    (New\<lparr>cq_q := replicate 2000 example_job, cq_producer := Idle, cq_consumer := Received example_job\<rparr>)"
  using full_queue_waits_for_the_timeout [of "New\<lparr>cq_q := replicate 2000 example_job,
      cq_producer := Sending example_job, cq_consumer := Received example_job\<rparr>" example_job Internal
    "New\<lparr>cq_q := replicate 2000 example_job, cq_producer := Idle, cq_consumer := Received example_job\<rparr>"]
  by (simp add: queueSize_def)

text \<open>
  The key of a job is a concatenation without separators, so different jobs can share one. A
  job is then refused because another is queued.
\<close>

lemma digit_chars: "char_of (49::nat) = CHR ''1''" "char_of (50::nat) = CHR ''2''"
  by code_simp+

lemma keys_collide:
  "getKey (NewSchedulableJob ''c'' ''ab'' g t) = getKey (NewSchedulableJob ''bc'' ''a'' g t)"
  "getKey (NewSchedulableJob ''a1'' ns 2 t) = getKey (NewSchedulableJob ''a'' ns 12 t)"
  by (simp_all add: getKey_def NewSchedulableJob_def FormatInt_def decimal.simps [of 12] decimal.simps [of 2] decimal.simps [of "Suc 0"]
    digit_chars)

end
