(* ===== verification/Job_Utils.thy ===== *)
theory Job_Utils
  imports Conditions Job_Queue
begin

text \<open>
  What the job controllers share (\<^verbatim>\<open>go/components/jobs/common/utils\<close>): conditions that carry
  metadata and are created on first use, the jobs themselves as far as the controllers read or
  write them (\<^verbatim>\<open>proto/api/v2/ray_cluster.proto\<close>, \<^verbatim>\<open>spark_job.proto\<close>), the environment the
  controllers talk to, and the status update that retries on a fresh copy of the object.
\<close>

section \<open>Conditions\<close>

text \<open>The same \<^verbatim>\<open>api.Condition\<close> as the condition engine's.\<close>

type_synonym job_condition = condition

definition UnknownCondition :: "string \<Rightarrow> job_condition" where
  "UnknownCondition name = mk_condition name CS_UNKNOWN"

text \<open>
  \<^verbatim>\<open>GetCondition\<close> returns a pointer into the list and appends a condition when it finds none:
  here it returns the condition and the list after the call, and \<open>write_condition\<close> is an
  assignment through the pointer.
\<close>

fun FindOrAddCondition :: "string \<Rightarrow> job_condition list \<Rightarrow> job_condition \<times> job_condition list" where
  "FindOrAddCondition name [] = (UnknownCondition name, [UnknownCondition name])"
| "FindOrAddCondition name (c # cs) =
     (if c_type c = name then (c, c # cs)
      else (case FindOrAddCondition name cs of (d, ds) \<Rightarrow> (d, c # ds)))"

fun write_condition :: "string \<Rightarrow> job_condition \<Rightarrow> job_condition list \<Rightarrow> job_condition list" where
  "write_condition name d [] = []"
| "write_condition name d (c # cs) = (if c_type c = name then d # cs else c # write_condition name d cs)"

record condition_update =
  cu_status :: condition_status
  cu_reason :: string
  cu_generation :: int
  cu_message :: string
  cu_metadata :: "any_message option"

text \<open>A literal \<^verbatim>\<open>ConditionUpdateParams\<close> that sets status and reason only, and one with the
  generation too.\<close>

definition status_and_reason :: "condition_status \<Rightarrow> string \<Rightarrow> condition_update" where
  "status_and_reason s r =
     \<lparr>cu_status = s, cu_reason = r, cu_generation = 0, cu_message = '''', cu_metadata = None\<rparr>"

definition with_generation :: "condition_status \<Rightarrow> string \<Rightarrow> int \<Rightarrow> condition_update" where
  "with_generation s r g = (status_and_reason s r)\<lparr>cu_generation := g\<rparr>"

definition UpdateCondition :: "int \<Rightarrow> condition_update \<Rightarrow> job_condition \<Rightarrow> job_condition" where
  "UpdateCondition now p c = c\<lparr>c_status := cu_status p, c_reason := cu_reason p,
     c_observed_generation := cu_generation p, c_message := cu_message p,
     c_metadata := cu_metadata p, c_last_updated := now\<rparr>"

text \<open>The idiom \<^verbatim>\<open>UpdateCondition(GetCondition(&conditions, name), p)\<close>.\<close>

definition SetCondition :: "int \<Rightarrow> string \<Rightarrow> condition_update \<Rightarrow> job_condition list \<Rightarrow> job_condition list" where
  "SetCondition now name p cs =
     (case FindOrAddCondition name cs of (c, cs') \<Rightarrow> write_condition name (UpdateCondition now p c) cs')"

definition status_of :: "string \<Rightarrow> job_condition list \<Rightarrow> condition_status" where
  "status_of name cs = c_status (fst (FindOrAddCondition name cs))"

definition ScheduledCondition :: string where "ScheduledCondition = ''Scheduled''"

definition IsJobScheduled :: "job_condition list \<Rightarrow> bool" where
  "IsJobScheduled cs \<longleftrightarrow> status_of ScheduledCondition cs = CS_TRUE"

lemma update_params_sel [simp]:
  "cu_status (status_and_reason s r) = s" "cu_reason (status_and_reason s r) = r"
  "cu_generation (status_and_reason s r) = 0" "cu_metadata (status_and_reason s r) = None"
  "cu_status (with_generation s r g) = s" "cu_reason (with_generation s r g) = r"
  "cu_generation (with_generation s r g) = g" "cu_metadata (with_generation s r g) = None"
  by (simp_all add: status_and_reason_def with_generation_def)

lemma UpdateCondition_sel [simp]:
  "c_type (UpdateCondition now p c) = c_type c" "c_status (UpdateCondition now p c) = cu_status p"
  "c_reason (UpdateCondition now p c) = cu_reason p"
  "c_observed_generation (UpdateCondition now p c) = cu_generation p"
  "c_metadata (UpdateCondition now p c) = cu_metadata p"
  by (simp_all add: UpdateCondition_def)

lemma UnknownCondition_sel [simp]:
  "c_type (UnknownCondition name) = name" "c_status (UnknownCondition name) = CS_UNKNOWN"
  "c_observed_generation (UnknownCondition name) = 0" "c_metadata (UnknownCondition name) = None"
  by (simp_all add: UnknownCondition_def mk_condition_def)

lemma FindOrAddCondition_type [simp]: "c_type (fst (FindOrAddCondition name cs)) = name"
  by (induction cs) (auto split: prod.splits)

text \<open>Creating the condition changes no answer.\<close>

lemma Find_after_add [simp]:
  "fst (FindOrAddCondition m (snd (FindOrAddCondition name cs))) = fst (FindOrAddCondition m cs)"
  by (induction cs) (auto simp: case_prod_beta)

lemma status_of_add [simp]: "status_of m (snd (FindOrAddCondition name cs)) = status_of m cs"
  by (simp add: status_of_def)

lemma Find_write:
  "c_type d = name \<Longrightarrow> fst (FindOrAddCondition m (write_condition name d (snd (FindOrAddCondition name cs)))) =
     (if m = name then d else fst (FindOrAddCondition m cs))"
  by (induction cs) (auto simp: case_prod_beta)

lemma Find_SetCondition [simp]:
  "fst (FindOrAddCondition m (SetCondition now name p cs)) =
     (if m = name then UpdateCondition now p (fst (FindOrAddCondition name cs))
      else fst (FindOrAddCondition m cs))"
  by (simp add: SetCondition_def case_prod_beta Find_write)

lemma status_of_SetCondition [simp]:
  "status_of m (SetCondition now name p cs) = (if m = name then cu_status p else status_of m cs)"
  by (simp add: status_of_def)


section \<open>Jobs\<close>

text \<open>Enumerations keep unknown numbers, as the Go types do.\<close>

datatype termination_type = TT_INVALID | TT_SUCCEEDED | TT_FAILED | TT_OTHER int

record termination_spec =
  te_type :: termination_type
  te_reason :: string

datatype ray_cluster_state =
    RAY_INVALID | RAY_PROVISIONING | RAY_READY | RAY_TERMINATING | RAY_TERMINATED | RAY_FAILED
  | RAY_UNKNOWN | RAY_UNHEALTHY | RAY_OTHER int

record assignment_info =
  ai_resource_pool :: string
  ai_cluster :: string

record pod_error =
  pe_name :: string
  pe_container_name :: string
  pe_exit_code :: int
  pe_reason :: string
  pe_message :: string

text \<open>The spec beyond the termination is opaque to the controllers.\<close>

record ray_cluster_spec =
  rs_termination :: "termination_spec option"
  rs_definition :: string

record ray_cluster_status =
  rt_state :: ray_cluster_state
  rt_assignment :: "assignment_info option"
  rt_conditions :: "job_condition list"
  rt_pod_errors :: "pod_error list"
  rt_log_url :: string

record ray_cluster = obj_meta +
  rc_spec :: ray_cluster_spec
  rc_status :: ray_cluster_status

text \<open>\<^verbatim>\<open>Affinity\<close>, with its nested pointers; a label selector is its \<^verbatim>\<open>MatchLabels\<close>.\<close>

record label_selector =
  ls_match_labels :: gomap

record resource_affinity =
  ra_selector :: "label_selector option"

record affinity =
  af_resource_affinity :: "resource_affinity option"

record spark_job_spec =
  ss_affinity :: "affinity option"
  ss_definition :: string

record spark_job_status =
  sj_assignment :: "assignment_info option"
  sj_conditions :: "job_condition list"

record spark_job = obj_meta +
  sj_spec :: spark_job_spec
  sj_status :: spark_job_status

text \<open>A \<^verbatim>\<open>client.Object\<close> of a kind the job controllers update. (A RayJob is only known by its
  type; its controller is not modelled.)\<close>

datatype job_object = RayClusterObj ray_cluster | SparkJobObj spark_job

fun job_meta :: "job_object \<Rightarrow> obj_meta" where
  "job_meta (RayClusterObj c) = obj_meta.truncate c"
| "job_meta (SparkJobObj s) = obj_meta.truncate s"

fun job_conditions :: "job_object \<Rightarrow> job_condition list" where
  "job_conditions (RayClusterObj c) = rt_conditions (rc_status c)"
| "job_conditions (SparkJobObj s) = sj_conditions (sj_status s)"

fun job_assignment :: "job_object \<Rightarrow> assignment_info option" where
  "job_assignment (RayClusterObj c) = rt_assignment (rc_status c)"
| "job_assignment (SparkJobObj s) = sj_assignment (sj_status s)"

lemma truncate_meta_sel [simp]:
  "om_namespace (obj_meta.truncate c) = om_namespace c" "om_name (obj_meta.truncate c) = om_name c"
  "om_generation (obj_meta.truncate c) = om_generation c"
  by (simp_all add: obj_meta.truncate_def)

text \<open>\<^verbatim>\<open>IsTerminationInfoSet\<close> for a RayCluster, and \<^verbatim>\<open>HasTerminalPodErrors\<close>.\<close>

definition IsTerminationInfoSet :: "ray_cluster \<Rightarrow> bool" where
  "IsTerminationInfoSet c \<longleftrightarrow>
     (case rs_termination (rc_spec c) of None \<Rightarrow> False | Some t \<Rightarrow> te_type t \<noteq> TT_INVALID)"

definition terminalPodErrorReasons :: "string list" where
  "terminalPodErrorReasons =
     [''HeadPodNotFound'', ''FailedCreateHeadPod'', ''FailedCreateWorkerPod'', ''ImagePullBackOff'',
      ''CrashLoopBackOff'', ''OOMKilled'', ''CreateContainerConfigError'', ''CreateContainerError'',
      ''ErrImagePull'', ''RunContainerError'']"

definition HasTerminalPodErrors :: "pod_error list \<Rightarrow> bool" where
  "HasTerminalPodErrors podErrors = list_ex (\<lambda>pe. pe_reason pe \<in> set terminalPodErrorReasons) podErrors"

section \<open>Clusters\<close>

text \<open>A registered Kubernetes cluster (\<^verbatim>\<open>proto/api/v2/cluster.proto\<close>, \<^verbatim>\<open>kubernetes.proto\<close>).\<close>

record connection_spec =
  cn_host :: string
  cn_port :: string
  cn_token_tag :: string
  cn_ca_data_tag :: string

record kubernetes_spec =
  ks_rest :: "connection_spec option"
  ks_skus :: string

record cluster_spec =
  cl_sla :: nat
  cl_region :: string
  cl_zone :: string
  cl_kubernetes :: "kubernetes_spec option"
  cl_dc :: nat

record cluster_status =
  ct_conditions :: "job_condition list"

record cluster = obj_meta +
  cl_spec :: cluster_spec
  cl_status :: cluster_status

section \<open>The environment\<close>

text \<open>
  Errors: those of the API server and of remote clusters, errors made from a text only (an error
  wrapped with \<^verbatim>\<open>%v\<close> keeps no more), and the two sentinels the code tests with \<^verbatim>\<open>errors.Is\<close>,
  which also see through \<^verbatim>\<open>%w\<close>. A call may also panic.
\<close>

datatype job_error =
    ApiError api_error | PlainError string | ErrStatusUpdate | ErrJobAlreadyExists

datatype job_stop = JobErr job_error | JobPanic

text \<open>What a remote cluster reports of a Ray cluster.\<close>

record reported_ray =
  rr_state :: ray_cluster_state
  rr_pod_errors :: "pod_error list"
  rr_log_url :: string

record job_cluster_status =
  js_ray :: "reported_ray option"
  js_reason :: string

text \<open>
  The calls and their answers, which may depend on everything that happened.
\<close>

datatype job_event =
    EvGetJob string string
  | EvUpdateStatus job_object
  | EvEnqueue queue_job
  | EvCreateJobCluster ray_cluster cluster
  | EvDeleteJobCluster ray_cluster cluster
  | EvGetJobClusterStatus ray_cluster cluster
  | EvDone queue_job

record job_env =
  je_get_ray :: "string \<Rightarrow> string \<Rightarrow> job_event list \<Rightarrow> api_error + ray_cluster"
  je_get_spark :: "string \<Rightarrow> string \<Rightarrow> job_event list \<Rightarrow> api_error + spark_job"
  je_update_status :: "job_object \<Rightarrow> job_event list \<Rightarrow> api_error option"
  je_now :: "job_event list \<Rightarrow> int"
  je_error_text :: "api_error \<Rightarrow> string"
  je_retry_steps :: nat
  je_enqueue :: "queue_job \<Rightarrow> job_event list \<Rightarrow> job_error option"
  je_create :: "ray_cluster \<Rightarrow> cluster \<Rightarrow> job_event list \<Rightarrow> api_error option"
  je_delete :: "ray_cluster \<Rightarrow> cluster \<Rightarrow> job_event list \<Rightarrow> api_error option"
  je_status :: "ray_cluster \<Rightarrow> cluster \<Rightarrow> job_event list \<Rightarrow> api_error + job_cluster_status option"

type_synonym 'a job_io = "(job_event, job_stop + 'a) io"

abbreviation ok :: "'a \<Rightarrow> 'a job_io" where "ok x \<equiv> State_Monad.return (Inr x)"

abbreviation failing :: "job_error \<Rightarrow> 'a job_io" where
  "failing e \<equiv> State_Monad.return (Inl (JobErr e))"

abbreviation panic :: "'a job_io" where "panic \<equiv> State_Monad.return (Inl JobPanic)"

text \<open>A call that answers a value or an API error, and one that answers an API error or nothing.\<close>

definition fetch :: "(job_event list \<Rightarrow> api_error + 'a) \<Rightarrow> job_event \<Rightarrow> 'a job_io" where
  "fetch answer event = do {
     got \<leftarrow> ask answer (\<lambda>_. event);
     State_Monad.return (map_sum (\<lambda>e. JobErr (ApiError e)) id got)
   }"

definition perform :: "(job_event list \<Rightarrow> api_error option) \<Rightarrow> job_event \<Rightarrow> unit job_io" where
  "perform answer event = do {
     got \<leftarrow> ask answer (\<lambda>_. event);
     State_Monad.return (case got of None \<Rightarrow> Inr () | Some e \<Rightarrow> Inl (JobErr (ApiError e)))
   }"

lemma run_state_fetch [simp, io_simps]:
  "run_state (fetch answer event) h = (map_sum (\<lambda>e. JobErr (ApiError e)) id (answer h), h @ [event])"
  by (simp add: fetch_def)

lemma run_state_perform [simp, io_simps]:
  "run_state (perform answer event) h =
     (case answer h of None \<Rightarrow> Inr () | Some e \<Rightarrow> Inl (JobErr (ApiError e)), h @ [event])"
  by (simp add: perform_def)

lemma emits_fetch [intro]: "P event \<Longrightarrow> emits P (fetch answer event)"
  unfolding fetch_def by (intro emits_bind emits_ask emits_return)

lemma emits_perform [intro]: "P event \<Longrightarrow> emits P (perform answer event)"
  unfolding perform_def by (intro emits_bind emits_ask emits_return)


section \<open>Status updates\<close>

fun Contains :: "string \<Rightarrow> string \<Rightarrow> bool" where
  "Contains [] sub \<longleftrightarrow> sub = []"
| "Contains (c # s) sub \<longleftrightarrow> take (length sub) (c # s) = sub \<or> Contains s sub"

text \<open>The text of an error; the two sentinels have fixed ones.\<close>

fun error_text :: "job_env \<Rightarrow> job_error \<Rightarrow> string" where
  "error_text R (ApiError e) = je_error_text R e"
| "error_text R (PlainError s) = s"
| "error_text R ErrStatusUpdate = ''error_update_status''"
| "error_text R ErrJobAlreadyExists = ''job already exists''"

definition IsRetriableError :: "job_env \<Rightarrow> job_error \<Rightarrow> bool" where
  "IsRetriableError R err \<longleftrightarrow>
     Contains (error_text R err) ''code = FailedPrecondition'' \<or>
     Contains (error_text R err) ''etcdserver: request timed out'' \<or>
     Contains (error_text R err) ''code:unavailable message:proxy forward failed''"

text \<open>
  One attempt: read the object again, apply the changes to what was read, and write that. The
  changes are a function of the clock and the object, and may panic.
\<close>

definition get_job :: "job_env \<Rightarrow> job_object \<Rightarrow> job_object job_io" where
  "get_job R job =
     (let ns = om_namespace (job_meta job); nm = om_name (job_meta job) in
      case job of
        RayClusterObj _ \<Rightarrow>
          and_then (fetch (je_get_ray R ns nm) (EvGetJob ns nm)) (\<lambda>c. ok (RayClusterObj c))
      | SparkJobObj _ \<Rightarrow>
          and_then (fetch (je_get_spark R ns nm) (EvGetJob ns nm)) (\<lambda>s. ok (SparkJobObj s)))"

definition update_attempt ::
    "job_env \<Rightarrow> job_object \<Rightarrow> (int \<Rightarrow> job_object \<Rightarrow> job_object outcome) \<Rightarrow> unit job_io" where
  "update_attempt R job applyUpdates =
     and_then (get_job R job) (\<lambda>latestJob. do {
       now \<leftarrow> peek (je_now R);
       (case applyUpdates now latestJob of
          Panicked \<Rightarrow> panic
        | Returned latestJob' \<Rightarrow> perform (je_update_status R latestJob') (EvUpdateStatus latestJob'))
     })"

text \<open>\<^verbatim>\<open>retry.OnError\<close> with \<open>n\<close> steps after the first.\<close>

fun retry_on_error :: "nat \<Rightarrow> (job_error \<Rightarrow> bool) \<Rightarrow> 'a job_io \<Rightarrow> 'a job_io" where
  "retry_on_error 0 retriable m = m"
| "retry_on_error (Suc n) retriable m = do {
     got \<leftarrow> m;
     (case got of
        Inl (JobErr e) \<Rightarrow> if retriable e then retry_on_error n retriable m else State_Monad.return got
      | _ \<Rightarrow> State_Monad.return got)
   }"

definition UpdateStatusWithRetries ::
    "job_env \<Rightarrow> job_object \<Rightarrow> (int \<Rightarrow> job_object \<Rightarrow> job_object outcome) \<Rightarrow> unit job_io" where
  "UpdateStatusWithRetries R job applyUpdates = do {
     got \<leftarrow> retry_on_error (je_retry_steps R) (IsRetriableError R) (update_attempt R job applyUpdates);
     (case got of
        Inl (JobErr e) \<Rightarrow> if IsRetriableError R e then failing ErrStatusUpdate else failing e
      | _ \<Rightarrow> State_Monad.return got)
   }"

text \<open>
  What an update may do: it reads the job, and whatever it writes is a job it has just read with
  the changes applied, never the copy it was called with. It succeeds only when its last write
  was accepted.
\<close>

definition fresh_write :: "job_env \<Rightarrow> job_object \<Rightarrow> (int \<Rightarrow> job_object \<Rightarrow> job_object outcome) \<Rightarrow>
    job_event list \<Rightarrow> job_object \<Rightarrow> bool" where
  "fresh_write R job applyUpdates h latest' \<longleftrightarrow>
     (\<exists>h0 latest. run_state (get_job R job) h0 = (Inr latest, h) \<and>
        applyUpdates (je_now R h) latest = Returned latest')"

fun update_event :: "job_env \<Rightarrow> job_object \<Rightarrow> (int \<Rightarrow> job_object \<Rightarrow> job_object outcome) \<Rightarrow>
    job_event list \<Rightarrow> job_event \<Rightarrow> bool" where
  "update_event R job f h (EvGetJob ns nm) \<longleftrightarrow>
     ns = om_namespace (job_meta job) \<and> nm = om_name (job_meta job)"
| "update_event R job f h (EvUpdateStatus latest') \<longleftrightarrow> fresh_write R job f h latest'"
| "update_event R job f h _ \<longleftrightarrow> False"

lemma get_job_run:
  "run_state (get_job R job) h = (r, h') \<Longrightarrow>
     h' = h @ [EvGetJob (om_namespace (job_meta job)) (om_name (job_meta job))]"
  by (auto simp: get_job_def and_then_def Let_def split: job_object.splits sum.splits)

lemma get_job_always [intro]: "always (update_event R job f) (get_job R job)"
  unfolding always_def using get_job_run [of R job]
  by (metis append_Nil2 obeys.simps prod.collapse update_event.simps(1))

lemma update_attempt_always: "always (update_event R job f) (update_attempt R job f)"
proof -
  have "\<exists>tr. snd (run_state (update_attempt R job f) h) = h @ tr \<and> obeys (update_event R job f) h tr" for h
  proof -
    obtain r h1 where g: "run_state (get_job R job) h = (r, h1)" by (cases "run_state (get_job R job) h")
    note h1 = get_job_run [OF g]
    with g show ?thesis
      by (auto simp: update_attempt_def and_then_def fresh_write_def split: sum.splits outcome.splits)
  qed
  then show ?thesis by (simp add: always_def)
qed

lemma update_attempt_success:
  assumes "run_state (update_attempt R job f) h = (Inr u, h')"
  shows "\<exists>tr latest'. h' = h @ tr @ [EvUpdateStatus latest'] \<and>
    je_update_status R latest' (h @ tr) = None \<and> fresh_write R job f (h @ tr) latest'"
proof -
  from assms obtain latest h1 where g: "run_state (get_job R job) h = (Inr latest, h1)"
      and w: "(case f (je_now R h1) latest of
          Panicked \<Rightarrow> (Inl JobPanic, h1)
        | Returned latest' \<Rightarrow> run_state (perform (je_update_status R latest') (EvUpdateStatus latest')) h1) =
        (Inr u, h')"
    by (auto simp: update_attempt_def elim!: and_then_InrE split: outcome.splits)
  from w obtain latest' where f: "f (je_now R h1) latest = Returned latest'"
      "je_update_status R latest' h1 = None" "h' = h1 @ [EvUpdateStatus latest']"
    by (auto split: outcome.splits option.splits)
  from g f(1) have "fresh_write R job f h1 latest'" by (auto simp: fresh_write_def)
  with get_job_run [OF g] f(2,3) show ?thesis by auto
qed

lemma retry_on_error_always: "always P m \<Longrightarrow> always P (retry_on_error n retriable m)"
  by (induction n) (auto intro!: always_bind split: sum.splits job_stop.splits)

lemma retry_on_error_success:
  assumes "appends m" "run_state (retry_on_error n retriable m) h = (Inr x, h')"
  shows "\<exists>tr. run_state m (h @ tr) = (Inr x, h')"
  using assms(2)
proof (induction n arbitrary: h)
  case 0
  then show ?case by (intro exI [of _ "[]"]) simp
next
  case (Suc n)
  obtain got h1 where m: "run_state m h = (got, h1)" by (cases "run_state m h")
  with assms(1) obtain tr where tr: "h1 = h @ tr" by (rule appendsE)
  show ?case
  proof (cases "got = Inr x \<and> h1 = h'")
    case True
    with m show ?thesis by (intro exI [of _ "[]"]) simp
  next
    case False
    with Suc.prems m have "run_state (retry_on_error n retriable m) h1 = (Inr x, h')"
      by (auto split: sum.splits job_stop.splits if_splits)
    from Suc.IH [OF this] tr show ?thesis by (metis append_assoc)
  qed
qed

lemma UpdateStatusWithRetries_always:
  "always (update_event R job f) (UpdateStatusWithRetries R job f)"
  unfolding UpdateStatusWithRetries_def
  by (intro always_bind retry_on_error_always update_attempt_always) (auto split: sum.splits job_stop.splits)

lemma update_attempt_appends: "appends (update_attempt R job f)"
  using update_attempt_always [of R job f] by (auto simp: always_def appends_def)

lemma UpdateStatusWithRetries_success:
  assumes "run_state (UpdateStatusWithRetries R job f) h = (Inr u, h')"
  obtains tr latest' where "h' = h @ tr @ [EvUpdateStatus latest']"
    "je_update_status R latest' (h @ tr) = None" "fresh_write R job f (h @ tr) latest'"
proof -
  from assms have "run_state (retry_on_error (je_retry_steps R) (IsRetriableError R) (update_attempt R job f)) h =
      (Inr u, h')"
    by (auto simp: UpdateStatusWithRetries_def split: prod.splits sum.splits job_stop.splits if_splits)
  from retry_on_error_success [OF update_attempt_appends this] obtain t
    where "run_state (update_attempt R job f) (h @ t) = (Inr u, h')" by blast
  from update_attempt_success [OF this] that show thesis by (metis append_assoc)
qed

end
