(* ===== verification/Job_Cluster.thy ===== *)
theory Job_Cluster
  imports Job_Utils "HOL-Library.AList"
begin

text \<open>
  The registry of clusters (\<^verbatim>\<open>go/components/jobs/cluster\<close>): the map from names to cached cluster
  objects, the reconciler that fills it from the Cluster resources, and the health monitor. What
  the scheduler and the job controllers may rely on is the locale \<open>cluster_cache\<close>.
\<close>

section \<open>The registry\<close>

record cluster_data =
  cd_status :: "cluster_status option"
  cd_obj :: cluster

type_synonym registry = "(string \<times> cluster_data) list"

definition cluster_map_add :: "registry \<Rightarrow> string \<Rightarrow> cluster_data \<Rightarrow> registry" where
  "cluster_map_add reg name d = AList.update name d reg"

definition cluster_map_get :: "registry \<Rightarrow> string \<Rightarrow> cluster_data option" where
  "cluster_map_get reg name = map_of reg name"

definition cluster_map_delete :: "registry \<Rightarrow> string \<Rightarrow> registry" where
  "cluster_map_delete reg name = AList.delete name reg"

definition ClusterReady :: string where "ClusterReady = ''Ready''"

definition isClusterReady :: "cluster_status option \<Rightarrow> bool" where
  "isClusterReady clusterStatus =
     (case clusterStatus of
        None \<Rightarrow> False
      | Some st \<Rightarrow> list_ex (\<lambda>c. c_type c = ClusterReady \<and> c_status c = CS_TRUE) (ct_conditions st))"

datatype filter_type = ReadyClusters | UnreadyClusters | AllClusters

text \<open>The order in which \<^verbatim>\<open>sync.Map.Range\<close> visits the entries is the argument \<open>ord\<close>.\<close>

definition getClustersByFilter :: "(string list \<Rightarrow> string list) \<Rightarrow> registry \<Rightarrow> filter_type \<Rightarrow> cluster list" where
  "getClustersByFilter ord reg filt =
     map cd_obj (filter (\<lambda>d. case filt of
                            ReadyClusters \<Rightarrow> isClusterReady (cd_status d)
                          | UnreadyClusters \<Rightarrow> \<not> isClusterReady (cd_status d)
                          | AllClusters \<Rightarrow> True)
       (List.map_filter (cluster_map_get reg) (ord (map fst reg))))"

definition GetCluster :: "registry \<Rightarrow> string \<Rightarrow> cluster option" where
  "GetCluster reg name = map_option cd_obj (cluster_map_get reg name)"

definition GetClusters :: "(string list \<Rightarrow> string list) \<Rightarrow> registry \<Rightarrow> filter_type \<Rightarrow> cluster list" where
  "GetClusters ord reg filt = getClustersByFilter ord reg filt"

section \<open>What a cluster cache promises\<close>

text \<open>
  Of the states a cache reaches (\<open>reached\<close>): a lookup answers a cluster of that name, the list of
  all clusters is what the lookups answer, and the ready clusters and the unready ones make up
  that list.
\<close>

locale cluster_cache =
  fixes reached :: "'s \<Rightarrow> bool"
    and lookup :: "'s \<Rightarrow> string \<Rightarrow> cluster option"
    and listing :: "(string list \<Rightarrow> string list) \<Rightarrow> 's \<Rightarrow> filter_type \<Rightarrow> cluster list"
  assumes named: "reached s \<Longrightarrow> lookup s name = Some c \<Longrightarrow> om_name c = name"
    and listed: "reached s \<Longrightarrow> range_order ord \<Longrightarrow>
      c \<in> set (listing ord s AllClusters) \<longleftrightarrow> (\<exists>name. lookup s name = Some c)"
    and by_readiness: "reached s \<Longrightarrow> range_order ord \<Longrightarrow>
      set (listing ord s AllClusters) = set (listing ord s ReadyClusters) \<union> set (listing ord s UnreadyClusters)"
begin

text \<open>A listed cluster is found again under its name.\<close>

lemma listed_lookup:
  assumes "reached s" "range_order ord" "c \<in> set (listing ord s AllClusters)"
  shows "lookup s (om_name c) = Some c"
proof -
  from assms obtain name where "lookup s name = Some c" by (auto simp: listed)
  with named [OF assms(1) this] show ?thesis by simp
qed

lemma nothing_listed:
  "reached s \<Longrightarrow> range_order ord \<Longrightarrow> listing ord s AllClusters = [] \<longleftrightarrow> (\<forall>name. lookup s name = None)"
  using listed by (metis ex_in_conv empty_set not_Some_eq set_empty)

lemma readiness_listed:
  "reached s \<Longrightarrow> range_order ord \<Longrightarrow> c \<in> set (listing ord s filt) \<Longrightarrow> c \<in> set (listing ord s AllClusters)"
  using by_readiness by (cases filt) auto

end

section \<open>The reconciler\<close>

datatype cluster_event =
    EvGetCluster string string | EvUpdateCluster cluster | EvProbe cluster | EvUpdateClusterStatus cluster

text \<open>\<^verbatim>\<open>Update\<close> leaves the server's answer in the object it is given.\<close>

record cluster_env =
  ke_finlib :: finlib
  ke_get :: "string \<Rightarrow> string \<Rightarrow> cluster_event list \<Rightarrow> api_error + cluster"
  ke_update :: "cluster \<Rightarrow> cluster_event list \<Rightarrow> api_error + cluster"
  ke_probe :: "cluster \<Rightarrow> cluster_event list \<Rightarrow> api_error + cluster_status option"
  ke_update_status :: "cluster \<Rightarrow> cluster_event list \<Rightarrow> api_error option"

type_synonym 'a cluster_io = "(cluster_event, 'a) io"

definition ClustersNamespace :: string where "ClustersNamespace = ''ma-system''"

definition clusterDeleteFinalizer :: string where
  "clusterDeleteFinalizer = ''clusters.michelangelo.uber.com/finalizer''"

text \<open>The nil-safe getters down to the connection.\<close>

definition rest_of :: "cluster \<Rightarrow> string \<times> string" where
  "rest_of c =
     (case cl_kubernetes (cl_spec c) of
        None \<Rightarrow> ('''', '''')
      | Some k \<Rightarrow> (case ks_rest k of None \<Rightarrow> ('''', '''') | Some r \<Rightarrow> (cn_host r, cn_port r)))"

definition isClusterSpecSame :: "cluster \<Rightarrow> cluster \<Rightarrow> bool" where
  "isClusterSpecSame cachedObj newObj \<longleftrightarrow>
     fst (rest_of cachedObj) = fst (rest_of newObj) \<and>
     snd (rest_of cachedObj) = snd (rest_of newObj) \<and>
     cl_region (cl_spec cachedObj) = cl_region (cl_spec newObj) \<and>
     cl_zone (cl_spec cachedObj) = cl_zone (cl_spec newObj) \<and>
     cl_dc (cl_spec cachedObj) = cl_dc (cl_spec newObj) \<and>
     cl_sla (cl_spec cachedObj) = cl_sla (cl_spec newObj)"

definition delCluster :: "registry \<Rightarrow> cluster \<Rightarrow> registry" where
  "delCluster reg obj = cluster_map_delete reg (om_name obj)"

definition addCluster :: "registry \<Rightarrow> cluster \<Rightarrow> registry" where
  "addCluster reg obj =
     (case cluster_map_get reg (om_name obj) of
        Some _ \<Rightarrow> reg
      | None \<Rightarrow> cluster_map_add reg (om_name obj) \<lparr>cd_status = None, cd_obj = obj\<rparr>)"

text \<open>The registry after a live cluster has been seen with its finalizer in place.\<close>

definition register_cluster :: "registry \<Rightarrow> cluster \<Rightarrow> registry" where
  "register_cluster reg cluster =
     (case cluster_map_get reg (om_name cluster) of
        None \<Rightarrow> addCluster reg cluster
      | Some data \<Rightarrow>
          if isClusterSpecSame (cd_obj data) cluster then reg
          else addCluster (delCluster reg cluster) cluster)"

text \<open>\<^verbatim>\<open>Reconcile\<close> returns an error or nothing (its result is always the zero value) and the
  registry.\<close>

definition ReconcileCluster :: "cluster_env \<Rightarrow> string \<Rightarrow> string \<Rightarrow> registry \<Rightarrow> (api_error option \<times> registry) cluster_io" where
  "ReconcileCluster R namespace name reg =
     (if namespace \<noteq> ClustersNamespace then
        State_Monad.return (Some (OtherError ''cluster must only belong to the namespace''), reg)
      else do {
        got \<leftarrow> ask (ke_get R namespace name) (\<lambda>_. EvGetCluster namespace name);
        (case got of
           Inl err \<Rightarrow> State_Monad.return (if IsNotFoundError err then None else Some err, reg)
         | Inr cluster \<Rightarrow>
             let present = fl_contains (ke_finlib R) (om_finalizers cluster) clusterDeleteFinalizer in
             if om_deletion_ts cluster = None then
               if present then State_Monad.return (None, register_cluster reg cluster)
               else do {
                 let cluster1 = cluster\<lparr>om_finalizers :=
                   fl_add (ke_finlib R) (om_finalizers cluster) clusterDeleteFinalizer\<rparr>;
                 sent \<leftarrow> ask (ke_update R cluster1) (\<lambda>_. EvUpdateCluster cluster1);
                 State_Monad.return
                   (case sent of Inl err \<Rightarrow> (Some err, reg)
                    | Inr cluster2 \<Rightarrow> (None, register_cluster reg cluster2))
               }
             else if present then do {
               let reg1 = delCluster reg cluster;
               let cluster1 = cluster\<lparr>om_finalizers :=
                 fl_remove (ke_finlib R) (om_finalizers cluster) clusterDeleteFinalizer\<rparr>;
               sent \<leftarrow> ask (ke_update R cluster1) (\<lambda>_. EvUpdateCluster cluster1);
               State_Monad.return (case sent of Inl err \<Rightarrow> (Some err, reg1) | Inr _ \<Rightarrow> (None, reg1))
             }
             else State_Monad.return (None, reg))
      })"

section \<open>The health monitor\<close>

definition UpdateClusterAndStatus :: "cluster_status option \<Rightarrow> cluster_data \<Rightarrow> cluster_data" where
  "UpdateClusterAndStatus status d =
     d\<lparr>cd_status := status,
       cd_obj := (cd_obj d)\<lparr>cl_status := (case status of Some st \<Rightarrow> st | None \<Rightarrow> \<lparr>ct_conditions = []\<rparr>)\<rparr>\<rparr>"

text \<open>
  One probe, with nothing else changing the registry meanwhile. \<open>cluster\<close> is the object the
  monitor has in hand. Normally it is the cached object itself (\<open>cached\<close>), so that the status
  stored in the cache is also the status sent to the API server; when the entry has been replaced
  since the monitor listed the clusters, what is sent is the old object in hand.
\<close>

definition updateClusterHealth ::
    "cluster_env \<Rightarrow> bool \<Rightarrow> cluster \<Rightarrow> registry \<Rightarrow> (api_error option \<times> registry) cluster_io" where
  "updateClusterHealth R cached cluster reg =
     (case cluster_map_get reg (om_name cluster) of
        None \<Rightarrow> State_Monad.return (Some (OtherError ''failed to retrieve stored data for cluster''), reg)
      | Some data \<Rightarrow> do {
          got \<leftarrow> ask (ke_probe R cluster) (\<lambda>_. EvProbe cluster);
          (case got of
             Inl err \<Rightarrow> State_Monad.return (Some err, reg)
           | Inr status \<Rightarrow> do {
               let data1 = UpdateClusterAndStatus status data;
               let cluster1 = (if cached then cd_obj data1 else cluster);
               err \<leftarrow> ask (ke_update_status R cluster1) (\<lambda>_. EvUpdateClusterStatus cluster1);
               State_Monad.return (err, cluster_map_add reg (om_name cluster) data1)
             })
        })"

section \<open>The registry that is reached\<close>

inductive registry_reached :: "cluster_env \<Rightarrow> registry \<Rightarrow> bool" for R where
  registry_empty: "registry_reached R []"
| registry_reconciled: "registry_reached R reg \<Longrightarrow>
    run_state (ReconcileCluster R namespace name reg) h = ((err, reg'), h') \<Longrightarrow> registry_reached R reg'"
| registry_probed: "registry_reached R reg \<Longrightarrow>
    run_state (updateClusterHealth R cached cluster reg) h = ((err, reg'), h') \<Longrightarrow> registry_reached R reg'"

definition registry_inv :: "registry \<Rightarrow> bool" where
  "registry_inv reg \<longleftrightarrow> distinct (map fst reg) \<and> (\<forall>name d. map_of reg name = Some d \<longrightarrow> om_name (cd_obj d) = name)"

lemmas cluster_map_defs = cluster_map_add_def cluster_map_get_def cluster_map_delete_def

lemma cluster_map_get_simps [simp]:
  "cluster_map_get (cluster_map_add reg n d) m = (if m = n then Some d else cluster_map_get reg m)"
  "cluster_map_get (cluster_map_delete reg n) m = (if m = n then None else cluster_map_get reg m)"
  by (simp_all add: cluster_map_defs update_conv' delete_conv')

lemma registry_inv_add:
  "registry_inv reg \<Longrightarrow> om_name (cd_obj d) = n \<Longrightarrow> registry_inv (cluster_map_add reg n d)"
  by (auto simp: registry_inv_def cluster_map_defs update_conv' intro: distinct_update)

lemma registry_inv_delete: "registry_inv reg \<Longrightarrow> registry_inv (cluster_map_delete reg n)"
  by (auto simp: registry_inv_def cluster_map_defs delete_conv' distinct_delete)

lemma registry_inv_addCluster: "registry_inv reg \<Longrightarrow> registry_inv (addCluster reg c)"
  by (simp add: addCluster_def registry_inv_add split: option.split)

lemma registry_inv_register: "registry_inv reg \<Longrightarrow> registry_inv (register_cluster reg c)"
  by (simp add: register_cluster_def delCluster_def registry_inv_addCluster registry_inv_delete split: option.split)

text \<open>What a reconcile did to the registry.\<close>

lemma ReconcileCluster_cases:
  assumes "run_state (ReconcileCluster R namespace name reg) h = ((err, reg'), h')"
  obtains (unchanged) "reg' = reg"
  | (registered) c where "reg' = register_cluster reg c" "err = None"
  | (deleted) c where "reg' = delCluster reg c"
  using assms
  by (auto simp: ReconcileCluster_def Let_def split: if_splits sum.splits)

lemma registry_reached_inv: "registry_reached R reg \<Longrightarrow> registry_inv reg"
proof (induction rule: registry_reached.induct)
  case registry_empty
  show ?case by (simp add: registry_inv_def)
next
  case (registry_reconciled reg namespace name h err reg' h')
  from registry_reconciled(2) show ?case
    by (rule ReconcileCluster_cases)
      (simp_all add: registry_reconciled.IH registry_inv_register delCluster_def registry_inv_delete)
next
  case (registry_probed reg cached cluster h err reg' h')
  from registry_probed(2) registry_probed.IH show ?case
    by (auto simp: updateClusterHealth_def Let_def split: option.splits sum.splits
        intro!: registry_inv_add)
      (simp add: UpdateClusterAndStatus_def registry_inv_def cluster_map_get_def)
qed

lemma listed_clusters:
  assumes "range_order ord" "registry_inv reg"
  shows "set (GetClusters ord reg filt) = {cd_obj d | name d. cluster_map_get reg name = Some d \<and>
    (case filt of ReadyClusters \<Rightarrow> isClusterReady (cd_status d)
     | UnreadyClusters \<Rightarrow> \<not> isClusterReady (cd_status d) | AllClusters \<Rightarrow> True)}"
proof -
  from assms have names: "set (ord (map fst reg)) = fst ` set reg"
    using range_orderD(1) [of ord "map fst reg"] by (simp add: registry_inv_def)
  have "set (List.map_filter (cluster_map_get reg) (ord (map fst reg))) =
      {d. \<exists>name. cluster_map_get reg name = Some d}"
    by (auto simp: List.map_filter_def names cluster_map_get_def image_iff) (metis map_of_SomeD fst_conv option.sel)
  then show ?thesis by (auto simp: GetClusters_def getClustersByFilter_def)
qed

interpretation registry: cluster_cache "registry_reached R" GetCluster GetClusters for R
proof unfold_locales
  fix reg name c
  assume "registry_reached R reg" "GetCluster reg name = Some c"
  then show "om_name c = name"
    using registry_reached_inv by (auto simp: GetCluster_def registry_inv_def cluster_map_get_def)
next
  fix reg ord c
  assume "registry_reached R reg" and ord: "range_order (ord :: string list \<Rightarrow> string list)"
  note inv = registry_reached_inv [OF this(1)]
  show "c \<in> set (GetClusters ord reg AllClusters) \<longleftrightarrow> (\<exists>name. GetCluster reg name = Some c)"
    by (auto simp: listed_clusters [OF ord inv] GetCluster_def)
  show "set (GetClusters ord reg AllClusters) =
      set (GetClusters ord reg ReadyClusters) \<union> set (GetClusters ord reg UnreadyClusters)"
    by (auto simp: listed_clusters [OF ord inv])
qed


section \<open>Properties\<close>

lemma isClusterSpecSame_refl [simp]: "isClusterSpecSame c c"
  by (simp add: isClusterSpecSame_def)

lemma GetCluster_register:
  "\<exists>c. GetCluster (register_cluster reg cluster) (om_name cluster) = Some c \<and> isClusterSpecSame c cluster"
  by (cases "cluster_map_get reg (om_name cluster)")
    (auto simp: register_cluster_def addCluster_def delCluster_def GetCluster_def)

lemma GetCluster_register_other:
  "name \<noteq> om_name cluster \<Longrightarrow> GetCluster (register_cluster reg cluster) name = GetCluster reg name"
  by (auto simp: register_cluster_def addCluster_def delCluster_def GetCluster_def split: option.split)

text \<open>In every registry the reconciler and the health monitor can reach, a lookup answers a
  cluster of the name asked for, and the listing of all clusters holds exactly the clusters the
  lookups answer, whatever the order in which the map is ranged over; so a name read from the
  listing is found again.\<close>

theorem registry_lookups_match_the_listing:
  assumes "registry_reached R reg" "range_order ord"
  shows "(\<forall>name c. GetCluster reg name = Some c \<longrightarrow> om_name c = name) \<and>
    (\<forall>c. c \<in> set (GetClusters ord reg AllClusters) \<longleftrightarrow> GetCluster reg (om_name c) = Some c)"
  using registry.named [OF assms(1)] registry.listed [OF assms] registry.listed_lookup [OF assms] by blast

text \<open>A pass over a Cluster that is not being deleted, if it returns no error, leaves the
  registry with an entry under its name that agrees with its host, port, region, zone, data
  centre and SLA, and only after the cluster bears the finalizer: either it was there, or the
  server has accepted the update that adds it. A pass over one that is being deleted and still
  bears the finalizer leaves no entry under its name, even when releasing the finalizer fails.
  Entries of other clusters are not touched.\<close>

theorem registry_follows_the_cluster:
  assumes run: "run_state (ReconcileCluster R ClustersNamespace name reg) h = ((err, reg'), h')"
    and got: "ke_get R ClustersNamespace name h = Inr cluster"
    and lib: "finlib_ok (ke_finlib R)"
  shows "(om_deletion_ts cluster = None \<and> err = None \<longrightarrow>
      (\<exists>seen entry.
        (clusterDeleteFinalizer \<in> set (om_finalizers cluster) \<and> seen = cluster \<or>
         (\<exists>sent. clusterDeleteFinalizer \<in> set (om_finalizers sent) \<and>
           h' = h @ [EvGetCluster ClustersNamespace name, EvUpdateCluster sent] \<and>
           ke_update R sent (h @ [EvGetCluster ClustersNamespace name]) = Inr seen)) \<and>
        GetCluster reg' (om_name seen) = Some entry \<and> isClusterSpecSame entry seen \<and>
        (\<forall>other. other \<noteq> om_name seen \<longrightarrow> GetCluster reg' other = GetCluster reg other))) \<and>
    (om_deletion_ts cluster \<noteq> None \<and> clusterDeleteFinalizer \<in> set (om_finalizers cluster) \<longrightarrow>
      GetCluster reg' (om_name cluster) = None \<and>
      (\<forall>other. other \<noteq> om_name cluster \<longrightarrow> GetCluster reg' other = GetCluster reg other))"
proof (cases "om_deletion_ts cluster")
  case None
  show ?thesis
  proof (cases "clusterDeleteFinalizer \<in> set (om_finalizers cluster)")
    case True
    with None run got have "reg' = register_cluster reg cluster"
      by (simp add: ReconcileCluster_def finlib_okD [OF lib])
    with True None GetCluster_register [of reg cluster] show ?thesis
      by (auto simp: GetCluster_register_other)
  next
    case False
    define sent where "sent = cluster\<lparr>om_finalizers :=
      fl_add (ke_finlib R) (om_finalizers cluster) clusterDeleteFinalizer\<rparr>"
    let ?h1 = "h @ [EvGetCluster ClustersNamespace name]"
    have sent: "clusterDeleteFinalizer \<in> set (om_finalizers sent)"
      by (simp add: sent_def finlib_okD [OF lib])
    show ?thesis
    proof (cases "ke_update R sent ?h1")
      case (Inl e)
      with None False run got show ?thesis
        by (auto simp: ReconcileCluster_def finlib_okD [OF lib] sent_def Let_def)
    next
      case (Inr seen)
      with None False run got have "reg' = register_cluster reg seen" "h' = ?h1 @ [EvUpdateCluster sent]"
        by (auto simp: ReconcileCluster_def finlib_okD [OF lib] sent_def Let_def)
      with sent Inr None GetCluster_register [of reg seen] show ?thesis
        by (auto simp: GetCluster_register_other)
    qed
  qed
next
  case (Some t)
  with run got show ?thesis
    by (auto simp: ReconcileCluster_def finlib_okD [OF lib] Let_def delCluster_def GetCluster_def split: sum.splits)
qed

text \<open>An example: an on-premise cluster that has just been created.\<close>

definition example_cluster :: cluster where
  "example_cluster = \<lparr>om_namespace = ''ma-system'', om_name = ''gpu-1'', om_uid = '''', om_generation = 1,
     om_creation_ts = None, om_deletion_ts = None, om_labels = None, om_annotations = None,
     om_finalizers = [], om_owner_refs = [],
     cl_spec = \<lparr>cl_sla = 1, cl_region = ''phx'', cl_zone = ''phx2'',
       cl_kubernetes = Some \<lparr>ks_rest = Some \<lparr>cn_host = ''k8s'', cn_port = ''443'', cn_token_tag = ''t1'',
         cn_ca_data_tag = ''ca''\<rparr>, ks_skus = ''''\<rparr>, cl_dc = 1\<rparr>,
     cl_status = \<lparr>ct_conditions = []\<rparr>\<rparr>"

definition example_cluster_env :: cluster_env where
  "example_cluster_env = \<lparr>ke_finlib = list_finlib, ke_get = (\<lambda>ns nm h. Inr example_cluster),
     ke_update = (\<lambda>c h. Inr c), ke_probe = (\<lambda>c h. Inr None), ke_update_status = (\<lambda>c h. None)\<rparr>"

definition registered_example :: cluster where
  "registered_example = example_cluster\<lparr>om_finalizers := [clusterDeleteFinalizer]\<rparr>"

lemma registered_example_name [simp]: "om_name registered_example = ''gpu-1''"
  by (simp add: registered_example_def example_cluster_def)

lemma example_cluster_pass:
  "run_state (ReconcileCluster example_cluster_env ClustersNamespace ''gpu-1'' []) [] =
     ((None, [(''gpu-1'', \<lparr>cd_status = None, cd_obj = registered_example\<rparr>)]),
      [EvGetCluster ClustersNamespace ''gpu-1'', EvUpdateCluster registered_example])"
  by (simp add: ReconcileCluster_def example_cluster_env_def example_cluster_def registered_example_def
      list_finlib_def register_cluster_def addCluster_def cluster_map_defs Let_def)

theorem registry_follows_the_cluster_witness:
  "\<exists>entry. GetCluster [(''gpu-1'', \<lparr>cd_status = None, cd_obj = registered_example\<rparr>)] ''gpu-1'' = Some entry \<and>
     isClusterSpecSame entry registered_example"
  using registry_follows_the_cluster [OF example_cluster_pass, of example_cluster]
  by (auto simp: example_cluster_env_def example_cluster_def)

theorem registry_lookups_match_the_listing_witness:
  "GetCluster [(''gpu-1'', \<lparr>cd_status = None, cd_obj = registered_example\<rparr>)] (om_name registered_example) =
     Some registered_example"
proof -
  have "registry_reached example_cluster_env [(''gpu-1'', \<lparr>cd_status = None, cd_obj = registered_example\<rparr>)]"
    by (rule registry_reconciled [OF registry_empty example_cluster_pass])
  from registry_lookups_match_the_listing [OF this range_order_id]
  have "registered_example \<in> set (GetClusters (\<lambda>ks. ks)
        [(''gpu-1'', \<lparr>cd_status = None, cd_obj = registered_example\<rparr>)] AllClusters) \<longleftrightarrow>
      GetCluster [(''gpu-1'', \<lparr>cd_status = None, cd_obj = registered_example\<rparr>)] (om_name registered_example) =
        Some registered_example" by blast
  then show ?thesis
    by (simp add: GetClusters_def getClustersByFilter_def cluster_map_get_def List.map_filter_def)
qed

text \<open>
  Two limits of the registry: a cluster that is gone without its finalizer having been seen stays
  registered, and a change of the credentials alone is not noticed.
\<close>

lemma vanished_cluster_stays_registered:
  assumes "ke_get R ClustersNamespace name h = Inl err" "IsNotFoundError err"
  shows "fst (run_state (ReconcileCluster R ClustersNamespace name reg) h) = (None, reg)"
  using assms by (simp add: ReconcileCluster_def)

lemma rotated_credentials_are_not_noticed:
  assumes "cl_kubernetes (cl_spec new) = Some k" "ks_rest k = Some r"
    "cl_spec cached = (cl_spec new)\<lparr>cl_kubernetes := Some (k\<lparr>ks_rest := Some (r\<lparr>cn_token_tag := t\<rparr>)\<rparr>)\<rparr>"
    "cluster_map_get reg (om_name new) = Some d" "cd_obj d = cached"
  shows "register_cluster reg new = reg"
  using assms by (simp add: register_cluster_def isClusterSpecSame_def rest_of_def)

end
