(* ===== verification/Job_Scheduler.thy ===== *)
theory Job_Scheduler
  imports Job_Cluster
begin

text \<open>
  The job scheduler (\<^verbatim>\<open>go/components/jobs/scheduler\<close>): it takes jobs from the queue one at a
  time, reads each again, asks a strategy for a cluster and writes the assignment into the job's
  status. What a strategy promises is the locale \<open>assignment_strategy\<close>; the strategy of the
  repository picks from the cluster registry.
\<close>

section \<open>Strategies\<close>

definition ClusterAffinityLabelKey :: string where
  "ClusterAffinityLabelKey = ''michelangelo/cluster-affinity''"

definition cluster_affinity :: "string \<Rightarrow> affinity" where
  "cluster_affinity name = \<lparr>af_resource_affinity = Some \<lparr>ra_selector = Some
     \<lparr>ls_match_labels = put_entry None ClusterAffinityLabelKey name\<rparr>\<rparr>\<rparr>"

fun GetAffinity :: "job_object \<Rightarrow> affinity option" where
  "GetAffinity (RayClusterObj c) =
     (case map_lookup (om_labels c) ClusterAffinityLabelKey of
        Some name \<Rightarrow> if name \<noteq> '''' then Some (cluster_affinity name) else None
      | None \<Rightarrow> None)"
| "GetAffinity (SparkJobObj s) = ss_affinity (sj_spec s)"

text \<open>\<^verbatim>\<open>GetAffinity().GetResourceAffinity().GetSelector()\<close>.\<close>

definition selector_of :: "job_object \<Rightarrow> label_selector option" where
  "selector_of job =
     Option.bind (GetAffinity job) (\<lambda>a. Option.bind (af_resource_affinity a) ra_selector)"

text \<open>The name a job asks for.\<close>

definition requested_cluster :: "job_object \<Rightarrow> string option" where
  "requested_cluster job =
     (case selector_of job of
        None \<Rightarrow> None
      | Some sel \<Rightarrow>
          (case map_lookup (ls_match_labels sel) ClusterAffinityLabelKey of
             Some name \<Rightarrow> if name \<noteq> '''' then Some name else None
           | None \<Rightarrow> None))"

definition assigned_to :: "string \<Rightarrow> assignment_info" where
  "assigned_to name = \<lparr>ai_resource_pool = '''', ai_cluster = name\<rparr>"

text \<open>A strategy answers an assignment or none, whether there was a cluster to decide from, and a
  reason; or an error.\<close>

type_synonym decision = "assignment_info option \<times> bool \<times> string"

text \<open>\<^verbatim>\<open>ClusterOnlyAssignmentStrategy.Select\<close>, on a registry that is ranged over in order \<open>ord\<close>.\<close>

definition Select :: "(string list \<Rightarrow> string list) \<Rightarrow> registry \<Rightarrow> job_object \<Rightarrow> job_error + decision" where
  "Select ord reg job =
     (let default = (case GetClusters ord reg AllClusters of
        [] \<Rightarrow> Inr (None, False, ''no_clusters_found'')
      | c # _ \<Rightarrow> Inr (Some (assigned_to (om_name c)), True, ''cluster_default_selected''))
      in case requested_cluster job of
           Some name \<Rightarrow>
             (case GetCluster reg name of
                Some _ \<Rightarrow> Inr (Some (assigned_to name), True, ''cluster_matched_by_affinity'')
              | None \<Rightarrow> default)
         | None \<Rightarrow> default)"

section \<open>Scheduling a job\<close>

definition with_assignment :: "(job_condition list \<Rightarrow> job_condition list) \<Rightarrow> assignment_info option \<Rightarrow> job_object \<Rightarrow> job_object" where
  "with_assignment f a job =
     (case job of
        RayClusterObj c \<Rightarrow> RayClusterObj (c\<lparr>rc_status := (rc_status c)
          \<lparr>rt_assignment := a, rt_conditions := f (rt_conditions (rc_status c))\<rparr>\<rparr>)
      | SparkJobObj s \<Rightarrow> SparkJobObj (s\<lparr>sj_status := (sj_status s)
          \<lparr>sj_assignment := a, sj_conditions := f (sj_conditions (sj_status s))\<rparr>\<rparr>))"

text \<open>The change written for a match; the generation is not among its parameters.\<close>

definition matched :: "assignment_info \<Rightarrow> int \<Rightarrow> job_object \<Rightarrow> job_object outcome" where
  "matched ai now job = Returned (with_assignment
     (SetCondition now ScheduledCondition (status_and_reason CS_TRUE ''ClusterMatched'')) (Some ai) job)"

text \<open>The change written when there is none: the condition is copied, and the object is taken to be a
  Ray cluster.\<close>

fun not_matched :: "job_condition \<Rightarrow> int \<Rightarrow> job_object \<Rightarrow> job_object outcome" where
  "not_matched scheduled now (RayClusterObj c) =
     Returned (RayClusterObj (c\<lparr>rc_status := (rc_status c)\<lparr>rt_conditions :=
       write_condition ScheduledCondition (scheduled\<lparr>c_observed_generation := om_generation c\<rparr>)
         (snd (FindOrAddCondition ScheduledCondition (rt_conditions (rc_status c))))\<rparr>\<rparr>))"
| "not_matched scheduled now (SparkJobObj s) = Panicked"

definition updateIfChanged :: "int \<Rightarrow> condition_update \<Rightarrow> job_condition \<Rightarrow> job_condition" where
  "updateIfChanged now p cond =
     (if c_status cond = cu_status p \<and> c_reason cond = cu_reason p \<and>
         c_observed_generation cond = cu_generation p then cond
      else UpdateCondition now p cond)"

definition NumSchedulerAttempts :: string where "NumSchedulerAttempts = ''numSchedulerAttempts''"

definition recorded_attempts :: "job_condition \<Rightarrow> job_error + int" where
  "recorded_attempts cond =
     (case c_metadata cond of
        None \<Rightarrow> Inr 0
      | Some (AnyBool _) \<Rightarrow> Inl (PlainError ''condition metadata cannot be read'')
      | Some (AnyOther _) \<Rightarrow> Inl (PlainError ''condition metadata cannot be read'')
      | Some (AnyStruct flds) \<Rightarrow>
          Inr (case map_of flds NumSchedulerAttempts of Some (JNumber n) \<Rightarrow> n | _ \<Rightarrow> 0))"

definition updateConditionWithAttempts ::
    "int \<Rightarrow> condition_update \<Rightarrow> job_condition \<Rightarrow> job_error + job_condition" where
  "updateConditionWithAttempts now p cond =
     map_sum id (\<lambda>n. UpdateCondition now
       (p\<lparr>cu_metadata := Some (AnyStruct [(NumSchedulerAttempts, JNumber (1 + n))])\<rparr>) cond)
       (recorded_attempts cond)"

text \<open>The condition a job without a match is left with.\<close>

definition no_match_condition :: "int \<Rightarrow> bool \<Rightarrow> int \<Rightarrow> job_condition \<Rightarrow> job_error + job_condition" where
  "no_match_condition now found generation scheduled =
     (if \<not> found then
        Inr (updateIfChanged now (with_generation CS_FALSE ''NoClustersFoundForAssignment'' generation) scheduled)
      else
        map_sum (\<lambda>_. PlainError ''could not update number of attemps on scheduled condition'') id
          (updateConditionWithAttempts now
             (with_generation CS_FALSE ''NoClusterMatchedRequirements'' generation) scheduled))"

text \<open>The strategy reads the registry when it is asked, so it may depend on the moment.\<close>

type_synonym strategy = "job_event list \<Rightarrow> job_object \<Rightarrow> job_error + decision"

definition assignJob :: "job_env \<Rightarrow> strategy \<Rightarrow> job_object \<Rightarrow> unit job_io" where
  "assignJob R strategy job =
     (let scheduled = fst (FindOrAddCondition ScheduledCondition (job_conditions job)) in
      if c_status scheduled = CS_TRUE then ok ()
      else do {
        decided \<leftarrow> peek (\<lambda>h. strategy h job);
        (case decided of
           Inl err \<Rightarrow> failing err
         | Inr (Some assignmentInfo, found, reason) \<Rightarrow>
             UpdateStatusWithRetries R job (matched assignmentInfo)
         | Inr (None, found, reason) \<Rightarrow> do {
             now \<leftarrow> peek (je_now R);
             (case no_match_condition now found (om_generation (job_meta job)) scheduled of
                Inl err \<Rightarrow> failing err
              | Inr cond \<Rightarrow> UpdateStatusWithRetries R job (not_matched cond))
           })
      })"

definition fetchLatestJob :: "job_env \<Rightarrow> queue_job \<Rightarrow> job_object job_io" where
  "fetchLatestJob R j =
     (let ns = qj_namespace j; nm = qj_name j in
      case qj_type j of
        RayCluster \<Rightarrow> and_then (fetch (je_get_ray R ns nm) (EvGetJob ns nm)) (\<lambda>c. ok (RayClusterObj c))
      | SparkJob \<Rightarrow> and_then (fetch (je_get_spark R ns nm) (EvGetJob ns nm)) (\<lambda>s. ok (SparkJobObj s))
      | RayJob \<Rightarrow> failing (PlainError ''unrecognized job type''))"

text \<open>
  One round of the loop on a job received from the queue. The deferred \<^verbatim>\<open>Done\<close> runs on every way
  out, a panic included.
\<close>

definition scheduleNext :: "job_env \<Rightarrow> strategy \<Rightarrow> queue_job \<Rightarrow> unit job_io" where
  "scheduleNext R strategy poppedJob = do {
     got \<leftarrow> fetchLatestJob R poppedJob;
     result \<leftarrow> (case got of
        Inl JobPanic \<Rightarrow> panic
      | Inl (JobErr e) \<Rightarrow> failing (PlainError ''failed to fetch latest job'')
      | Inr job \<Rightarrow> do {
          assigned \<leftarrow> assignJob R strategy job;
          State_Monad.return (case assigned of
             Inl (JobErr e) \<Rightarrow>
               if e = ErrStatusUpdate then Inr () else Inl (JobErr (PlainError ''failed assignment''))
           | _ \<Rightarrow> assigned)
        });
     emit (EvDone poppedJob);
     State_Monad.return result
   }"

text \<open>
  The loop over what \<^verbatim>\<open>Get\<close> answers (\<open>None\<close> when nothing came within a minute). An error is
  logged; a panic ends the loop, which nothing restarts: the answer is whether it still runs.
\<close>

fun scheduleJobsForever :: "job_env \<Rightarrow> strategy \<Rightarrow> queue_job option list \<Rightarrow> (job_event, bool) io" where
  "scheduleJobsForever R strategy [] = State_Monad.return True"
| "scheduleJobsForever R strategy (None # js) = scheduleJobsForever R strategy js"
| "scheduleJobsForever R strategy (Some j # js) = do {
     got \<leftarrow> scheduleNext R strategy j;
     (if got = Inl JobPanic then State_Monad.return False else scheduleJobsForever R strategy js)
   }"

text \<open>\<^verbatim>\<open>Enqueue\<close>, given whether the scheduler has been initialised and how \<^verbatim>\<open>Add\<close> ended.\<close>

datatype add_answer = Added | AlreadyQueued | AddTimedOut

definition Enqueue :: "bool \<Rightarrow> add_answer \<Rightarrow> job_error option" where
  "Enqueue initialised added =
     (if \<not> initialised then Some (PlainError ''enqueue err:scheduler_not_initialized'')
      else case added of
             Added \<Rightarrow> None
           | AlreadyQueued \<Rightarrow> Some ErrJobAlreadyExists
           | AddTimedOut \<Rightarrow> Some (PlainError ''enqueue err''))"


section \<open>What scheduling writes\<close>

lemma with_assignment_simps [simp]:
  "job_assignment (with_assignment f a job) = a"
  "job_conditions (with_assignment f a job) = f (job_conditions job)"
  by (cases job; simp add: with_assignment_def)+

text \<open>A write changes at most the assignment and the condition \<^verbatim>\<open>Scheduled\<close> of a job.\<close>

definition only_scheduling :: "job_object \<Rightarrow> job_object \<Rightarrow> bool" where
  "only_scheduling latest obj \<longleftrightarrow>
     (\<exists>f a. obj = with_assignment f a latest \<and>
        (\<forall>cs m. m \<noteq> ScheduledCondition \<longrightarrow> fst (FindOrAddCondition m (f cs)) = fst (FindOrAddCondition m cs)))"

text \<open>
  The events of a scheduling attempt. A job is read by its name. What is written is a job that
  has just been read, changed in its scheduling only: it is scheduled on a cluster with the
  property \<open>P\<close>, or it keeps its assignment and is not scheduled.
\<close>

fun scheduling_event ::
    "job_env \<Rightarrow> (string \<Rightarrow> bool) \<Rightarrow> job_object \<Rightarrow> job_event list \<Rightarrow> job_event \<Rightarrow> bool" where
  "scheduling_event R P job h (EvGetJob ns nm) \<longleftrightarrow>
     ns = om_namespace (job_meta job) \<and> nm = om_name (job_meta job)"
| "scheduling_event R P job h (EvUpdateStatus obj) \<longleftrightarrow>
     (\<exists>h0 latest. run_state (get_job R job) h0 = (Inr latest, h) \<and> only_scheduling latest obj \<and>
       (if IsJobScheduled (job_conditions obj) then \<exists>ai. job_assignment obj = Some ai \<and> P (ai_cluster ai)
        else job_assignment obj = job_assignment latest))"
| "scheduling_event R P job h _ \<longleftrightarrow> False"

lemma obeys_mono: "obeys P h tr \<Longrightarrow> (\<And>h e. P h e \<Longrightarrow> Q h e) \<Longrightarrow> obeys Q h tr"
  by (induction tr arbitrary: h) auto

lemma UpdateStatusWithRetries_obeys:
  assumes "run_state (UpdateStatusWithRetries R job f) h = (r, h @ tr)"
  shows "obeys (update_event R job f) h tr"
  using alwaysE [OF UpdateStatusWithRetries_always assms] by (metis same_append_eq)

lemma only_scheduling_matched: "matched ai now latest = Returned obj \<Longrightarrow> only_scheduling latest obj"
  unfolding only_scheduling_def matched_def
  by (rule exI, rule exI, rule conjI, erule outcome.inject [THEN iffD1, symmetric]) simp

lemma matched_event:
  "update_event R job (matched ai) h e \<Longrightarrow> P (ai_cluster ai) \<Longrightarrow> scheduling_event R P job h e"
proof (cases e)
  case (EvUpdateStatus obj)
  assume e: "update_event R job (matched ai) h e" and P: "P (ai_cluster ai)"
  from e EvUpdateStatus obtain h0 latest where read: "run_state (get_job R job) h0 = (Inr latest, h)"
      and obj: "matched ai (je_now R h) latest = Returned obj"
    by (auto simp: fresh_write_def)
  from obj have "IsJobScheduled (job_conditions obj)" "job_assignment obj = Some ai"
    by (auto simp: matched_def IsJobScheduled_def)
  with only_scheduling_matched [OF obj] read P EvUpdateStatus show ?thesis by auto
qed auto

lemma not_matched_event:
  assumes "update_event R job (not_matched cond) h e" "c_type cond = ScheduledCondition"
    "c_status cond \<noteq> CS_TRUE"
  shows "scheduling_event R P job h e"
proof (cases e)
  case (EvUpdateStatus obj)
  with assms(1) obtain h0 latest where read: "run_state (get_job R job) h0 = (Inr latest, h)"
      and obj: "not_matched cond (je_now R h) latest = Returned obj"
    by (auto simp: fresh_write_def)
  from obj obtain c where c: "latest = RayClusterObj c" by (cases latest) auto
  let ?f = "\<lambda>cs. write_condition ScheduledCondition (cond\<lparr>c_observed_generation := om_generation c\<rparr>)
    (snd (FindOrAddCondition ScheduledCondition cs))"
  from obj c have changed: "obj = with_assignment ?f (job_assignment latest) latest"
    by (auto simp: with_assignment_def)
  from assms(2) have "m \<noteq> ScheduledCondition \<Longrightarrow>
      fst (FindOrAddCondition m (?f cs)) = fst (FindOrAddCondition m cs)" for cs m
    by (simp add: Find_write)
  with changed have "only_scheduling latest obj" unfolding only_scheduling_def by blast
  moreover from assms(2,3) have "\<not> IsJobScheduled (job_conditions obj)"
    by (simp add: changed IsJobScheduled_def status_of_def Find_write)
  moreover have "job_assignment obj = job_assignment latest" by (simp add: changed)
  ultimately show ?thesis using read EvUpdateStatus by auto
qed (use assms(1) in auto)

lemma no_match_condition_sel:
  assumes "no_match_condition now found g scheduled = Inr cond"
  shows "c_type cond = c_type scheduled" and "c_status cond = CS_FALSE"
  using assms
  by (auto simp: no_match_condition_def updateIfChanged_def updateConditionWithAttempts_def with_generation_def
      status_and_reason_def split: if_splits)
    (cases "recorded_attempts scheduled"; auto)+

section \<open>What a strategy promises\<close>

locale assignment_strategy =
  fixes usable :: "'s \<Rightarrow> bool"
    and decide :: "'s \<Rightarrow> job_object \<Rightarrow> job_error + decision"
    and registered :: "'s \<Rightarrow> string \<Rightarrow> bool"
  assumes chosen: "usable s \<Longrightarrow> decide s job = Inr (Some ai, found, reason) \<Longrightarrow> registered s (ai_cluster ai)"
    and decides: "usable s \<Longrightarrow> decide s job = Inr (None, found, reason) \<Longrightarrow> \<not> registered s name"
begin

text \<open>A scheduled job is left alone; otherwise the writes of an attempt are as above, and it
  succeeds only when its last write was accepted.\<close>

lemma assign_obeys:
  assumes run: "run_state (assignJob R (\<lambda>h. decide (at h)) job) h = (r, h @ tr)" and u: "usable (at h)"
  shows "obeys (scheduling_event R (registered (at h)) job) h tr"
proof (cases "IsJobScheduled (job_conditions job)")
  case True
  with run show ?thesis by (simp add: assignJob_def IsJobScheduled_def status_of_def)
next
  case False
  note defs = assignJob_def IsJobScheduled_def status_of_def Let_def
  show ?thesis
  proof (cases "decide (at h) job")
    case (Inl e)
    with run False show ?thesis by (simp add: defs)
  next
    case (Inr d)
    obtain a found reason where d: "d = (a, found, reason)" by (cases d)
    show ?thesis
    proof (cases a)
      case (Some ai)
      with run False Inr d have "run_state (UpdateStatusWithRetries R job (matched ai)) h = (r, h @ tr)"
        by (simp add: defs)
      then show ?thesis
        by (rule obeys_mono [OF UpdateStatusWithRetries_obeys])
          (use matched_event chosen [OF u] Inr d Some in blast)
    next
      case None
      let ?c = "no_match_condition (je_now R h) found (om_generation (job_meta job))
        (fst (FindOrAddCondition ScheduledCondition (job_conditions job)))"
      show ?thesis
      proof (cases ?c)
        case (Inl e)
        with run False Inr d None show ?thesis by (simp add: defs)
      next
        case cond: (Inr cond)
        with run False Inr d None
        have "run_state (UpdateStatusWithRetries R job (not_matched cond)) h = (r, h @ tr)"
          by (simp add: defs)
        then show ?thesis
          by (rule obeys_mono [OF UpdateStatusWithRetries_obeys])
            (use not_matched_event no_match_condition_sel [OF cond] in fastforce)
      qed
    qed
  qed
qed

end

interpretation cluster_only: assignment_strategy
  "\<lambda>reg. \<exists>K. registry_reached K reg \<and> range_order ord" "Select ord" "\<lambda>reg name. GetCluster reg name \<noteq> None" for ord
proof unfold_locales
  fix reg job ai found reason
  assume "\<exists>K. registry_reached K reg \<and> range_order ord"
    and s: "Select ord reg job = Inr (Some ai, found, reason)"
  then obtain K where reach: "registry_reached K reg" and ord: "range_order ord" by blast
  have "GetCluster reg (om_name c) = Some c" if "GetClusters ord reg AllClusters = c # cs" for c cs
    using registry.listed_lookup [OF reach ord, of c] that by simp
  with s show "GetCluster reg (ai_cluster ai) \<noteq> None"
    by (auto simp: Select_def assigned_to_def Let_def split: option.splits list.splits)
next
  fix reg job found reason name
  assume "\<exists>K. registry_reached K reg \<and> range_order ord"
    and s: "Select ord reg job = Inr (None, found, reason)"
  then obtain K where reach: "registry_reached K reg" and ord: "range_order ord" by blast
  from s have "GetClusters ord reg AllClusters = []"
    by (auto simp: Select_def Let_def split: option.splits list.splits)
  with registry.nothing_listed [OF reach ord] show "\<not> GetCluster reg name \<noteq> None" by simp
qed


section \<open>Properties\<close>

text \<open>C23. The cluster a job is placed on is registered. It is the one the job asks for whenever that
  is registered, and otherwise one of the registered ones; a job is placed nowhere only when no
  cluster is registered at all. The strategy never fails.\<close>

theorem placement_honours_the_request:
  assumes "registry_reached K reg" "range_order ord"
  shows "case Select ord reg job of
      Inl err \<Rightarrow> False
    | Inr (Some ai, found, reason) \<Rightarrow>
        found \<and> GetCluster reg (ai_cluster ai) \<noteq> None \<and>
        (\<forall>name. requested_cluster job = Some name \<and> GetCluster reg name \<noteq> None \<longrightarrow> ai_cluster ai = name)
    | Inr (None, found, reason) \<Rightarrow> \<not> found \<and> (\<forall>name. GetCluster reg name = None)"
proof -
  from assms have usable: "\<exists>K. registry_reached K reg \<and> range_order ord" by blast
  show ?thesis
  proof (cases "Select ord reg job")
    case (Inl e)
    then show ?thesis by (simp add: Select_def Let_def split: option.splits list.splits)
  next
    case (Inr d)
    obtain a found reason where d: "d = (a, found, reason)" by (cases d)
    show ?thesis
    proof (cases a)
      case None
      with Inr d have "\<not> found" by (auto simp: Select_def Let_def split: option.splits list.splits)
      with Inr d None cluster_only.decides [OF usable, of job found reason] show ?thesis by simp
    next
      case (Some ai)
      with Inr d cluster_only.chosen [OF usable, of job ai found reason]
      have "GetCluster reg (ai_cluster ai) \<noteq> None" by simp
      moreover from Inr d Some have "found"
        by (auto simp: Select_def Let_def split: option.splits list.splits)
      moreover from Inr d Some have "ai_cluster ai = name"
        if "requested_cluster job = Some name" "GetCluster reg name \<noteq> None" for name
        using that by (auto simp: Select_def assigned_to_def Let_def)
      ultimately show ?thesis using Inr d Some by simp
    qed
  qed
qed

text \<open>An attempt to schedule a job leaves it alone when its copy is already scheduled. Otherwise
  every status it writes is the job as it was read just before, with at most its assignment and
  its \<open>Scheduled\<close> condition changed: it becomes scheduled on a cluster that was registered when
  the decision was made, or it keeps its assignment and is not scheduled. So no attempt, retried
  or not, overwrites what others have written into the status.\<close>

theorem scheduling_writes_fresh_status:
  assumes "run_state (assignJob R (\<lambda>h. Select ord (reg h)) job) h = (r, h @ tr)"
    and "registry_reached K (reg h)" "range_order ord"
  shows "obeys (scheduling_event R (\<lambda>name. GetCluster (reg h) name \<noteq> None) job) h tr \<and>
    (IsJobScheduled (job_conditions job) \<longrightarrow> tr = [] \<and> r = Inr ())"
proof
  show "obeys (scheduling_event R (\<lambda>name. GetCluster (reg h) name \<noteq> None) job) h tr"
    using assms by (intro cluster_only.assign_obeys) auto
  show "IsJobScheduled (job_conditions job) \<longrightarrow> tr = [] \<and> r = Inr ()"
    using assms(1) by (auto simp: assignJob_def IsJobScheduled_def status_of_def Let_def)
qed

fun not_done :: "job_event \<Rightarrow> bool" where
  "not_done (EvDone j) = False"
| "not_done _ = True"

lemma UpdateStatusWithRetries_not_done [simp]:
  "emits not_done (UpdateStatusWithRetries R job f)"
proof -
  have "emits not_done (get_job R job)"
    by (auto simp: get_job_def Let_def split: job_object.split intro!: emits_and_then emits_fetch)
  then have "emits not_done (update_attempt R job f)"
    unfolding update_attempt_def
    by (intro emits_and_then emits_bind) (auto split: outcome.split intro!: emits_perform)
  then have "emits not_done (retry_on_error n g (update_attempt R job f))" for n g
    by (induction n) (auto intro!: emits_bind split: sum.split job_stop.split)
  then show ?thesis
    unfolding UpdateStatusWithRetries_def
    by (intro emits_bind) (auto split: sum.split job_stop.split)
qed

lemma assignJob_emits [intro]: "emits not_done (assignJob R strategy job)"
  by (auto simp: assignJob_def Let_def intro!: emits_bind split: sum.split option.split prod.split)

lemma fetchLatestJob_emits [intro]: "emits not_done (fetchLatestJob R j)"
  by (auto simp: fetchLatestJob_def Let_def split: job_type.split intro!: emits_and_then emits_fetch)

text \<open>Whatever happens to a job in a round of the scheduler -- it cannot be read, it cannot be
  written, the round panics -- its key is released at the end of the round, and released once.\<close>

theorem scheduler_releases_every_job:
  assumes "run_state (scheduleNext R strategy j) h = (r, h')"
  shows "\<exists>tr. h' = h @ tr @ [EvDone j] \<and> (\<forall>k. EvDone k \<notin> set tr)"
proof -
  define work where "work = do {
     got \<leftarrow> fetchLatestJob R j;
     (case got of
        Inl JobPanic \<Rightarrow> panic
      | Inl (JobErr e) \<Rightarrow> failing (PlainError ''failed to fetch latest job'')
      | Inr job \<Rightarrow> do {
          assigned \<leftarrow> assignJob R strategy job;
          State_Monad.return (case assigned of
             Inl (JobErr e) \<Rightarrow>
               if e = ErrStatusUpdate then Inr () else Inl (JobErr (PlainError ''failed assignment''))
           | _ \<Rightarrow> assigned)
        })
   }"
  have "scheduleNext R strategy j = do { result \<leftarrow> work; emit (EvDone j); State_Monad.return result }"
    by (rule State_Monad.state.expand)
      (auto simp: fun_eq_iff scheduleNext_def work_def split: prod.split)
  with assms have w: "run_state work h = (r, butlast h')" "h' = butlast h' @ [EvDone j]"
    by (auto split: prod.splits)
  have "emits not_done work"
    unfolding work_def by (auto intro!: emits_bind split: sum.split job_stop.split)
  from this w(1) obtain tr where tr: "butlast h' = h @ tr" "list_all not_done tr" by (rule emitsE)
  then have "EvDone k \<notin> set tr" for k by (auto simp: list_all_iff)
  with w(2) tr(1) show ?thesis by (metis append_assoc)
qed

text \<open>When no cluster is registered, a Spark job that is not scheduled yet panics the scheduler:
  the change to be written takes every object for a Ray cluster. The panic ends the loop, so no
  later job is scheduled by this process; the key of the Spark job is still released.\<close>

theorem spark_job_without_clusters_ends_the_loop:
  assumes "qj_type j = SparkJob"
    and "\<And>h. je_get_spark R (qj_namespace j) (qj_name j) h = Inr s"
    and "om_namespace s = qj_namespace j" "om_name s = qj_name j"
    and "\<not> IsJobScheduled (sj_conditions (sj_status s))"
    and "\<And>h. GetClusters ord (reg h) AllClusters = []"
    and "\<And>h name. GetCluster (reg h) name = None"
  shows "run_state (scheduleJobsForever R (\<lambda>h. Select ord (reg h)) (Some j # js)) h =
    (False, h @ [EvGetJob (qj_namespace j) (qj_name j), EvGetJob (qj_namespace j) (qj_name j), EvDone j])"
proof -
  let ?get = "EvGetJob (qj_namespace j) (qj_name j)"
  have choice: "Select ord (reg h') (SparkJobObj s) = Inr (None, False, ''no_clusters_found'')" for h'
    using assms(6,7) by (simp add: Select_def Let_def split: option.split)
  have "run_state (update_attempt R (SparkJobObj s) (not_matched c)) h' = (Inl JobPanic, h' @ [?get])" for c h'
    using assms(2-4)
    by (simp add: update_attempt_def get_job_def and_then_def Let_def)
  then have "run_state (retry_on_error n g (update_attempt R (SparkJobObj s) (not_matched c))) h' =
      (Inl JobPanic, h' @ [?get])" for n g c h'
    by (cases n) simp_all
  then have "run_state (UpdateStatusWithRetries R (SparkJobObj s) (not_matched c)) h' =
      (Inl JobPanic, h' @ [?get])" for c h'
    by (simp add: UpdateStatusWithRetries_def)
  with choice assms(5) have "run_state (assignJob R (\<lambda>h. Select ord (reg h)) (SparkJobObj s)) h' =
      (Inl JobPanic, h' @ [?get])" for h'
    by (simp add: assignJob_def IsJobScheduled_def status_of_def Let_def no_match_condition_def)
  with assms(1,2) show ?thesis
    by (simp add: scheduleNext_def fetchLatestJob_def and_then_def Let_def)
qed

text \<open>Examples: a Ray cluster and a Spark job waiting to be scheduled, an API server that always
  answers them, and the registry of one cluster.\<close>

definition example_ray :: ray_cluster where
  "example_ray = \<lparr>om_namespace = ''prod'', om_name = ''train'', om_uid = '''', om_generation = 3,
     om_creation_ts = None, om_deletion_ts = None, om_labels = None, om_annotations = None,
     om_finalizers = [], om_owner_refs = [],
     rc_spec = \<lparr>rs_termination = None, rs_definition = ''''\<rparr>,
     rc_status = \<lparr>rt_state = RAY_INVALID, rt_assignment = None, rt_conditions = [],
       rt_pod_errors = [], rt_log_url = ''''\<rparr>\<rparr>"

definition example_spark :: spark_job where
  "example_spark = \<lparr>om_namespace = ''prod'', om_name = ''etl'', om_uid = '''', om_generation = 1,
     om_creation_ts = None, om_deletion_ts = None, om_labels = None, om_annotations = None,
     om_finalizers = [], om_owner_refs = [],
     sj_spec = \<lparr>ss_affinity = None, ss_definition = ''''\<rparr>,
     sj_status = \<lparr>sj_assignment = None, sj_conditions = []\<rparr>\<rparr>"

definition example_job_env :: job_env where
  "example_job_env = \<lparr>je_get_ray = (\<lambda>ns nm h. Inr example_ray), je_get_spark = (\<lambda>ns nm h. Inr example_spark),
     je_update_status = (\<lambda>obj h. None), je_now = (\<lambda>h. 100), je_error_text = (\<lambda>e. ''''),
     je_retry_steps = 4, je_enqueue = (\<lambda>j h. None), je_create = (\<lambda>c k h. None),
     je_delete = (\<lambda>c k h. None), je_status = (\<lambda>c k h. Inr None)\<rparr>"

lemma example_job_env_sel [simp]:
  "je_get_ray example_job_env ns nm h = Inr example_ray"
  "je_get_spark example_job_env ns nm h = Inr example_spark"
  "je_update_status example_job_env obj h = None"
  "je_now example_job_env h = 100"
  "je_retry_steps example_job_env = 4"
  by (simp_all add: example_job_env_def)

lemma example_jobs_sel [simp]:
  "om_namespace example_ray = ''prod''" "om_name example_ray = ''train''"
  "om_namespace example_spark = ''prod''" "om_name example_spark = ''etl''"
  "rt_conditions (rc_status example_ray) = []" "sj_conditions (sj_status example_spark) = []"
  "requested_cluster (RayClusterObj example_ray) = None"
  "requested_cluster (SparkJobObj example_spark) = None"
  by (simp_all add: example_ray_def example_spark_def requested_cluster_def selector_of_def)

definition example_registry :: registry where
  "example_registry = [(''gpu-1'', \<lparr>cd_status = None, cd_obj = registered_example\<rparr>)]"

lemma example_registry_reached: "registry_reached example_cluster_env example_registry"
  unfolding example_registry_def by (rule registry_reconciled [OF registry_empty example_cluster_pass])

lemma example_registry_sel [simp]:
  "GetClusters (\<lambda>ks. ks) example_registry AllClusters = [registered_example]"
  "GetCluster example_registry name = (if name = ''gpu-1'' then Some registered_example else None)"
  by (simp_all add: example_registry_def GetClusters_def getClustersByFilter_def GetCluster_def
      cluster_map_get_def List.map_filter_def)

lemma example_choice:
  "Select (\<lambda>ks. ks) example_registry (RayClusterObj example_ray) =
     Inr (Some (assigned_to ''gpu-1''), True, ''cluster_default_selected'')"
  by (simp add: Select_def)

theorem placement_honours_the_request_witness:
  "\<exists>reason. Select (\<lambda>ks. ks) example_registry (RayClusterObj example_ray) =
     Inr (Some (assigned_to ''gpu-1''), True, reason) \<and> GetCluster example_registry ''gpu-1'' \<noteq> None"
  using placement_honours_the_request [OF example_registry_reached range_order_id, of "RayClusterObj example_ray"]
  by (simp add: example_choice assigned_to_def)

lemma example_assign:
  "\<exists>obj. run_state (assignJob example_job_env (\<lambda>h. Select (\<lambda>ks. ks) example_registry)
      (RayClusterObj example_ray)) [] =
    (Inr (), [] @ ([EvGetJob ''prod'' ''train''] @ EvUpdateStatus obj # []))"
  by (auto simp: assignJob_def status_of_def example_choice Let_def UpdateStatusWithRetries_def
      update_attempt_def get_job_def and_then_def matched_def numeral_eq_Suc)

theorem scheduling_writes_fresh_status_witness:
  "\<exists>obj. scheduling_event example_job_env (\<lambda>name. GetCluster example_registry name \<noteq> None)
     (RayClusterObj example_ray) [EvGetJob ''prod'' ''train''] (EvUpdateStatus obj)"
proof -
  from example_assign obtain obj where run: "run_state (assignJob example_job_env
      (\<lambda>h. Select (\<lambda>ks. ks) example_registry) (RayClusterObj example_ray)) [] =
    (Inr (), [] @ ([EvGetJob ''prod'' ''train''] @ EvUpdateStatus obj # []))" by blast
  from obeysD [OF conjunct1 [OF scheduling_writes_fresh_status
      [OF run example_registry_reached range_order_id]]]
  show ?thesis by (intro exI) (simp only: append_Nil)
qed

theorem scheduler_releases_every_job_witness:
  "\<exists>tr. snd (run_state (scheduleNext example_job_env (\<lambda>h. Select (\<lambda>ks. ks) []) example_job) []) =
     tr @ [EvDone example_job]"
  using scheduler_releases_every_job [of example_job_env "\<lambda>h. Select (\<lambda>ks. ks) []" example_job "[]",
      OF prod.collapse [symmetric]] by auto

theorem spark_job_without_clusters_ends_the_loop_witness:
  "fst (run_state (scheduleJobsForever example_job_env (\<lambda>h. Select (\<lambda>ks. ks) [])
     [Some (NewSchedulableJob ''etl'' ''prod'' 1 SparkJob), Some example_job]) []) = False"
  using spark_job_without_clusters_ends_the_loop [of "NewSchedulableJob ''etl'' ''prod'' 1 SparkJob"
      example_job_env example_spark "\<lambda>ks. ks" "\<lambda>h. []" "[Some example_job]" "[]"]
  by (simp add: NewSchedulableJob_def IsJobScheduled_def status_of_def GetClusters_def
      getClustersByFilter_def GetCluster_def cluster_map_get_def)

end
