(* ===== verification/Ray_Cluster.thy ===== *)
theory Ray_Cluster
  imports Job_Scheduler
begin

text \<open>
  The controller of Ray clusters (\<^verbatim>\<open>go/components/ray/cluster/controller.go\<close>): one pass reads a
  RayCluster and enqueues it for scheduling, launches it on the cluster it was assigned to,
  monitors it there, or terminates it. All progress is kept in the conditions of its status.
\<close>

section \<open>Conditions of a Ray cluster\<close>

definition EnqueuedCondition :: string where "EnqueuedCondition = ''Enqueued''"
definition LaunchedCondition :: string where "LaunchedCondition = ''Launched''"
definition KillingCondition :: string where "KillingCondition = ''Killing''"
definition KilledCondition :: string where "KilledCondition = ''Killed''"
definition SucceededCondition :: string where "SucceededCondition = ''Succeeded''"

lemmas condition_names =
  EnqueuedCondition_def LaunchedCondition_def KillingCondition_def KilledCondition_def
  SucceededCondition_def ScheduledCondition_def

lemma conditions_distinct [simp]:
  "distinct [EnqueuedCondition, LaunchedCondition, KillingCondition, KilledCondition,
     SucceededCondition, ScheduledCondition]"
  by (simp add: condition_names)

abbreviation conditions_of :: "ray_cluster \<Rightarrow> job_condition list" where
  "conditions_of c \<equiv> rt_conditions (rc_status c)"

abbreviation cluster_condition :: "string \<Rightarrow> ray_cluster \<Rightarrow> condition_status" where
  "cluster_condition name c \<equiv> status_of name (conditions_of c)"

text \<open>Looking a condition up in the object at hand creates it there.\<close>

definition touch :: "string \<Rightarrow> ray_cluster \<Rightarrow> ray_cluster" where
  "touch name c = c\<lparr>rc_status := (rc_status c)
     \<lparr>rt_conditions := snd (FindOrAddCondition name (conditions_of c))\<rparr>\<rparr>"

definition set_condition :: "int \<Rightarrow> string \<Rightarrow> condition_update \<Rightarrow> ray_cluster \<Rightarrow> ray_cluster" where
  "set_condition now name p c = c\<lparr>rc_status := (rc_status c)
     \<lparr>rt_conditions := SetCondition now name p (conditions_of c)\<rparr>\<rparr>"

definition set_ray_state :: "ray_cluster_state \<Rightarrow> ray_cluster \<Rightarrow> ray_cluster" where
  "set_ray_state s c = c\<lparr>rc_status := (rc_status c)\<lparr>rt_state := s\<rparr>\<rparr>"

text \<open>A change of a Ray cluster as a change of the object a status update has read.\<close>

fun on_ray :: "(int \<Rightarrow> ray_cluster \<Rightarrow> ray_cluster outcome) \<Rightarrow> int \<Rightarrow> job_object \<Rightarrow> job_object outcome" where
  "on_ray f now (RayClusterObj c) = map_outcome RayClusterObj (f now c)"
| "on_ray f now (SparkJobObj s) = Panicked"

definition update_ray :: "job_env \<Rightarrow> ray_cluster \<Rightarrow> (int \<Rightarrow> ray_cluster \<Rightarrow> ray_cluster outcome) \<Rightarrow> unit job_io" where
  "update_ray R c f = UpdateStatusWithRetries R (RayClusterObj c) (on_ray f)"

section \<open>Termination\<close>

definition shouldTerminateCluster :: "ray_cluster \<Rightarrow> bool \<times> ray_cluster" where
  "shouldTerminateCluster c =
     (if IsTerminationInfoSet c then (True, c)
      else (cluster_condition SucceededCondition c \<noteq> CS_UNKNOWN, touch SucceededCondition c))"

text \<open>The reason is that of the termination of the object read last, which may be nil there.\<close>

definition succeeded_update :: "condition_status \<Rightarrow> int \<Rightarrow> ray_cluster \<Rightarrow> ray_cluster outcome" where
  "succeeded_update status now c =
     (case rs_termination (rc_spec c) of
        None \<Rightarrow> Panicked
      | Some t \<Rightarrow> Returned (set_condition now SucceededCondition
          (with_generation status (te_reason t) (om_generation c)) c))"

definition setClusterSuccessConditionIfRequired :: "job_env \<Rightarrow> ray_cluster \<Rightarrow> unit job_io" where
  "setClusterSuccessConditionIfRequired R c =
     (if cluster_condition SucceededCondition c \<noteq> CS_UNKNOWN then ok ()
      else case rs_termination (rc_spec c) of
             None \<Rightarrow> panic
           | Some t \<Rightarrow>
               (case te_type t of
                  TT_SUCCEEDED \<Rightarrow> update_ray R c (succeeded_update CS_TRUE)
                | TT_FAILED \<Rightarrow> update_ray R c (succeeded_update CS_FALSE)
                | _ \<Rightarrow> failing (PlainError ''invalid termination type'')))"

definition killing_update :: "int \<Rightarrow> ray_cluster \<Rightarrow> ray_cluster outcome" where
  "killing_update now c =
     Returned (set_condition now KillingCondition (with_generation CS_TRUE '''' (om_generation c)) c)"

definition setClusterKillIfRequired :: "job_env \<Rightarrow> ray_cluster \<Rightarrow> unit job_io" where
  "setClusterKillIfRequired R c =
     (if cluster_condition KillingCondition c \<noteq> CS_UNKNOWN then ok ()
      else if cluster_condition KilledCondition c = CS_TRUE then ok ()
      else update_ray R c killing_update)"

text \<open>The registry as the pass finds it when it asks; it asks once.\<close>

type_synonym cluster_lookup = "string \<Rightarrow> cluster option"

definition getClusterIfScheduled :: "cluster_lookup \<Rightarrow> ray_cluster \<Rightarrow> cluster option" where
  "getClusterIfScheduled lookup c =
     (if \<not> IsJobScheduled (conditions_of c) then None
      else case rt_assignment (rc_status c) of
             None \<Rightarrow> None
           | Some a \<Rightarrow> if ai_cluster a = '''' then None else lookup (ai_cluster a))"

definition KilledMessageJobNotLaunched :: string where
  "KilledMessageJobNotLaunched = ''job could be killed early because it was not yet launched''"

definition killed_early_update :: "int \<Rightarrow> ray_cluster \<Rightarrow> ray_cluster outcome" where
  "killed_early_update now c = Returned (set_ray_state RAY_TERMINATED
     (set_condition now KillingCondition (status_and_reason CS_FALSE '''')
       (set_condition now KilledCondition (status_and_reason CS_TRUE KilledMessageJobNotLaunched) c)))"

definition deleted_update :: "int \<Rightarrow> ray_cluster \<Rightarrow> ray_cluster outcome" where
  "deleted_update now c = Returned (set_ray_state RAY_TERMINATED
     (set_condition now KilledCondition (with_generation CS_TRUE '''' (om_generation c))
       (set_condition now KillingCondition (status_and_reason CS_FALSE '''') c)))"

definition cleanupCluster :: "job_env \<Rightarrow> cluster_lookup \<Rightarrow> ray_cluster \<Rightarrow> unit job_io" where
  "cleanupCluster R lookup c =
     (if cluster_condition KillingCondition c \<noteq> CS_TRUE then ok ()
      else case getClusterIfScheduled lookup c of
           None \<Rightarrow> update_ray R c killed_early_update
         | Some k \<Rightarrow>
             if cluster_condition LaunchedCondition c \<noteq> CS_TRUE then update_ray R c killed_early_update
             else do {
               err \<leftarrow> ask (je_delete R c k) (\<lambda>_. EvDeleteJobCluster c k);
               (case err of
                  Some e \<Rightarrow> if k8s_is_not_found e then update_ray R c deleted_update
                            else failing (ApiError e)
                | None \<Rightarrow> update_ray R c deleted_update)
             })"

text \<open>
  The three steps work on the object as it was read: what one of them writes is not in the
  object the next one looks at. The conditions each step creates in that object are there for
  the calls that follow.
\<close>

definition processClusterTermination :: "job_env \<Rightarrow> cluster_lookup \<Rightarrow> ray_cluster \<Rightarrow> unit job_io" where
  "processClusterTermination R lookup c =
     (let c1 = touch SucceededCondition c;
          c2 = touch KillingCondition c1;
          c3 = (if cluster_condition KillingCondition c2 = CS_UNKNOWN then touch KilledCondition c2 else c2)
      in and_then (setClusterSuccessConditionIfRequired R c1) (\<lambda>_.
         and_then (setClusterKillIfRequired R c2) (\<lambda>_.
         cleanupCluster R lookup c3)))"


section \<open>Enqueueing\<close>

definition AddedToSchedulerQueue :: string where
  "AddedToSchedulerQueue = ''AddedToSchedulerQueue''"

definition enqueued_update :: "int \<Rightarrow> ray_cluster \<Rightarrow> ray_cluster outcome" where
  "enqueued_update now c =
     Returned (set_condition now EnqueuedCondition
       (with_generation CS_TRUE AddedToSchedulerQueue (om_generation c)) c)"

text \<open>A job that is in the queue already is no error.\<close>

definition enqueue :: "job_env \<Rightarrow> ray_cluster \<Rightarrow> unit job_io" where
  "enqueue R c =
     (let j = NewSchedulableJob (om_name c) (om_namespace c) (om_generation c) RayCluster in do {
       err \<leftarrow> ask (je_enqueue R j) (\<lambda>_. EvEnqueue j);
       State_Monad.return (case err of
          None \<Rightarrow> Inr ()
        | Some e \<Rightarrow> if e = ErrJobAlreadyExists then Inr () else Inl (JobErr e))
     })"

definition enqueueIfRequired :: "job_env \<Rightarrow> ray_cluster \<Rightarrow> ray_cluster job_io" where
  "enqueueIfRequired R c =
     (let c1 = touch EnqueuedCondition c in
      if cluster_condition EnqueuedCondition c \<noteq> CS_TRUE then do {
        got \<leftarrow> update_ray R c1 enqueued_update;
        (case got of
           Inl JobPanic \<Rightarrow> panic
         | Inl (JobErr e) \<Rightarrow> failing (PlainError ''status update err'')
         | Inr _ \<Rightarrow> and_then (enqueue R c1) (\<lambda>_. ok c1))
      }
      else let c2 = touch ScheduledCondition c1 in
        if cluster_condition ScheduledCondition c1 \<noteq> CS_TRUE then and_then (enqueue R c2) (\<lambda>_. ok c2)
        else ok c2)"

section \<open>Launching and monitoring\<close>

definition creation_failed_update :: "string \<Rightarrow> int \<Rightarrow> ray_cluster \<Rightarrow> ray_cluster outcome" where
  "creation_failed_update message now c =
     Returned (set_condition now SucceededCondition
       ((with_generation CS_FALSE ''ClusterCreationFailed'' (om_generation c))\<lparr>cu_message := message\<rparr>)
       (set_ray_state RAY_FAILED c))"

definition launched_update :: "int \<Rightarrow> ray_cluster \<Rightarrow> ray_cluster outcome" where
  "launched_update now c =
     Returned (set_condition now LaunchedCondition
       (with_generation CS_TRUE ''ClusterCreated'' (om_generation c)) (set_ray_state RAY_PROVISIONING c))"

fun k8s_is_already_exists :: "api_error \<Rightarrow> bool" where
  "k8s_is_already_exists (K8sStatusError r) = (r = ReasonAlreadyExists)"
| "k8s_is_already_exists (K8sOtherAPIStatus r) = (r = ReasonAlreadyExists)"
| "k8s_is_already_exists _ = False"

definition or_default :: "string \<Rightarrow> string \<Rightarrow> string" where
  "or_default reason fallback = (if reason = '''' then fallback else reason)"

definition applyRayClusterStatus :: "int \<Rightarrow> ray_cluster \<Rightarrow> reported_ray \<Rightarrow> string \<Rightarrow> ray_cluster \<times> ctrl_result" where
  "applyRayClusterStatus now c ray reason =
     (let c1 = set_ray_state (rr_state ray) c;
          c2 = (if rr_log_url ray \<noteq> '''' then c1\<lparr>rc_status := (rc_status c1)\<lparr>rt_log_url := rr_log_url ray\<rparr>\<rparr> else c1);
          c3 = (if rr_pod_errors ray \<noteq> []
                then c2\<lparr>rc_status := (rc_status c2)\<lparr>rt_pod_errors := rr_pod_errors ray\<rparr>\<rparr> else c2);
          c4 = touch LaunchedCondition (touch SucceededCondition c3);
          failed = (\<lambda>fallback x. set_condition now SucceededCondition
            (with_generation CS_FALSE (or_default reason fallback) (om_generation x)) x)
      in case rr_state ray of
           RAY_READY \<Rightarrow>
             (set_condition now LaunchedCondition (with_generation CS_TRUE ''ClusterReady'' (om_generation c4)) c4,
              requeue_after 0)
         | RAY_FAILED \<Rightarrow> (failed ''ClusterFailed'' c4, requeue_after (seconds 10))
         | RAY_UNHEALTHY \<Rightarrow> (failed ''ClusterUnhealthy'' c4, requeue_after (seconds 10))
         | RAY_UNKNOWN \<Rightarrow>
             (if HasTerminalPodErrors (rr_pod_errors ray)
              then failed ''ClusterFailedWithPodErrors'' (set_ray_state RAY_FAILED c4) else c4,
              requeue_after (seconds 10))
         | _ \<Rightarrow> (c4, requeue_after (seconds 10)))"

definition status_update :: "ray_cluster_status \<Rightarrow> int \<Rightarrow> ray_cluster \<Rightarrow> ray_cluster outcome" where
  "status_update status now c = Returned (c\<lparr>rc_status := status\<rparr>)"

section \<open>One pass\<close>

text \<open>
  What a pass answers: a result and perhaps an error. A panic stays one. \<open>later\<close> is the
  requeue after ten seconds.
\<close>

abbreviation later :: ctrl_result where "later \<equiv> requeue_after (seconds 10)"

type_synonym pass = "ctrl_result \<times> job_error option"

definition ended :: "ctrl_result \<Rightarrow> ctrl_result \<Rightarrow> job_stop + 'a \<Rightarrow> pass outcome" where
  "ended good bad got =
     (case got of
        Inl JobPanic \<Rightarrow> Panicked
      | Inl (JobErr e) \<Rightarrow> Returned (bad, Some e)
      | Inr _ \<Rightarrow> Returned (good, None))"

definition launch :: "job_env \<Rightarrow> ray_cluster \<Rightarrow> cluster \<Rightarrow> (job_event, pass outcome) io" where
  "launch R c k = do {
     err \<leftarrow> ask (je_create R c k) (\<lambda>_. EvCreateJobCluster c k);
     (case err of
        Some e \<Rightarrow>
          if k8s_is_already_exists e then do {
            got \<leftarrow> update_ray R c launched_update;
            State_Monad.return (ended later later got)
          }
          else do {
            got \<leftarrow> update_ray R (set_ray_state RAY_FAILED c)
              (creation_failed_update (error_text R (ApiError e)));
            State_Monad.return (ended later later got)
          }
      | None \<Rightarrow> do {
          got \<leftarrow> update_ray R c launched_update;
          State_Monad.return (ended later later got)
        })
   }"

text \<open>The status answered may be nil, or lack its Ray part: reading its state then panics, before
  the check for nil of \<^verbatim>\<open>applyRayClusterStatus\<close> is reached.\<close>

definition monitor :: "job_env \<Rightarrow> ray_cluster \<Rightarrow> ray_cluster \<Rightarrow> cluster \<Rightarrow> (job_event, pass outcome) io" where
  "monitor R original c k = do {
     got \<leftarrow> ask (je_status R c k) (\<lambda>_. EvGetJobClusterStatus c k);
     (case got of
        Inl e \<Rightarrow> State_Monad.return (Returned (later, if IsNotFoundError e then None else Some (ApiError e)))
      | Inr answer \<Rightarrow>
          (case Option.bind answer (\<lambda>st. map_option (\<lambda>ray. (ray, js_reason st)) (js_ray st)) of
             None \<Rightarrow> State_Monad.return Panicked
           | Some (ray, reason) \<Rightarrow> do {
               now \<leftarrow> peek (je_now R);
               (case applyRayClusterStatus now c ray reason of (c', res) \<Rightarrow>
                  if rc_status original \<noteq> rc_status c' then do {
                    written \<leftarrow> update_ray R c' (status_update (rc_status c'));
                    State_Monad.return (ended res res written)
                  }
                  else State_Monad.return (Returned (res, None)))
             }))
   }"

definition after_enqueue ::
    "job_env \<Rightarrow> cluster_lookup \<Rightarrow> ray_cluster \<Rightarrow> ray_cluster \<Rightarrow> (job_event, pass outcome) io" where
  "after_enqueue R lookup original c =
     (case getClusterIfScheduled lookup c of
        None \<Rightarrow> State_Monad.return (Returned (later, None))
      | Some k \<Rightarrow>
          if cluster_condition LaunchedCondition c \<noteq> CS_TRUE then launch R (touch LaunchedCondition c) k
          else monitor R original (touch LaunchedCondition c) k)"

text \<open>What a pass does with the object it has read.\<close>

definition process_ray :: "job_env \<Rightarrow> cluster_lookup \<Rightarrow> ray_cluster \<Rightarrow> (job_event, pass outcome) io" where
  "process_ray R lookup c =
     (case shouldTerminateCluster c of (terminate, c1) \<Rightarrow>
        if terminate then do {
          processed \<leftarrow> processClusterTermination R lookup c1;
          State_Monad.return (ended no_requeue later processed)
        }
        else do {
          queued \<leftarrow> enqueueIfRequired R c1;
          (case queued of
             Inr c2 \<Rightarrow> after_enqueue R lookup c c2
           | Inl e \<Rightarrow> State_Monad.return (ended later later queued))
        })"

definition ReconcileRay :: "job_env \<Rightarrow> cluster_lookup \<Rightarrow> string \<Rightarrow> string \<Rightarrow> (job_event, pass outcome) io" where
  "ReconcileRay R lookup namespace name = do {
     got \<leftarrow> ask (je_get_ray R namespace name) (\<lambda>_. EvGetJob namespace name);
     (case got of
        Inl e \<Rightarrow> State_Monad.return
          (if IsNotFoundError e then Returned (no_requeue, None) else Returned (later, Some (ApiError e)))
      | Inr c \<Rightarrow> process_ray R lookup c)
   }"

section \<open>What a pass does\<close>

lemma touch_sel [simp]:
  "cluster_condition m (touch name c) = cluster_condition m c"
  "rc_spec (touch name c) = rc_spec c" "obj_meta.truncate (touch name c) = obj_meta.truncate c"
  "om_name (touch name c) = om_name c" "om_namespace (touch name c) = om_namespace c"
  "om_generation (touch name c) = om_generation c"
  "rt_assignment (rc_status (touch name c)) = rt_assignment (rc_status c)"
  by (simp_all add: touch_def obj_meta.truncate_def)

lemma scheduled_touch [simp]:
  "IsJobScheduled (conditions_of (touch name c)) = IsJobScheduled (conditions_of c)"
  "IsTerminationInfoSet (touch name c) = IsTerminationInfoSet c"
  "getClusterIfScheduled lookup (touch name c) = getClusterIfScheduled lookup c"
  by (simp_all add: IsJobScheduled_def IsTerminationInfoSet_def getClusterIfScheduled_def)

lemma set_ray_state_sel [simp]:
  "conditions_of (set_ray_state s c) = conditions_of c" "rc_spec (set_ray_state s c) = rc_spec c"
  "rt_state (rc_status (set_ray_state s c)) = s"
  "om_generation (set_ray_state s c) = om_generation c"
  by (simp_all add: set_ray_state_def)

lemma set_condition_sel [simp]:
  "cluster_condition m (set_condition now name p c) = (if m = name then cu_status p else cluster_condition m c)"
  "rc_spec (set_condition now name p c) = rc_spec c"
  "rt_state (rc_status (set_condition now name p c)) = rt_state (rc_status c)"
  "om_generation (set_condition now name p c) = om_generation c"
  by (simp_all add: set_condition_def)

lemma condition_names_neq [simp]:
  "EnqueuedCondition \<noteq> LaunchedCondition" "EnqueuedCondition \<noteq> KillingCondition"
  "LaunchedCondition \<noteq> KillingCondition" "KillingCondition \<noteq> KilledCondition"
  "KilledCondition \<noteq> KillingCondition" "SucceededCondition \<noteq> KillingCondition"
  "SucceededCondition \<noteq> LaunchedCondition" "LaunchedCondition \<noteq> SucceededCondition"
  by (simp_all add: condition_names)

text \<open>Whether a Ray cluster is to run: it is not being terminated and has not ended.\<close>

definition wanted :: "ray_cluster \<Rightarrow> bool" where
  "wanted c \<longleftrightarrow> \<not> IsTerminationInfoSet c \<and> cluster_condition SucceededCondition c = CS_UNKNOWN"

definition same_cluster :: "ray_cluster \<Rightarrow> ray_cluster \<Rightarrow> bool" where
  "same_cluster c c' \<longleftrightarrow> rc_spec c' = rc_spec c \<and> obj_meta.truncate c' = obj_meta.truncate c"

lemma same_cluster_touch [simp]: "same_cluster c (touch name c') = same_cluster c c'" "same_cluster c c"
  by (simp_all add: same_cluster_def)

text \<open>
  The calls a pass may make on the scheduler and on the remote cluster, given the object it has
  read. Reads and status updates go to the API server and are not restricted here.
\<close>

fun ray_event :: "cluster_lookup \<Rightarrow> ray_cluster \<Rightarrow> job_event \<Rightarrow> bool" where
  "ray_event lookup c0 (EvEnqueue j) \<longleftrightarrow> wanted c0 \<and>
     (cluster_condition EnqueuedCondition c0 \<noteq> CS_TRUE \<or> cluster_condition ScheduledCondition c0 \<noteq> CS_TRUE) \<and>
     j = NewSchedulableJob (om_name c0) (om_namespace c0) (om_generation c0) RayCluster"
| "ray_event lookup c0 (EvCreateJobCluster c k) \<longleftrightarrow> wanted c0 \<and> same_cluster c0 c \<and>
     getClusterIfScheduled lookup c0 = Some k \<and> cluster_condition LaunchedCondition c0 \<noteq> CS_TRUE"
| "ray_event lookup c0 (EvGetJobClusterStatus c k) \<longleftrightarrow> wanted c0 \<and> same_cluster c0 c \<and>
     getClusterIfScheduled lookup c0 = Some k \<and> cluster_condition LaunchedCondition c0 = CS_TRUE"
| "ray_event lookup c0 (EvDeleteJobCluster c k) \<longleftrightarrow> \<not> wanted c0 \<and> same_cluster c0 c \<and>
     getClusterIfScheduled lookup c0 = Some k \<and> cluster_condition LaunchedCondition c0 = CS_TRUE \<and>
     cluster_condition KillingCondition c0 = CS_TRUE"
| "ray_event lookup c0 (EvDone j) \<longleftrightarrow> False"
| "ray_event lookup c0 _ \<longleftrightarrow> True"

fun is_api_event :: "job_event \<Rightarrow> bool" where
  "is_api_event (EvGetJob ns nm) = True"
| "is_api_event (EvUpdateStatus obj) = True"
| "is_api_event _ = False"

lemma update_ray_emits: "emits is_api_event (update_ray R c f)"
proof -
  have "emits is_api_event (get_job R job)" for job
    by (auto simp: get_job_def Let_def split: job_object.split intro!: emits_and_then emits_fetch)
  then have "emits is_api_event (update_attempt R job f)" for job f
    unfolding update_attempt_def
    by (intro emits_and_then emits_bind) (auto split: outcome.split intro!: emits_perform)
  then have "emits is_api_event (retry_on_error n g (update_attempt R job f))" for n g job f
    by (induction n) (auto intro!: emits_bind split: sum.split job_stop.split)
  then show ?thesis
    unfolding update_ray_def UpdateStatusWithRetries_def
    by (intro emits_bind) (auto split: sum.split job_stop.split)
qed

lemma update_ray_ray_event [simp, intro]: "emits (ray_event lookup c0) (update_ray R c f)"
proof (rule emits_mono [OF update_ray_emits])
  fix e show "is_api_event e \<Longrightarrow> ray_event lookup c0 e" by (cases e) auto
qed

lemma processClusterTermination_emits:
  assumes "\<not> wanted c0" "same_cluster c0 c" "conditions_of c = snd (FindOrAddCondition SucceededCondition (conditions_of c0)) \<or> c = c0"
    "rt_assignment (rc_status c) = rt_assignment (rc_status c0)"
  shows "emits (ray_event lookup c0) (processClusterTermination R lookup c)"
proof -
  from assms(3) have status: "cluster_condition m c = cluster_condition m c0" for m by auto
  with assms(4) have placed: "getClusterIfScheduled lookup c = getClusterIfScheduled lookup c0"
    by (simp add: getClusterIfScheduled_def IsJobScheduled_def)
  have s1: "emits (ray_event lookup c0) (setClusterSuccessConditionIfRequired R x)" for x
    by (auto simp: setClusterSuccessConditionIfRequired_def split: option.split termination_type.split)
  have s2: "emits (ray_event lookup c0) (setClusterKillIfRequired R x)" for x
    by (auto simp: setClusterKillIfRequired_def)
  have s3: "emits (ray_event lookup c0) (cleanupCluster R lookup x)"
    if "same_cluster c0 x" "\<And>m. cluster_condition m x = cluster_condition m c0"
      "getClusterIfScheduled lookup x = getClusterIfScheduled lookup c0" for x
    using that assms(1)
    by (auto simp: cleanupCluster_def split: option.split intro!: emits_bind emits_ask)
  show ?thesis
    unfolding processClusterTermination_def Let_def
    by (intro emits_and_then s1 s2 s3) (auto simp: assms(2) status placed)
qed

lemma enqueue_emits:
  "wanted c0 \<Longrightarrow> same_cluster c0 c \<Longrightarrow>
    cluster_condition EnqueuedCondition c0 \<noteq> CS_TRUE \<or> cluster_condition ScheduledCondition c0 \<noteq> CS_TRUE \<Longrightarrow>
    emits (ray_event lookup c0) (enqueue R c)"
  by (auto simp: enqueue_def Let_def same_cluster_def obj_meta.truncate_def intro!: emits_bind emits_ask)

lemma enqueueIfRequired_emits:
  assumes "wanted c0" "same_cluster c0 c" "\<And>m. cluster_condition m c = cluster_condition m c0"
  shows "emits (ray_event lookup c0) (enqueueIfRequired R c)"
  unfolding enqueueIfRequired_def Let_def
  using assms
  by (auto intro!: emits_bind emits_and_then enqueue_emits split: sum.split job_stop.split)

text \<open>Enqueueing passes the object on with conditions created in it.\<close>

definition touched :: "ray_cluster \<Rightarrow> ray_cluster \<Rightarrow> bool" where
  "touched c c' \<longleftrightarrow> same_cluster c c' \<and> (\<forall>m. cluster_condition m c' = cluster_condition m c) \<and>
     rt_assignment (rc_status c') = rt_assignment (rc_status c)"

lemma touched_refl [simp]: "touched c c"
  by (simp add: touched_def)

lemma touched_touch [simp]: "touched c (touch name c') = touched c c'"
  by (simp add: touched_def)

lemma touched_placed: "touched c c' \<Longrightarrow> getClusterIfScheduled lookup c' = getClusterIfScheduled lookup c"
  by (simp add: touched_def getClusterIfScheduled_def IsJobScheduled_def)

lemma enqueueIfRequired_touched:
  "run_state (enqueueIfRequired R c) h = (Inr c', h') \<Longrightarrow> touched c c'"
  by (auto simp: enqueueIfRequired_def Let_def and_then_def
      split: if_splits prod.splits sum.splits job_stop.splits)

lemma after_enqueue_emits:
  assumes "wanted c0" "touched c0 c"
  shows "emits (ray_event lookup c0) (after_enqueue R lookup c0 c)"
  using assms touched_placed [OF assms(2), of lookup]
  by (auto simp: after_enqueue_def launch_def monitor_def touched_def Let_def intro!: emits_bind emits_ask
      split: option.split sum.split prod.split)

lemma process_ray_emits: "emits (ray_event lookup c) (process_ray R lookup c)"
proof (cases "wanted c")
  case True
  then have "shouldTerminateCluster c = (False, touch SucceededCondition c)"
    by (simp add: shouldTerminateCluster_def wanted_def)
  moreover have "\<exists>tr. snd (run_state (do {
          queued \<leftarrow> enqueueIfRequired R (touch SucceededCondition c);
          (case queued of
             Inr c2 \<Rightarrow> after_enqueue R lookup c c2
           | Inl e \<Rightarrow> State_Monad.return (ended later later queued))}) h) = h @ tr \<and>
      list_all (ray_event lookup c) tr" for h
  proof -
    obtain q h1 where q: "run_state (enqueueIfRequired R (touch SucceededCondition c)) h = (q, h1)"
      by (cases "run_state (enqueueIfRequired R (touch SucceededCondition c)) h")
    have "emits (ray_event lookup c) (enqueueIfRequired R (touch SucceededCondition c))"
      by (rule enqueueIfRequired_emits [OF True]) simp_all
    from this q obtain t1 where t1: "h1 = h @ t1" "list_all (ray_event lookup c) t1" by (rule emitsE)
    show ?thesis
    proof (cases q)
      case (Inl e)
      with q t1 show ?thesis by auto
    next
      case (Inr c2)
      with q have "touched (touch SucceededCondition c) c2" by (auto intro: enqueueIfRequired_touched)
      then have "touched c c2" by (simp add: touched_def same_cluster_def)
      obtain x h2 where a: "run_state (after_enqueue R lookup c c2) h1 = (x, h2)"
        by (cases "run_state (after_enqueue R lookup c c2) h1")
      from after_enqueue_emits [OF True \<open>touched c c2\<close>] a obtain t2
        where "h2 = h1 @ t2" "list_all (ray_event lookup c) t2" by (rule emitsE)
      with q Inr a t1 show ?thesis by auto
    qed
  qed
  ultimately show ?thesis by (simp add: process_ray_def emits_def)
next
  case False
  then have "fst (shouldTerminateCluster c)"
    by (auto simp: shouldTerminateCluster_def wanted_def)
  moreover have "snd (shouldTerminateCluster c) \<in> {c, touch SucceededCondition c}"
    by (simp add: shouldTerminateCluster_def)
  moreover have "emits (ray_event lookup c) (processClusterTermination R lookup x)"
    if "x \<in> {c, touch SucceededCondition c}" for x
    by (rule processClusterTermination_emits) (use that False in \<open>auto simp: touch_def same_cluster_def obj_meta.truncate_def\<close>)
  ultimately show ?thesis
    by (auto simp: process_ray_def case_prod_beta intro!: emits_bind)
qed

section \<open>Properties\<close>

text \<open>C21. A pass over a Ray cluster calls the scheduler and the remote clusters only as the object it
  has read allows. It enqueues, creates and monitors only a cluster that is neither being
  terminated nor ended; it creates it only on the registered cluster it is assigned to and only
  while it is not marked launched, and monitors it only once it is; it deletes it only when it is
  to end, is marked as being killed, and was launched on a cluster that is registered.\<close>

theorem remote_calls_are_guarded:
  assumes "je_get_ray R namespace name h = Inr c"
    and "run_state (ReconcileRay R lookup namespace name) h = (r, h')"
  shows "\<exists>tr. h' = h @ EvGetJob namespace name # tr \<and> list_all (ray_event lookup c) tr"
proof -
  from assms have "run_state (process_ray R lookup c) (h @ [EvGetJob namespace name]) = (r, h')"
    by (simp add: ReconcileRay_def)
  from process_ray_emits [of lookup c R] this obtain tr
    where "h' = (h @ [EvGetJob namespace name]) @ tr" "list_all (ray_event lookup c) tr"
    by (rule emitsE)
  then show ?thesis by auto
qed

lemma map_outcome_Returned:
  "map_outcome f x = Returned z \<longleftrightarrow> (\<exists>y. x = Returned y \<and> z = f y)"
  by (cases x) auto

lemma on_ray_Returned:
  "on_ray f now obj = Returned obj' \<longleftrightarrow>
     (\<exists>c c'. obj = RayClusterObj c \<and> f now c = Returned c' \<and> obj' = RayClusterObj c')"
  by (cases obj) (auto simp: map_outcome_Returned)

lemma update_ray_success:
  assumes "run_state (update_ray R c f) h = (Inr u, h')"
  obtains tr now fresh c' where "h' = h @ tr @ [EvUpdateStatus (RayClusterObj c')]"
    "f now fresh = Returned c'" "je_update_status R (RayClusterObj c') (h @ tr) = None"
proof (rule UpdateStatusWithRetries_success [OF assms [unfolded update_ray_def]])
  fix tr latest'
  assume w: "h' = h @ tr @ [EvUpdateStatus latest']" "je_update_status R latest' (h @ tr) = None"
    "fresh_write R (RayClusterObj c) (on_ray f) (h @ tr) latest'"
  from w(3) obtain fresh c' where "latest' = RayClusterObj c'" "f (je_now R (h @ tr)) fresh = Returned c'"
    by (auto simp: fresh_write_def on_ray_Returned)
  with w(1,2) that show thesis by blast
qed

lemma update_ray_appends:
  assumes "run_state (update_ray R c f) h = (r, h')"
  obtains tr where "h' = h @ tr" "list_all is_api_event tr"
  using update_ray_emits assms by (rule emitsE)

text \<open>The pass over a cluster that waits to be launched.\<close>

lemma launch_pass:
  assumes "je_get_ray R namespace name h = Inr c" "wanted c"
    and "cluster_condition EnqueuedCondition c = CS_TRUE"
    and "getClusterIfScheduled lookup c = Some k"
    and "cluster_condition LaunchedCondition c \<noteq> CS_TRUE"
  obtains c' where "same_cluster c c'"
    "run_state (ReconcileRay R lookup namespace name) h =
       run_state (launch R c' k) (h @ [EvGetJob namespace name])"
proof
  let ?c = "touch ScheduledCondition (touch EnqueuedCondition (touch SucceededCondition c))"
  from assms(4) have "cluster_condition ScheduledCondition c = CS_TRUE"
    by (auto simp: getClusterIfScheduled_def IsJobScheduled_def split: if_splits)
  with assms show "run_state (ReconcileRay R lookup namespace name) h =
      run_state (launch R (touch LaunchedCondition ?c) k) (h @ [EvGetJob namespace name])"
    by (simp add: ReconcileRay_def process_ray_def shouldTerminateCluster_def wanted_def
        enqueueIfRequired_def after_enqueue_def Let_def)
  show "same_cluster c (touch LaunchedCondition ?c)" by simp
qed

text \<open>A Ray cluster that is wanted, enqueued, placed on a registered cluster and not launched is
  created there by the next pass, right after the pass has read it. When the pass then answers
  without an error, either the creation was refused and the state of the cluster is written as
  failed, or the last thing written marks it launched, so that no later pass that reads it creates
  it again.\<close>

theorem placed_cluster_is_created_once:
  assumes "je_get_ray R namespace name h = Inr c" "wanted c"
    and "cluster_condition EnqueuedCondition c = CS_TRUE"
    and "getClusterIfScheduled lookup c = Some k"
    and "cluster_condition LaunchedCondition c \<noteq> CS_TRUE"
    and run: "run_state (ReconcileRay R lookup namespace name) h = (Returned (res, err), h')"
  shows "\<exists>c' tr. same_cluster c c' \<and> h' = h @ [EvGetJob namespace name, EvCreateJobCluster c' k] @ tr \<and>
    (err = None \<longrightarrow> (\<exists>pre written. tr = pre @ [EvUpdateStatus (RayClusterObj written)] \<and>
       (if je_create R c' k (h @ [EvGetJob namespace name]) \<in> {None} \<union> Some ` Collect k8s_is_already_exists
        then cluster_condition LaunchedCondition written = CS_TRUE
        else \<not> wanted written \<and> rt_state (rc_status written) = RAY_FAILED)))"
proof -
  from assms(1-5) obtain c' where c': "same_cluster c c'"
      "run_state (ReconcileRay R lookup namespace name) h =
       run_state (launch R c' k) (h @ [EvGetJob namespace name])"
    by (rule launch_pass)
  let ?h1 = "h @ [EvGetJob namespace name]"
  let ?h2 = "?h1 @ [EvCreateJobCluster c' k]"
  let ?created = "je_create R c' k ?h1 \<in> {None} \<union> Some ` Collect k8s_is_already_exists"
  define x where "x = (if ?created then c' else set_ray_state RAY_FAILED c')"
  define f where "f = (if ?created then launched_update
    else creation_failed_update (error_text R (ApiError (the (je_create R c' k ?h1)))))"
  obtain got h3 where got: "run_state (update_ray R x f) ?h2 = (got, h3)"
    by (cases "run_state (update_ray R x f) ?h2")
  have "run_state (launch R c' k) ?h1 = (ended later later got, h3)"
    using got by (cases "je_create R c' k ?h1") (auto simp: launch_def x_def f_def split: if_splits)
  with run c'(2) have out: "ended later later got = Returned (res, err)" "h' = h3" by simp_all
  from got obtain tr where tr: "h3 = ?h2 @ tr" by (rule update_ray_appends)
  have "\<exists>pre written. tr = pre @ [EvUpdateStatus (RayClusterObj written)] \<and>
       (if ?created then cluster_condition LaunchedCondition written = CS_TRUE
        else \<not> wanted written \<and> rt_state (rc_status written) = RAY_FAILED)" if "err = None"
  proof -
    from that out(1) have "got = Inr ()" by (auto simp: ended_def split: sum.splits job_stop.splits)
    with got have "run_state (update_ray R x f) ?h2 = (Inr (), h3)" by simp
    then obtain pre now fresh written where w: "h3 = ?h2 @ pre @ [EvUpdateStatus (RayClusterObj written)]"
        "f now fresh = Returned written"
      by (rule update_ray_success)
    from tr w(1) have "tr = pre @ [EvUpdateStatus (RayClusterObj written)]" by simp
    moreover from w(2) have "if ?created then cluster_condition LaunchedCondition written = CS_TRUE
        else \<not> wanted written \<and> rt_state (rc_status written) = RAY_FAILED"
      by (auto simp: f_def launched_update_def creation_failed_update_def wanted_def)
    ultimately show ?thesis by blast
  qed
  with c'(1) out(2) tr show ?thesis by (intro exI [of _ c'] exI [of _ tr]) simp
qed

text \<open>The pass over an ended cluster that is marked as being killed is its cleanup.\<close>

lemma cleanup_pass:
  assumes "je_get_ray R namespace name h = Inr c"
    and "cluster_condition SucceededCondition c \<noteq> CS_UNKNOWN"
    and "cluster_condition KillingCondition c = CS_TRUE"
  obtains c' where "touched c c'"
    "run_state (ReconcileRay R lookup namespace name) h =
       (case run_state (cleanupCluster R lookup c') (h @ [EvGetJob namespace name]) of
          (got, h') \<Rightarrow> (ended no_requeue later got, h'))"
proof
  let ?c = "touch KillingCondition (touch SucceededCondition (snd (shouldTerminateCluster c)))"
  show "touched c ?c" by (simp add: shouldTerminateCluster_def)
  show "run_state (ReconcileRay R lookup namespace name) h =
       (case run_state (cleanupCluster R lookup ?c) (h @ [EvGetJob namespace name]) of
          (got, h') \<Rightarrow> (ended no_requeue later got, h'))"
    using assms
    by (simp add: ReconcileRay_def process_ray_def shouldTerminateCluster_def
        processClusterTermination_def setClusterSuccessConditionIfRequired_def
        setClusterKillIfRequired_def and_then_def Let_def)
qed

lemma ended_ok:
  "ended good bad got = Returned (res, None) \<longleftrightarrow> (\<exists>x. got = Inr x) \<and> res = good"
  by (auto simp: ended_def split: sum.splits job_stop.splits)

text \<open>A status that says a cluster is gone.\<close>

definition marked_killed :: "ray_cluster \<Rightarrow> bool" where
  "marked_killed c \<longleftrightarrow> cluster_condition KilledCondition c = CS_TRUE \<and>
     cluster_condition KillingCondition c = CS_FALSE \<and> rt_state (rc_status c) = RAY_TERMINATED"

lemma update_ray_ended:
  assumes "run_state (update_ray R c f) h = (got, h')" "ended good bad got = Returned (res, None)"
    and "\<And>now fresh c'. f now fresh = Returned c' \<Longrightarrow> P c'"
  shows "\<exists>tr written. h' = h @ tr @ [EvUpdateStatus (RayClusterObj written)] \<and> P written"
proof -
  from assms(1,2) have "run_state (update_ray R c f) h = (Inr (), h')" by (auto simp: ended_ok)
  then show ?thesis by (rule update_ray_success) (use assms(3) in blast)
qed

text \<open>The cleanup of a Ray cluster that runs on a registered cluster begins by deleting it there.
  If the deletion fails, nothing is written and the pass is repeated; only once the remote
  cluster has confirmed the deletion, or does not know the Ray cluster any more, is the status
  that says it was killed and terminated written.\<close>

theorem killed_only_after_deletion:
  assumes "je_get_ray R namespace name h = Inr c"
    and "cluster_condition SucceededCondition c \<noteq> CS_UNKNOWN"
    and "cluster_condition KillingCondition c = CS_TRUE"
    and "getClusterIfScheduled lookup c = Some k"
    and "cluster_condition LaunchedCondition c = CS_TRUE"
    and run: "run_state (ReconcileRay R lookup namespace name) h = (r, h')"
  shows "\<exists>c' tr. same_cluster c c' \<and> h' = h @ [EvGetJob namespace name, EvDeleteJobCluster c' k] @ tr \<and>
    (case je_delete R c' k (h @ [EvGetJob namespace name]) of
       Some e \<Rightarrow> \<not> k8s_is_not_found e \<longrightarrow> tr = [] \<and> r = Returned (later, Some (ApiError e))
     | None \<Rightarrow> True) \<and>
    (\<forall>res. r = Returned (res, None) \<longrightarrow>
       (\<exists>pre written. tr = pre @ [EvUpdateStatus (RayClusterObj written)] \<and> marked_killed written))"
proof -
  from assms(1-3) obtain c' where c': "touched c c'"
      "run_state (ReconcileRay R lookup namespace name) h =
       (case run_state (cleanupCluster R lookup c') (h @ [EvGetJob namespace name]) of
          (got, h') \<Rightarrow> (ended no_requeue later got, h'))"
    by (rule cleanup_pass)
  let ?h1 = "h @ [EvGetJob namespace name]"
  let ?h2 = "?h1 @ [EvDeleteJobCluster c' k]"
  have placed: "getClusterIfScheduled lookup c' = Some k"
    using touched_placed [OF c'(1)] assms(4) by simp
  have status: "cluster_condition m c' = cluster_condition m c" for m
    using c'(1) by (simp add: touched_def)
  have same: "same_cluster c c'" using c'(1) by (simp add: touched_def)
  obtain got h3 where upd: "run_state (update_ray R c' deleted_update) ?h2 = (got, h3)"
    by (cases "run_state (update_ray R c' deleted_update) ?h2")
  then obtain tr where tr: "h3 = ?h2 @ tr" by (rule update_ray_appends)
  have marked: "deleted_update now fresh = Returned x \<Longrightarrow> marked_killed x" for now fresh x
    by (auto simp: deleted_update_def marked_killed_def)
  show ?thesis
  proof (cases "\<exists>e. je_delete R c' k ?h1 = Some e \<and> \<not> k8s_is_not_found e")
    case True
    then obtain e where e: "je_delete R c' k ?h1 = Some e" "\<not> k8s_is_not_found e" by blast
    with c'(2) placed assms(3,5) status run have "r = Returned (later, Some (ApiError e)) \<and> h' = ?h2"
      by (simp add: cleanupCluster_def ended_def)
    with e same show ?thesis by (intro exI [of _ c'] exI [of _ "[]"]) simp
  next
    case False
    with c'(2) placed assms(3,5) status run upd have r: "r = ended no_requeue later got" "h' = h3"
      by (auto simp: cleanupCluster_def split: option.splits)
    have "\<exists>pre written. tr = pre @ [EvUpdateStatus (RayClusterObj written)] \<and> marked_killed written"
      if "r = Returned (res, None)" for res
      using update_ray_ended [OF upd _ marked, of no_requeue later res] that r tr by auto
    with False same r(2) tr show ?thesis
      by (intro exI [of _ c'] exI [of _ tr]) (auto split: option.split)
  qed
qed

text \<open>The cleanup cannot tell a cluster the registry does not know from one that was never
  placed: a Ray cluster that was launched on a cluster that is not in the registry is marked
  killed and terminated without any call that deletes it.\<close>

theorem unknown_cluster_is_killed_without_deletion:
  assumes "je_get_ray R namespace name h = Inr c"
    and "cluster_condition SucceededCondition c \<noteq> CS_UNKNOWN"
    and "cluster_condition KillingCondition c = CS_TRUE"
    and "cluster_condition LaunchedCondition c = CS_TRUE"
    and "rt_assignment (rc_status c) = Some a" "lookup (ai_cluster a) = None"
    and run: "run_state (ReconcileRay R lookup namespace name) h = (r, h')"
  shows "\<exists>tr. h' = h @ EvGetJob namespace name # tr \<and> list_all is_api_event tr \<and>
    (\<forall>res. r = Returned (res, None) \<longrightarrow> res = no_requeue \<and>
       (\<exists>pre written. tr = pre @ [EvUpdateStatus (RayClusterObj written)] \<and> marked_killed written))"
proof -
  from assms(1-3) obtain c' where c': "touched c c'"
      "run_state (ReconcileRay R lookup namespace name) h =
       (case run_state (cleanupCluster R lookup c') (h @ [EvGetJob namespace name]) of
          (got, h') \<Rightarrow> (ended no_requeue later got, h'))"
    by (rule cleanup_pass)
  let ?h1 = "h @ [EvGetJob namespace name]"
  have "getClusterIfScheduled lookup c = None"
    using assms(5,6) by (simp add: getClusterIfScheduled_def)
  with touched_placed [OF c'(1)] have placed: "getClusterIfScheduled lookup c' = None" by simp
  have status: "cluster_condition m c' = cluster_condition m c" for m
    using c'(1) by (simp add: touched_def)
  obtain got where upd: "run_state (update_ray R c' killed_early_update) ?h1 = (got, h')"
      and r: "r = ended no_requeue later got"
    using c'(2) placed assms(3) status run by (auto simp: cleanupCluster_def split: prod.splits)
  then obtain tr where tr: "h' = ?h1 @ tr" "list_all is_api_event tr" by (auto elim: update_ray_appends)
  have marked: "killed_early_update now fresh = Returned x \<Longrightarrow> marked_killed x" for now fresh x
    by (auto simp: killed_early_update_def marked_killed_def)
  have "res = no_requeue \<and>
      (\<exists>pre written. tr = pre @ [EvUpdateStatus (RayClusterObj written)] \<and> marked_killed written)"
    if "r = Returned (res, None)" for res
    using update_ray_ended [OF upd _ marked, of no_requeue later res] that r tr by (auto simp: ended_ok)
  with tr show ?thesis by auto
qed

lemma launch_run: "\<exists>tr. snd (run_state (launch R c k) h) = h @ EvCreateJobCluster c k # tr"
proof -
  have upd: "appends (do { got \<leftarrow> update_ray R x f; State_Monad.return (ended later later got) })" for x f
    by (intro appends_bind appends_return emits_appends [OF update_ray_emits])
  note upd = upd [unfolded appends_def, rule_format, of _ _ "h @ [EvCreateJobCluster c k]"]
  have "\<exists>t. snd (run_state (launch R c k) h) = (h @ [EvCreateJobCluster c k]) @ t"
  proof (cases "je_create R c k h")
    case None
    with upd [of c launched_update] show ?thesis by (simp add: launch_def)
  next
    case (Some e)
    with upd [of c launched_update]
      upd [of "set_ray_state RAY_FAILED c" "creation_failed_update (error_text R (ApiError e))"]
    show ?thesis by (cases "k8s_is_already_exists e") (simp_all add: launch_def)
  qed
  then show ?thesis by simp
qed


section \<open>Examples\<close>

text \<open>An API server that answers what was written last, and \<open>c\<close> before any write.\<close>

fun last_ray :: "ray_cluster \<Rightarrow> job_event list \<Rightarrow> ray_cluster" where
  "last_ray c [] = c"
| "last_ray c (EvUpdateStatus (RayClusterObj c') # h) = last_ray c' h"
| "last_ray c (_ # h) = last_ray c h"

definition echo_job_env :: "ray_cluster \<Rightarrow> job_env" where
  "echo_job_env c = example_job_env\<lparr>je_get_ray := (\<lambda>ns nm h. Inr (last_ray c h))\<rparr>"

lemma echo_job_env_sel [simp]:
  "je_get_ray (echo_job_env c) ns nm h = Inr (last_ray c h)"
  "je_update_status (echo_job_env c) obj h = None"
  "je_now (echo_job_env c) h = 100" "je_retry_steps (echo_job_env c) = 4"
  "je_create (echo_job_env c) x k h = None" "je_delete (echo_job_env c) x k h = None"
  by (simp_all add: echo_job_env_def example_job_env_def)

definition in_status :: "condition_status \<Rightarrow> string \<Rightarrow> job_condition" where
  "in_status s name = UpdateCondition 0 (status_and_reason s '''') (UnknownCondition name)"

lemma in_status_sel [simp]: "c_type (in_status s name) = name" "c_status (in_status s name) = s"
  by (simp_all add: in_status_def)

definition queued_ray :: ray_cluster where
  "queued_ray = example_ray\<lparr>rc_status := (rc_status example_ray)
     \<lparr>rt_conditions := [in_status CS_TRUE EnqueuedCondition]\<rparr>\<rparr>"

definition placed_ray :: ray_cluster where
  "placed_ray = example_ray\<lparr>rc_status := (rc_status example_ray)
     \<lparr>rt_assignment := Some (assigned_to ''gpu-1''),
      rt_conditions := [in_status CS_TRUE EnqueuedCondition, in_status CS_TRUE ScheduledCondition]\<rparr>\<rparr>"

definition dying_ray :: ray_cluster where
  "dying_ray = example_ray\<lparr>rc_status := (rc_status example_ray)
     \<lparr>rt_assignment := Some (assigned_to ''gpu-1''),
      rt_conditions := [in_status CS_TRUE ScheduledCondition, in_status CS_TRUE LaunchedCondition,
        in_status CS_FALSE SucceededCondition, in_status CS_TRUE KillingCondition]\<rparr>\<rparr>"

lemmas example_ray_defs =
  queued_ray_def placed_ray_def dying_ray_def status_of_def wanted_def IsTerminationInfoSet_def
  getClusterIfScheduled_def IsJobScheduled_def condition_names assigned_to_def

lemma rays_sel [simp]:
  "wanted queued_ray" "wanted placed_ray"
  "cluster_condition EnqueuedCondition placed_ray = CS_TRUE"
  "cluster_condition LaunchedCondition placed_ray = CS_UNKNOWN"
  "cluster_condition SucceededCondition dying_ray = CS_FALSE"
  "cluster_condition KillingCondition dying_ray = CS_TRUE"
  "cluster_condition LaunchedCondition dying_ray = CS_TRUE"
  "rt_assignment (rc_status dying_ray) = Some (assigned_to ''gpu-1'')"
  "getClusterIfScheduled (GetCluster example_registry) placed_ray = Some registered_example"
  "getClusterIfScheduled (GetCluster example_registry) dying_ray = Some registered_example"
  by (simp_all add: example_ray_defs example_ray_def)

theorem remote_calls_are_guarded_witness:
  "\<exists>tr. snd (run_state (ReconcileRay (echo_job_env placed_ray) (GetCluster example_registry) ''prod'' ''train'') []) =
     EvGetJob ''prod'' ''train'' # tr \<and> list_all (ray_event (GetCluster example_registry) placed_ray) tr"
  using remote_calls_are_guarded [of "echo_job_env placed_ray" "''prod''" "''train''" "[]" placed_ray,
      OF _ prod.collapse [symmetric], of "GetCluster example_registry"] by simp

text \<open>That server accepts every status update.\<close>

lemma update_ray_echo:
  assumes "\<And>now x. f now x \<noteq> Panicked"
  shows "\<exists>h'. run_state (update_ray (echo_job_env c0) c f) h = (Inr (), h')"
proof -
  have "\<exists>h'. run_state (update_attempt (echo_job_env c0) (RayClusterObj c) (on_ray f)) g = (Inr (), h')" for g
  proof -
    let ?g = "g @ [EvGetJob (om_namespace c) (om_name c)]"
    obtain c' where "f 100 (last_ray c0 g) = Returned c'"
      using assms by (metis outcome.exhaust)
    then show ?thesis by (simp add: update_attempt_def get_job_def and_then_def Let_def)
  qed
  moreover have "run_state m g = (Inr (), h') \<Longrightarrow> run_state (retry_on_error n r m) g = (Inr (), h')"
    for m :: "unit job_io" and n r g h'
    by (cases n) simp_all
  ultimately have "\<exists>h'. run_state (retry_on_error n r (update_attempt (echo_job_env c0) (RayClusterObj c) (on_ray f))) g =
      (Inr (), h')" for n r g
    by metis
  from this [of "je_retry_steps (echo_job_env c0)" "IsRetriableError (echo_job_env c0)" h]
  obtain h' where "run_state (retry_on_error (je_retry_steps (echo_job_env c0)) (IsRetriableError (echo_job_env c0))
      (update_attempt (echo_job_env c0) (RayClusterObj c) (on_ray f))) h = (Inr (), h')" by blast
  then show ?thesis by (simp add: update_ray_def UpdateStatusWithRetries_def)
qed

lemma example_launch:
  "\<exists>h'. run_state (ReconcileRay (echo_job_env placed_ray) (GetCluster example_registry) ''prod'' ''train'') [] =
     (Returned (later, None), h')"
proof -
  obtain c' where "run_state (ReconcileRay (echo_job_env placed_ray) (GetCluster example_registry) ''prod'' ''train'') [] =
      run_state (launch (echo_job_env placed_ray) c' registered_example) ([] @ [EvGetJob ''prod'' ''train''])"
    by (rule launch_pass [of "echo_job_env placed_ray" "''prod''" "''train''" "[]" placed_ray
          "GetCluster example_registry" registered_example]) simp_all
  moreover obtain h' where "run_state (update_ray (echo_job_env placed_ray) c' launched_update)
      [EvGetJob ''prod'' ''train'', EvCreateJobCluster c' registered_example] = (Inr (), h')"
    using update_ray_echo [of launched_update placed_ray c'] by (auto simp: launched_update_def)
  ultimately show ?thesis by (simp add: launch_def ended_def)
qed

theorem placed_cluster_is_created_once_witness:
  "\<exists>c' tr pre written. same_cluster placed_ray c' \<and>
     snd (run_state (ReconcileRay (echo_job_env placed_ray) (GetCluster example_registry) ''prod'' ''train'') []) =
       [EvGetJob ''prod'' ''train'', EvCreateJobCluster c' registered_example] @ tr \<and>
     tr = pre @ [EvUpdateStatus (RayClusterObj written)] \<and> cluster_condition LaunchedCondition written = CS_TRUE"
proof -
  from example_launch obtain h' where run: "run_state (ReconcileRay (echo_job_env placed_ray)
      (GetCluster example_registry) ''prod'' ''train'') [] = (Returned (later, None), h')" by blast
  from placed_cluster_is_created_once [OF _ _ _ _ _ run, of placed_ray registered_example] run
  show ?thesis by simp
qed

lemma example_cleanup:
  "\<exists>h'. run_state (ReconcileRay (echo_job_env dying_ray) lookup ''prod'' ''train'') [] =
     (Returned (no_requeue, None), h')"
proof -
  obtain c' where t: "touched dying_ray c'"
      and run: "run_state (ReconcileRay (echo_job_env dying_ray) lookup ''prod'' ''train'') [] =
       (case run_state (cleanupCluster (echo_job_env dying_ray) lookup c') ([] @ [EvGetJob ''prod'' ''train'']) of
          (got, h') \<Rightarrow> (ended no_requeue later got, h'))"
    by (rule cleanup_pass [of "echo_job_env dying_ray" "''prod''" "''train''" "[]" dying_ray lookup]) simp_all
  from t have status: "cluster_condition KillingCondition c' = CS_TRUE"
      "cluster_condition LaunchedCondition c' = CS_TRUE" by (simp_all add: touched_def)
  have "\<exists>h'. run_state (cleanupCluster (echo_job_env dying_ray) lookup c') h = (Inr (), h')" for h
  proof (cases "getClusterIfScheduled lookup c'")
    case None
    with status update_ray_echo [of killed_early_update dying_ray c' h] show ?thesis
      by (simp add: cleanupCluster_def killed_early_update_def)
  next
    case (Some k)
    with status update_ray_echo [of deleted_update dying_ray c' "h @ [EvDeleteJobCluster c' k]"] show ?thesis
      by (simp add: cleanupCluster_def deleted_update_def)
  qed
  then obtain h' where "run_state (cleanupCluster (echo_job_env dying_ray) lookup c')
      ([] @ [EvGetJob ''prod'' ''train'']) = (Inr (), h')" by blast
  with run show ?thesis by (simp add: ended_def)
qed

theorem killed_only_after_deletion_witness:
  "\<exists>c' pre written.
     snd (run_state (ReconcileRay (echo_job_env dying_ray) (GetCluster example_registry) ''prod'' ''train'') []) =
       [EvGetJob ''prod'' ''train'', EvDeleteJobCluster c' registered_example] @
       pre @ [EvUpdateStatus (RayClusterObj written)] \<and> marked_killed written"
proof -
  from example_cleanup [of "GetCluster example_registry"] obtain h'
    where run: "run_state (ReconcileRay (echo_job_env dying_ray)
      (GetCluster example_registry) ''prod'' ''train'') [] = (Returned (no_requeue, None), h')" by blast
  have "je_get_ray (echo_job_env dying_ray) ''prod'' ''train'' [] = Inr dying_ray"
    "cluster_condition SucceededCondition dying_ray \<noteq> CS_UNKNOWN"
    "cluster_condition KillingCondition dying_ray = CS_TRUE"
    "getClusterIfScheduled (GetCluster example_registry) dying_ray = Some registered_example"
    "cluster_condition LaunchedCondition dying_ray = CS_TRUE"
    by simp_all
  note deletion = killed_only_after_deletion [OF this run]
  from deletion obtain c' tr
    where tr: "h' = [] @ [EvGetJob ''prod'' ''train'', EvDeleteJobCluster c' registered_example] @ tr"
      and "\<forall>res. Returned (no_requeue, None) = Returned (res, None :: job_error option) \<longrightarrow> 
       (\<exists>pre written. tr = pre @ [EvUpdateStatus (RayClusterObj written)] \<and> marked_killed written)"
    by (elim exE conjE) (rule that; assumption)
  then obtain pre written where "tr = pre @ [EvUpdateStatus (RayClusterObj written)]" "marked_killed written"
    by fastforce
  with run tr show ?thesis by (intro exI conjI) simp_all
qed

theorem unknown_cluster_is_killed_without_deletion_witness:
  "\<exists>tr pre written.
     snd (run_state (ReconcileRay (echo_job_env dying_ray) (\<lambda>name. None) ''prod'' ''train'') []) =
       EvGetJob ''prod'' ''train'' # tr \<and> list_all is_api_event tr \<and>
     tr = pre @ [EvUpdateStatus (RayClusterObj written)] \<and> marked_killed written"
proof -
  from example_cleanup [of "\<lambda>name. None"] obtain h'
    where run: "run_state (ReconcileRay (echo_job_env dying_ray)
      (\<lambda>name. None) ''prod'' ''train'') [] = (Returned (no_requeue, None), h')" by blast
  have "je_get_ray (echo_job_env dying_ray) ''prod'' ''train'' [] = Inr dying_ray"
    "cluster_condition SucceededCondition dying_ray \<noteq> CS_UNKNOWN"
    "cluster_condition KillingCondition dying_ray = CS_TRUE"
    "cluster_condition LaunchedCondition dying_ray = CS_TRUE"
    "rt_assignment (rc_status dying_ray) = Some (assigned_to ''gpu-1'')"
    by simp_all
  from unknown_cluster_is_killed_without_deletion [OF this refl run] obtain tr
    where tr: "h' = [] @ EvGetJob ''prod'' ''train'' # tr" "list_all is_api_event tr"
      and "\<forall>res. Returned (no_requeue, None) = Returned (res, None :: job_error option) \<longrightarrow> res = no_requeue \<and>
       (\<exists>pre written. tr = pre @ [EvUpdateStatus (RayClusterObj written)] \<and> marked_killed written)"
    by (elim exE conjE) (rule that; assumption)
  then obtain pre written where "tr = pre @ [EvUpdateStatus (RayClusterObj written)]" "marked_killed written"
    by fastforce
  with run tr show ?thesis by (intro exI conjI) simp_all
qed

text \<open>The queued cluster, as a successful scheduling attempt leaves it.\<close>

definition scheduled_ray :: ray_cluster where
  "scheduled_ray = queued_ray\<lparr>rc_status := (rc_status queued_ray)
     \<lparr>rt_assignment := Some (assigned_to ''gpu-1''),
      rt_conditions := [in_status CS_TRUE EnqueuedCondition,
        UpdateCondition 100 (status_and_reason CS_TRUE ''ClusterMatched'') (UnknownCondition ScheduledCondition)]\<rparr>\<rparr>"

lemma scheduled_ray_sel [simp]:
  "wanted scheduled_ray" "cluster_condition EnqueuedCondition scheduled_ray = CS_TRUE"
  "cluster_condition LaunchedCondition scheduled_ray = CS_UNKNOWN"
  "rt_assignment (rc_status scheduled_ray) = Some (assigned_to ''gpu-1'')"
  by (simp_all add: scheduled_ray_def example_ray_defs example_ray_def)

lemma example_scheduling:
  "run_state (assignJob (echo_job_env queued_ray) (\<lambda>h. Select (\<lambda>ks. ks) example_registry)
      (RayClusterObj queued_ray)) [] =
    (Inr (), [EvGetJob ''prod'' ''train''] @ [EvUpdateStatus (RayClusterObj scheduled_ray)])"
proof -
  have sel: "Select (\<lambda>ks. ks) example_registry (RayClusterObj queued_ray) =
      Inr (Some (assigned_to ''gpu-1''), True, ''cluster_default_selected'')"
    by (simp add: Select_def requested_cluster_def selector_of_def queued_ray_def example_ray_def)
  have "matched (assigned_to ''gpu-1'') 100 (RayClusterObj queued_ray) = Returned (RayClusterObj scheduled_ray)"
    by (simp add: matched_def with_assignment_def scheduled_ray_def queued_ray_def SetCondition_def condition_names)
  moreover have "om_namespace queued_ray = ''prod''" "om_name queued_ray = ''train''"
    by (simp_all add: queued_ray_def)
  moreover have "\<not> IsJobScheduled (conditions_of queued_ray)"
    by (simp add: IsJobScheduled_def status_of_def queued_ray_def condition_names)
  ultimately show ?thesis
    by (simp add: assignJob_def IsJobScheduled_def status_of_def sel Let_def UpdateStatusWithRetries_def
      update_attempt_def get_job_def and_then_def numeral_eq_Suc)
qed


end
