(* ===== verification/Proto_Values.thy ===== *)
theory Proto_Values
  imports Prelude
begin

text \<open>
  Conversion between the values of \<^verbatim>\<open>google.protobuf.Struct\<close> and Go's \<^verbatim>\<open>interface{}\<close>
  (\<^verbatim>\<open>go/components/utils/proto.go\<close>): both directions, the UTF-8 check and the base64
  encoding they use, and the rounding of integers to \<^verbatim>\<open>float64\<close>. The contract of such a pair
  is the locale \<open>round_trip\<close>, interpreted on base64 and on the two conversions.
\<close>

section \<open>Pairs of conversions\<close>

text \<open>\<open>dom x\<close>: \<open>x\<close> is converted; \<open>norm x\<close>: what comes back.\<close>

locale round_trip =
  fixes enc :: "'a \<Rightarrow> 'x + 'b" and dec :: "'b \<Rightarrow> 'y + 'a" and ok :: "'a \<Rightarrow> bool" and norm :: "'a \<Rightarrow> 'a"
  assumes enc_ok: "ok x \<Longrightarrow> \<exists>y. enc x = Inr y \<and> dec y = Inr (norm x)"
    and norm_ok: "ok x \<Longrightarrow> ok (norm x) \<and> norm (norm x) = norm x"
begin

lemma comes_back: "ok x \<Longrightarrow> enc x = Inr y \<Longrightarrow> dec y = Inr (norm x)"
  using enc_ok by fastforce

lemma encodings_separate:
  "ok x \<Longrightarrow> ok x' \<Longrightarrow> enc x = enc x' \<Longrightarrow> norm x = norm x'"
  using enc_ok by (metis Inr_inject)

text \<open>A value that has been through once comes back unchanged.\<close>

lemma second_trip:
  assumes "ok x"
  obtains y where "enc (norm x) = Inr y" "dec y = Inr (norm x)"
  using enc_ok [of "norm x"] norm_ok [OF assms] by auto

end

section \<open>UTF-8\<close>

text \<open>A Go string is a sequence of bytes, which is what a HOL character is. The table of
  first bytes is that of \<^verbatim>\<open>unicode/utf8\<close>: surrogates and overlong forms are invalid.\<close>

definition in_range :: "nat \<Rightarrow> nat \<Rightarrow> char \<Rightarrow> bool" where
  "in_range lo hi c \<longleftrightarrow> lo \<le> of_char c \<and> of_char c \<le> hi"

definition continuation :: "char \<Rightarrow> bool" where
  "continuation c \<longleftrightarrow> in_range 128 191 c"

text \<open>What the first byte asks of the second, and how many continuation bytes follow that.\<close>

definition first_byte :: "char \<Rightarrow> ((nat \<times> nat) \<times> nat) option" where
  "first_byte c =
     (if in_range 194 223 c then Some ((128, 191), 0)
      else if in_range 224 224 c then Some ((160, 191), 1)
      else if in_range 237 237 c then Some ((128, 159), 1)
      else if in_range 225 239 c then Some ((128, 191), 1)
      else if in_range 240 240 c then Some ((144, 191), 2)
      else if in_range 241 243 c then Some ((128, 191), 2)
      else if in_range 244 244 c then Some ((128, 143), 2)
      else None)"

function ValidString :: "string \<Rightarrow> bool" where
  "ValidString [] = True"
| "ValidString (c # cs) =
     (if in_range 0 127 c then ValidString cs
      else (case first_byte c of
              None \<Rightarrow> False
            | Some ((lo, hi), n) \<Rightarrow>
                (case cs of
                   [] \<Rightarrow> False
                 | c1 # cs1 \<Rightarrow>
                     in_range lo hi c1 \<and> n \<le> length cs1 \<and> list_all continuation (take n cs1)
                     \<and> ValidString (drop n cs1))))"
  by pat_completeness auto
termination by (relation "measure length") auto

lemma ascii_valid: "list_all (in_range 0 127) s \<Longrightarrow> ValidString s"
  by (induction s) auto

section \<open>Base64\<close>

definition b64_char :: "nat \<Rightarrow> char" where
  "b64_char n =
     (if n < 26 then char_of (65 + n) else if n < 52 then char_of (71 + n)
      else if n < 62 then char_of (n - 4) else if n = 62 then CHR ''+'' else CHR ''/'')"

fun EncodeToString :: "string \<Rightarrow> string" where
  "EncodeToString [] = []"
| "EncodeToString [a] =
     (let x = of_char a :: nat in
      [b64_char (x div 4), b64_char (x mod 4 * 16), CHR ''='', CHR ''=''])"
| "EncodeToString [a, b] =
     (let x = of_char a; y = of_char b :: nat in
      [b64_char (x div 4), b64_char (x mod 4 * 16 + y div 16), b64_char (y mod 16 * 4), CHR ''=''])"
| "EncodeToString (a # b # c # s) =
     (let x = of_char a; y = of_char b; z = of_char c :: nat in
      b64_char (x div 4) # b64_char (x mod 4 * 16 + y div 16) #
      b64_char (y mod 16 * 4 + z div 64) # b64_char (z mod 64) # EncodeToString s)"

text \<open>The inverse, which the consumers of such strings apply.\<close>

definition b64_value :: "char \<Rightarrow> nat" where
  "b64_value c =
     (let n = of_char c :: nat in
      if 97 \<le> n then n - 71 else if 65 \<le> n then n - 65
      else if n = 43 then 62 else if n = 47 then 63 else n + 4)"

fun DecodeString :: "string \<Rightarrow> string" where
  "DecodeString (p # q # r # s # t) =
     (let x = char_of (b64_value p * 4 + b64_value q div 16);
          y = char_of (b64_value q mod 16 * 16 + b64_value r div 4);
          z = char_of (b64_value r mod 4 * 64 + b64_value s)
      in if r = CHR ''='' then [x] else if s = CHR ''='' then [x, y] else x # y # z # DecodeString t)"
| "DecodeString _ = []"

lemma of_b64_char:
  "n < 64 \<Longrightarrow> of_char (b64_char n) =
     (if n < 26 then 65 + n else if n < 52 then 71 + n else if n < 62 then n - 4
      else if n = 62 then 43 else 47)"
  by (simp add: b64_char_def)

lemma b64_char_facts:
  assumes "n < 64"
  shows "b64_value (b64_char n) = n" "b64_char n \<noteq> CHR ''=''" "in_range 0 127 (b64_char n)"
proof -
  show "b64_value (b64_char n) = n" using of_b64_char [OF assms] assms
    by (cases "n < 26"; cases "n < 52"; cases "n < 62"; simp add: b64_value_def Let_def) arith+
  show "in_range 0 127 (b64_char n)" using of_b64_char [OF assms] assms
    by (simp add: in_range_def split: if_splits)
  have "(of_char (b64_char n) :: nat) \<noteq> of_char CHR ''=''" using of_b64_char [OF assms] assms
    by (simp split: if_splits)
  then show "b64_char n \<noteq> CHR ''=''" by auto
qed

lemma of_char_bounds: "(of_char c :: nat) < 256"
  by simp

lemma sextets:
  assumes "x < 256" "y < 256" "z < (256 :: nat)"
  shows "x div 4 < 64" "x mod 4 * 16 < 64" "x mod 4 * 16 + y div 16 < 64" "y mod 16 * 4 < 64"
    "y mod 16 * 4 + z div 64 < 64" "z mod 64 < 64"
  using assms by auto

lemma octets:
  assumes "x < 256" "y < 256" "z < (256 :: nat)"
  shows "x div 4 * 4 + (x mod 4 * 16 + y div 16) div 16 = x"
    "x div 4 * 4 + (x mod 4 * 16) div 16 = x"
    "(x mod 4 * 16 + y div 16) mod 16 * 16 + (y mod 16 * 4 + z div 64) div 4 = y"
    "(x mod 4 * 16 + y div 16) mod 16 * 16 + (y mod 16 * 4) div 4 = y"
    "(y mod 16 * 4 + z div 64) mod 4 * 64 + z mod 64 = z"
proof -
  have small: "y div 16 < 16" "z div 64 < 4" using assms by auto
  have "y div 16 div 16 = 0" "z div 64 div 4 = 0" "y div 16 mod 16 = y div 16" "z div 64 mod 4 = z div 64"
    using small by simp_all
  then show "x div 4 * 4 + (x mod 4 * 16 + y div 16) div 16 = x"
    "x div 4 * 4 + (x mod 4 * 16) div 16 = x"
    "(x mod 4 * 16 + y div 16) mod 16 * 16 + (y mod 16 * 4 + z div 64) div 4 = y"
    "(x mod 4 * 16 + y div 16) mod 16 * 16 + (y mod 16 * 4) div 4 = y"
    "(y mod 16 * 4 + z div 64) mod 4 * 64 + z mod 64 = z"
    by simp_all
qed

lemmas b64_facts = b64_char_facts sextets [OF of_char_bounds of_char_bounds of_char_bounds]
  octets [OF of_char_bounds of_char_bounds of_char_bounds]

lemma DecodeString_EncodeToString [simp]: "DecodeString (EncodeToString s) = s"
  by (induction s rule: EncodeToString.induct)
    (simp_all only: EncodeToString.simps DecodeString.simps Let_def b64_facts char_of_char
      if_True if_False simp_thms)

lemma EncodeToString_ascii: "list_all (in_range 0 127) (EncodeToString s)"
proof -
  have eq: "in_range 0 127 CHR ''=''" by (simp add: in_range_def)
  show ?thesis
    by (induction s rule: EncodeToString.induct) (simp_all add: Let_def b64_facts eq)
qed

lemma EncodeToString_valid [simp]: "ValidString (EncodeToString s)"
  by (rule ascii_valid [OF EncodeToString_ascii])

text \<open>Base64 is a round trip, for any bytes.\<close>

interpretation base64: round_trip "\<lambda>b. Inr (EncodeToString b)" "\<lambda>s. Inr (DecodeString s)" "\<lambda>_. True" id
  by unfold_locales simp_all

lemma EncodeToString_inj: "EncodeToString s = EncodeToString t \<Longrightarrow> s = t"
  using base64.encodings_separate by simp

section \<open>Numbers\<close>

text \<open>
  A \<^verbatim>\<open>float64\<close> is a dyadic number \<open>m * 2 ^ e\<close>, an infinity or no number. Go converts an
  integer to the nearest float with 53 bits, ties to even; a \<^verbatim>\<open>float32\<close> is a \<^verbatim>\<open>float64\<close>.
\<close>

datatype float64 = F64_Finite int int | F64_Infinite bool | F64_NaN

fun excess_bits :: "nat \<Rightarrow> nat" where
  "excess_bits n = (if n < 2 ^ 53 then 0 else Suc (excess_bits (n div 2)))"

declare excess_bits.simps [simp del]

definition round_even :: "nat \<Rightarrow> nat \<Rightarrow> nat" where
  "round_even n d =
     (let q = n div d; r = n mod d in
      (if 2 * r > d \<or> (2 * r = d \<and> odd q) then q + 1 else q) * d)"

definition float64_of_int :: "int \<Rightarrow> float64" where
  "float64_of_int i =
     (let n = nat \<bar>i\<bar> in F64_Finite (sgn i * int (round_even n (2 ^ excess_bits n))) 0)"

lemma float64_exact: "\<bar>i\<bar> < 2 ^ 53 \<Longrightarrow> float64_of_int i = F64_Finite i 0"
proof -
  assume "\<bar>i\<bar> < 2 ^ 53"
  then have "nat \<bar>i\<bar> < 2 ^ 53" by (metis nat_less_numeral_power_cancel_iff)
  then have "excess_bits (nat \<bar>i\<bar>) = 0" by (simp add: excess_bits.simps)
  moreover have "sgn i * \<bar>i\<bar> = i" by (simp add: sgn_mult_abs)
  ultimately show ?thesis by (simp add: float64_of_int_def round_even_def Let_def)
qed

lemma round_even_error: "0 < d \<Longrightarrow> 2 * \<bar>int (round_even n d) - int n\<bar> \<le> int d"
proof -
  assume d: "0 < d"
  define q r where "q = n div d" and "r = n mod d"
  have n: "n = q * d + r" and r: "r < d" using d by (simp_all add: q_def r_def)
  show ?thesis
    unfolding round_even_def Let_def q_def [symmetric] r_def [symmetric]
    using n r by (auto simp: algebra_simps split: if_splits)
qed

section \<open>Values\<close>

text \<open>
  What \<^verbatim>\<open>NewValue\<close> distinguishes of an \<^verbatim>\<open>interface{}\<close>; \<open>GOther\<close> is any type it does not know. A map
  is the list of its entries in the order in which the code ranges over it; a nil map or
  slice is \<open>None\<close>. On the protocol-buffer side every pointer may be nil, too.
\<close>

datatype int_kind = Int | Int32 | Int64 | Uint | Uint32 | Uint64

datatype go_value =
    GNil
  | GBool bool
  | GInteger int_kind int
  | GFloat32 float64
  | GFloat64 float64
  | GString string
  | GBytes string
  | GMap "(string \<times> go_value) list option"
  | GSlice "go_value list option"
  | GStrings "string list option"
  | GMaps "(string \<times> go_value) list option list option"
  | GOther

datatype proto_value =
    PV_NoKind
  | PV_Null
  | PV_Bool bool
  | PV_Number float64
  | PV_String string
  | PV_Struct "(string \<times> proto_value option) list option"
  | PV_List "proto_value option list option"

datatype conv_error = UnexpectedKind | InvalidUTF8 string | InvalidType

section \<open>From Go to protocol buffers\<close>

definition NewStringList :: "string list \<Rightarrow> proto_value option list" where
  "NewStringList v = List.map (\<lambda>s. Some (PV_String s)) v"

function (sequential) NewValue :: "go_value \<Rightarrow> conv_error + proto_value"
and NewStruct :: "(string \<times> go_value) list \<Rightarrow> conv_error + (string \<times> proto_value option) list"
and NewList :: "go_value list \<Rightarrow> conv_error + proto_value option list"
and NewListMap :: "(string \<times> go_value) list option list \<Rightarrow> conv_error + proto_value option list" where
  "NewValue GNil = Inr PV_Null"
| "NewValue (GBool b) = Inr (PV_Bool b)"
| "NewValue (GInteger k i) = Inr (PV_Number (float64_of_int i))"
| "NewValue (GFloat32 f) = Inr (PV_Number f)"
| "NewValue (GFloat64 f) = Inr (PV_Number f)"
| "NewValue (GString s) =
     (if \<not> ValidString s then Inl (InvalidUTF8 s) else Inr (PV_String s))"
| "NewValue (GBytes b) = Inr (PV_String (EncodeToString b))"
| "NewValue (GMap None) = Inr (PV_Struct (Some []))"
| "NewValue (GMap (Some m)) =
     (case NewStruct m of Inl e \<Rightarrow> Inl e | Inr fs \<Rightarrow> Inr (PV_Struct (Some fs)))"
| "NewValue (GSlice None) = Inr (PV_List (Some []))"
| "NewValue (GSlice (Some vs)) =
     (case NewList vs of Inl e \<Rightarrow> Inl e | Inr ps \<Rightarrow> Inr (PV_List (Some ps)))"
| "NewValue (GStrings ss) = Inr (PV_List (Some (case ss of None \<Rightarrow> [] | Some l \<Rightarrow> NewStringList l)))"
| "NewValue (GMaps None) = Inr (PV_List (Some []))"
| "NewValue (GMaps (Some ms)) =
     (case NewListMap ms of Inl e \<Rightarrow> Inl e | Inr ps \<Rightarrow> Inr (PV_List (Some ps)))"
| "NewValue GOther = Inl InvalidType"
| "NewStruct [] = Inr []"
| "NewStruct ((k, v) # kvs) =
     (if \<not> ValidString k then Inl (InvalidUTF8 k)
      else (case NewValue v of
              Inl e \<Rightarrow> Inl e
            | Inr p \<Rightarrow> (case NewStruct kvs of Inl e \<Rightarrow> Inl e | Inr fs \<Rightarrow> Inr ((k, Some p) # fs))))"
| "NewList [] = Inr []"
| "NewList (v # vs) =
     (case NewValue v of
        Inl e \<Rightarrow> Inl e
      | Inr p \<Rightarrow> (case NewList vs of Inl e \<Rightarrow> Inl e | Inr ps \<Rightarrow> Inr (Some p # ps)))"
| "NewListMap [] = Inr []"
| "NewListMap (None # ms) =
     (case NewListMap ms of Inl e \<Rightarrow> Inl e | Inr ps \<Rightarrow> Inr (Some (PV_Struct (Some [])) # ps))"
| "NewListMap (Some m # ms) =
     (case NewStruct m of
        Inl e \<Rightarrow> Inl e
      | Inr fs \<Rightarrow>
          (case NewListMap ms of Inl e \<Rightarrow> Inl e | Inr ps \<Rightarrow> Inr (Some (PV_Struct (Some fs)) # ps)))"
  by pat_completeness auto
termination
  by (relation "measure (case_sum
        (case_sum size (size_list (size_prod (\<lambda>_. 0) size)))
        (case_sum (size_list size) (size_list (size_option (size_list (size_prod (\<lambda>_. 0) size))))))")
    auto

section \<open>From protocol buffers to Go\<close>

text \<open>The loops over fields and elements are \<open>MapProtoFields\<close> and \<open>MapProtoElements\<close>; a nil
  struct becomes a nil map, a nil list a nil slice.\<close>

fun MapProtoValueToInterface :: "proto_value option \<Rightarrow> conv_error + go_value"
and MapProtoFields :: "(string \<times> proto_value option) list \<Rightarrow> conv_error + (string \<times> go_value) list"
and MapProtoElements :: "proto_value option list \<Rightarrow> conv_error + go_value list" where
  "MapProtoValueToInterface None = Inr GNil"
| "MapProtoValueToInterface (Some (PV_String s)) = Inr (GString s)"
| "MapProtoValueToInterface (Some (PV_Bool b)) = Inr (GBool b)"
| "MapProtoValueToInterface (Some (PV_Number f)) = Inr (GFloat64 f)"
| "MapProtoValueToInterface (Some PV_Null) = Inr GNil"
| "MapProtoValueToInterface (Some (PV_Struct None)) = Inr (GMap None)"
| "MapProtoValueToInterface (Some (PV_Struct (Some fs))) =
     (case MapProtoFields fs of Inl e \<Rightarrow> Inl e | Inr m \<Rightarrow> Inr (GMap (Some m)))"
| "MapProtoValueToInterface (Some (PV_List None)) = Inr (GSlice None)"
| "MapProtoValueToInterface (Some (PV_List (Some ps))) =
     (case MapProtoElements ps of Inl e \<Rightarrow> Inl e | Inr vs \<Rightarrow> Inr (GSlice (Some vs)))"
| "MapProtoValueToInterface (Some PV_NoKind) = Inl UnexpectedKind"
| "MapProtoFields [] = Inr []"
| "MapProtoFields ((k, p) # fs) =
     (case MapProtoValueToInterface p of
        Inl e \<Rightarrow> Inl e
      | Inr v \<Rightarrow> (case MapProtoFields fs of Inl e \<Rightarrow> Inl e | Inr m \<Rightarrow> Inr ((k, v) # m)))"
| "MapProtoElements [] = Inr []"
| "MapProtoElements (p # ps) =
     (case MapProtoValueToInterface p of
        Inl e \<Rightarrow> Inl e
      | Inr v \<Rightarrow> (case MapProtoElements ps of Inl e \<Rightarrow> Inl e | Inr vs \<Rightarrow> Inr (v # vs)))"

section \<open>What converts, and what comes back\<close>

text \<open>
  \<open>convertible v\<close>: strings and keys are valid UTF-8 and no part has an unknown type; \<open>JSON_value\<close>:
  the types that conversion from protocol buffers yields; \<open>as_JSON\<close>: the value of those types
  that stands for a Go value.
\<close>

fun convertible :: "go_value \<Rightarrow> bool" where
  "convertible (GString s) \<longleftrightarrow> ValidString s"
| "convertible (GMap m) \<longleftrightarrow>
     (case m of None \<Rightarrow> True | Some kvs \<Rightarrow> \<forall>(k, v)\<in>set kvs. ValidString k \<and> convertible v)"
| "convertible (GSlice l) \<longleftrightarrow> (case l of None \<Rightarrow> True | Some vs \<Rightarrow> \<forall>v\<in>set vs. convertible v)"
| "convertible (GMaps l) \<longleftrightarrow>
     (case l of None \<Rightarrow> True
      | Some ms \<Rightarrow> \<forall>m\<in>set ms. (case m of None \<Rightarrow> True
          | Some kvs \<Rightarrow> \<forall>(k, v)\<in>set kvs. ValidString k \<and> convertible v))"
| "convertible GOther \<longleftrightarrow> False"
| "convertible _ \<longleftrightarrow> True"

fun JSON_value :: "go_value \<Rightarrow> bool" where
  "JSON_value GNil \<longleftrightarrow> True"
| "JSON_value (GBool b) \<longleftrightarrow> True"
| "JSON_value (GFloat64 f) \<longleftrightarrow> True"
| "JSON_value (GString s) \<longleftrightarrow> True"
| "JSON_value (GMap m) \<longleftrightarrow> (case m of None \<Rightarrow> True | Some kvs \<Rightarrow> \<forall>(k, v)\<in>set kvs. JSON_value v)"
| "JSON_value (GSlice l) \<longleftrightarrow> (case l of None \<Rightarrow> True | Some vs \<Rightarrow> \<forall>v\<in>set vs. JSON_value v)"
| "JSON_value _ \<longleftrightarrow> False"

fun as_JSON :: "go_value \<Rightarrow> go_value" where
  "as_JSON (GInteger k i) = GFloat64 (float64_of_int i)"
| "as_JSON (GFloat32 f) = GFloat64 f"
| "as_JSON (GBytes b) = GString (EncodeToString b)"
| "as_JSON (GMap m) = GMap (Some (case m of None \<Rightarrow> [] | Some kvs \<Rightarrow> List.map (\<lambda>(k, v). (k, as_JSON v)) kvs))"
| "as_JSON (GSlice l) = GSlice (Some (case l of None \<Rightarrow> [] | Some vs \<Rightarrow> List.map as_JSON vs))"
| "as_JSON (GStrings l) = GSlice (Some (case l of None \<Rightarrow> [] | Some ss \<Rightarrow> List.map GString ss))"
| "as_JSON (GMaps l) =
     GSlice (Some (case l of None \<Rightarrow> []
       | Some ms \<Rightarrow> List.map (\<lambda>m. GMap (Some (case m of None \<Rightarrow> []
           | Some kvs \<Rightarrow> List.map (\<lambda>(k, v). (k, as_JSON v)) kvs))) ms))"
| "as_JSON v = v"

lemma MapProtoElements_strings [simp]:
  "MapProtoElements (NewStringList ss) = Inr (List.map GString ss)"
  by (induction ss) (simp_all add: NewStringList_def)

text \<open>Conversion succeeds exactly on the convertible values, and there and back is \<open>as_JSON\<close>.\<close>

lemma NewValue_characterised:
  "(case NewValue v of Inl e \<Rightarrow> \<not> convertible v
    | Inr p \<Rightarrow> convertible v \<and> MapProtoValueToInterface (Some p) = Inr (as_JSON v))"
  "(case NewStruct kvs of Inl e \<Rightarrow> \<not> (\<forall>(k, v)\<in>set kvs. ValidString k \<and> convertible v)
    | Inr fs \<Rightarrow> (\<forall>(k, v)\<in>set kvs. ValidString k \<and> convertible v) \<and>
        MapProtoFields fs = Inr (List.map (\<lambda>(k, v). (k, as_JSON v)) kvs))"
  "(case NewList vs of Inl e \<Rightarrow> \<not> (\<forall>v\<in>set vs. convertible v)
    | Inr ps \<Rightarrow> (\<forall>v\<in>set vs. convertible v) \<and> MapProtoElements ps = Inr (List.map as_JSON vs))"
  "(case NewListMap ms of Inl e \<Rightarrow> \<not> convertible (GMaps (Some ms))
    | Inr ps \<Rightarrow> convertible (GMaps (Some ms)) \<and>
        MapProtoElements ps = Inr (List.map (\<lambda>m. GMap (Some (case m of None \<Rightarrow> []
           | Some kvs \<Rightarrow> List.map (\<lambda>(k, v). (k, as_JSON v)) kvs))) ms))"
  by (induction v and kvs and vs and ms rule: NewValue_NewStruct_NewList_NewListMap.induct)
    (auto split: sum.splits option.splits)

text \<open>A protocol-buffer value without nil pointers whose texts are valid UTF-8.\<close>

fun whole :: "proto_value \<Rightarrow> bool" where
  "whole PV_NoKind \<longleftrightarrow> False"
| "whole (PV_String s) \<longleftrightarrow> ValidString s"
| "whole (PV_Struct fs) \<longleftrightarrow>
     (case fs of None \<Rightarrow> False
      | Some kps \<Rightarrow>
          list_all (\<lambda>(k, p). ValidString k \<and> (case p of None \<Rightarrow> False | Some q \<Rightarrow> whole q)) kps)"
| "whole (PV_List l) \<longleftrightarrow>
     (case l of None \<Rightarrow> False
      | Some ps \<Rightarrow> list_all (\<lambda>p. case p of None \<Rightarrow> False | Some q \<Rightarrow> whole q) ps)"
| "whole _ \<longleftrightarrow> True"

lemma MapProto_characterised:
  "(case MapProtoValueToInterface po of Inl e \<Rightarrow> (case po of None \<Rightarrow> False | Some p \<Rightarrow> \<not> whole p)
    | Inr v \<Rightarrow> JSON_value v \<and> (case po of None \<Rightarrow> True | Some p \<Rightarrow> whole p \<longrightarrow> NewValue v = Inr p))"
  "(case MapProtoFields fs of Inl e \<Rightarrow> \<not> whole (PV_Struct (Some fs))
    | Inr m \<Rightarrow> (\<forall>(k, v)\<in>set m. JSON_value v) \<and> (whole (PV_Struct (Some fs)) \<longrightarrow> NewStruct m = Inr fs))"
  "(case MapProtoElements ps of Inl e \<Rightarrow> \<not> whole (PV_List (Some ps))
    | Inr vs \<Rightarrow> (\<forall>v\<in>set vs. JSON_value v) \<and> (whole (PV_List (Some ps)) \<longrightarrow> NewList vs = Inr ps))"
  by (induction po and fs and ps
      rule: MapProtoValueToInterface_MapProtoFields_MapProtoElements.induct)
    (auto split: sum.splits option.splits)

text \<open>Values that are JSON already, without nil containers, are their own representation.\<close>

fun plain_JSON :: "go_value \<Rightarrow> bool" where
  "plain_JSON (GString s) \<longleftrightarrow> ValidString s"
| "plain_JSON (GMap m) \<longleftrightarrow>
     (case m of None \<Rightarrow> False | Some kvs \<Rightarrow> \<forall>(k, v)\<in>set kvs. ValidString k \<and> plain_JSON v)"
| "plain_JSON (GSlice l) \<longleftrightarrow> (case l of None \<Rightarrow> False | Some vs \<Rightarrow> \<forall>v\<in>set vs. plain_JSON v)"
| "plain_JSON v \<longleftrightarrow> v = GNil \<or> (\<exists>b. v = GBool b) \<or> (\<exists>f. v = GFloat64 f)"

lemma as_JSON_plain: "plain_JSON v \<Longrightarrow> as_JSON v = v"
  by (induction v rule: as_JSON.induct) (fastforce split: option.splits intro: map_idI)+

lemma plain_convertible: "plain_JSON v \<Longrightarrow> convertible v"
  by (induction v rule: as_JSON.induct) (auto split: option.splits)

text \<open>Both directions are round trips in the sense of the locale.\<close>

interpretation plain_values: round_trip NewValue "\<lambda>p. MapProtoValueToInterface (Some p)" plain_JSON id
proof (unfold_locales, goal_cases)
  case (1 v)
  with NewValue_characterised(1) [of v] show ?case
    by (auto simp: as_JSON_plain plain_convertible split: sum.splits)
qed simp

interpretation proto_values: round_trip "\<lambda>p. MapProtoValueToInterface (Some p)" NewValue whole id
proof (unfold_locales, goal_cases)
  case (1 p)
  with MapProto_characterised(1) [of "Some p"] show ?case by (auto split: sum.splits)
qed simp

section \<open>Properties\<close>

lemma proto_values_round_trip_facts:
  "(\<exists>p. NewValue v = Inr p \<and> MapProtoValueToInterface (Some p) = Inr (as_JSON v)) \<longleftrightarrow> convertible v"
  "plain_JSON v \<Longrightarrow> as_JSON v = v \<and> convertible v"
  "whole p \<Longrightarrow> \<exists>v. MapProtoValueToInterface (Some p) = Inr v \<and> NewValue v = Inr p"
proof -
  show "(\<exists>p. NewValue v = Inr p \<and> MapProtoValueToInterface (Some p) = Inr (as_JSON v)) \<longleftrightarrow> convertible v"
    using NewValue_characterised(1) [of v] by (auto split: sum.splits)
  show "plain_JSON v \<Longrightarrow> as_JSON v = v \<and> convertible v"
    by (simp add: as_JSON_plain plain_convertible)
  show "whole p \<Longrightarrow> \<exists>v. MapProtoValueToInterface (Some p) = Inr v \<and> NewValue v = Inr p"
    using proto_values.enc_ok by simp
qed



lemma converted_values_are_typed_facts:
  assumes "MapProtoValueToInterface p = Inr v"
  shows "JSON_value v" and "NewValue v \<noteq> Inl InvalidType"
proof -
  from assms MapProto_characterised(1) [of p] show typed: "JSON_value v" by simp
  have "(JSON_value v \<longrightarrow> NewValue v \<noteq> Inl InvalidType)"
    "((\<forall>(k, v)\<in>set kvs. JSON_value v) \<longrightarrow> NewStruct kvs \<noteq> Inl InvalidType)"
    "((\<forall>v\<in>set vs. JSON_value v) \<longrightarrow> NewList vs \<noteq> Inl InvalidType)"
    "True" for v kvs vs and ms :: "(string \<times> go_value) list option list"
    by (induction v and kvs and vs and ms rule: NewValue_NewStruct_NewList_NewListMap.induct)
      (auto split: sum.splits option.splits)
  with typed show "NewValue v \<noteq> Inl InvalidType" by blast
qed



text \<open>A list of strings skips the UTF-8 check that each of its strings would not pass.\<close>

lemma string_lists_escape_the_check:
  "NewValue (GStrings (Some [[char_of (255::nat)]])) = Inr (PV_List (Some [Some (PV_String [char_of (255::nat)])]))"
  "NewValue (GSlice (Some [GString [char_of (255::nat)]])) = Inl (InvalidUTF8 [char_of (255::nat)])"
  by (simp_all add: NewStringList_def in_range_def first_byte_def)

end
