(* ===== verification/Trigger_Model.thy ===== *)
theory Trigger_Model
  imports Pipeline_Run_Model Proto_Values
begin

text \<open>
  The data of trigger runs (\<^verbatim>\<open>proto/api/v2/trigger_run.proto\<close>, \<^verbatim>\<open>notification.proto\<close>,
  \<^verbatim>\<open>parameter.proto\<close>) that the controller in \<^verbatim>\<open>go/components/triggerrun\<close> and the trigger
  workflows in \<^verbatim>\<open>go/worker\<close> share, and the classification of a run by its trigger.
\<close>

section \<open>Triggers\<close>

text \<open>A duration is its seconds and nanoseconds; a map is the list of its entries; a nil map,
  slice or struct is \<open>None\<close> where the code can tell.\<close>

record batch_rerun =
  br_pipeline_runs :: "(string \<times> string) list"
  br_resume_from :: "string list"
  br_resume_up_to :: "string list"

datatype trigger_type =
    CronSchedule string
  | BatchRerun batch_rerun
  | IntervalSchedule "(int \<times> int) option"

record batch_policy =
  bp_batch_size :: int
  bp_wait :: "(int \<times> int) option"

type_synonym pstruct = "(string \<times> proto_value option) list"

record execution_params =
  ep_parameter_map :: "(string \<times> string) list option"
  ep_workflow_config :: "pstruct option"
  ep_task_configs :: "(string \<times> pstruct option) list option"
  ep_environ :: "(string \<times> string) list option"
  ep_args :: "pstruct option list option"
  ep_kw_args :: "pstruct option"

record trigger =
  tg_type :: "trigger_type option"
  tg_parameters :: "(string \<times> execution_params) list"
  tg_batch_policy :: "batch_policy option"
  tg_max_concurrency :: int
  tg_proxy_user :: string

definition GetCronSchedule :: "trigger option \<Rightarrow> string option" where
  "GetCronSchedule t =
     (case t of
        None \<Rightarrow> None
      | Some tg \<Rightarrow> (case tg_type tg of Some (CronSchedule c) \<Rightarrow> Some c | _ \<Rightarrow> None))"

text \<open>\<^verbatim>\<open>GetCronSchedule().GetCron()\<close>: the empty string for a nil schedule.\<close>

definition GetCron :: "string option \<Rightarrow> string" where
  "GetCron c = (case c of None \<Rightarrow> '''' | Some s \<Rightarrow> s)"

section \<open>Notifications\<close>

datatype notification_type = NT_INVALID | NT_EMAIL | NT_SLACK

datatype resource_type = RT_INVALID | RT_PIPELINE_RUN | RT_TRIGGER_RUN | RT_PIPELINE

record notification =
  nf_type :: notification_type
  nf_event_types :: "event_type list"
  nf_resource_type :: resource_type
  nf_emails :: "string list"
  nf_slack_destinations :: "string list"

section \<open>Trigger runs\<close>

datatype trigger_state =
    TR_INVALID | TR_RUNNING | TR_KILLED | TR_FAILED | TR_SUCCEEDED | TR_PENDING_KILL | TR_PAUSED

datatype trigger_action = NO_ACTION | ACTION_KILL | ACTION_PAUSE | ACTION_RESUME

record user_info =
  ui_name :: string
  ui_proxy_user :: string

record trigger_spec =
  ts_pipeline :: "(string \<times> string) option"
  ts_revision :: "(string \<times> string) option"
  ts_trigger :: "trigger option"
  ts_actor :: "user_info option"
  ts_kill :: bool
  ts_start :: "int option"
  ts_end :: "int option"
  ts_source_trigger_name :: string
  ts_auto_flip :: bool
  ts_notifications :: "notification list option"
  ts_action :: trigger_action

record trigger_status =
  tt_state :: trigger_state
  tt_workflow_id :: string
  tt_error_message :: string
  tt_log_url :: string
  tt_actual_notifications :: "notification list option"
  tt_actual_trigger :: "trigger option"

record trigger_run = obj_meta +
  tr_spec :: trigger_spec
  tr_status :: trigger_status

text \<open>The zero value of the status, from which the code builds its literals.\<close>

definition empty_status :: trigger_status where
  "empty_status =
     \<lparr>tt_state = TR_INVALID, tt_workflow_id = '''', tt_error_message = '''', tt_log_url = '''',
      tt_actual_notifications = None, tt_actual_trigger = None\<rparr>"

definition with_status :: "trigger_status \<Rightarrow> trigger_run \<Rightarrow> trigger_run" where
  "with_status st run = run\<lparr>tr_status := st\<rparr>"

lemma with_status_sel [simp]:
  "tr_status (with_status st run) = st" "tr_spec (with_status st run) = tr_spec run"
  "meta_of (with_status st run) = meta_of run" "with_status st (with_status st' run) = with_status st run"
  "with_status (tr_status run) run = run"
  "om_namespace (with_status st run) = om_namespace run" "om_name (with_status st run) = om_name run"
  "om_annotations (with_status st run) = om_annotations run"
  "om_finalizers (with_status st run) = om_finalizers run"
  "om_deletion_ts (with_status st run) = om_deletion_ts run"
  by (simp_all add: with_status_def meta_of_def obj_meta.defs)

lemma empty_status_sel [simp]:
  "tt_state empty_status = TR_INVALID" "tt_workflow_id empty_status = ''''"
  "tt_error_message empty_status = ''''" "tt_log_url empty_status = ''''"
  "tt_actual_notifications empty_status = None" "tt_actual_trigger empty_status = None"
  by (simp_all add: empty_status_def)

section \<open>Classification\<close>

datatype trigger_kind = TypeCron | TypeBackfill | TypeBatchRerun | TypeInterval | TypeUnknown

definition GetTriggerType :: "trigger_run \<Rightarrow> trigger_kind" where
  "GetTriggerType tr =
     (let ty = Option.bind (ts_trigger (tr_spec tr)) tg_type in
      if (case ty of Some (BatchRerun _) \<Rightarrow> True | _ \<Rightarrow> False) then TypeBatchRerun
      else if ts_start (tr_spec tr) \<noteq> None \<and> ts_end (tr_spec tr) \<noteq> None then TypeBackfill
      else if (case ty of Some (IntervalSchedule _) \<Rightarrow> True | _ \<Rightarrow> False) then TypeInterval
      else if (case ty of Some (CronSchedule _) \<Rightarrow> True | _ \<Rightarrow> False) then TypeCron
      else TypeUnknown)"

lemma GetTriggerType_with_status [simp]: "GetTriggerType (with_status st run) = GetTriggerType run"
  by (simp add: GetTriggerType_def Let_def)

definition isTerminateState :: "trigger_run \<Rightarrow> bool" where
  "isTerminateState tr \<longleftrightarrow>
     tt_state (tr_status tr) = TR_FAILED \<or> tt_state (tr_status tr) = TR_KILLED \<or>
     tt_state (tr_status tr) = TR_SUCCEEDED"

definition generateWorkflowID :: "trigger_run \<Rightarrow> string" where
  "generateWorkflowID tr = om_namespace tr @ ''.'' @ om_name tr"

lemma generateWorkflowID_with_status [simp]:
  "generateWorkflowID (with_status st run) = generateWorkflowID run"
  by (simp add: generateWorkflowID_def)

lemma isTerminateState_with_status [simp]:
  "isTerminateState (with_status st run) \<longleftrightarrow>
     tt_state st = TR_FAILED \<or> tt_state st = TR_KILLED \<or> tt_state st = TR_SUCCEEDED"
  by (simp add: isTerminateState_def)

end
