(* ===== verification/Trigger_Runner.thy ===== *)
theory Trigger_Runner
  imports Trigger_Model
begin

text \<open>
  The runners of trigger runs (\<^verbatim>\<open>go/components/triggerrun/util.go\<close>, \<^verbatim>\<open>cron_trigger.go\<close>,
  \<^verbatim>\<open>backfill_trigger.go\<close>, \<^verbatim>\<open>runner.go\<close>): how a trigger is started, killed, paused, resumed,
  observed and kept in step with its specification on the workflow engine. The documented
  interface \<^verbatim>\<open>Runner\<close> is the locale \<open>trigger_runner\<close>, interpreted on both runners.
\<close>

section \<open>Environment\<close>

text \<open>
  The workflow engine and the API handler answer as they like; errors of the engine are their
  texts, which end up in the status. \<open>te_give_up\<close> tells whether the back-off library's clock
  has run out. The domain is a constant of the client and not modelled.
\<close>

record start_options =
  so_id :: string
  so_task_list :: string
  so_execution_timeout :: int
  so_decision_timeout :: int
  so_cron_schedule :: string

record open_execution =
  ox_status :: workflow_status
  ox_run_id :: "string option" \<comment> \<open>\<^verbatim>\<open>Execution\<close>, nil or with its run id\<close>
  ox_time :: "int option"

datatype tr_event =
    TrGetRun string string
  | TrGetPipeline string string
  | TrUpdate trigger_run "api_error option"
  | TrUpdateStatus trigger_run "api_error option"
  | TrListOpen string
  | TrDescribe string
  | TrStart start_options string trigger_run
  | TrDeleteTrigger string string "string option"
  | TrPause string "string option"
  | TrUnpause string "string option"
  | TrUpdateTrigger string string "bool option" "trigger_run option" "string option"
  | TrDrain drain_metric
  | TrPanic

type_synonym 'a tr_io = "(tr_event, 'a) io"

record tr_env =
  te_finlib :: finlib
  te_reflib :: reflib
  te_now :: "tr_event list \<Rightarrow> int"
  te_get_run :: "tr_event list \<Rightarrow> string \<Rightarrow> string \<Rightarrow> api_error + trigger_run"
  te_get_pipeline :: "tr_event list \<Rightarrow> string \<Rightarrow> string \<Rightarrow> api_error + pipeline"
  te_update :: "tr_event list \<Rightarrow> trigger_run \<Rightarrow> trigger_run \<times> api_error option"
  te_update_status :: "tr_event list \<Rightarrow> trigger_run \<Rightarrow> trigger_run \<times> api_error option"
  te_list_open :: "tr_event list \<Rightarrow> string \<Rightarrow> string + open_execution list"
  te_give_up :: "tr_event list \<Rightarrow> bool"
  te_describe :: "tr_event list \<Rightarrow> string \<Rightarrow> string + workflow_status"
  te_start :: "tr_event list \<Rightarrow> start_options \<Rightarrow> string \<Rightarrow> trigger_run \<Rightarrow> string + string \<times> string"
  te_delete_trigger :: "tr_event list \<Rightarrow> string \<Rightarrow> string \<Rightarrow> string option"
  te_pause :: "tr_event list \<Rightarrow> string \<Rightarrow> string option"
  te_unpause :: "tr_event list \<Rightarrow> string \<Rightarrow> string option"
  te_update_trigger ::
    "tr_event list \<Rightarrow> string \<Rightarrow> string \<Rightarrow> bool option \<Rightarrow> trigger_run option \<Rightarrow> string option"
  te_provider :: string

section \<open>Open executions\<close>

text \<open>\<^verbatim>\<open>backoff.Retry\<close> with at most three retries: it stops earlier when its clock has run out.\<close>

primrec list_open_retry :: "tr_env \<Rightarrow> nat \<Rightarrow> string \<Rightarrow> (string + open_execution list) tr_io" where
  "list_open_retry R 0 wid = ask (\<lambda>h. te_list_open R h wid) (\<lambda>_. TrListOpen wid)"
| "list_open_retry R (Suc n) wid = do {
     response \<leftarrow> ask (\<lambda>h. te_list_open R h wid) (\<lambda>_. TrListOpen wid);
     (case response of
        Inr xs \<Rightarrow> State_Monad.return (Inr xs)
      | Inl err \<Rightarrow> do {
          give_up \<leftarrow> peek (te_give_up R);
          if give_up then State_Monad.return (Inl err) else list_open_retry R n wid
        })
   }"

definition getWorkflowOpenExecution ::
    "tr_env \<Rightarrow> string \<Rightarrow> (string + open_execution option) tr_io" where
  "getWorkflowOpenExecution R wid = do {
     response \<leftarrow> list_open_retry R 3 wid;
     State_Monad.return (map_sum id (\<lambda>xs. case xs of [] \<Rightarrow> None | x # _ \<Rightarrow> Some x) response)
   }"

definition getWorkflowOpenRunID :: "tr_env \<Rightarrow> string \<Rightarrow> (string + string option) tr_io" where
  "getWorkflowOpenRunID R wid = do {
     execution \<leftarrow> getWorkflowOpenExecution R wid;
     State_Monad.return (map_sum id (\<lambda>ex.
       case Option.bind ex ox_run_id of
         None \<Rightarrow> None
       | Some rid \<Rightarrow> if rid = '''' then None else Some rid) execution)
   }"

section \<open>Addresses\<close>

definition hex_digit :: "char \<Rightarrow> nat option" where
  "hex_digit c =
     (let n = of_char c :: nat in
      if 48 \<le> n \<and> n \<le> 57 then Some (n - 48)
      else if 65 \<le> n \<and> n \<le> 70 then Some (n - 55)
      else if 97 \<le> n \<and> n \<le> 102 then Some (n - 87)
      else None)"

text \<open>\<^verbatim>\<open>url.PathUnescape\<close>: an invalid escape is an error.\<close>

fun PathUnescape :: "string \<Rightarrow> string option" where
  "PathUnescape [] = Some []"
| "PathUnescape (c # s) =
     (if c \<noteq> CHR ''%'' then map_option ((#) c) (PathUnescape s)
      else (case s of
              a # b # t \<Rightarrow>
                (case (hex_digit a, hex_digit b) of
                   (Some x, Some y) \<Rightarrow> map_option ((#) (char_of (16 * x + y))) (PathUnescape t)
                 | _ \<Rightarrow> None)
            | _ \<Rightarrow> None))"

definition getWorkflowURL :: "string \<Rightarrow> string \<Rightarrow> string" where
  "getWorkflowURL wid provider =
     (let (logURL, urlPath) =
        (if provider = ''temporal''
         then (''http://localhost:8080'', ''/namespaces/default/workflows/'' @ wid)
         else (''http://localhost:8088'', ''/domains/default/workflows/'' @ wid))
      in logURL @ (case PathUnescape urlPath of None \<Rightarrow> '''' | Some path \<Rightarrow> path))"

section \<open>Shared operations\<close>

text \<open>
  The runners get a pointer to the run and change its status through it, so they return the run
  beside the status they answer; an error is its text.
\<close>

type_synonym answer = "trigger_run \<times> trigger_status \<times> string option"

definition set_tt :: "(trigger_status \<Rightarrow> trigger_status) \<Rightarrow> trigger_run \<Rightarrow> trigger_run" where
  "set_tt f run = with_status (f (tr_status run)) run"

lemma set_tt_sel [simp]:
  "tr_status (set_tt f run) = f (tr_status run)" "tr_spec (set_tt f run) = tr_spec run"
  "meta_of (set_tt f run) = meta_of run" "GetTriggerType (set_tt f run) = GetTriggerType run"
  "generateWorkflowID (set_tt f run) = generateWorkflowID run"
  "om_namespace (set_tt f run) = om_namespace run" "om_name (set_tt f run) = om_name run"
  "om_annotations (set_tt f run) = om_annotations run"
  "om_finalizers (set_tt f run) = om_finalizers run"
  "om_deletion_ts (set_tt f run) = om_deletion_ts run"
  by (simp_all add: set_tt_def)

text \<open>The suffix \<^verbatim>\<open>ns/name: err\<close> of a wrapped error.\<close>

definition wrapped :: "string \<Rightarrow> trigger_run \<Rightarrow> string \<Rightarrow> string" where
  "wrapped what run err = what @ om_namespace run @ ''/'' @ om_name run @ '': '' @ err"

definition killWorkflow :: "tr_env \<Rightarrow> trigger_run \<Rightarrow> answer tr_io" where
  "killWorkflow R run = do {
     let wid = generateWorkflowID run;
     rid \<leftarrow> getWorkflowOpenRunID R wid;
     (case rid of
        Inl err \<Rightarrow> State_Monad.return
          (run, tr_status run, Some (wrapped ''get workflow execution info for trigger '' run err))
      | Inr open_id \<Rightarrow> do {
          let runID = (case open_id of None \<Rightarrow> '''' | Some r \<Rightarrow> r);
          err \<leftarrow> ask (\<lambda>h. te_delete_trigger R h wid runID) (TrDeleteTrigger wid runID);
          (case err of
             Some e \<Rightarrow> State_Monad.return (run, tr_status run, Some (wrapped ''delete trigger for '' run e))
           | None \<Rightarrow>
               let run = set_tt (\<lambda>s. s\<lparr>tt_state := TR_KILLED\<rparr>) run in
               State_Monad.return (run, tr_status run, None))
        })
   }"

definition ForceKillWorkflow :: "tr_env \<Rightarrow> trigger_run \<Rightarrow> (trigger_run \<times> string option) tr_io" where
  "ForceKillWorkflow R run = do {
     (run, _, err) \<leftarrow> killWorkflow R run;
     State_Monad.return (run, err)
   }"

text \<open>The name of a trigger type in messages.\<close>

fun kind_name :: "trigger_kind \<Rightarrow> string" where
  "kind_name TypeCron = ''cron''"
| "kind_name TypeBackfill = ''backfill''"
| "kind_name TypeBatchRerun = ''batch_rerun''"
| "kind_name TypeInterval = ''interval''"
| "kind_name TypeUnknown = ''unknown''"

text \<open>\<^verbatim>\<open>pauseWorkflow\<close> and \<^verbatim>\<open>resumeWorkflow\<close> are the same code over a word, a call and a state.\<close>

definition switch_workflow ::
    "string \<Rightarrow> (tr_event list \<Rightarrow> string \<Rightarrow> string option) \<Rightarrow> (string \<Rightarrow> string option \<Rightarrow> tr_event)
     \<Rightarrow> trigger_state \<Rightarrow> trigger_run \<Rightarrow> answer tr_io" where
  "switch_workflow what client event state run =
     (let wid = generateWorkflowID run; kind = GetTriggerType run in
      if kind \<noteq> TypeCron \<and> kind \<noteq> TypeInterval then
        (let run = set_tt (\<lambda>s. s\<lparr>tt_state := TR_FAILED, tt_error_message :=
               what @ '' operation not supported for trigger type: '' @ kind_name kind\<rparr>) run in
         State_Monad.return (run, tr_status run,
           Some (what @ '' not supported for trigger type '' @ kind_name kind)))
      else do {
        err \<leftarrow> ask (\<lambda>h. client h wid) (event wid);
        (case err of
           Some e \<Rightarrow>
             let run = set_tt (\<lambda>s. s\<lparr>tt_state := TR_FAILED, tt_error_message := e\<rparr>) run in
             State_Monad.return (run, tr_status run, Some (wrapped (what @ '' trigger '') run e))
         | None \<Rightarrow>
             let run = set_tt (\<lambda>s. s\<lparr>tt_state := state, tt_error_message := ''''\<rparr>) run in
             State_Monad.return (run, tr_status run, None))
      })"

definition pauseWorkflow :: "tr_env \<Rightarrow> trigger_run \<Rightarrow> answer tr_io" where
  "pauseWorkflow R run = switch_workflow ''pause'' (te_pause R) TrPause TR_PAUSED run"

definition resumeWorkflow :: "tr_env \<Rightarrow> trigger_run \<Rightarrow> answer tr_io" where
  "resumeWorkflow R run = switch_workflow ''resume'' (te_unpause R) TrUnpause TR_RUNNING run"

section \<open>Observing workflows\<close>

text \<open>\<^verbatim>\<open>%v\<close> of an execution status is its number.\<close>

fun status_number :: "workflow_status \<Rightarrow> string" where
  "status_number WF_UnSpecified = ''0''"
| "status_number WF_Running = ''1''"
| "status_number WF_Completed = ''2''"
| "status_number WF_Failed = ''3''"
| "status_number WF_Canceled = ''4''"
| "status_number WF_Terminated = ''5''"
| "status_number WF_ContinuedAsNew = ''6''"
| "status_number WF_TimedOut = ''7''"

definition failed_status :: "string \<Rightarrow> trigger_status" where
  "failed_status msg = empty_status\<lparr>tt_state := TR_FAILED, tt_error_message := msg\<rparr>"

definition running_status :: trigger_status where
  "running_status = empty_status\<lparr>tt_state := TR_RUNNING\<rparr>"

definition getRecurringRunWorkflowStatus ::
    "tr_env \<Rightarrow> trigger_run \<Rightarrow> (trigger_status \<times> string option) tr_io" where
  "getRecurringRunWorkflowStatus R run = do {
     execInfo \<leftarrow> getWorkflowOpenExecution R (generateWorkflowID run);
     State_Monad.return
       (case execInfo of
          Inl err \<Rightarrow>
            (empty_status\<lparr>tt_state := tt_state (tr_status run),
                tt_error_message := ''failed to list open workflow: '' @ err\<rparr>,
             Some (wrapped ''list open workflow for trigger '' run err))
        | Inr None \<Rightarrow> (running_status, None)
        | Inr (Some ex) \<Rightarrow>
            let status = ox_status ex in
            if ox_time ex = None then (running_status, None)
            else if status = WF_Terminated \<or> status = WF_Canceled then
              (empty_status\<lparr>tt_state := TR_KILLED,
                 tt_error_message := ''workflow was terminated with state: '' @ status_number status\<rparr>,
               None)
            else if status = WF_Failed \<or> status = WF_TimedOut then
              (let err = ''workflow failed with state: '' @ status_number status in
               (failed_status err, Some err))
            else (running_status, None))
   }"

definition getAdhocRunWorkflowStatus ::
    "tr_env \<Rightarrow> trigger_run \<Rightarrow> (trigger_status \<times> string option) tr_io" where
  "getAdhocRunWorkflowStatus R run =
     (let wid = tt_workflow_id (tr_status run) in
      if wid = '''' then
        (let err = ''execution workflow id is empty'' in
         State_Monad.return (failed_status (''failed to get workflow status: '' @ err), Some err))
      else do {
        execResponse \<leftarrow> ask (\<lambda>h. te_describe R h wid) (\<lambda>_. TrDescribe wid);
        State_Monad.return
          (case execResponse of
             Inl err \<Rightarrow>
               (failed_status (''failed to describe workflow execution: '' @ err), Some err)
           | Inr status \<Rightarrow>
               if status \<in> {WF_Failed, WF_TimedOut, WF_Canceled, WF_Terminated} then
                 (let err = ''workflow is terminated with state: '' @ status_number status in
                  (failed_status err, Some err))
               else if status = WF_Completed then (empty_status\<lparr>tt_state := TR_SUCCEEDED\<rparr>, None)
               else if status = WF_Running then (running_status, None)
               else
                 (let err = ''workflow is terminated with unknown state: '' @ status_number status in
                  (failed_status err, Some err)))
      })"

section \<open>The runners\<close>

record runner =
  rn_run :: "trigger_run \<Rightarrow> (trigger_status \<times> string option) tr_io"
  rn_kill :: "trigger_run \<Rightarrow> answer tr_io"
  rn_pause :: "trigger_run \<Rightarrow> answer tr_io"
  rn_resume :: "trigger_run \<Rightarrow> answer tr_io"
  rn_get_status :: "trigger_run \<Rightarrow> (trigger_status \<times> string option) tr_io"
  rn_update ::
    "trigger_run \<Rightarrow> trigger_action \<Rightarrow> (trigger_status \<times> bool \<times> string option) tr_io"

text \<open>A year, and the options both runners start their workflow with.\<close>

definition trigger_options :: "trigger_run \<Rightarrow> string \<Rightarrow> start_options" where
  "trigger_options run cron =
     \<lparr>so_id = generateWorkflowID run, so_task_list = ''trigger_run'',
      so_execution_timeout = seconds (60 * 60 * 24 * 365), so_decision_timeout = seconds 30,
      so_cron_schedule = cron\<rparr>"

definition desired_cron :: "trigger_run \<Rightarrow> string" where
  "desired_cron run = GetCron (GetCronSchedule (ts_trigger (tr_spec run)))"

text \<open>The trigger literal of a cron schedule.\<close>

definition cron_trigger :: "string \<Rightarrow> trigger" where
  "cron_trigger cron =
     \<lparr>tg_type = Some (CronSchedule cron), tg_parameters = [], tg_batch_policy = None,
      tg_max_concurrency = 0, tg_proxy_user = ''''\<rparr>"

text \<open>A failed look-up is logged and treated as no open run: the engine refuses a second start.\<close>

definition start_trigger ::
    "tr_env \<Rightarrow> trigger_run \<Rightarrow> start_options \<Rightarrow> string \<Rightarrow> string \<Rightarrow> (string \<Rightarrow> trigger_status)
     \<Rightarrow> (string \<Rightarrow> trigger_status) \<Rightarrow> (trigger_status \<times> string option) tr_io" where
  "start_trigger R run opt workflow what already started = do {
     rid \<leftarrow> getWorkflowOpenRunID R (so_id opt);
     (case rid of
        Inr (Some r) \<Rightarrow> State_Monad.return (already r, None)
      | _ \<Rightarrow> do {
          exec \<leftarrow> ask (\<lambda>h. te_start R h opt workflow run) (\<lambda>_. TrStart opt workflow run);
          State_Monad.return
            (case exec of
               Inl err \<Rightarrow> (failed_status err, Some (wrapped what run err))
             | Inr (wid, runid) \<Rightarrow> (started wid, None))
        })
   }"

definition cronTrigger_Run :: "tr_env \<Rightarrow> trigger_run \<Rightarrow> (trigger_status \<times> string option) tr_io" where
  "cronTrigger_Run R run =
     (let opt = trigger_options run (desired_cron run) in
      start_trigger R run opt ''trigger.CronTrigger'' ''start workflow for trigger ''
        (\<lambda>rid. running_status)
        (\<lambda>wid. running_status\<lparr>tt_log_url := getWorkflowURL (so_id opt) (te_provider R),
           tt_actual_trigger := Some (cron_trigger (so_cron_schedule opt)),
           tt_actual_notifications := ts_notifications (tr_spec run)\<rparr>))"

definition notificationsEqual :: "notification list option \<Rightarrow> notification list option \<Rightarrow> bool" where
  "notificationsEqual a b \<longleftrightarrow>
     (case a of None \<Rightarrow> [] | Some xs \<Rightarrow> xs) = (case b of None \<Rightarrow> [] | Some ys \<Rightarrow> ys)"

definition cronTrigger_Update ::
    "tr_env \<Rightarrow> trigger_run \<Rightarrow> trigger_action \<Rightarrow> (trigger_status \<times> bool \<times> string option) tr_io" where
  "cronTrigger_Update R run action =
     (let desiredCron = desired_cron run; status = tr_status run in
      if desiredCron = '''' then State_Monad.return (status, False, None)
      else
        let actualCron = GetCron (GetCronSchedule (tt_actual_trigger status));
            cronDrifted = (actualCron \<noteq> desiredCron);
            notifDrifted =
              (\<not> notificationsEqual (ts_notifications (tr_spec run)) (tt_actual_notifications status));
            paused = (case action of ACTION_PAUSE \<Rightarrow> Some True | ACTION_RESUME \<Rightarrow> Some False | _ \<Rightarrow> None)
        in
        if \<not> cronDrifted \<and> \<not> notifDrifted \<and> paused = None then
          State_Monad.return (status, False, None)
        else do {
          let wid = generateWorkflowID run;
          let args = (if notifDrifted then Some run else None);
          let cronToUpdate = (if cronDrifted then desiredCron else '''');
          let synced = (if notifDrifted
             then status\<lparr>tt_actual_notifications := ts_notifications (tr_spec run)\<rparr> else status);
          err \<leftarrow> ask (\<lambda>h. te_update_trigger R h wid cronToUpdate paused args)
                   (TrUpdateTrigger wid cronToUpdate paused args);
          State_Monad.return
            (case err of
               Some e \<Rightarrow>
                 (synced\<lparr>tt_error_message := e\<rparr>, False, Some (wrapped ''update trigger for '' run e))
             | None \<Rightarrow>
                 let newStatus = (if cronDrifted
                       then synced\<lparr>tt_actual_trigger := Some (cron_trigger desiredCron)\<rparr> else synced)
                 in (case paused of
                       None \<Rightarrow> (newStatus, False, None)
                     | Some p \<Rightarrow>
                         (newStatus\<lparr>tt_state := (if p then TR_PAUSED else TR_RUNNING),
                            tt_error_message := ''''\<rparr>, True, None)))
        })"

definition cronTrigger :: "tr_env \<Rightarrow> runner" where
  "cronTrigger R =
     \<lparr>rn_run = cronTrigger_Run R, rn_kill = killWorkflow R, rn_pause = pauseWorkflow R,
      rn_resume = resumeWorkflow R, rn_get_status = getRecurringRunWorkflowStatus R,
      rn_update = cronTrigger_Update R\<rparr>"

fun state_name :: "trigger_state \<Rightarrow> string" where
  "state_name TR_INVALID = ''TRIGGER_RUN_STATE_INVALID''"
| "state_name TR_RUNNING = ''TRIGGER_RUN_STATE_RUNNING''"
| "state_name TR_KILLED = ''TRIGGER_RUN_STATE_KILLED''"
| "state_name TR_FAILED = ''TRIGGER_RUN_STATE_FAILED''"
| "state_name TR_SUCCEEDED = ''TRIGGER_RUN_STATE_SUCCEEDED''"
| "state_name TR_PENDING_KILL = ''TRIGGER_RUN_STATE_PENDING_KILL''"
| "state_name TR_PAUSED = ''TRIGGER_RUN_STATE_PAUSED''"

definition backfillTrigger_Run :: "tr_env \<Rightarrow> trigger_run \<Rightarrow> (trigger_status \<times> string option) tr_io" where
  "backfillTrigger_Run R run =
     (let opt = trigger_options run '''';
          url = getWorkflowURL (so_id opt) (te_provider R) in
      start_trigger R run opt ''trigger.BackfillTrigger'' ''start workflow for backfill trigger ''
        (\<lambda>rid. running_status\<lparr>tt_workflow_id := rid, tt_log_url := url\<rparr>)
        (\<lambda>wid. running_status\<lparr>tt_workflow_id := wid, tt_log_url := url\<rparr>))"

definition backfillTrigger_Kill :: "tr_env \<Rightarrow> trigger_run \<Rightarrow> answer tr_io" where
  "backfillTrigger_Kill R run =
     (if tt_state (tr_status run) \<noteq> TR_RUNNING then
        (let err = ''cannot kill backfill trigger run in state: '' @ state_name (tt_state (tr_status run)) in
         State_Monad.return
           (run, empty_status\<lparr>tt_state := tt_state (tr_status run), tt_error_message := err\<rparr>, Some err))
      else killWorkflow R run)"

definition unsupported :: "string \<Rightarrow> trigger_run \<Rightarrow> answer tr_io" where
  "unsupported what run =
     (let err = what @ '' operation not supported for backfill triggers'' in
      State_Monad.return (run, failed_status err, Some err))"

definition backfillTrigger_Update ::
    "trigger_run \<Rightarrow> trigger_action \<Rightarrow> (trigger_status \<times> bool \<times> string option) tr_io" where
  "backfillTrigger_Update run action =
     State_Monad.return (empty_status\<lparr>tt_state := tt_state (tr_status run)\<rparr>, False, None)"

definition backfillTrigger :: "tr_env \<Rightarrow> runner" where
  "backfillTrigger R =
     \<lparr>rn_run = backfillTrigger_Run R, rn_kill = backfillTrigger_Kill R,
      rn_pause = unsupported ''pause'', rn_resume = unsupported ''resume'',
      rn_get_status = getAdhocRunWorkflowStatus R, rn_update = backfillTrigger_Update\<rparr>"

section \<open>The interface\<close>

text \<open>
  What \<^verbatim>\<open>runner.go\<close> documents of a runner: the states its operations answer with, that an
  update changes the state only when it has applied the action, and that nothing but the status
  of the run changes.
\<close>

locale trigger_runner =
  fixes rn :: runner
  assumes run: "run_state (rn_run rn tr) h = ((st, err), h') \<Longrightarrow>
      tt_state st = (if err = None then TR_RUNNING else TR_FAILED)"
    and kill: "run_state (rn_kill rn tr) h = ((tr', st, err), h') \<Longrightarrow>
      tr' = with_status (tr_status tr') tr \<and>
      (if err = None then tt_state st = TR_KILLED \<and> tr_status tr' = st
       else tt_state st = tt_state (tr_status tr))"
    and pause: "run_state (rn_pause rn tr) h = ((tr', st, err), h') \<Longrightarrow>
      tr' = with_status (tr_status tr') tr \<and>
      tt_state st = (if err = None then TR_PAUSED else TR_FAILED)"
    and resume: "run_state (rn_resume rn tr) h = ((tr', st, err), h') \<Longrightarrow>
      tr' = with_status (tr_status tr') tr \<and>
      tt_state st = (if err = None then TR_RUNNING else TR_FAILED)"
    and get_status: "run_state (rn_get_status rn tr) h = ((st, err), h') \<Longrightarrow>
      (if err = None then tt_state st \<in> {TR_RUNNING, TR_SUCCEEDED, TR_KILLED}
       else tt_state st \<in> {TR_FAILED, tt_state (tr_status tr)})"
    and update: "run_state (rn_update rn tr action) h = ((st, handled, err), h') \<Longrightarrow>
      (if handled then err = None \<and>
         (action = ACTION_PAUSE \<and> tt_state st = TR_PAUSED \<or> action = ACTION_RESUME \<and> tt_state st = TR_RUNNING)
       else tt_state st = tt_state (tr_status tr))"

lemma status_defs [simp]:
  "tt_state running_status = TR_RUNNING" "tt_state (failed_status m) = TR_FAILED"
  "tt_error_message (failed_status m) = m" "tt_workflow_id running_status = ''''"
  by (simp_all add: running_status_def failed_status_def)

text \<open>The paths through the shared operations.\<close>

lemma start_trigger_run:
  assumes "run_state (start_trigger R run opt wfn what already started) h = ((st, err), h')"
  obtains (running) r h1 where "run_state (getWorkflowOpenRunID R (so_id opt)) h = (Inr (Some r), h1)"
      "h' = h1" "st = already r" "err = None"
  | (refused) rid h1 e where "run_state (getWorkflowOpenRunID R (so_id opt)) h = (rid, h1)"
      "\<forall>r. rid \<noteq> Inr (Some r)" "te_start R h1 opt wfn run = Inl e"
      "h' = h1 @ [TrStart opt wfn run]" "st = failed_status e" "err \<noteq> None"
  | (accepted) rid h1 wid runid where "run_state (getWorkflowOpenRunID R (so_id opt)) h = (rid, h1)"
      "\<forall>r. rid \<noteq> Inr (Some r)" "te_start R h1 opt wfn run = Inr (wid, runid)"
      "h' = h1 @ [TrStart opt wfn run]" "st = started wid" "err = None"
proof -
  obtain rid h1 where r: "run_state (getWorkflowOpenRunID R (so_id opt)) h = (rid, h1)"
    by (metis prod.exhaust)
  show thesis
  proof (cases "\<exists>r. rid = Inr (Some r)")
    case True
    then obtain r0 where "rid = Inr (Some r0)" by blast
    with assms r show thesis by (intro running [of r0 h1]) (simp_all add: start_trigger_def)
  next
    case False
    with assms r have m: "(st, err) = (case te_start R h1 opt wfn run of
        Inl e \<Rightarrow> (failed_status e, Some (wrapped what run e)) | Inr (wid, runid) \<Rightarrow> (started wid, None))"
      "h' = h1 @ [TrStart opt wfn run]"
      by (cases rid; auto simp: start_trigger_def split: option.splits)+
    show thesis
    proof (cases "te_start R h1 opt wfn run")
      case (Inl e)
      show thesis by (rule refused [of rid h1 e]) (use r False Inl m in simp_all)
    next
      case (Inr p)
      obtain wid runid where p: "p = (wid, runid)" by (cases p)
      show thesis by (rule accepted [of rid h1 wid runid]) (use r False Inr p m in simp_all)
    qed
  qed
qed

lemma killWorkflow_run:
  assumes "run_state (killWorkflow R run) h = ((run', st, err), h')"
  obtains (unknown) h1 e where "run_state (getWorkflowOpenRunID R (generateWorkflowID run)) h = (Inl e, h1)"
      "h' = h1" "run' = run" "st = tr_status run" "err \<noteq> None"
  | (deleted) h1 rid e where "run_state (getWorkflowOpenRunID R (generateWorkflowID run)) h = (Inr rid, h1)"
      "te_delete_trigger R h1 (generateWorkflowID run) (case rid of None \<Rightarrow> '''' | Some r \<Rightarrow> r) = e"
      "h' = h1 @ [TrDeleteTrigger (generateWorkflowID run) (case rid of None \<Rightarrow> '''' | Some r \<Rightarrow> r) e]"
      "err = None \<longleftrightarrow> e = None" "st = tr_status run'"
      "run' = (if e = None then set_tt (\<lambda>s. s\<lparr>tt_state := TR_KILLED\<rparr>) run else run)"
proof -
  obtain x h1 where r: "run_state (getWorkflowOpenRunID R (generateWorkflowID run)) h = (x, h1)"
    by (metis prod.exhaust)
  show thesis
  proof (cases x)
    case (Inl e)
    with assms r show thesis by (intro unknown [of e h1]) (auto simp: killWorkflow_def Let_def)
  next
    case (Inr rid)
    define ev where "ev = te_delete_trigger R h1 (generateWorkflowID run) (case rid of None \<Rightarrow> '''' | Some r \<Rightarrow> r)"
    let ?r = "case rid of None \<Rightarrow> '''' | Some r \<Rightarrow> r"
    from assms r Inr have res: "((run', st, err), h') =
        (case ev of Some e \<Rightarrow> (run, tr_status run, Some (wrapped ''delete trigger for '' run e))
         | None \<Rightarrow> (set_tt (\<lambda>s. s\<lparr>tt_state := TR_KILLED\<rparr>) run,
             tr_status (set_tt (\<lambda>s. s\<lparr>tt_state := TR_KILLED\<rparr>) run), None),
         h1 @ [TrDeleteTrigger (generateWorkflowID run) ?r ev])"
      unfolding ev_def by (auto simp: killWorkflow_def Let_def split: option.splits)
    then have "h' = h1 @ [TrDeleteTrigger (generateWorkflowID run) ?r ev]"
      "err = None \<longleftrightarrow> ev = None" "st = tr_status run'"
      "run' = (if ev = None then set_tt (\<lambda>s. s\<lparr>tt_state := TR_KILLED\<rparr>) run else run)"
      by (auto split: option.splits)
    with r Inr show thesis by (intro deleted [of rid h1 ev]) (simp_all add: ev_def)
  qed
qed

lemma switch_workflow_run:
  assumes "run_state (switch_workflow what client event state run) h = ((run', st, err), h')"
  shows "run' = with_status (tr_status run') run" "st = tr_status run'"
    "tt_state st = (if err = None then state else TR_FAILED)"
    "h' = h \<or> h' = h @ [event (generateWorkflowID run) (client h (generateWorkflowID run))]"
  using assms
  by (auto simp: switch_workflow_def Let_def set_tt_def with_status_def split: if_splits option.splits)

lemmas runner_defs = cronTrigger_def backfillTrigger_def

interpretation cron_runner: trigger_runner "cronTrigger R" for R
proof (unfold_locales, goal_cases)
  case (1 tr h st err h')
  then have "run_state (cronTrigger_Run R tr) h = ((st, err), h')" by (simp add: runner_defs)
  then show ?case
    unfolding cronTrigger_Run_def Let_def by (cases rule: start_trigger_run) simp_all
next
  case (2 tr h tr' st err h')
  then have "run_state (killWorkflow R tr) h = ((tr', st, err), h')" by (simp add: runner_defs)
  then show ?case by (cases rule: killWorkflow_run) (auto simp: set_tt_def)
next
  case (3 tr h tr' st err h')
  then show ?case by (auto simp: runner_defs pauseWorkflow_def dest: switch_workflow_run)
next
  case (4 tr h tr' st err h')
  then show ?case by (auto simp: runner_defs resumeWorkflow_def dest: switch_workflow_run)
next
  case (5 tr h st err h')
  then show ?case
    by (auto simp: runner_defs getRecurringRunWorkflowStatus_def Let_def
        split: prod.splits sum.splits option.splits if_splits)
next
  case (6 tr action h st handled err h')
  then show ?case
    by (auto simp: runner_defs cronTrigger_Update_def Let_def
        split: option.splits if_splits trigger_action.splits)
qed

interpretation backfill_runner: trigger_runner "backfillTrigger R" for R
proof (unfold_locales, goal_cases)
  case (1 tr h st err h')
  then have "run_state (backfillTrigger_Run R tr) h = ((st, err), h')" by (simp add: runner_defs)
  then show ?case
    unfolding backfillTrigger_Run_def Let_def by (cases rule: start_trigger_run) simp_all
next
  case (2 tr h tr' st err h')
  then have k: "run_state (backfillTrigger_Kill R tr) h = ((tr', st, err), h')" by (simp add: runner_defs)
  show ?case
  proof (cases "tt_state (tr_status tr) = TR_RUNNING")
    case True
    with k have "run_state (killWorkflow R tr) h = ((tr', st, err), h')"
      by (simp add: backfillTrigger_Kill_def)
    then show ?thesis by (cases rule: killWorkflow_run) (auto simp: set_tt_def)
  next
    case False
    with k show ?thesis by (auto simp: backfillTrigger_Kill_def Let_def)
  qed
next
  case (5 tr h st err h')
  then show ?case
    by (auto simp: runner_defs getAdhocRunWorkflowStatus_def Let_def
        split: prod.splits sum.splits if_splits)
qed (auto simp: runner_defs unsupported_def backfillTrigger_Update_def Let_def)

end
