(* ===== verification/Trigger_Run.thy ===== *)
theory Trigger_Run
  imports Trigger_Runner
begin

text \<open>
  The trigger-run controller (\<^verbatim>\<open>go/components/triggerrun/controller.go\<close>, \<^verbatim>\<open>module.go\<close>): one pass
  over a trigger run, from the drain finalizer and the owner reference through the state
  machine to the separate writes of specification and status; and the drain target through
  which cascade deletion stops its schedule. A panic ends a pass: it is the event \<open>TrPanic\<close>
  followed by the error the controller runtime makes of it. Metrics other than those of a drain
  are not modelled.
\<close>

section \<open>Constants and writes\<close>

definition triggerDrainFinalizer :: string where
  "triggerDrainFinalizer = ''triggerruns.michelangelo.uber.com/drain''"

definition triggerMetricKind :: string where "triggerMetricKind = ''trigger_run''"

definition triggerDrainRequeue :: int where "triggerDrainRequeue = seconds 10"

definition trigger_Update :: "tr_env \<Rightarrow> trigger_run \<Rightarrow> (trigger_run \<times> api_error option) tr_io" where
  "trigger_Update R run = ask (\<lambda>h. te_update R h run) (\<lambda>a. TrUpdate run (snd a))"

definition trigger_UpdateStatus ::
    "tr_env \<Rightarrow> trigger_run \<Rightarrow> (trigger_run \<times> api_error option) tr_io" where
  "trigger_UpdateStatus R run = ask (\<lambda>h. te_update_status R h run) (\<lambda>a. TrUpdateStatus run (snd a))"

lemmas trigger_writes [io_simps] = trigger_Update_def trigger_UpdateStatus_def

section \<open>Choice of the runner\<close>

text \<open>
  \<^verbatim>\<open>register\<close> provides a cron and a backfill runner and leaves the other two nil (\<open>None\<close>), so
  that calling one of them panics.
\<close>

record runners =
  rs_cron :: "runner option"
  rs_interval :: "runner option"
  rs_backfill :: "runner option"
  rs_batch_rerun :: "runner option"

definition register :: "tr_env \<Rightarrow> runners" where
  "register R =
     \<lparr>rs_cron = Some (cronTrigger R), rs_interval = None,
      rs_backfill = Some (backfillTrigger R), rs_batch_rerun = None\<rparr>"

fun pick_runner :: "runners \<Rightarrow> trigger_kind \<Rightarrow> runner option" where
  "pick_runner rs TypeInterval = rs_interval rs"
| "pick_runner rs TypeBackfill = rs_backfill rs"
| "pick_runner rs TypeBatchRerun = rs_batch_rerun rs"
| "pick_runner rs _ = rs_cron rs"

definition getRunner :: "tr_env \<Rightarrow> trigger_run \<Rightarrow> runner option" where
  "getRunner R run = pick_runner (register R) (GetTriggerType run)"

definition panic_error :: api_error where "panic_error = OtherError ''panic''"

section \<open>The state machine\<close>

text \<open>A step yields the changed run, or \<open>None\<close> for a panic.\<close>

definition with_runner ::
    "runner option \<Rightarrow> (runner \<Rightarrow> trigger_run tr_io) \<Rightarrow> (trigger_run option) tr_io" where
  "with_runner rn f =
     (case rn of
        None \<Rightarrow> do { emit TrPanic; State_Monad.return None }
      | Some r \<Rightarrow> do { run \<leftarrow> f r; State_Monad.return (Some run) })"

definition start_step :: "trigger_run \<Rightarrow> runner \<Rightarrow> trigger_run tr_io" where
  "start_step run rn = do {
     (status, err) \<leftarrow> rn_run rn run;
     State_Monad.return
       (if err \<noteq> None then
          set_tt (\<lambda>s. s\<lparr>tt_state := TR_FAILED, tt_error_message := tt_error_message status\<rparr>) run
        else
          set_tt (\<lambda>s. s\<lparr>tt_state := tt_state status, tt_log_url := tt_log_url status,
            tt_workflow_id := tt_workflow_id status\<rparr>) run)
   }"

text \<open>The action asked for; the deprecated \<^verbatim>\<open>Spec.Kill\<close> counts when there is none.\<close>

definition requested_action :: "trigger_run \<Rightarrow> trigger_action" where
  "requested_action run =
     (let action = ts_action (tr_spec run) in
      if action = NO_ACTION \<and> ts_kill (tr_spec run) then ACTION_KILL else action)"

definition clear_action :: "trigger_run \<Rightarrow> trigger_run" where
  "clear_action run = run\<lparr>tr_spec := (tr_spec run)\<lparr>ts_action := NO_ACTION\<rparr>\<rparr>"

definition clear_kill :: "trigger_run \<Rightarrow> trigger_run" where
  "clear_kill run = run\<lparr>tr_spec := (tr_spec run)\<lparr>ts_kill := False\<rparr>\<rparr>"

text \<open>A failed call: the error's text and the answered state go into the status.\<close>

definition failed_call :: "trigger_run \<Rightarrow> trigger_status \<Rightarrow> string \<Rightarrow> trigger_run" where
  "failed_call run status err =
     set_tt (\<lambda>s. s\<lparr>tt_error_message := err, tt_state := tt_state status\<rparr>) run"

text \<open>An action that succeeded: its status, and the command reset.\<close>

definition acted ::
    "(trigger_run \<Rightarrow> trigger_run) \<Rightarrow> answer \<Rightarrow> trigger_run" where
  "acted reset ans =
     (case ans of (run, status, err) \<Rightarrow>
        (case err of
           Some e \<Rightarrow> failed_call run status e
         | None \<Rightarrow> reset (with_status status run)))"

definition running_step :: "trigger_run \<Rightarrow> runner \<Rightarrow> trigger_run tr_io" where
  "running_step run rn = do {
     let action = requested_action run;
     (status, actionHandled, err) \<leftarrow> rn_update rn run action;
     (case err of
        Some e \<Rightarrow> State_Monad.return (failed_call run status e)
      | None \<Rightarrow>
          let run = with_status status run in
          if actionHandled then State_Monad.return (clear_kill (clear_action run))
          else
            (case action of
               ACTION_KILL \<Rightarrow> do {
                 ans \<leftarrow> rn_kill rn run;
                 State_Monad.return (acted (\<lambda>run. clear_kill (clear_action run)) ans)
               }
             | ACTION_PAUSE \<Rightarrow> do {
                 ans \<leftarrow> rn_pause rn run;
                 State_Monad.return (acted clear_action ans)
               }
             | _ \<Rightarrow> do {
                 (status2, err) \<leftarrow> rn_get_status rn run;
                 State_Monad.return
                   (case err of
                      Some e \<Rightarrow> failed_call run status2 e
                    | None \<Rightarrow> set_tt (\<lambda>s. s\<lparr>tt_state := tt_state status2\<rparr>) run)
               }))
   }"

definition paused_step :: "trigger_run \<Rightarrow> runner \<Rightarrow> trigger_run tr_io" where
  "paused_step run rn = do {
     let action = requested_action run;
     (status, actionHandled, err) \<leftarrow> rn_update rn run action;
     (case err of
        Some e \<Rightarrow> State_Monad.return
          (let run = failed_call run status e in
           if tt_actual_notifications status \<noteq> None
           then set_tt (\<lambda>s. s\<lparr>tt_actual_notifications := tt_actual_notifications status\<rparr>) run
           else run)
      | None \<Rightarrow>
          let run = with_status status run in
          if actionHandled then State_Monad.return (clear_kill (clear_action run))
          else
            (case action of
               ACTION_KILL \<Rightarrow> do {
                 ans \<leftarrow> rn_kill rn run;
                 State_Monad.return (acted clear_action ans)
               }
             | ACTION_RESUME \<Rightarrow> do {
                 ans \<leftarrow> rn_resume rn run;
                 State_Monad.return (acted clear_action ans)
               }
             | _ \<Rightarrow> State_Monad.return run))
   }"

definition state_machine :: "runner option \<Rightarrow> trigger_run \<Rightarrow> (trigger_run option) tr_io" where
  "state_machine rn run =
     (case tt_state (tr_status run) of
        TR_INVALID \<Rightarrow>
          if ts_kill (tr_spec run)
          then State_Monad.return (Some (with_status (empty_status\<lparr>tt_state := TR_KILLED\<rparr>) run))
          else with_runner rn (start_step run)
      | TR_RUNNING \<Rightarrow> with_runner rn (running_step run)
      | TR_PAUSED \<Rightarrow> with_runner rn (paused_step run)
      | _ \<Rightarrow> State_Monad.return (Some run))"

section \<open>A pass\<close>

text \<open>What follows the state machine: the reset command is written before the status.\<close>

definition persist_status ::
    "tr_env \<Rightarrow> bool \<Rightarrow> trigger_run \<Rightarrow> (ctrl_result \<times> api_error option) tr_io" where
  "persist_status R statusChanged run =
     (if statusChanged then do {
        (_, err) \<leftarrow> trigger_UpdateStatus R run;
        State_Monad.return
          (case err of
             Some e \<Rightarrow> (no_requeue, Some e)
           | None \<Rightarrow> (requeue_after (seconds 60), None))
      }
      else State_Monad.return (requeue_after (seconds 60), None))"

definition persist ::
    "tr_env \<Rightarrow> trigger_run \<Rightarrow> trigger_run \<Rightarrow> (ctrl_result \<times> api_error option) tr_io" where
  "persist R original run =
     (let specChanged = (tr_spec original \<noteq> tr_spec run);
          statusChanged = (tr_status original \<noteq> tr_status run) in
      if specChanged then do {
        let desiredStatus = tr_status run;
        (run, err) \<leftarrow> trigger_Update R run;
        (case err of
           Some e \<Rightarrow> State_Monad.return (no_requeue, Some e)
         | None \<Rightarrow> persist_status R statusChanged (with_status desiredStatus run))
      }
      else persist_status R statusChanged run)"

definition trigger_reconcile :: "tr_env \<Rightarrow> trigger_run \<Rightarrow> (ctrl_result \<times> api_error option) tr_io" where
  "trigger_reconcile R run =
     (if isTerminateState run then
        if \<not> IsImmutable run then do {
          (_, err) \<leftarrow> trigger_Update R (MarkImmutable run);
          State_Monad.return (no_requeue, err)
        }
        else State_Monad.return (no_requeue, None)
      else do {
        next_run \<leftarrow> state_machine (getRunner R run) run;
        (case next_run of
           None \<Rightarrow> State_Monad.return (no_requeue, Some panic_error)
         | Some run' \<Rightarrow> persist R run run')
      })"

definition trigger_ensureOwnerRef ::
    "tr_env \<Rightarrow> trigger_run \<Rightarrow> (trigger_run \<times> api_error option) tr_io" where
  "trigger_ensureOwnerRef R run =
     (case ts_pipeline (tr_spec run) of
        None \<Rightarrow> State_Monad.return (run, None)
      | Some (refns, refname) \<Rightarrow>
          if refname = '''' then State_Monad.return (run, None)
          else do {
            let namespace = (if refns = '''' then om_namespace run else refns);
            got \<leftarrow> ask (\<lambda>h. te_get_pipeline R h namespace refname) (\<lambda>_. TrGetPipeline namespace refname);
            (case got of
               Inl err \<Rightarrow>
                 State_Monad.return (run, if IsNotFoundError err then None else Some err)
             | Inr pipeline \<Rightarrow>
                 (case EnsureControllerRef (te_reflib R) run pipeline of
                    Inl err \<Rightarrow> State_Monad.return (run, Some err)
                  | Inr (changed, run') \<Rightarrow>
                      if \<not> changed then State_Monad.return (run', None)
                      else trigger_Update R run'))
          })"

definition trigger_ensureDrainFinalizer ::
    "tr_env \<Rightarrow> trigger_run \<Rightarrow> (trigger_run \<times> api_error option) tr_io" where
  "trigger_ensureDrainFinalizer R run =
     (if isTerminateState run then State_Monad.return (run, None)
      else if fl_contains (te_finlib R) (om_finalizers run) triggerDrainFinalizer
        then State_Monad.return (run, None)
      else trigger_Update R
        (run\<lparr>om_finalizers := fl_add (te_finlib R) (om_finalizers run) triggerDrainFinalizer\<rparr>))"

section \<open>The drain target\<close>

text \<open>The drain works on the run in memory and on the trace; a panic of a nil runner ends the
  step, so it is reported as an error.\<close>

record tr_drain =
  td_run :: trigger_run
  td_log :: "tr_event list"

definition on_trigger :: "(trigger_run \<Rightarrow> (trigger_run \<times> 'a) tr_io) \<Rightarrow> (tr_drain, 'a) state" where
  "on_trigger f = State (\<lambda>s. case run_state (f (td_run s)) (td_log s) of
     ((run', x), log') \<Rightarrow> (x, s\<lparr>td_run := run', td_log := log'\<rparr>))"

lemma run_on_trigger [simp]:
  "run_state (on_trigger f) s = (case run_state (f (td_run s)) (td_log s) of
     ((run', x), log') \<Rightarrow> (x, s\<lparr>td_run := run', td_log := log'\<rparr>))"
  by (simp add: on_trigger_def)

definition triggerRunWorkStarted :: "trigger_run \<Rightarrow> bool" where
  "triggerRunWorkStarted run \<longleftrightarrow> tt_state (tr_status run) \<noteq> TR_INVALID"

definition drain_kill :: "tr_env \<Rightarrow> trigger_run \<Rightarrow> (trigger_run \<times> trigger_status \<times> api_error option) tr_io" where
  "drain_kill R run =
     (case getRunner R run of
        None \<Rightarrow> do { emit TrPanic; State_Monad.return (run, tr_status run, Some panic_error) }
      | Some rn \<Rightarrow> do {
          (run, status, err) \<leftarrow> rn_kill rn run;
          State_Monad.return (run, status, map_option OtherError err)
        })"

definition trigger_RequestCancel :: "tr_env \<Rightarrow> trigger_run \<Rightarrow> (trigger_run \<times> api_error option) tr_io" where
  "trigger_RequestCancel R run = do {
     (run, status, err) \<leftarrow> drain_kill R run;
     (case err of
        Some e \<Rightarrow> State_Monad.return (run, Some e)
      | None \<Rightarrow> trigger_Update R (MarkDrainCounted (with_status status run)))
   }"

definition trigger_Progress :: "tr_env \<Rightarrow> trigger_run \<Rightarrow> (trigger_run \<times> (api_error + bool)) tr_io" where
  "trigger_Progress R run = do {
     (run, status, err) \<leftarrow> drain_kill R run;
     (case err of
        Some e \<Rightarrow> State_Monad.return (run, Inl e)
      | None \<Rightarrow> do {
          (run, err) \<leftarrow> trigger_UpdateStatus R (with_status status run);
          State_Monad.return (run, case err of Some e \<Rightarrow> Inl e | None \<Rightarrow> Inr (isTerminateState run))
        })
   }"

definition trigger_MarkKilled :: "tr_env \<Rightarrow> trigger_run \<Rightarrow> (trigger_run \<times> api_error option) tr_io" where
  "trigger_MarkKilled R run = trigger_UpdateStatus R (set_tt (\<lambda>s. s\<lparr>tt_state := TR_KILLED\<rparr>) run)"

definition trigger_ForceKill :: "tr_env \<Rightarrow> trigger_run \<Rightarrow> (trigger_run \<times> api_error option) tr_io" where
  "trigger_ForceKill R run = do {
     (run, err) \<leftarrow> ForceKillWorkflow R run;
     State_Monad.return (run, map_option OtherError err)
   }"

definition trigger_CompleteDrain :: "tr_env \<Rightarrow> trigger_run \<Rightarrow> (trigger_run \<times> api_error option) tr_io" where
  "trigger_CompleteDrain R run =
     (let run1 = (if \<not> IsImmutable run then MarkImmutable run else run);
          run2 = ClearDrainCounted run1
      in trigger_Update R
           (run2\<lparr>om_finalizers := fl_remove (te_finlib R) (om_finalizers run2) triggerDrainFinalizer\<rparr>))"

definition triggerRunDrainTarget :: "tr_env \<Rightarrow> tr_drain drain_target" where
  "triggerRunDrainTarget R =
     \<lparr>dt_object = (\<lambda>s. meta_of (td_run s)),
      dt_metric = (\<lambda>m. State (\<lambda>s. ((), s\<lparr>td_log := td_log s @ [TrDrain m]\<rparr>))),
      dt_request_cancel = on_trigger (trigger_RequestCancel R),
      dt_progress = on_trigger (trigger_Progress R),
      dt_mark_killed = on_trigger (trigger_MarkKilled R),
      dt_force_kill = on_trigger (trigger_ForceKill R),
      dt_complete_drain = on_trigger (trigger_CompleteDrain R)\<rparr>"

definition trigger_drain_state :: "trigger_run \<Rightarrow> drain_state" where
  "trigger_drain_state run =
     \<lparr>ds_kind = triggerMetricKind, ds_finalizer = triggerDrainFinalizer,
      ds_is_terminal = isTerminateState run, ds_work_started = triggerRunWorkStarted run\<rparr>"

definition trigger_drain :: "tr_env \<Rightarrow> trigger_run \<Rightarrow> (ctrl_result \<times> api_error option) tr_io" where
  "trigger_drain R run = State (\<lambda>h.
     case run_state (RunDrainStep (te_finlib R) (te_now R h) (trigger_drain_state run)
            (triggerRunDrainTarget R) triggerDrainRequeue)
          \<lparr>td_run = run, td_log = h\<rparr> of
       (res, s) \<Rightarrow> (res, td_log s))"

section \<open>Reconcile\<close>

definition trigger_pass :: "tr_env \<Rightarrow> trigger_run \<Rightarrow> (ctrl_result \<times> api_error option) tr_io" where
  "trigger_pass R run =
     (if om_deletion_ts run \<noteq> None then trigger_drain R run
      else do {
        (run, err) \<leftarrow> trigger_ensureDrainFinalizer R run;
        (case err of
           Some e \<Rightarrow> State_Monad.return (no_requeue, Some e)
         | None \<Rightarrow> do {
             (run, err) \<leftarrow> trigger_ensureOwnerRef R run;
             (case err of
                Some e \<Rightarrow> State_Monad.return (no_requeue, Some e)
              | None \<Rightarrow> trigger_reconcile R run)
           })
      })"

definition TriggerReconcile ::
    "tr_env \<Rightarrow> string \<Rightarrow> string \<Rightarrow> (ctrl_result \<times> api_error option) tr_io" where
  "TriggerReconcile R ns nm = do {
     got \<leftarrow> ask (\<lambda>h. te_get_run R h ns nm) (\<lambda>_. TrGetRun ns nm);
     (case got of
        Inl err \<Rightarrow> State_Monad.return (no_requeue, if IsNotFoundError err then None else Some err)
      | Inr run \<Rightarrow> trigger_pass R run)
   }"

section \<open>The drain target keeps its contract\<close>

text \<open>What the controller relies on: a write leaves the metadata of the object in memory as it
  was sent. (\<open>same_trigger_meta\<close> is what the drain reads of it.)\<close>

definition same_trigger_meta :: "trigger_run \<Rightarrow> trigger_run \<Rightarrow> bool" where
  "same_trigger_meta a b \<longleftrightarrow> om_annotations a = om_annotations b \<and> om_finalizers a = om_finalizers b \<and>
     om_deletion_ts a = om_deletion_ts b"

definition trigger_server_keeps :: "tr_env \<Rightarrow> bool" where
  "trigger_server_keeps R \<longleftrightarrow> (\<forall>h run. same_trigger_meta (fst (te_update R h run)) run \<and>
     same_trigger_meta (fst (te_update_status R h run)) run)"

definition trigger_lawful :: "tr_env \<Rightarrow> bool" where
  "trigger_lawful R \<longleftrightarrow> trigger_server_keeps R \<and> finlib_ok (te_finlib R)"

fun last_trigger :: "obj_meta \<Rightarrow> tr_event list \<Rightarrow> obj_meta" where
  "last_trigger base [] = base"
| "last_trigger base (TrUpdate run None # es) = last_trigger (meta_of run) es"
| "last_trigger base (_ # es) = last_trigger base es"

fun trigger_event_gauge :: "tr_event \<Rightarrow> int" where
  "trigger_event_gauge (TrDrain m) = gauge_delta m"
| "trigger_event_gauge _ = 0"

definition trigger_gauge :: "tr_event list \<Rightarrow> int" where
  "trigger_gauge h = sum_list (map trigger_event_gauge h)"

lemma last_trigger_append [simp]:
  "last_trigger base (h @ t) = last_trigger (last_trigger base h) t"
  by (induction base h rule: last_trigger.induct) simp_all

lemma trigger_gauge_simps [simp]:
  "trigger_gauge [] = 0" "trigger_gauge (h @ t) = trigger_gauge h + trigger_gauge t"
  "trigger_gauge (e # t) = trigger_event_gauge e + trigger_gauge t"
  by (simp_all add: trigger_gauge_def)

text \<open>Calls on the engine alone.\<close>

fun engine_call :: "tr_event \<Rightarrow> bool" where
  "engine_call (TrUpdate run e) \<longleftrightarrow> False"
| "engine_call (TrUpdateStatus run e) \<longleftrightarrow> False"
| "engine_call (TrDrain m) \<longleftrightarrow> False"
| "engine_call (TrGetRun ns nm) \<longleftrightarrow> False"
| "engine_call (TrGetPipeline ns nm) \<longleftrightarrow> False"
| "engine_call _ \<longleftrightarrow> True"

lemma engine_calls_keep:
  assumes "list_all engine_call t"
  shows "last_trigger base t = base" "trigger_gauge t = 0"
proof -
  have "engine_call e \<Longrightarrow> last_trigger base (e # t) = last_trigger base t \<and> trigger_event_gauge e = 0" for e t
    by (cases e) simp_all
  with assms show "last_trigger base t = base" "trigger_gauge t = 0"
    by (induction t) auto
qed

section \<open>The calls of an operation\<close>

text \<open>Which events each operation can cause, whatever the environment answers.\<close>

lemma emits_list_open: "P (TrListOpen wid) \<Longrightarrow> emits P (list_open_retry R n wid)"
  by (induction n) (auto intro!: emits_bind emits_ask split: sum.splits)

lemma emits_open_run: "P (TrListOpen wid) \<Longrightarrow> emits P (getWorkflowOpenRunID R wid)"
  unfolding getWorkflowOpenRunID_def getWorkflowOpenExecution_def
  by (intro emits_bind emits_list_open emits_return)

lemma emits_start_trigger:
  assumes "P (TrListOpen (so_id opt))" "P (TrStart opt w run)"
  shows "emits P (start_trigger R run opt w what already started)"
  unfolding start_trigger_def using assms
  by (auto intro!: emits_bind emits_open_run emits_ask split: sum.splits option.splits)

lemma emits_kill:
  assumes "P (TrListOpen (generateWorkflowID run))"
    "\<And>rid e. P (TrDeleteTrigger (generateWorkflowID run) rid e)"
  shows "emits P (killWorkflow R run)"
  unfolding killWorkflow_def Let_def using assms
  by (auto intro!: emits_bind emits_open_run emits_ask split: sum.splits option.splits)

lemma emits_switch:
  assumes "\<And>e. P (event (generateWorkflowID run) e)"
  shows "emits P (switch_workflow what client event state run)"
  unfolding switch_workflow_def Let_def using assms
  by (auto intro!: emits_bind emits_ask split: option.splits)

lemma emits_recurring:
  "P (TrListOpen (generateWorkflowID run)) \<Longrightarrow> emits P (getRecurringRunWorkflowStatus R run)"
  unfolding getRecurringRunWorkflowStatus_def getWorkflowOpenExecution_def
  by (intro emits_bind emits_list_open emits_return)

lemma emits_adhoc:
  "P (TrDescribe (tt_workflow_id (tr_status run))) \<Longrightarrow> emits P (getAdhocRunWorkflowStatus R run)"
  unfolding getAdhocRunWorkflowStatus_def Let_def by (auto intro!: emits_bind emits_ask)

text \<open>What a sync of the schedule may send, and when.\<close>

definition drifted :: "trigger_run \<Rightarrow> bool" where
  "drifted run \<longleftrightarrow>
     GetCron (GetCronSchedule (tt_actual_trigger (tr_status run))) \<noteq> desired_cron run \<or>
     \<not> notificationsEqual (ts_notifications (tr_spec run)) (tt_actual_notifications (tr_status run))"

lemma emits_cron_update:
  assumes "\<And>cron paused args e. desired_cron run \<noteq> '''' \<Longrightarrow>
      drifted run \<or> action \<in> {ACTION_PAUSE, ACTION_RESUME} \<Longrightarrow>
      cron \<in> {'''', desired_cron run} \<Longrightarrow>
      paused = Some True \<longrightarrow> action = ACTION_PAUSE \<Longrightarrow> paused = Some False \<longrightarrow> action = ACTION_RESUME \<Longrightarrow>
      args \<in> {None, Some run} \<Longrightarrow>
      P (TrUpdateTrigger (generateWorkflowID run) cron paused args e)"
  shows "emits P (cronTrigger_Update R run action)"
  unfolding cronTrigger_Update_def Let_def
  by (cases action; auto intro!: emits_bind emits_ask assms simp: drifted_def)

end
