(* ===== verification/Trigger_Properties.thy ===== *)
theory Trigger_Properties
  imports Trigger_Run
begin

text \<open>
  What holds of the trigger-run controller: the graph of its states, the guards of its calls on
  the workflow engine, the order of its writes, the sync of schedules, and cascade deletion,
  for which the drain target of trigger runs interprets the contract \<open>draining\<close>.
\<close>

section \<open>States\<close>

text \<open>The states a pass may leave a run in.\<close>

fun successors :: "trigger_state \<Rightarrow> trigger_state set" where
  "successors TR_INVALID = {TR_RUNNING, TR_FAILED, TR_KILLED}"
| "successors TR_RUNNING = {TR_RUNNING, TR_PAUSED, TR_KILLED, TR_FAILED, TR_SUCCEEDED}"
| "successors TR_PAUSED = {TR_PAUSED, TR_RUNNING, TR_KILLED, TR_FAILED}"
| "successors s = {s}"

lemma resets_sel [simp]:
  "tr_status (clear_action run) = tr_status run" "tr_status (clear_kill run) = tr_status run"
  "ts_action (tr_spec (clear_action run)) = NO_ACTION" "ts_kill (tr_spec (clear_kill run)) = False"
  "ts_action (tr_spec (clear_kill run)) = ts_action (tr_spec run)"
  "meta_of (clear_action run) = meta_of run" "meta_of (clear_kill run) = meta_of run"
  by (simp_all add: clear_action_def clear_kill_def meta_of_def obj_meta.defs)

lemma failed_call_sel [simp]:
  "tt_state (tr_status (failed_call run st e)) = tt_state st"
  "tt_error_message (tr_status (failed_call run st e)) = e"
  "tr_spec (failed_call run st e) = tr_spec run"
  by (simp_all add: failed_call_def)

lemma acted_state [simp]:
  "tt_state (tr_status (acted clear_action (tr, st, err))) = tt_state st"
  "tt_state (tr_status (acted (\<lambda>run. clear_kill (clear_action run)) (tr, st, err))) = tt_state st"
  by (simp_all add: acted_def split: option.splits)

context trigger_runner
begin

lemma start_step_states:
  assumes "run_state (start_step tr rn) h = (tr', h')"
  shows "tt_state (tr_status tr') \<in> {TR_RUNNING, TR_FAILED}"
  using assms run by (auto simp: start_step_def split: prod.splits if_splits)

lemma running_step_states:
  assumes "run_state (running_step tr rn) h = (tr', h')" "tt_state (tr_status tr) = TR_RUNNING"
  shows "tt_state (tr_status tr') \<in> successors TR_RUNNING"
proof -
  obtain st handled err h1 where u: "run_state (rn_update rn tr (requested_action tr)) h = ((st, handled, err), h1)"
    by (metis prod.exhaust)
  note law = update [OF u]
  show ?thesis
  proof (cases "err = None \<and> \<not> handled")
    case False
    with law assms u show ?thesis by (auto simp: running_step_def Let_def split: if_splits)
  next
    case True
    with law assms(2) have st: "tt_state st = TR_RUNNING" by simp
    note step = assms(1) [unfolded running_step_def, simplified Let_def]
    show ?thesis
      using True step u st
      by (cases "requested_action tr")
        (auto dest!: kill pause get_status split: prod.splits option.splits if_splits)
  qed
qed

lemma paused_step_states:
  assumes "run_state (paused_step tr rn) h = (tr', h')" "tt_state (tr_status tr) = TR_PAUSED"
  shows "tt_state (tr_status tr') \<in> successors TR_PAUSED"
proof -
  obtain st handled err h1 where u: "run_state (rn_update rn tr (requested_action tr)) h = ((st, handled, err), h1)"
    by (metis prod.exhaust)
  note law = update [OF u]
  show ?thesis
  proof (cases "err = None \<and> \<not> handled")
    case False
    with law assms u show ?thesis by (auto simp: paused_step_def Let_def split: if_splits)
  next
    case True
    with law assms(2) have st: "tt_state st = TR_PAUSED" by simp
    note step = assms(1) [unfolded paused_step_def, simplified Let_def]
    show ?thesis
      using True step u st
      by (cases "requested_action tr")
        (auto dest!: kill resume split: prod.splits option.splits if_splits)
  qed
qed

lemma machine_states:
  assumes "run_state (state_machine (Some rn) tr) h = (Some tr', h')"
  shows "tt_state (tr_status tr') \<in> successors (tt_state (tr_status tr))"
proof (cases "tt_state (tr_status tr)")
  case TR_INVALID
  with assms start_step_states show ?thesis
    by (fastforce simp: state_machine_def with_runner_def split: prod.splits if_splits)
next
  case TR_RUNNING
  with assms running_step_states show ?thesis
    by (fastforce simp: state_machine_def with_runner_def split: prod.splits)
next
  case TR_PAUSED
  with assms paused_step_states show ?thesis
    by (fastforce simp: state_machine_def with_runner_def split: prod.splits)
qed (use assms in \<open>auto simp: state_machine_def\<close>)

end

text \<open>Nothing but the status and the commands of a run changes, and a command that has moved a
  run into or out of the paused state is reset.\<close>

definition kept_spec :: "trigger_run \<Rightarrow> trigger_run \<Rightarrow> bool" where
  "kept_spec tr tr' \<longleftrightarrow> meta_of tr' = meta_of tr \<and>
     tr_spec tr' \<in> {tr_spec tr, tr_spec (clear_action tr), tr_spec (clear_kill (clear_action tr))}"

definition switched :: "trigger_run \<Rightarrow> trigger_run \<Rightarrow> bool" where
  "switched tr tr' \<longleftrightarrow>
     (tt_state (tr_status tr') = TR_PAUSED \<longrightarrow> tt_state (tr_status tr) \<noteq> TR_PAUSED \<longrightarrow>
        requested_action tr = ACTION_PAUSE \<and> ts_action (tr_spec tr') = NO_ACTION) \<and>
     (tt_state (tr_status tr') = TR_RUNNING \<longrightarrow> tt_state (tr_status tr) = TR_PAUSED \<longrightarrow>
        requested_action tr = ACTION_RESUME \<and> ts_action (tr_spec tr') = NO_ACTION)"

lemma spec_resets [simp]:
  "tr_spec (clear_action (with_status st tr)) = tr_spec (clear_action tr)"
  "tr_spec (clear_kill (clear_action (with_status st tr))) = tr_spec (clear_kill (clear_action tr))"
  "meta_of (failed_call tr st e) = meta_of tr"
  by (simp_all add: clear_action_def clear_kill_def failed_call_def)

lemma kept_simps [simp]:
  "kept_spec tr (failed_call (with_status s tr) st e)" "kept_spec tr (failed_call tr st e)"
  "kept_spec tr (with_status s tr)" "kept_spec tr (set_tt f (with_status s tr))" "kept_spec tr (set_tt f tr)"
  "kept_spec tr (clear_kill (clear_action (with_status s tr)))" "kept_spec tr (clear_action (with_status s tr))"
  "kept_spec tr tr"
  by (simp_all add: kept_spec_def failed_call_def)

lemma kept_acted:
  assumes "tr' = with_status s (with_status s0 tr)"
  shows "kept_spec tr (acted clear_action (tr', st, err))"
    "kept_spec tr (acted (\<lambda>run. clear_kill (clear_action run)) (tr', st, err))"
  using assms by (simp_all add: acted_def split: option.splits)

lemma acted_action:
  "err = None \<Longrightarrow> ts_action (tr_spec (acted clear_action (tr', st, err))) = NO_ACTION"
  "err = None \<Longrightarrow> ts_action (tr_spec (acted (\<lambda>run. clear_kill (clear_action run)) (tr', st, err))) = NO_ACTION"
  by (simp_all add: acted_def)

context trigger_runner
begin

lemma running_step_keeps:
  assumes "run_state (running_step tr rn) h = (tr', h')" "tt_state (tr_status tr) = TR_RUNNING"
  shows "kept_spec tr tr' \<and> switched tr tr'"
proof -
  obtain st handled err h1 where u: "run_state (rn_update rn tr (requested_action tr)) h = ((st, handled, err), h1)"
    by (metis prod.exhaust)
  note law = update [OF u]
  show ?thesis
  proof (cases "err = None \<and> \<not> handled")
    case False
    with law assms u show ?thesis by (auto simp: running_step_def Let_def switched_def split: if_splits)
  next
    case True
    with law assms(2) have st: "tt_state st = TR_RUNNING" by simp
    note step = assms(1) [unfolded running_step_def, simplified Let_def]
    show ?thesis
    proof (cases "requested_action tr")
      case ACTION_KILL
      with True step u obtain a s e h2 where
        k: "run_state (rn_kill rn (with_status st tr)) h1 = ((a, s, e), h2)"
        "tr' = acted (\<lambda>run. clear_kill (clear_action run)) (a, s, e)"
        by (auto split: prod.splits)
      from kill [OF k(1)] st assms(2) k(2) show ?thesis
        by (auto simp: switched_def intro: kept_acted split: if_splits)
    next
      case ACTION_PAUSE
      with True step u obtain a s e h2 where
        k: "run_state (rn_pause rn (with_status st tr)) h1 = ((a, s, e), h2)"
        "tr' = acted clear_action (a, s, e)"
        by (auto split: prod.splits)
      from pause [OF k(1)] st assms(2) k(2) ACTION_PAUSE acted_action show ?thesis
        by (auto simp: switched_def intro: kept_acted split: if_splits)
    qed (use True step u st assms(2) in \<open>auto simp: switched_def dest!: get_status
        split: prod.splits option.splits\<close>)
  qed
qed

lemma paused_step_keeps:
  assumes "run_state (paused_step tr rn) h = (tr', h')" "tt_state (tr_status tr) = TR_PAUSED"
  shows "kept_spec tr tr' \<and> switched tr tr'"
proof -
  obtain st handled err h1 where u: "run_state (rn_update rn tr (requested_action tr)) h = ((st, handled, err), h1)"
    by (metis prod.exhaust)
  note law = update [OF u]
  show ?thesis
  proof (cases "err = None \<and> \<not> handled")
    case False
    with law assms u show ?thesis
      by (auto simp: paused_step_def Let_def switched_def kept_spec_def failed_call_def split: if_splits)
  next
    case True
    with law assms(2) have st: "tt_state st = TR_PAUSED" by simp
    note step = assms(1) [unfolded paused_step_def, simplified Let_def]
    show ?thesis
    proof (cases "requested_action tr")
      case ACTION_KILL
      with True step u obtain a s e h2 where
        k: "run_state (rn_kill rn (with_status st tr)) h1 = ((a, s, e), h2)" "tr' = acted clear_action (a, s, e)"
        by (auto split: prod.splits)
      from kill [OF k(1)] st assms(2) k(2) show ?thesis
        by (auto simp: switched_def intro: kept_acted split: if_splits)
    next
      case ACTION_RESUME
      with True step u obtain a s e h2 where
        k: "run_state (rn_resume rn (with_status st tr)) h1 = ((a, s, e), h2)" "tr' = acted clear_action (a, s, e)"
        by (auto split: prod.splits)
      from resume [OF k(1)] st assms(2) k(2) ACTION_RESUME acted_action show ?thesis
        by (auto simp: switched_def intro: kept_acted split: if_splits)
    qed (use True step u st assms(2) in \<open>auto simp: switched_def\<close>)
  qed
qed

lemma machine_keeps:
  assumes "run_state (state_machine (Some rn) tr) h = (Some tr', h')"
  shows "kept_spec tr tr' \<and> switched tr tr'"
proof (cases "tt_state (tr_status tr)")
  case TR_INVALID
  with assms start_step_states show ?thesis
    by (fastforce simp: state_machine_def with_runner_def start_step_def switched_def
        split: prod.splits if_splits)
next
  case TR_RUNNING
  with assms running_step_keeps show ?thesis
    by (fastforce simp: state_machine_def with_runner_def split: prod.splits)
next
  case TR_PAUSED
  with assms paused_step_keeps show ?thesis
    by (fastforce simp: state_machine_def with_runner_def split: prod.splits)
qed (use assms in \<open>auto simp: state_machine_def switched_def\<close>)

end

section \<open>Guards\<close>

lemma emits_with_runner:
  assumes "rn = None \<Longrightarrow> P TrPanic" "\<And>r. rn = Some r \<Longrightarrow> emits P (f r)"
  shows "emits P (with_runner rn f)"
  unfolding with_runner_def using assms by (auto intro!: emits_bind emits_emit split: option.splits)

lemma emits_running_step:
  assumes "emits P (rn_update rn run (requested_action run))"
    "\<And>st. requested_action run = ACTION_KILL \<Longrightarrow> emits P (rn_kill rn (with_status st run))"
    "\<And>st. requested_action run = ACTION_PAUSE \<Longrightarrow> emits P (rn_pause rn (with_status st run))"
    "\<And>st. emits P (rn_get_status rn (with_status st run))"
  shows "emits P (running_step run rn)"
  unfolding running_step_def Let_def using assms
  by (cases "requested_action run") (auto intro!: emits_bind split: option.splits)

lemma emits_paused_step:
  assumes "emits P (rn_update rn run (requested_action run))"
    "\<And>st. requested_action run = ACTION_KILL \<Longrightarrow> emits P (rn_kill rn (with_status st run))"
    "\<And>st. requested_action run = ACTION_RESUME \<Longrightarrow> emits P (rn_resume rn (with_status st run))"
  shows "emits P (paused_step run rn)"
  unfolding paused_step_def Let_def using assms
  by (cases "requested_action run") (auto intro!: emits_bind split: option.splits)

text \<open>What the run the pass has read allows on the engine.\<close>

fun trigger_guard :: "trigger_run \<Rightarrow> tr_event \<Rightarrow> bool" where
  "trigger_guard run (TrStart opt w r) \<longleftrightarrow>
     tt_state (tr_status run) = TR_INVALID \<and> \<not> ts_kill (tr_spec run) \<and> r = run \<and>
     so_id opt = generateWorkflowID run"
| "trigger_guard run (TrDeleteTrigger w rid e) \<longleftrightarrow>
     tt_state (tr_status run) \<in> {TR_RUNNING, TR_PAUSED} \<and> requested_action run = ACTION_KILL \<and>
     w = generateWorkflowID run"
| "trigger_guard run (TrPause w e) \<longleftrightarrow>
     tt_state (tr_status run) = TR_RUNNING \<and> requested_action run = ACTION_PAUSE \<and>
     w = generateWorkflowID run"
| "trigger_guard run (TrUnpause w e) \<longleftrightarrow>
     tt_state (tr_status run) = TR_PAUSED \<and> requested_action run = ACTION_RESUME \<and>
     w = generateWorkflowID run"
| "trigger_guard run (TrUpdateTrigger w cron paused args e) \<longleftrightarrow>
     tt_state (tr_status run) \<in> {TR_RUNNING, TR_PAUSED} \<and> w = generateWorkflowID run \<and>
     (drifted run \<or> requested_action run \<in> {ACTION_PAUSE, ACTION_RESUME}) \<and>
     cron \<in> {'''', desired_cron run} \<and> args \<in> {None, Some run} \<and>
     (paused = Some True \<longrightarrow> requested_action run = ACTION_PAUSE) \<and>
     (paused = Some False \<longrightarrow> requested_action run = ACTION_RESUME)"
| "trigger_guard run (TrListOpen w) \<longleftrightarrow> w = generateWorkflowID run"
| "trigger_guard run TrPanic \<longleftrightarrow> GetTriggerType run \<in> {TypeInterval, TypeBatchRerun}"
| "trigger_guard run (TrDrain m) \<longleftrightarrow> False"
| "trigger_guard run _ \<longleftrightarrow> True"

abbreviation engine_guard :: "trigger_run \<Rightarrow> tr_event \<Rightarrow> bool" where
  "engine_guard run e \<equiv> engine_call e \<and> trigger_guard run e"

lemma getRunner_cases:
  obtains "getRunner R run = None" "GetTriggerType run \<in> {TypeInterval, TypeBatchRerun}"
  | "getRunner R run = Some (cronTrigger R)" "GetTriggerType run \<in> {TypeCron, TypeUnknown}"
  | "getRunner R run = Some (backfillTrigger R)" "GetTriggerType run = TypeBackfill"
  by (cases "GetTriggerType run") (auto simp: getRunner_def register_def)

lemmas emits_runner = emits_start_trigger emits_kill emits_switch emits_recurring emits_adhoc
  emits_cron_update

lemma emits_rn_update:
  assumes "tt_state (tr_status run) \<in> {TR_RUNNING, TR_PAUSED}" "getRunner R run = Some rn"
  shows "emits (engine_guard run) (rn_update rn run (requested_action run))"
  using assms
  by (cases R run rule: getRunner_cases)
    (auto simp: runner_defs backfillTrigger_Update_def intro!: emits_runner)

lemma emits_rn_kill:
  assumes "tt_state (tr_status run) \<in> {TR_RUNNING, TR_PAUSED}" "getRunner R run = Some rn"
    "requested_action run = ACTION_KILL"
  shows "emits (engine_guard run) (rn_kill rn (with_status st run))"
  using assms
  by (cases R run rule: getRunner_cases)
    (auto simp: runner_defs backfillTrigger_Kill_def Let_def intro!: emits_runner)

lemma emits_rn_get_status:
  assumes "getRunner R run = Some rn"
  shows "emits (engine_guard run) (rn_get_status rn (with_status st run))"
  using assms
  by (cases R run rule: getRunner_cases) (auto simp: runner_defs intro!: emits_runner)

lemma emits_start_step:
  assumes "getRunner R run = Some rn" "tt_state (tr_status run) = TR_INVALID" "\<not> ts_kill (tr_spec run)"
  shows "emits (engine_guard run) (start_step run rn)"
  unfolding start_step_def
proof (intro emits_bind)
  show "emits (engine_guard run) (rn_run rn run)"
    using assms
    by (cases R run rule: getRunner_cases)
      (auto simp: runner_defs cronTrigger_Run_def backfillTrigger_Run_def trigger_options_def Let_def
        intro!: emits_runner)
qed (auto split: prod.splits)

lemma emits_machine: "emits (engine_guard run) (state_machine (getRunner R run) run)"
proof -
  have none: "getRunner R run = None \<Longrightarrow> GetTriggerType run = TypeInterval \<or> GetTriggerType run = TypeBatchRerun"
    by (cases R run rule: getRunner_cases) auto
  have sw: "emits (engine_guard run) (rn_pause rn (with_status st run))"
    if "getRunner R run = Some rn" "tt_state (tr_status run) = TR_RUNNING" "requested_action run = ACTION_PAUSE"
    for rn st using that
    by (cases R run rule: getRunner_cases)
      (auto simp: runner_defs pauseWorkflow_def unsupported_def Let_def intro!: emits_runner)
  have sr: "emits (engine_guard run) (rn_resume rn (with_status st run))"
    if "getRunner R run = Some rn" "tt_state (tr_status run) = TR_PAUSED" "requested_action run = ACTION_RESUME"
    for rn st using that
    by (cases R run rule: getRunner_cases)
      (auto simp: runner_defs resumeWorkflow_def unsupported_def Let_def intro!: emits_runner)
  show ?thesis
    by (cases "tt_state (tr_status run)")
      (auto simp: state_machine_def sw sr dest: none
        intro!: emits_with_runner emits_start_step emits_running_step emits_paused_step
          emits_rn_update emits_rn_kill emits_rn_get_status)
qed

section \<open>Shape of a pass\<close>

lemma trigger_reconcile_run:
  assumes "run_state (trigger_reconcile R run) h = (res, h')"
  obtains (finished) "isTerminateState run" "IsImmutable run" "h' = h" "res = (no_requeue, None)"
  | (marked) e where "isTerminateState run" "\<not> IsImmutable run"
      "h' = h @ [TrUpdate (MarkImmutable run) e]" "res = (no_requeue, e)"
  | (panicked) "\<not> isTerminateState run" "res = (no_requeue, Some panic_error)"
      "run_state (state_machine (getRunner R run) run) h = (None, h')"
  | (ran) run' h1 where "\<not> isTerminateState run"
      "run_state (state_machine (getRunner R run) run) h = (Some run', h1)"
      "run_state (persist R run run') h1 = (res, h')"
  using assms
  by (auto simp: trigger_reconcile_def trigger_writes split: if_splits prod.splits option.splits)

lemma persist_run:
  assumes "run_state (persist R run run') h = (res, h')"
  obtains (unchanged) "tr_spec run = tr_spec run'" "tr_status run = tr_status run'" "h' = h"
      "res = (requeue_after (seconds 60), None)"
  | (status) x e where "tr_spec run = tr_spec run'" "tr_status run \<noteq> tr_status run'"
      "te_update_status R h run' = (x, e)" "h' = h @ [TrUpdateStatus run' e]"
      "res = (case e of None \<Rightarrow> (requeue_after (seconds 60), None) | Some a \<Rightarrow> (no_requeue, Some a))"
  | (spec_failed) x e where "tr_spec run \<noteq> tr_spec run'" "te_update R h run' = (x, Some e)"
      "h' = h @ [TrUpdate run' (Some e)]" "res = (no_requeue, Some e)"
  | (spec) x where "tr_spec run \<noteq> tr_spec run'" "tr_status run = tr_status run'"
      "te_update R h run' = (x, None)" "h' = h @ [TrUpdate run' None]"
      "res = (requeue_after (seconds 60), None)"
  | (both) x y e where "tr_spec run \<noteq> tr_spec run'" "tr_status run \<noteq> tr_status run'"
      "te_update R h run' = (x, None)"
      "te_update_status R (h @ [TrUpdate run' None]) (with_status (tr_status run') x) = (y, e)"
      "h' = h @ [TrUpdate run' None, TrUpdateStatus (with_status (tr_status run') x) e]"
      "res = (case e of None \<Rightarrow> (requeue_after (seconds 60), None) | Some a \<Rightarrow> (no_requeue, Some a))"
proof -
  obtain x e where u: "te_update R h run' = (x, e)" by (metis prod.exhaust)
  obtain y e1 where s1: "te_update_status R h run' = (y, e1)" by (metis prod.exhaust)
  obtain z e2 where s2: "te_update_status R (h @ [TrUpdate run' None]) (with_status (tr_status run') x) = (z, e2)"
    by (metis prod.exhaust)
  note defs = persist_def persist_status_def trigger_writes Let_def
  show thesis
  proof (cases "tr_spec run = tr_spec run'"; cases "tr_status run = tr_status run'")
    assume "tr_spec run = tr_spec run'" "tr_status run = tr_status run'"
    with assms show thesis by (intro unchanged) (auto simp: defs)
  next
    assume "tr_spec run = tr_spec run'" "tr_status run \<noteq> tr_status run'"
    with assms s1 show thesis by (intro status [of y e1]) (auto simp: defs)
  next
    assume c: "tr_spec run \<noteq> tr_spec run'" "tr_status run = tr_status run'"
    show thesis
      by (cases e; (rule spec [of x] spec_failed [of x]; use assms c u in \<open>auto simp: defs\<close>))
  next
    assume c: "tr_spec run \<noteq> tr_spec run'" "tr_status run \<noteq> tr_status run'"
    show thesis
      by (cases e; (rule both [of x z e2] spec_failed [of x]; use assms c u s2 in \<open>auto simp: defs\<close>))
  qed
qed

section \<open>Properties of a pass\<close>

lemma trigger_calls_are_guarded_facts:
  assumes "run_state (trigger_reconcile R run) h = (res, h @ tr)"
  shows "list_all (trigger_guard run) tr"
    and "isTerminateState run \<Longrightarrow> tr = [] \<or> (\<exists>e. tr = [TrUpdate (MarkImmutable run) e])"
proof -
  have machine: "emits (trigger_guard run) (state_machine (getRunner R run) run)"
    by (rule emits_mono [OF emits_machine]) simp
  from assms show "list_all (trigger_guard run) tr"
  proof (cases rule: trigger_reconcile_run)
    case panicked
    with emitsD [OF machine] show ?thesis by blast
  next
    case (ran run' h1)
    from emitsE [OF machine ran(2)] obtain t where t: "h1 = h @ t" "list_all (trigger_guard run) t" .
    from ran(3) show ?thesis by (cases rule: persist_run) (use t in auto)
  qed auto
  assume "isTerminateState run"
  with assms show "tr = [] \<or> (\<exists>e. tr = [TrUpdate (MarkImmutable run) e])"
    by (auto elim: trigger_reconcile_run)
qed


text \<open>The machine on whichever runner the controller picks.\<close>

lemma machine_laws:
  assumes "run_state (state_machine (getRunner R run) run) h = (Some run', h')"
  shows "tt_state (tr_status run') \<in> successors (tt_state (tr_status run))"
    and "kept_spec run run' \<and> switched run run'"
proof -
  have "tt_state (tr_status run') \<in> successors (tt_state (tr_status run)) \<and> kept_spec run run' \<and> switched run run'"
  proof (cases R run rule: getRunner_cases)
    case 1
    with assms show ?thesis
      by (auto simp: state_machine_def with_runner_def switched_def split: trigger_state.splits if_splits)
  next
    case 2
    with assms cron_runner.machine_states cron_runner.machine_keeps show ?thesis by metis
  next
    case 3
    with assms backfill_runner.machine_states backfill_runner.machine_keeps show ?thesis by metis
  qed
  then show "tt_state (tr_status run') \<in> successors (tt_state (tr_status run))"
    and "kept_spec run run' \<and> switched run run'" by simp_all
qed


lemma machine_trace:
  assumes "run_state (state_machine (getRunner R run) run) h = (x, h')"
  obtains eng where "h' = h @ eng" "list_all engine_call eng"
  using assms emits_mono [OF emits_machine, of run engine_call] by (auto elim: emitsE)

text \<open>A status that is written comes from the machine, after the command it has consumed.\<close>

lemma written_status:
  assumes "run_state (trigger_reconcile R run) h = (res, h @ tr)" "TrUpdateStatus sent err \<in> set tr"
  obtains eng run' where "run_state (state_machine (getRunner R run) run) h = (Some run', h @ eng)"
    "list_all engine_call eng" "tr_status sent = tr_status run'"
    "tr_spec run' = tr_spec run \<and> sent = run' \<and> tr = eng @ [TrUpdateStatus sent err] \<or>
     tr_spec run' \<noteq> tr_spec run \<and> tr = eng @ [TrUpdate run' None, TrUpdateStatus sent err]"
  using assms(1)
proof (cases rule: trigger_reconcile_run)
  case panicked
  from panicked(3) obtain eng where "h @ tr = h @ eng" "list_all engine_call eng" by (rule machine_trace)
  with assms(2) show thesis by (auto simp: list_all_iff)
next
  case (ran run' h1)
  from ran(2) obtain eng where e: "h1 = h @ eng" "list_all engine_call eng" by (rule machine_trace)
  then have no: "TrUpdateStatus sent err \<notin> set eng" by (auto simp: list_all_iff)
  from ran(3) show thesis
    by (cases rule: persist_run) (use no e ran(2) assms(2) that in auto)
qed (use assms(2) in auto)

lemma trigger_states_follow_the_graph_facts:
  assumes "run_state (trigger_reconcile R run) h = (res, h @ tr)"
    and "TrUpdateStatus sent err \<in> set tr"
  shows "tt_state (tr_status sent) \<in> successors (tt_state (tr_status run))"
    and "tt_state (tr_status sent) = TR_PAUSED \<Longrightarrow> tt_state (tr_status run) \<noteq> TR_PAUSED \<Longrightarrow>
      requested_action run = ACTION_PAUSE"
    and "tt_state (tr_status sent) = TR_RUNNING \<Longrightarrow> tt_state (tr_status run) = TR_PAUSED \<Longrightarrow>
      requested_action run = ACTION_RESUME"
proof -
  from assms obtain eng run' where w:
    "run_state (state_machine (getRunner R run) run) h = (Some run', h @ eng)"
    "tr_status sent = tr_status run'" by (rule written_status)
  note laws = machine_laws [OF w(1)]
  from laws(1) w(2) show "tt_state (tr_status sent) \<in> successors (tt_state (tr_status run))" by simp
  from laws(2) w(2) show "tt_state (tr_status sent) = TR_PAUSED \<Longrightarrow> tt_state (tr_status run) \<noteq> TR_PAUSED \<Longrightarrow>
      requested_action run = ACTION_PAUSE"
    "tt_state (tr_status sent) = TR_RUNNING \<Longrightarrow> tt_state (tr_status run) = TR_PAUSED \<Longrightarrow>
      requested_action run = ACTION_RESUME"
    by (simp_all add: switched_def)
qed

text \<open>
  C28. The states of a trigger run follow the documented graph, whatever the engine answers: a
  fresh run becomes running, failed or killed; a running one may stay, be paused or end; a paused
  one may stay, run again or end by kill or failure. A run is paused only on a pause command and
  runs again only on a resume command.
\<close>

theorem trigger_states_follow_the_graph:
  assumes "run_state (trigger_reconcile R run) h = (res, h @ tr)"
    and "TrUpdateStatus sent err \<in> set tr"
  shows "tt_state (tr_status sent) \<in> successors (tt_state (tr_status run)) \<and>
    (tt_state (tr_status sent) = TR_PAUSED \<longrightarrow> tt_state (tr_status run) \<noteq> TR_PAUSED \<longrightarrow>
      requested_action run = ACTION_PAUSE) \<and>
    (tt_state (tr_status sent) = TR_RUNNING \<longrightarrow> tt_state (tr_status run) = TR_PAUSED \<longrightarrow>
      requested_action run = ACTION_RESUME)"
  using trigger_states_follow_the_graph_facts [OF assms] by blast


section \<open>Kill requests\<close>

text \<open>An engine and an API server that answer without errors.\<close>

definition engine_answers :: "tr_env \<Rightarrow> bool" where
  "engine_answers R \<longleftrightarrow>
     (\<forall>h w. \<exists>xs. te_list_open R h w = Inr xs) \<and> (\<forall>h w r. te_delete_trigger R h w r = None) \<and>
     (\<forall>h w c p a. te_update_trigger R h w c p a = None) \<and>
     (\<forall>h r. snd (te_update R h r) = None) \<and> (\<forall>h r. snd (te_update_status R h r) = None)"

lemma list_open_ok:
  assumes "te_list_open R h w = Inr xs"
  shows "run_state (list_open_retry R n w) h = (Inr xs, h @ [TrListOpen w])"
  using assms by (cases n) simp_all

lemma killWorkflow_ok:
  assumes "engine_answers R"
  obtains rid where "run_state (killWorkflow R run) h =
    ((set_tt (\<lambda>s. s\<lparr>tt_state := TR_KILLED\<rparr>) run, (tr_status run)\<lparr>tt_state := TR_KILLED\<rparr>, None),
     h @ [TrListOpen (generateWorkflowID run), TrDeleteTrigger (generateWorkflowID run) rid None])"
proof -
  obtain run' st err h' where k: "run_state (killWorkflow R run) h = ((run', st, err), h')"
    by (metis prod.exhaust)
  from assms have "\<exists>xs. te_list_open R h (generateWorkflowID run) = Inr xs"
    by (simp add: engine_answers_def)
  then obtain xs where xs: "te_list_open R h (generateWorkflowID run) = Inr xs" ..
  note open_id = list_open_ok [OF xs, of 3]
  from k show thesis
  proof (cases rule: killWorkflow_run)
    case (unknown h1 e)
    with open_id show thesis by (simp add: getWorkflowOpenRunID_def getWorkflowOpenExecution_def)
  next
    case (deleted h1 rid e)
    from deleted(1) open_id have h1: "h1 = h @ [TrListOpen (generateWorkflowID run)]"
      by (simp add: getWorkflowOpenRunID_def getWorkflowOpenExecution_def)
    from deleted(2) assms have "e = None" by (auto simp: engine_answers_def)
    with deleted k h1 show thesis
      by (intro that [of "case rid of None \<Rightarrow> '''' | Some r \<Rightarrow> r"]) simp
  qed
qed

lemma cron_update_ok:
  assumes "engine_answers R" "action \<notin> {ACTION_PAUSE, ACTION_RESUME}"
  obtains st h1 where "run_state (cronTrigger_Update R run action) h = ((st, False, None), h @ h1)"
proof -
  from assms(2) have "(case action of ACTION_PAUSE \<Rightarrow> Some True | ACTION_RESUME \<Rightarrow> Some False | _ \<Rightarrow> None) = None"
    by (cases action) auto
  moreover have "te_update_trigger R h w c p a = None" for w c p a
    using assms(1) by (simp add: engine_answers_def)
  ultimately have "\<exists>st h1. run_state (cronTrigger_Update R run action) h = ((st, False, None), h @ h1)"
    unfolding cronTrigger_Update_def Let_def by auto
  with that show thesis by blast
qed

text \<open>The machine carries a kill out.\<close>

lemma machine_kills:
  assumes ok: "engine_answers R" and kill: "requested_action run = ACTION_KILL"
    and rn: "getRunner R run = Some rn"
    and st: "tt_state (tr_status run) = TR_RUNNING \<or>
      tt_state (tr_status run) = TR_PAUSED \<and> GetTriggerType run \<noteq> TypeBackfill"
  obtains run' eng rid where
    "run_state (state_machine (getRunner R run) run) h =
       (Some run', h @ eng @ [TrListOpen (generateWorkflowID run), TrDeleteTrigger (generateWorkflowID run) rid None])"
    "tt_state (tr_status run') = TR_KILLED"
proof -
  obtain status h1 where u: "run_state (rn_update rn run ACTION_KILL) h = ((status, False, None), h @ h1)"
    using rn
  proof (cases R run rule: getRunner_cases)
    case 2
    obtain status h1 where "run_state (cronTrigger_Update R run ACTION_KILL) h = ((status, False, None), h @ h1)"
      by (rule cron_update_ok [OF ok, of ACTION_KILL]) simp
    with 2 rn that show thesis by (simp add: runner_defs)
  next
    case 3
    with rn show thesis
      by (intro that [of "empty_status\<lparr>tt_state := tt_state (tr_status run)\<rparr>" "[]"])
        (auto simp: runner_defs backfillTrigger_Update_def)
  qed simp
  let ?run1 = "with_status status run"
  have same: "tt_state status = tt_state (tr_status run)"
    using rn u cron_runner.update backfill_runner.update
    by (cases R run rule: getRunner_cases) (fastforce split: if_splits)+
  obtain rid where "run_state (killWorkflow R ?run1) (h @ h1) =
    ((set_tt (\<lambda>s. s\<lparr>tt_state := TR_KILLED\<rparr>) ?run1, (tr_status ?run1)\<lparr>tt_state := TR_KILLED\<rparr>, None),
     (h @ h1) @ [TrListOpen (generateWorkflowID ?run1), TrDeleteTrigger (generateWorkflowID ?run1) rid None])"
    by (rule killWorkflow_ok [OF ok])
  then have k: "run_state (rn_kill rn ?run1) (h @ h1) =
    ((set_tt (\<lambda>s. s\<lparr>tt_state := TR_KILLED\<rparr>) ?run1, (tr_status ?run1)\<lparr>tt_state := TR_KILLED\<rparr>, None),
     (h @ h1) @ [TrListOpen (generateWorkflowID run), TrDeleteTrigger (generateWorkflowID run) rid None])"
    using rn same st
    by (cases R run rule: getRunner_cases) (auto simp: runner_defs backfillTrigger_Kill_def)
  show thesis
  proof (rule that [of _ h1 rid])
    show "run_state (state_machine (getRunner R run) run) h =
       (Some (acted (if tt_state (tr_status run) = TR_RUNNING
           then (\<lambda>run. clear_kill (clear_action run)) else clear_action)
         (set_tt (\<lambda>s. s\<lparr>tt_state := TR_KILLED\<rparr>) ?run1, (tr_status ?run1)\<lparr>tt_state := TR_KILLED\<rparr>, None)),
        h @ h1 @ [TrListOpen (generateWorkflowID run), TrDeleteTrigger (generateWorkflowID run) rid None])"
      using st kill u k rn
      by (auto simp: state_machine_def with_runner_def running_step_def paused_step_def Let_def)
  qed simp
qed

lemma kill_request_is_carried_out_facts:
  assumes "engine_answers R" and "requested_action run = ACTION_KILL" and "getRunner R run \<noteq> None"
    and "tt_state (tr_status run) = TR_RUNNING \<or>
      tt_state (tr_status run) = TR_PAUSED \<and> GetTriggerType run \<noteq> TypeBackfill"
    and "run_state (trigger_reconcile R run) h = (res, h @ tr)"
  shows "\<exists>rid. TrDeleteTrigger (generateWorkflowID run) rid None \<in> set tr"
    and "\<exists>sent. last tr = TrUpdateStatus sent None \<and> tt_state (tr_status sent) = TR_KILLED"
    and "res = (requeue_after (seconds 60), None)"
proof -
  obtain rn where rn: "getRunner R run = Some rn" using assms(3) by blast
  obtain run' eng rid where m:
    "run_state (state_machine (getRunner R run) run) h =
       (Some run', h @ eng @ [TrListOpen (generateWorkflowID run), TrDeleteTrigger (generateWorkflowID run) rid None])"
    "tt_state (tr_status run') = TR_KILLED"
    by (rule machine_kills [OF assms(1,2) rn assms(4)])
  have alive: "\<not> isTerminateState run" using assms(4) by (auto simp: isTerminateState_def)
  have changed: "tr_status run \<noteq> tr_status run'" using m(2) assms(4) by auto
  have ok: "snd (te_update R g r) = None" "snd (te_update_status R g r) = None" for g r
    using assms(1) by (simp_all add: engine_answers_def)
  let ?ev = "eng @ [TrListOpen (generateWorkflowID run), TrDeleteTrigger (generateWorkflowID run) rid None]"
  from assms(5) alive m(1) have p: "run_state (persist R run run') (h @ ?ev) = (res, h @ tr)"
    by (simp add: trigger_reconcile_def)
  then have "\<exists>w sent. tr = ?ev @ w @ [TrUpdateStatus sent None] \<and> tt_state (tr_status sent) = TR_KILLED \<and>
    res = (requeue_after (seconds 60), None)"
  proof (cases rule: persist_run)
    case (status x e)
    with ok(2) have "e = None" by (metis snd_conv)
    with status m(2) show ?thesis by (intro exI [of _ "[]"] exI [of _ run']) simp
  next
    case (spec_failed x e)
    with ok(1) show ?thesis by (metis option.distinct(1) snd_conv)
  next
    case (both x y e)
    with ok(2) have "e = None" by (metis snd_conv)
    with both m(2) show ?thesis
      by (intro exI [of _ "[TrUpdate run' None]"] exI [of _ "with_status (tr_status run') x"]) simp
  qed (use changed in simp_all)
  then show "\<exists>rid. TrDeleteTrigger (generateWorkflowID run) rid None \<in> set tr"
    and "\<exists>sent. last tr = TrUpdateStatus sent None \<and> tt_state (tr_status sent) = TR_KILLED"
    and "res = (requeue_after (seconds 60), None)"
    by auto
qed

text \<open>
  C30. A kill request is carried out. If a running run (or a paused one of a schedule) is to be
  killed and the engine and the API server answer without errors, the pass deletes its trigger
  on the engine and ends by recording the state killed.
\<close>

theorem kill_request_is_carried_out:
  assumes "engine_answers R" and "requested_action run = ACTION_KILL" and "getRunner R run \<noteq> None"
    and "tt_state (tr_status run) = TR_RUNNING \<or>
      tt_state (tr_status run) = TR_PAUSED \<and> GetTriggerType run \<noteq> TypeBackfill"
    and "run_state (trigger_reconcile R run) h = (res, h @ tr)"
  shows "(\<exists>rid. TrDeleteTrigger (generateWorkflowID run) rid None \<in> set tr) \<and>
    (\<exists>sent. last tr = TrUpdateStatus sent None \<and> tt_state (tr_status sent) = TR_KILLED) \<and>
    res = (requeue_after (seconds 60), None)"
  using kill_request_is_carried_out_facts [OF assms] by blast

section \<open>Sync of schedules\<close>

text \<open>
  A schedule that has been synchronised stays quiet. After an update that succeeded, the status
  it returns records the schedule and the notifications of the specification, so the next
  update of the unchanged specification, unless it is to pause or resume, finds no drift, calls
  nothing and returns the same status.
\<close>

theorem synced_schedule_stays_quiet:
  assumes "run_state (cronTrigger_Update R run action) h = ((st, handled, None), h1)"
    and "desired_cron run \<noteq> ''''"
    and "tr_spec run' = tr_spec run" "tr_status run' = st"
    and "action' \<notin> {ACTION_PAUSE, ACTION_RESUME}"
  shows "GetCron (GetCronSchedule (tt_actual_trigger st)) = desired_cron run"
    and "notificationsEqual (ts_notifications (tr_spec run)) (tt_actual_notifications st)"
    and "run_state (cronTrigger_Update R' run' action') h2 = ((st, False, None), h2)"
proof -
  have ct: "GetCronSchedule (Some (cron_trigger c)) = Some c" for c
    by (simp add: GetCronSchedule_def cron_trigger_def)
  have ne: "notificationsEqual x x" for x by (simp add: notificationsEqual_def)
  have synced: "GetCron (GetCronSchedule (tt_actual_trigger st)) = desired_cron run \<and>
      notificationsEqual (ts_notifications (tr_spec run)) (tt_actual_notifications st)"
    using assms(1,2) ct ne
    by (auto simp: cronTrigger_Update_def Let_def GetCron_def split: option.splits if_splits)
  then show "GetCron (GetCronSchedule (tt_actual_trigger st)) = desired_cron run"
    and "notificationsEqual (ts_notifications (tr_spec run)) (tt_actual_notifications st)" by simp_all
  have "desired_cron run' = desired_cron run" using assms(3) by (simp add: desired_cron_def)
  with synced assms(2-5) show "run_state (cronTrigger_Update R' run' action') h2 = ((st, False, None), h2)"
    by (cases action') (simp_all add: cronTrigger_Update_def Let_def)
qed

text \<open>A schedule that has just been started counts as drifted: the controller drops what the runner
  says it has installed.\<close>

lemma started_schedule_counts_as_drifted:
  assumes "run_state (start_step run rn) h = (run', h')" "tt_actual_trigger (tr_status run) = None"
    and "desired_cron run \<noteq> ''''"
  shows "drifted run'"
proof -
  have "tt_actual_trigger (tr_status run') = None" "tr_spec run' = tr_spec run"
    using assms(1,2) by (auto simp: start_step_def split: prod.splits)
  with assms(3) show ?thesis by (simp add: drifted_def desired_cron_def GetCronSchedule_def GetCron_def)
qed

section \<open>Backfills\<close>

text \<open>
  A backfill run fails at its first check. The runner's update answers with nothing but the
  state, the controller stores that as the whole status, and with the workflow id gone the check
  cannot find the workflow: the pass calls nothing on the engine and writes the state failed,
  although the workflow may be running.
\<close>

theorem backfill_fails_at_its_first_check:
  assumes "GetTriggerType run = TypeBackfill" and "tt_state (tr_status run) = TR_RUNNING"
    and "requested_action run \<notin> {ACTION_KILL, ACTION_PAUSE}"
    and "run_state (trigger_reconcile R run) h = (res, h @ tr)"
  shows "\<exists>sent e. tr = [TrUpdateStatus sent e] \<and> tt_state (tr_status sent) = TR_FAILED \<and>
    tt_error_message (tr_status sent) = ''execution workflow id is empty'' \<and>
    tt_workflow_id (tr_status sent) = '''' \<and> tr_spec sent = tr_spec run"
proof -
  define run1 where "run1 = with_status (empty_status\<lparr>tt_state := TR_RUNNING\<rparr>) run"
  define run' where "run' = failed_call run1 (failed_status
    (''failed to get workflow status: execution workflow id is empty'')) ''execution workflow id is empty''"
  have rn: "getRunner R run = Some (backfillTrigger R)"
    using assms(1) by (simp add: getRunner_def register_def)
  have m: "run_state (state_machine (getRunner R run) run) h = (Some run', h)"
    using assms(2,3) unfolding rn
    by (cases "requested_action run")
      (simp_all add: state_machine_def with_runner_def running_step_def backfillTrigger_Update_def
        getAdhocRunWorkflowStatus_def runner_defs run'_def run1_def Let_def)
  have alive: "\<not> isTerminateState run" using assms(2) by (simp add: isTerminateState_def)
  have p: "run_state (persist R run run') h = (res, h @ tr)"
    using assms(4) alive m by (simp add: trigger_reconcile_def)
  have facts: "tr_spec run' = tr_spec run" "tt_state (tr_status run') = TR_FAILED"
    "tt_error_message (tr_status run') = ''execution workflow id is empty''"
    "tt_workflow_id (tr_status run') = ''''"
    by (simp_all add: run'_def run1_def failed_call_def)
  then have "tr_status run \<noteq> tr_status run'" using assms(2) by auto
  with p facts show ?thesis by (cases rule: persist_run) auto
qed

section \<open>Cascade deletion\<close>

lemma trigger_server_keepsD:
  "trigger_server_keeps R \<Longrightarrow> te_update R h run = (run', e) \<Longrightarrow> same_trigger_meta run' run"
  "trigger_server_keeps R \<Longrightarrow> te_update_status R h run = (run', e) \<Longrightarrow> same_trigger_meta run' run"
  by (metis trigger_server_keeps_def fst_conv)+

lemma same_trigger_meta_counted: "same_trigger_meta a b \<Longrightarrow> IsDrainCounted a = IsDrainCounted b"
  by (simp add: same_trigger_meta_def IsDrainCounted_def)

lemma IsDrainCounted_with_status [simp]:
  "IsDrainCounted (with_status st run) = IsDrainCounted run" "IsDrainCounted (set_tt f run) = IsDrainCounted run"
  by (simp_all add: IsDrainCounted_def)

text \<open>The kill of a drain calls the engine only, to stop the run's own workflow, and changes nothing
  but the status.\<close>

fun stopping :: "string \<Rightarrow> tr_event \<Rightarrow> bool" where
  "stopping wid TrPanic \<longleftrightarrow> True"
| "stopping wid (TrListOpen w) \<longleftrightarrow> w = wid"
| "stopping wid (TrDeleteTrigger w rid e) \<longleftrightarrow> w = wid"
| "stopping wid _ \<longleftrightarrow> False"

lemma stopping_engine: "stopping wid e \<Longrightarrow> engine_call e"
  by (cases e) simp_all

definition kills :: "trigger_run \<Rightarrow> tr_event list \<Rightarrow> answer \<Rightarrow> bool" where
  "kills run eng ans \<longleftrightarrow> list_all (stopping (generateWorkflowID run)) eng \<and>
     fst ans = with_status (tr_status (fst ans)) run \<and>
     (snd (snd ans) = None \<longrightarrow> tt_state (fst (snd ans)) = TR_KILLED \<and>
        (\<exists>rid. TrDeleteTrigger (generateWorkflowID run) rid None \<in> set eng))"

lemma killWorkflow_kills:
  assumes "run_state (killWorkflow R run) h = (ans, h')"
  shows "\<exists>eng. h' = h @ eng \<and> kills run eng ans"
proof -
  let ?P = "stopping (generateWorkflowID run)"
  obtain run' st err where ans: "ans = (run', st, err)" by (cases ans)
  have "emits ?P (killWorkflow R run)" by (rule emits_kill) auto
  from emitsE [OF this assms] obtain eng where eng: "h' = h @ eng" "list_all ?P eng" .
  have opened: "emits ?P (getWorkflowOpenRunID R (generateWorkflowID run))" by (rule emits_open_run) simp
  from assms [unfolded ans] have "kills run eng ans"
  proof (cases rule: killWorkflow_run)
    case (unknown h1 e)
    with eng show ?thesis by (auto simp: kills_def ans)
  next
    case (deleted h1 rid e)
    from emitsE [OF opened deleted(1)] obtain t where "h1 = h @ t" .
    with deleted eng have "eng = t @ [TrDeleteTrigger (generateWorkflowID run)
        (case rid of None \<Rightarrow> '''' | Some r \<Rightarrow> r) e]" by simp
    with deleted eng show ?thesis by (auto simp: kills_def ans set_tt_def)
  qed
  with eng(1) show ?thesis by blast
qed

lemma drain_kill_run:
  assumes "run_state (drain_kill R run) h = ((run', st, err), h')"
  obtains eng e where "h' = h @ eng" "kills run eng (run', st, e)" "err = None \<longleftrightarrow> e = None"
proof -
  have "\<exists>eng e. h' = h @ eng \<and> kills run eng (run', st, e) \<and> (err = None \<longleftrightarrow> e = None)"
  proof (cases R run rule: getRunner_cases)
    case 1
    with assms have "h' = h @ [TrPanic] \<and> kills run [TrPanic] (run', st, Some ''panic'') \<and> err \<noteq> None"
      by (auto simp: drain_kill_def kills_def)
    then show ?thesis by blast
  next
    case 2
    with assms obtain e where "run_state (killWorkflow R run) h = ((run', st, e), h')" "err = map_option OtherError e"
      by (auto simp: drain_kill_def runner_defs split: prod.splits)
    with killWorkflow_kills show ?thesis by fastforce
  next
    case 3
    with assms obtain e where k: "run_state (backfillTrigger_Kill R run) h = ((run', st, e), h')"
      "err = map_option OtherError e"
      by (auto simp: drain_kill_def runner_defs split: prod.splits)
    show ?thesis
    proof (cases "tt_state (tr_status run) = TR_RUNNING")
      case True
      with k have "run_state (killWorkflow R run) h = ((run', st, e), h')"
        by (simp add: backfillTrigger_Kill_def)
      with killWorkflow_kills k(2) show ?thesis by fastforce
    next
      case False
      with k have "h' = h @ [] \<and> kills run [] (run', st, e) \<and> (err = None \<longleftrightarrow> e = None)"
        by (auto simp: backfillTrigger_Kill_def kills_def Let_def)
      then show ?thesis by blast
    qed
  qed
  with that show thesis by blast
qed

lemma kills_keep:
  assumes "kills run eng (run', st, e)"
  shows "last_trigger base (h @ eng) = last_trigger base h" "trigger_gauge (h @ eng) = trigger_gauge h"
    "run' = with_status (tr_status run') run"
proof -
  from assms have "list_all engine_call eng"
    by (auto simp: kills_def list_all_iff intro: stopping_engine)
  from engine_calls_keep [OF this] show "last_trigger base (h @ eng) = last_trigger base h"
    "trigger_gauge (h @ eng) = trigger_gauge h" by simp_all
  from assms show "run' = with_status (tr_status run') run" by (simp add: kills_def)
qed

text \<open>The five methods, each as an elimination rule.\<close>

lemma trigger_RequestCancel_run:
  assumes "run_state (trigger_RequestCancel R run) h = ((run', err), h')"
  obtains (not_killed) eng st e where "h' = h @ eng" "kills run eng (run', st, Some e)" "err \<noteq> None"
  | (killed) eng a st sent where "kills run eng (a, st, None)" "sent = MarkDrainCounted (with_status st run)"
      "te_update R (h @ eng) sent = (run', err)" "h' = h @ eng @ [TrUpdate sent err]"
proof -
  obtain a st err1 h1 where k: "run_state (drain_kill R run) h = ((a, st, err1), h1)" by (metis prod.exhaust)
  then obtain eng e where e: "h1 = h @ eng" "kills run eng (a, st, e)" "err1 = None \<longleftrightarrow> e = None"
    by (rule drain_kill_run)
  show thesis
  proof (cases err1)
    case (Some x)
    with e obtain y where "e = Some y" by (cases e) auto
    with Some k e assms show thesis
      by (intro not_killed [of eng st y]) (auto simp: trigger_RequestCancel_def)
  next
    case None
    have "with_status st a = with_status st run"
      using kills_keep(3) [OF e(2)] by (metis with_status_sel(4))
    with None k e assms show thesis
      by (intro killed [of eng a st "MarkDrainCounted (with_status st run)"])
        (auto simp: trigger_RequestCancel_def trigger_writes)
  qed
qed

lemma trigger_Progress_run:
  assumes "run_state (trigger_Progress R run) h = ((run', x), h')"
  obtains (not_killed) eng st e y where "h' = h @ eng" "kills run eng (run', st, Some e)" "x = Inl y"
  | (killed) eng a st err where "kills run eng (a, st, None)"
      "te_update_status R (h @ eng) (with_status st run) = (run', err)"
      "h' = h @ eng @ [TrUpdateStatus (with_status st run) err]"
      "x = (case err of Some e \<Rightarrow> Inl e | None \<Rightarrow> Inr (isTerminateState run'))"
proof -
  obtain a st err1 h1 where k: "run_state (drain_kill R run) h = ((a, st, err1), h1)" by (metis prod.exhaust)
  then obtain eng e where e: "h1 = h @ eng" "kills run eng (a, st, e)" "err1 = None \<longleftrightarrow> e = None"
    by (rule drain_kill_run)
  show thesis
  proof (cases err1)
    case (Some z)
    with e obtain y where "e = Some y" by (cases e) auto
    with Some k e assms show thesis
      by (intro not_killed [of eng st y z]) (auto simp: trigger_Progress_def)
  next
    case None
    have "with_status st a = with_status st run"
      using kills_keep(3) [OF e(2)] by (metis with_status_sel(4))
    moreover obtain r err where u: "te_update_status R (h @ eng) (with_status st run) = (r, err)"
      by (metis prod.exhaust)
    ultimately show thesis using None k e assms
      by (intro killed [of eng a st err]) (auto simp: trigger_Progress_def trigger_writes split: prod.splits)
  qed
qed

lemma trigger_ForceKill_run:
  assumes "run_state (trigger_ForceKill R run) h = ((run', err), h')"
  obtains eng st e where "h' = h @ eng" "kills run eng (run', st, e)"
proof -
  obtain a st e h1 where k: "run_state (killWorkflow R run) h = ((a, st, e), h1)" by (metis prod.exhaust)
  with assms have "run' = a" "h' = h1" by (auto simp: trigger_ForceKill_def ForceKillWorkflow_def)
  with killWorkflow_kills [OF k] that show thesis by blast
qed

lemma trigger_CompleteDrain_run:
  assumes "run_state (trigger_CompleteDrain R run) h = ((run', err), h')"
  obtains sent where "te_update R h sent = (run', err)" "h' = h @ [TrUpdate sent err]"
    "\<not> IsDrainCounted sent"
    "om_finalizers sent = fl_remove (te_finlib R) (om_finalizers run) triggerDrainFinalizer"
proof -
  let ?run1 = "if \<not> IsImmutable run then MarkImmutable run else run"
  let ?sent = "(ClearDrainCounted ?run1)\<lparr>om_finalizers :=
      fl_remove (te_finlib R) (om_finalizers (ClearDrainCounted ?run1)) triggerDrainFinalizer\<rparr>"
  from assms have "te_update R h ?sent = (run', err)" "h' = h @ [TrUpdate ?sent err]"
    by (auto simp: trigger_CompleteDrain_def trigger_writes Let_def)
  moreover have "\<not> IsDrainCounted ?sent"
    using IsDrainCounted_Clear [of ?run1] by (simp add: IsDrainCounted_def)
  moreover have "om_finalizers ?sent = fl_remove (te_finlib R) (om_finalizers run) triggerDrainFinalizer"
    by (simp add: MarkImmutable_def)
  ultimately show thesis by (rule that)
qed

definition td_persisted :: "obj_meta \<Rightarrow> tr_drain \<Rightarrow> obj_meta" where
  "td_persisted base s = last_trigger base (td_log s)"

definition td_gauge :: "tr_drain \<Rightarrow> int" where
  "td_gauge s = trigger_gauge (td_log s)"

text \<open>A fresh read: the metadata as persisted, specification and status as the API server says.\<close>

definition td_read :: "obj_meta \<Rightarrow> trigger_run \<Rightarrow> tr_drain \<Rightarrow> tr_drain" where
  "td_read base q s = s\<lparr>td_run := obj_meta.extend (td_persisted base s) (obj_meta.more q)\<rparr>"

definition td_clock :: "tr_env \<Rightarrow> tr_drain \<Rightarrow> int" where
  "td_clock R s = te_now R (td_log s)"

lemma meta_of_extended [simp]: "meta_of (obj_meta.extend m x) = m"
  by (simp add: meta_of_def obj_meta.defs)

lemma td_read_sel [simp]:
  "meta_of (td_run (td_read base q s)) = td_persisted base s"
  "td_log (td_read base q s) = td_log s" "td_persisted base (td_read base q s) = td_persisted base s"
  "td_gauge (td_read base q s) = td_gauge s"
  by (simp_all add: td_read_def td_persisted_def td_gauge_def)

lemmas td_defs = td_persisted_def td_gauge_def triggerRunDrainTarget_def

lemma kills_counted: "kills run eng (run', st, e) \<Longrightarrow> IsDrainCounted run' = IsDrainCounted run"
  using kills_keep(3) by (metis IsDrainCounted_with_status(1))

lemma kills_meta: "kills run eng (run', st, e) \<Longrightarrow> meta_of run' = meta_of run"
  using kills_keep(3) by (metis with_status_sel(3))

text \<open>A method of the target run on the drain's state.\<close>

lemma on_trigger_run:
  assumes "run_state (on_trigger f) s = (x, s')"
  obtains run' h' where "run_state (f (td_run s)) (td_log s) = ((run', x), h')"
    "s' = s\<lparr>td_run := run', td_log := h'\<rparr>"
  using assms by (auto split: prod.splits)

text \<open>The drain target of trigger runs keeps the contract of the driver.\<close>

interpretation trigger_drains: draining "triggerRunDrainTarget R" "td_persisted base" td_gauge
    "td_read base" "td_clock R" "\<lambda>s. trigger_drain_state (td_run s)" triggerDrainFinalizer "trigger_lawful R"
  for R base
proof (unfold_locales, goal_cases)
  case (1 m s s')
  then show ?case by (auto simp: td_defs)
next
  case (2 s s')
  then obtain run' h' where p: "run_state (trigger_RequestCancel R (td_run s)) (td_log s) = ((run', None), h')"
    "s' = s\<lparr>td_run := run', td_log := h'\<rparr>"
    by (auto simp: triggerRunDrainTarget_def elim: on_trigger_run simp del: run_on_trigger)
  from p(1) show ?case
  proof (cases rule: trigger_RequestCancel_run)
    case (killed eng a st sent)
    with p(2) kills_keep(2) [OF killed(1), of "td_log s"] show ?thesis
      by (simp add: td_defs)
  qed simp
next
  case (3 s e s')
  then obtain run' h' where p: "run_state (trigger_RequestCancel R (td_run s)) (td_log s) = ((run', Some e), h')"
    "s' = s\<lparr>td_run := run', td_log := h'\<rparr>"
    by (auto simp: triggerRunDrainTarget_def elim: on_trigger_run simp del: run_on_trigger)
  from p(1) show ?case
  proof (cases rule: trigger_RequestCancel_run)
    case (not_killed eng st e1)
    with p(2) kills_keep(1,2) [OF not_killed(2)] show ?thesis by (simp add: td_defs)
  next
    case (killed eng a st sent)
    with p(2) kills_keep(1,2) [OF killed(1)] show ?thesis by (simp add: td_defs)
  qed
next
  case (4 s x s')
  then obtain run' h' where p: "run_state (trigger_Progress R (td_run s)) (td_log s) = ((run', x), h')"
    "s' = s\<lparr>td_run := run', td_log := h'\<rparr>"
    by (auto simp: triggerRunDrainTarget_def elim: on_trigger_run simp del: run_on_trigger)
  from 4(1) have law: "trigger_server_keeps R" by (simp add: trigger_lawful_def)
  from p(1) show ?case
  proof (cases rule: trigger_Progress_run)
    case (not_killed eng st e1 y)
    with p(2) kills_keep(1,2) [OF not_killed(2)] kills_counted [OF not_killed(2)] show ?thesis
      by (simp add: td_defs)
  next
    case (killed eng a st err)
    with p(2) kills_keep(1,2) [OF killed(1)] same_trigger_meta_counted [OF trigger_server_keepsD(2) [OF law killed(2)]]
    show ?thesis by (simp add: td_defs)
  qed
next
  case (5 s y s')
  then obtain run' h' where p: "run_state (trigger_MarkKilled R (td_run s)) (td_log s) = ((run', y), h')"
    "s' = s\<lparr>td_run := run', td_log := h'\<rparr>"
    by (auto simp: triggerRunDrainTarget_def elim: on_trigger_run simp del: run_on_trigger)
  from 5(1) have law: "trigger_server_keeps R" by (simp add: trigger_lawful_def)
  from p(1) obtain sent where "te_update_status R (td_log s) sent = (run', y)" "h' = td_log s @ [TrUpdateStatus sent y]"
    "IsDrainCounted sent = IsDrainCounted (td_run s)"
    by (auto simp: trigger_MarkKilled_def trigger_writes)
  with p(2) same_trigger_meta_counted [OF trigger_server_keepsD(2) [OF law]] show ?case
    by (fastforce simp: td_defs)
next
  case (6 s y s')
  then obtain run' h' where p: "run_state (trigger_ForceKill R (td_run s)) (td_log s) = ((run', y), h')"
    "s' = s\<lparr>td_run := run', td_log := h'\<rparr>"
    by (auto simp: triggerRunDrainTarget_def elim: on_trigger_run simp del: run_on_trigger)
  from p(1) obtain eng st e where k: "h' = td_log s @ eng" "kills (td_run s) eng (run', st, e)"
    by (rule trigger_ForceKill_run)
  with p(2) kills_keep(1,2) [OF k(2)] kills_meta [OF k(2)] show ?case by (simp add: td_defs)
next
  case (7 s s')
  then obtain run' h' where p: "run_state (trigger_CompleteDrain R (td_run s)) (td_log s) = ((run', None), h')"
    "s' = s\<lparr>td_run := run', td_log := h'\<rparr>"
    by (auto simp: triggerRunDrainTarget_def elim: on_trigger_run simp del: run_on_trigger)
  from 7(1) have lib: "finlib_ok (te_finlib R)" by (simp add: trigger_lawful_def)
  from p(1) show ?case
    by (rule trigger_CompleteDrain_run) (use p(2) finlib_okD(3) [OF lib] in \<open>simp add: td_defs\<close>)
next
  case (8 s e s')
  then obtain run' h' where p: "run_state (trigger_CompleteDrain R (td_run s)) (td_log s) = ((run', Some e), h')"
    "s' = s\<lparr>td_run := run', td_log := h'\<rparr>"
    by (auto simp: triggerRunDrainTarget_def elim: on_trigger_run simp del: run_on_trigger)
  from p(1) show ?case
    by (rule trigger_CompleteDrain_run) (use p(2) in \<open>simp add: td_defs\<close>)
next
  case (9 q s)
  then show ?case by (simp add: triggerRunDrainTarget_def)
qed (simp_all add: trigger_drain_state_def)

text \<open>What a drain adds to the trace: nothing that could arm a schedule.\<close>

fun arming :: "tr_event \<Rightarrow> bool" where
  "arming (TrStart opt w r) \<longleftrightarrow> True"
| "arming (TrUnpause w e) \<longleftrightarrow> True"
| "arming (TrUpdateTrigger w c p a e) \<longleftrightarrow> True"
| "arming _ \<longleftrightarrow> False"

definition adds :: "tr_drain \<Rightarrow> tr_drain \<Rightarrow> bool" where
  "adds s s' \<longleftrightarrow> (\<exists>t. td_log s' = td_log s @ t \<and> list_all (\<lambda>e. \<not> arming e) t)"

lemma adds_refl [simp]: "adds s s"
  by (simp add: adds_def)

lemma adds_trans: "adds s s' \<Longrightarrow> adds s' s'' \<Longrightarrow> adds s s''"
  unfolding adds_def by force

lemma kills_not_arming: "kills run eng ans \<Longrightarrow> list_all (\<lambda>e. \<not> arming e) eng"
proof -
  have "stopping w e \<Longrightarrow> \<not> arming e" for w e by (cases e) simp_all
  then show "kills run eng ans \<Longrightarrow> list_all (\<lambda>e. \<not> arming e) eng"
    by (auto simp: kills_def list_all_iff)
qed

lemma target_adds:
  "run_state (dt_metric (triggerRunDrainTarget R) m) s = (u, s') \<Longrightarrow> adds s s'"
  "run_state (dt_request_cancel (triggerRunDrainTarget R)) s = (x, s') \<Longrightarrow> adds s s'"
  "run_state (dt_progress (triggerRunDrainTarget R)) s = (y, s') \<Longrightarrow> adds s s'"
  "run_state (dt_mark_killed (triggerRunDrainTarget R)) s = (x, s') \<Longrightarrow> adds s s'"
  "run_state (dt_force_kill (triggerRunDrainTarget R)) s = (x, s') \<Longrightarrow> adds s s'"
  "run_state (dt_complete_drain (triggerRunDrainTarget R)) s = (x, s') \<Longrightarrow> adds s s'"
proof -
  let ?t = "triggerRunDrainTarget R"
  show "run_state (dt_metric ?t m) s = (u, s') \<Longrightarrow> adds s s'"
    by (auto simp: triggerRunDrainTarget_def adds_def)
  show "run_state (dt_mark_killed ?t) s = (x, s') \<Longrightarrow> adds s s'"
    by (auto simp: triggerRunDrainTarget_def adds_def trigger_MarkKilled_def trigger_writes split: prod.splits)
  show "run_state (dt_complete_drain ?t) s = (x, s') \<Longrightarrow> adds s s'"
    by (auto simp: triggerRunDrainTarget_def adds_def split: prod.splits elim!: trigger_CompleteDrain_run)
  show "run_state (dt_force_kill ?t) s = (x, s') \<Longrightarrow> adds s s'"
    by (auto simp: triggerRunDrainTarget_def adds_def split: prod.splits
        elim!: trigger_ForceKill_run dest: kills_not_arming)
  show "run_state (dt_request_cancel ?t) s = (x, s') \<Longrightarrow> adds s s'"
    by (auto simp: triggerRunDrainTarget_def adds_def split: prod.splits
        elim!: trigger_RequestCancel_run dest: kills_not_arming)
  show "run_state (dt_progress ?t) s = (y, s') \<Longrightarrow> adds s s'"
    by (auto simp: triggerRunDrainTarget_def adds_def split: prod.splits
        elim!: trigger_Progress_run dest: kills_not_arming)
qed

lemma finish_adds:
  assumes "run_state (finish now st (triggerRunDrainTarget R)) s = (r, s')"
  shows "adds s s'"
proof -
  let ?t = "triggerRunDrainTarget R"
  obtain e s1 where c: "run_state (dt_complete_drain ?t) s = (e, s1)" by (metis prod.exhaust)
  have s1: "adds s s1" by (rule target_adds(6) [OF c])
  have metric: "td_log (snd (run_state (dt_metric ?t m) z)) = td_log z @ [TrDrain m]" for m z
    by (simp add: triggerRunDrainTarget_def)
  have "adds s1 s'" using assms c
    by (auto simp: finish_def adds_def metric triggerRunDrainTarget_def split: option.splits if_splits)
  with s1 show ?thesis by (rule adds_trans)
qed

lemma RunDrainStep_adds:
  assumes "run_state (RunDrainStep L now st (triggerRunDrainTarget R) rq) s = (r, s')"
  shows "adds s s'"
  using assms
proof (cases rule: RunDrainStep_cases)
  case (timeout s1 k s2 err)
  then show ?thesis by (metis adds_trans finish_adds target_adds(1,5))
next
  case (killed s1 err)
  then show ?thesis by (metis adds_trans finish_adds target_adds(4))
next
  case (cancelled s1)
  then show ?thesis by (metis adds_trans target_adds(1,2))
next
  case (drained s1 err)
  then show ?thesis by (metis adds_trans finish_adds target_adds(3))
qed (auto intro: target_adds finish_adds)

text \<open>One pass over a run that is being deleted, on a fresh read.\<close>

definition trigger_drain_pass :: "tr_env \<Rightarrow> tr_drain \<Rightarrow> (ctrl_result \<times> api_error option) \<times> tr_drain" where
  "trigger_drain_pass R s = run_state (RunDrainStep (te_finlib R) (td_clock R s)
     (trigger_drain_state (td_run s)) (triggerRunDrainTarget R) triggerDrainRequeue) s"

lemma trigger_drain_is_pass:
  "run_state (trigger_drain R run) h =
     (let (res, s) = trigger_drain_pass R \<lparr>td_run = run, td_log = h\<rparr> in (res, td_log s))"
  by (simp add: trigger_drain_def trigger_drain_pass_def td_clock_def)

lemma progress_kills:
  assumes "run_state (dt_progress (triggerRunDrainTarget R)) s = (Inr b, s1)"
  obtains tr rid where "td_log s1 = td_log s @ tr"
    "TrDeleteTrigger (generateWorkflowID (td_run s)) rid None \<in> set tr"
proof -
  from assms obtain run' h' where p: "run_state (trigger_Progress R (td_run s)) (td_log s) = ((run', Inr b), h')"
    "s1 = s\<lparr>td_run := run', td_log := h'\<rparr>"
    by (auto simp: triggerRunDrainTarget_def elim: on_trigger_run simp del: run_on_trigger)
  from p(1) show thesis
  proof (cases rule: trigger_Progress_run)
    case (killed eng a st err)
    then obtain rid where "TrDeleteTrigger (generateWorkflowID (td_run s)) rid None \<in> set eng"
      by (auto simp: kills_def)
    with killed p(2) that show thesis by simp
  qed simp
qed

lemma cascade_stops_the_schedule_facts:
  assumes "trigger_lawful R" and "s = td_read base q s0"
    and "trigger_drain_pass R s = (res, s')"
  shows "\<exists>tr. td_log s' = td_log s @ tr \<and> list_all (\<lambda>e. \<not> arming e) tr"
    and "drain_phase triggerDrainFinalizer (td_persisted base s) \<noteq> Released \<Longrightarrow>
      drain_phase triggerDrainFinalizer (td_persisted base s') = Released \<Longrightarrow>
      isTerminateState (td_run s) \<or> timed_out (td_clock R s) (td_run s) \<or>
      tt_state (tr_status (td_run s)) = TR_INVALID \<or>
      (\<exists>rid. TrDeleteTrigger (generateWorkflowID (td_run s)) rid None \<in> set (drop (length (td_log s)) (td_log s')))"
proof -
  note run = assms(3) [unfolded trigger_drain_pass_def]
  from RunDrainStep_adds [OF run] show "\<exists>tr. td_log s' = td_log s @ tr \<and> list_all (\<lambda>e. \<not> arming e) tr"
    by (simp add: adds_def)
  assume before: "drain_phase triggerDrainFinalizer (td_persisted base s) \<noteq> Released"
    and after: "drain_phase triggerDrainFinalizer (td_persisted base s') = Released"
  have lib: "finlib_ok (te_finlib R)" using assms(1) by (simp add: trigger_lawful_def)
  have obj: "dt_object (triggerRunDrainTarget R) s = td_persisted base s"
    by (simp add: assms(2) triggerRunDrainTarget_def)
  have to: "timed_out n (meta_of x) = timed_out n x" for n and x :: trigger_run
    by (simp add: timed_out_def)
  have state: "ds_is_terminal (trigger_drain_state (td_run s)) = isTerminateState (td_run s)"
    "ds_work_started (trigger_drain_state (td_run s)) \<longleftrightarrow> tt_state (tr_status (td_run s)) \<noteq> TR_INVALID"
    "dt_object (triggerRunDrainTarget R) s = meta_of (td_run s)"
    by (simp_all add: trigger_drain_state_def triggerRunWorkStarted_def triggerRunDrainTarget_def)
  have sync: "trigger_drains.in_sync R base s" using assms(2) trigger_drains.in_sync_read by simp
  note rel = trigger_drains.step_release [OF assms(1) run sync lib _ _ before after]
  show "isTerminateState (td_run s) \<or> timed_out (td_clock R s) (td_run s) \<or>
      tt_state (tr_status (td_run s)) = TR_INVALID \<or>
      (\<exists>rid. TrDeleteTrigger (generateWorkflowID (td_run s)) rid None \<in> set (drop (length (td_log s)) (td_log s')))"
    using run
  proof (cases rule: RunDrainStep_cases)
    case (drained s1 err)
    from progress_kills [OF drained(2)] obtain tr rid where k: "td_log s1 = td_log s @ tr"
      "TrDeleteTrigger (generateWorkflowID (td_run s)) rid None \<in> set tr" .
    from finish_adds [OF drained(3)] obtain t where "td_log s' = td_log s1 @ t" by (auto simp: adds_def)
    with k show ?thesis by auto
  next
    case (waiting)
    with trigger_drains.progress [OF assms(1)] before after show ?thesis by metis
  next
    case (progress_error e)
    with trigger_drains.progress [OF assms(1)] before after show ?thesis by metis
  next
    case (cancel_error e)
    with trigger_drains.request_fails [OF assms(1)] before after show ?thesis by metis
  next
    case (kill_error e)
    with trigger_drains.mark_killed [OF assms(1)] before after show ?thesis by metis
  next
    case (cancelled s1)
    from trigger_drains.request_ok [OF assms(1) cancelled(3)] trigger_drains.metric [OF assms(1) cancelled(4)]
    have "om_finalizers (td_persisted base s') = om_finalizers (td_persisted base s)" using obj by simp
    with before after show ?thesis by (simp add: drain_phase_def split: if_splits)
  qed (use state to before after in auto)
qed


section \<open>Witnesses\<close>

text \<open>An engine on which nothing runs and an API server that stores what it is sent; a cron and a
  backfill run.\<close>

definition calm_env :: tr_env where
  "calm_env =
     \<lparr>te_finlib = list_finlib,
      te_reflib = \<lparr>rl_controller_of = (\<lambda>_. None), rl_set_controller = (\<lambda>_ _. Inr [])\<rparr>,
      te_now = (\<lambda>h. 5), te_get_run = (\<lambda>h ns nm. Inl (GrpcError Code_NotFound)),
      te_get_pipeline = (\<lambda>h ns nm. Inl (GrpcError Code_NotFound)),
      te_update = (\<lambda>h r. (r, None)), te_update_status = (\<lambda>h r. (r, None)),
      te_list_open = (\<lambda>h w. Inr []), te_give_up = (\<lambda>h. False), te_describe = (\<lambda>h w. Inr WF_Running),
      te_start = (\<lambda>h opt w r. Inr (so_id opt, ''rid'')), te_delete_trigger = (\<lambda>h w r. None),
      te_pause = (\<lambda>h w. None), te_unpause = (\<lambda>h w. None),
      te_update_trigger = (\<lambda>h w c p a. None), te_provider = ''temporal''\<rparr>"

definition example_trigger :: "trigger_state \<Rightarrow> trigger_action \<Rightarrow> int option \<Rightarrow> trigger_run" where
  "example_trigger st action window =
     \<lparr>om_namespace = ''ns'', om_name = ''t'', om_uid = ''u'', om_generation = 1,
      om_creation_ts = Some 0, om_deletion_ts = None, om_labels = None, om_annotations = None,
      om_finalizers = [triggerDrainFinalizer], om_owner_refs = [],
      tr_spec = \<lparr>ts_pipeline = None, ts_revision = None,
        ts_trigger = Some (cron_trigger ''0 2 * * *''), ts_actor = None, ts_kill = False,
        ts_start = window, ts_end = window, ts_source_trigger_name = '''', ts_auto_flip = False,
        ts_notifications = None, ts_action = action\<rparr>,
      tr_status = empty_status\<lparr>tt_state := st, tt_workflow_id := ''ns.t''\<rparr>\<rparr>"

lemma calm_env_sel [simp]:
  "te_finlib calm_env = list_finlib" "te_now calm_env h = 5" "te_update calm_env h r = (r, None)"
  "te_update_status calm_env h r = (r, None)" "te_list_open calm_env h w = Inr []"
  "te_start calm_env h opt wn r = Inr (so_id opt, ''rid'')" "te_delete_trigger calm_env h w rid = None"
  "te_update_trigger calm_env h w c p a = None" "te_provider calm_env = ''temporal''"
  by (simp_all add: calm_env_def)

lemma example_trigger_sel [simp]:
  "om_namespace (example_trigger st a w) = ''ns''" "om_name (example_trigger st a w) = ''t''"
  "tt_state (tr_status (example_trigger st a w)) = st" "ts_action (tr_spec (example_trigger st a w)) = a"
  "ts_kill (tr_spec (example_trigger st a w)) = False"
  "ts_notifications (tr_spec (example_trigger st a w)) = None"
  "tt_actual_trigger (tr_status (example_trigger st a w)) = None"
  "tt_actual_notifications (tr_status (example_trigger st a w)) = None"
  "desired_cron (example_trigger st a w) = ''0 2 * * *''"
  "generateWorkflowID (example_trigger st a w) = ''ns.t''"
  "requested_action (example_trigger st a w) = a"
  "GetTriggerType (example_trigger st a None) = TypeCron"
  "GetTriggerType (example_trigger st a (Some n)) = TypeBackfill"
  by (simp_all add: example_trigger_def desired_cron_def GetCronSchedule_def GetCron_def cron_trigger_def
      generateWorkflowID_def requested_action_def GetTriggerType_def Let_def)

lemma calm_answers [simp]: "engine_answers calm_env"
  by (simp add: engine_answers_def)

lemma calm_lawful [simp]: "trigger_lawful calm_env"
  by (simp add: trigger_lawful_def trigger_server_keeps_def same_trigger_meta_def)

lemma calm_open_run [simp]:
  "run_state (getWorkflowOpenRunID calm_env w) h = (Inr None, h @ [TrListOpen w])"
  using list_open_ok [of calm_env h w "[]" 3]
  by (simp add: getWorkflowOpenRunID_def getWorkflowOpenExecution_def)

text \<open>The first pass over a fresh schedule starts it.\<close>

lemma calm_start:
  obtains sent where "run_state (trigger_reconcile calm_env (example_trigger TR_INVALID NO_ACTION None)) [] =
     ((requeue_after (seconds 60), None),
      [] @ [TrListOpen ''ns.t'',
       TrStart (trigger_options (example_trigger TR_INVALID NO_ACTION None) ''0 2 * * *'') ''trigger.CronTrigger''
         (example_trigger TR_INVALID NO_ACTION None), TrUpdateStatus sent None])"
    "tt_state (tr_status sent) = TR_RUNNING"
proof -
  let ?run = "example_trigger TR_INVALID NO_ACTION None"
  define sent where "sent = set_tt (\<lambda>s. s\<lparr>tt_state := TR_RUNNING,
     tt_log_url := getWorkflowURL ''ns.t'' ''temporal'', tt_workflow_id := ''''\<rparr>) ?run"
  have rn: "getRunner calm_env ?run = Some (cronTrigger calm_env)" by (simp add: getRunner_def register_def)
  have m: "run_state (state_machine (getRunner calm_env ?run) ?run) [] = (Some sent,
      [TrListOpen ''ns.t'', TrStart (trigger_options ?run ''0 2 * * *'') ''trigger.CronTrigger'' ?run])"
    unfolding rn
    by (simp add: state_machine_def with_runner_def start_step_def runner_defs cronTrigger_Run_def
        start_trigger_def trigger_options_def sent_def Let_def running_status_def)
  have st: "tt_state (tr_status sent) = TR_RUNNING" "tr_spec sent = tr_spec ?run" by (simp_all add: sent_def)
  have "tr_status ?run \<noteq> tr_status sent"
  proof
    assume "tr_status ?run = tr_status sent"
    then have "tt_state (tr_status ?run) = TR_RUNNING" by (simp only: st)
    then show False by simp
  qed
  with m st have "run_state (trigger_reconcile calm_env ?run) [] =
     ((requeue_after (seconds 60), None),
      [] @ [TrListOpen ''ns.t'', TrStart (trigger_options ?run ''0 2 * * *'') ''trigger.CronTrigger'' ?run,
       TrUpdateStatus sent None])"
    by (simp add: trigger_reconcile_def persist_def persist_status_def trigger_writes isTerminateState_def Let_def)
  with st(1) that show thesis by blast
qed


lemma trigger_states_follow_the_graph_witness:
  "\<exists>sent. TrUpdateStatus sent None \<in>
       set (snd (run_state (trigger_reconcile calm_env (example_trigger TR_INVALID NO_ACTION None)) [])) \<and>
     tt_state (tr_status sent) \<in> successors TR_INVALID"
  by (rule calm_start, frule trigger_states_follow_the_graph) force+


lemma kill_request_is_carried_out_witness:
  "\<exists>rid sent. TrDeleteTrigger ''ns.t'' rid None \<in>
       set (snd (run_state (trigger_reconcile calm_env (example_trigger TR_RUNNING ACTION_KILL None)) [])) \<and>
     last (snd (run_state (trigger_reconcile calm_env (example_trigger TR_RUNNING ACTION_KILL None)) [])) =
       TrUpdateStatus sent None \<and> tt_state (tr_status sent) = TR_KILLED"
proof -
  let ?run = "example_trigger TR_RUNNING ACTION_KILL None"
  obtain res tr where r: "run_state (trigger_reconcile calm_env ?run) [] = (res, [] @ tr)" by (metis append_Nil prod.exhaust)
  have "getRunner calm_env ?run \<noteq> None" by (simp add: getRunner_def register_def)
  from kill_request_is_carried_out [OF calm_answers _ this _ r] r show ?thesis by auto
qed

lemma synced_schedule_stays_quiet_witness:
  "let run = example_trigger TR_RUNNING NO_ACTION None;
       st = (tr_status run)\<lparr>tt_actual_trigger := Some (cron_trigger ''0 2 * * *'')\<rparr> in
   run_state (cronTrigger_Update calm_env (with_status st run) NO_ACTION) [] = ((st, False, None), [])"
proof -
  let ?run = "example_trigger TR_RUNNING NO_ACTION None"
  let ?st = "(tr_status ?run)\<lparr>tt_actual_trigger := Some (cron_trigger ''0 2 * * *'')\<rparr>"
  have "run_state (cronTrigger_Update calm_env ?run NO_ACTION) [] =
      ((?st, False, None), [TrUpdateTrigger ''ns.t'' ''0 2 * * *'' None None None])"
    by (simp add: cronTrigger_Update_def Let_def GetCronSchedule_def GetCron_def notificationsEqual_def)
  from synced_schedule_stays_quiet(3) [OF this, of "with_status ?st ?run"] show ?thesis by (simp add: Let_def)
qed

lemma backfill_fails_at_its_first_check_witness:
  "\<exists>sent e. snd (run_state (trigger_reconcile calm_env (example_trigger TR_RUNNING NO_ACTION (Some 1))) []) =
     [TrUpdateStatus sent e] \<and> tt_state (tr_status sent) = TR_FAILED"
proof -
  let ?run = "example_trigger TR_RUNNING NO_ACTION (Some 1)"
  obtain res tr where r: "run_state (trigger_reconcile calm_env ?run) [] = (res, [] @ tr)" by (metis append_Nil prod.exhaust)
  from backfill_fails_at_its_first_check [OF _ _ _ r] r show ?thesis by auto
qed


end
