(* ===== verification/Trigger_Params.thy ===== *)
theory Trigger_Params
  imports Trigger_Model "HOL-Library.Multiset" "HOL-Library.List_Lexorder" "HOL-Library.Char_ord"
begin

text \<open>
  The parameters of the runs a trigger starts
  (\<^verbatim>\<open>go/worker/activities/trigger/parameter\<close>): which times a backfill covers, the product of
  times and parameter sets, their order, and their division into batches.
\<close>

section \<open>Parameters\<close>

text \<open>\<^verbatim>\<open>Params\<close> with its backfill part, of which only the time and the id are read.\<close>

record params =
  pm_id :: string
  pm_time :: "int option"
  pm_backfill_id :: string

definition GetParameterID :: "params \<Rightarrow> string" where
  "GetParameterID p = (if pm_backfill_id p \<noteq> '''' then pm_backfill_id p else pm_id p)"

definition GetExecutionTimestamp :: "params \<Rightarrow> int \<Rightarrow> int" where
  "GetExecutionTimestamp p logicalTs = (case pm_time p of Some t \<Rightarrow> t | None \<Rightarrow> logicalTs)"

record triggered_run =
  td_param_id :: string
  td_run_name :: string
  td_execution :: int
  td_created :: int
  td_kind :: trigger_kind

definition GetTriggeredRun :: "params \<Rightarrow> string \<Rightarrow> int \<Rightarrow> int \<Rightarrow> triggered_run" where
  "GetTriggeredRun p name execution created =
     \<lparr>td_param_id = GetParameterID p, td_run_name = name, td_execution = execution,
      td_created = created, td_kind = (if pm_time p \<noteq> None then TypeBackfill else TypeCron)\<rparr>"

definition cron_param :: "string \<Rightarrow> params" where
  "cron_param k = \<lparr>pm_id = k, pm_time = None, pm_backfill_id = ''''\<rparr>"

definition backfill_param :: "int \<Rightarrow> string \<Rightarrow> params" where
  "backfill_param t k = \<lparr>pm_id = '''', pm_time = Some t, pm_backfill_id = k\<rparr>"

section \<open>Order\<close>

text \<open>Strings are compared byte by byte, as the library's order of character lists does.\<close>

definition param_less :: "params \<Rightarrow> params \<Rightarrow> bool" where
  "param_less a b \<longleftrightarrow>
     (case (pm_time a, pm_time b) of
        (Some s, Some t) \<Rightarrow> if s = t then pm_backfill_id a < pm_backfill_id b else s < t
      | _ \<Rightarrow> pm_id a < pm_id b)"

fun insert_param :: "params \<Rightarrow> params list \<Rightarrow> params list" where
  "insert_param p [] = [p]"
| "insert_param p (q # qs) = (if param_less q p then q # insert_param p qs else p # q # qs)"

definition sortParams :: "params list \<Rightarrow> params list" where
  "sortParams ps = foldr insert_param ps []"

lemma mset_insert_param [simp]: "mset (insert_param p ps) = add_mset p (mset ps)"
  by (induction ps) auto

lemma mset_sortParams [simp]: "mset (sortParams ps) = mset ps"
  by (induction ps) (simp_all add: sortParams_def)

lemma set_sortParams [simp]: "set (sortParams ps) = set ps"
  by (metis mset_sortParams set_mset_mset)

lemma length_sortParams [simp]: "length (sortParams ps) = length ps"
  by (metis mset_sortParams size_mset)

text \<open>
  The lists that are sorted hold the parameters of one trigger: all of a schedule, or all of a
  backfill. On those the order is linear, so that every sorting routine yields the same list.
\<close>

definition uniform :: "params list \<Rightarrow> bool" where
  "uniform ps \<longleftrightarrow> (\<forall>p\<in>set ps. \<exists>k. p = cron_param k) \<or> (\<forall>p\<in>set ps. \<exists>t k. p = backfill_param t k)"

lemma param_less_uniform [simp]:
  "param_less (cron_param k) (cron_param l) \<longleftrightarrow> k < l"
  "param_less (backfill_param s k) (backfill_param t l) \<longleftrightarrow> (if s = t then k < l else s < t)"
  by (simp_all add: param_less_def cron_param_def backfill_param_def)

lemma params_inj [simp]:
  "cron_param k = cron_param l \<longleftrightarrow> k = l" "backfill_param s k = backfill_param t l \<longleftrightarrow> s = t \<and> k = l"
  "cron_param k \<noteq> backfill_param t l" "backfill_param t l \<noteq> cron_param k"
  by (simp_all add: cron_param_def backfill_param_def)

lemma uniform_cases:
  assumes "uniform ps" "p \<in> set ps" "q \<in> set ps" "r \<in> set ps"
  obtains k l m where "p = cron_param k" "q = cron_param l" "r = cron_param m"
  | s k t l u m where "p = backfill_param s k" "q = backfill_param t l" "r = backfill_param u m"
  using assms unfolding uniform_def by metis

lemma param_less_linear:
  assumes "uniform ps" "p \<in> set ps" "q \<in> set ps" "r \<in> set ps"
  shows "\<not> param_less p p" "p \<noteq> q \<Longrightarrow> param_less p q \<or> param_less q p"
    "param_less p q \<Longrightarrow> param_less q r \<Longrightarrow> param_less p r"
  using assms by (rule uniform_cases; auto split: if_splits)+

lemma sorted_insert_param:
  assumes "uniform (p # ps)" "sorted_wrt param_less ps" "p \<notin> set ps"
  shows "sorted_wrt param_less (insert_param p ps)"
  using assms
proof (induction ps)
  case (Cons q qs)
  have u: "uniform (p # qs)" using Cons.prems(1) by (auto simp: uniform_def)
  have in_set: "p \<in> set (p # q # qs)" "q \<in> set (p # q # qs)" by simp_all
  have total: "param_less p q \<or> param_less q p"
    using param_less_linear(2) [OF Cons.prems(1) in_set(1,2,2)] Cons.prems(3) by auto
  have trans: "param_less p r" if "r \<in> set qs" "param_less p q" for r
    using param_less_linear(3) [OF Cons.prems(1) in_set(1,2), of r] that Cons.prems(2) by simp
  have set: "set (insert_param p qs) = insert p (set qs)"
    by (metis mset_insert_param set_mset_add_mset_insert set_mset_mset)
  show ?case
  proof (cases "param_less q p")
    case True
    with Cons.IH [OF u] Cons.prems set show ?thesis by simp
  next
    case False
    with total trans Cons.prems(2) show ?thesis by auto
  qed
qed simp

lemma sorted_sortParams:
  assumes "uniform ps" "distinct ps"
  shows "sorted_wrt param_less (sortParams ps)"
  using assms
proof (induction ps)
  case (Cons p ps)
  have u: "uniform ps" "uniform (p # sortParams ps)" using Cons.prems(1) by (auto simp: uniform_def)
  have "p \<notin> set (sortParams ps)" using Cons.prems(2) by simp
  with Cons sorted_insert_param [OF u(2)] u(1) show ?case by (simp add: sortParams_def)
qed (simp add: sortParams_def)

lemma sorted_unique:
  assumes "uniform xs" "sorted_wrt param_less xs" "sorted_wrt param_less ys" "mset xs = mset ys"
  shows "xs = ys"
  using assms
proof (induction xs arbitrary: ys)
  case (Cons x xs)
  then obtain y ys' where ys: "ys = y # ys'" by (cases ys) auto
  have sets: "set (x # xs) = set ys" by (metis Cons.prems(4) set_mset_mset)
  have "x = y"
  proof (rule ccontr)
    assume ne: "x \<noteq> y"
    with sets ys have "x \<in> set ys'" "y \<in> set xs" by (metis insert_iff list.simps(15))+
    with Cons.prems(2,3) ys have "param_less x y" "param_less y x" by auto
    moreover have "y \<in> set (x # xs)" "x \<in> set (x # xs)" using sets ys by auto
    ultimately show False using param_less_linear(1,3) [OF Cons.prems(1)] by blast
  qed
  moreover have "uniform xs" using Cons.prems(1) by (auto simp: uniform_def)
  ultimately show ?case using Cons.IH [of ys'] Cons.prems ys by simp
qed simp

section \<open>Batches\<close>

text \<open>Go's integer division truncates towards zero.\<close>

definition go_quot :: "int \<Rightarrow> int \<Rightarrow> int" where
  "go_quot a b = sgn a * sgn b * (\<bar>a\<bar> div \<bar>b\<bar>)"

definition go_rem :: "int \<Rightarrow> int \<Rightarrow> int" where
  "go_rem a b = a - b * go_quot a b"

lemma go_div_nonneg [simp]:
  "0 \<le> a \<Longrightarrow> 0 < b \<Longrightarrow> go_quot a b = a div b" "0 \<le> a \<Longrightarrow> 0 < b \<Longrightarrow> go_rem a b = a mod b"
proof -
  show q: "0 \<le> a \<Longrightarrow> 0 < b \<Longrightarrow> go_quot a b = a div b"
    by (cases "a = 0") (simp_all add: go_quot_def)
  then show "0 \<le> a \<Longrightarrow> 0 < b \<Longrightarrow> go_rem a b = a mod b"
    by (simp add: go_rem_def minus_mult_div_eq_mod)
qed

definition defaultBatchSize :: int where "defaultBatchSize = 10"

definition policy_batch_size :: "trigger \<Rightarrow> int" where
  "policy_batch_size tg =
     (case tg_batch_policy tg of
        Some b \<Rightarrow> if bp_batch_size b \<noteq> 0 then bp_batch_size b else defaultBatchSize
      | None \<Rightarrow> defaultBatchSize)"

definition numOfBatches :: "int \<Rightarrow> int \<Rightarrow> int" where
  "numOfBatches len batchSize =
     (if len > 0 then
        if go_rem len batchSize = 0 then go_quot len batchSize else go_quot len batchSize + 1
      else 1)"

text \<open>The loop over \<open>i\<close>; a slice with its bounds reversed and an index out of range panic.\<close>

function fill_batches :: "int \<Rightarrow> 'a list \<Rightarrow> int \<Rightarrow> 'a list list \<Rightarrow> 'a list list outcome" where
  "fill_batches bsz keys i batches =
     (if i < int (length keys) then
        let hi = (if i + bsz \<le> int (length keys) then i + bsz else int (length keys));
            at = go_quot i bsz in
        if bsz = 0 \<or> hi < i \<or> i < 0 then Panicked
        else if at < 0 \<or> int (length batches) \<le> at then Panicked
        else fill_batches bsz keys (i + bsz)
               (batches[nat at := take (nat (hi - i)) (drop (nat i) keys)])
      else Returned batches)"
  by pat_completeness auto
termination
  by (relation "measure (\<lambda>(bsz, keys, i, batches). nat (int (length keys) - i))") (auto split: if_splits)

declare fill_batches.simps [simp del]

definition make_batches :: "int \<Rightarrow> 'a list \<Rightarrow> 'a list list outcome" where
  "make_batches bsz keys =
     (let n = numOfBatches (int (length keys)) bsz in
      if n < 0 then Panicked else fill_batches bsz keys 0 (replicate (nat n) []))"

text \<open>The division of a list into pieces of a given bsz.\<close>

function chunks :: "nat \<Rightarrow> 'a list \<Rightarrow> 'a list list" where
  "chunks n xs = (if n = 0 \<or> xs = [] then [] else take n xs # chunks n (drop n xs))"
  by pat_completeness auto
termination by (relation "measure (\<lambda>(n, xs). length xs)") (auto simp: not_less_eq_eq)

declare chunks.simps [simp del]

lemma chunks_Nil [simp]: "chunks n [] = []"
  by (simp add: chunks.simps)

lemma concat_chunks: "0 < n \<Longrightarrow> concat (chunks n xs) = xs"
  by (induction n xs rule: chunks.induct) (subst chunks.simps, auto)

lemma chunk_sizes: "0 < n \<Longrightarrow> c \<in> set (chunks n xs) \<Longrightarrow> c \<noteq> [] \<and> length c \<le> n"
proof (induction n xs rule: chunks.induct)
  case (1 n xs)
  then show ?case by (auto simp: chunks.simps [of n xs] split: if_splits)
qed

lemma full_chunks: "0 < n \<Longrightarrow> Suc k < length (chunks n xs) \<Longrightarrow> length (chunks n xs ! k) = n"
proof (induction n xs arbitrary: k rule: chunks.induct)
  case (1 n xs)
  have unfold: "chunks n xs = (if n = 0 \<or> xs = [] then [] else take n xs # chunks n (drop n xs))"
    by (rule chunks.simps)
  show ?case
  proof (cases k)
    case 0
    with 1(2,3) unfold have "chunks n (drop n xs) \<noteq> []" by (auto split: if_splits)
    then have "n < length xs" by (auto simp: chunks.simps [of n "drop n xs"] split: if_splits)
    with 0 1(2) unfold show ?thesis by auto
  next
    case (Suc j)
    with 1 unfold show ?thesis by (auto split: if_splits)
  qed
qed

lemma length_chunks:
  "0 < n \<Longrightarrow> length (chunks n xs) = length xs div n + (if length xs mod n = 0 then 0 else 1)"
proof (induction n xs rule: chunks.induct)
  case (1 n xs)
  show ?case
  proof (cases "xs = []")
    case False
    with 1 have step: "length (chunks n xs) =
        Suc ((length xs - n) div n + (if (length xs - n) mod n = 0 then 0 else 1))"
      by (subst chunks.simps) simp
    show ?thesis
    proof (cases "n \<le> length xs")
      case True
      with step 1(2) show ?thesis by (simp add: le_div_geq le_mod_geq)
    next
      case less: False
      with step 1(2) False show ?thesis by simp
    qed
  qed simp
qed

text \<open>With a positive size the loop computes the chunks, with a negative one it panics.\<close>

lemma fill_batches_end:
  "length keys \<le> k \<Longrightarrow> fill_batches bsz keys (int k) batches = Returned batches"
  by (simp add: fill_batches.simps)

lemma fill_batches_step:
  assumes "0 < n" "k < length keys" "k div n < length batches"
  shows "fill_batches (int n) keys (int k) batches =
    fill_batches (int n) keys (int (k + n)) (batches[k div n := take n (drop k keys)])"
proof -
  let ?hi = "if int k + int n \<le> int (length keys) then int k + int n else int (length keys)"
  have "take (nat (?hi - int k)) (drop k keys) = take n (drop k keys)"
    by (auto simp: nat_diff_distrib)
  moreover have "go_quot (int k) (int n) = int (k div n)"
    using assms(1) by (simp add: zdiv_int)
  ultimately show ?thesis
    using assms by (subst fill_batches.simps) (auto simp: Let_def)
qed

lemma fill_batches_chunks:
  assumes "0 < n" "length (chunks n (drop (m * n) keys)) = r" "length filled = m"
  shows "fill_batches (int n) keys (int (m * n)) (filled @ replicate r []) =
    Returned (filled @ chunks n (drop (m * n) keys))"
  using assms
proof (induction r arbitrary: m filled)
  case 0
  then have "length keys \<le> m * n" by (simp add: chunks.simps [of n] split: if_splits)
  with 0 show ?case by (simp only: fill_batches_end) simp
next
  case (Suc r)
  let ?rest = "drop (m * n) keys"
  have "?rest \<noteq> []" using Suc(3) by auto
  then have k: "m * n < length keys" by simp
  have rest: "chunks n ?rest = take n ?rest # chunks n (drop (Suc m * n) keys)"
    using k Suc(2) by (simp add: chunks.simps [of n ?rest] add.commute)
  have upd: "(filled @ replicate (Suc r) [])[m := take n ?rest] = (filled @ [take n ?rest]) @ replicate r []"
    using Suc(4) by (simp add: list_update_append)
  have "fill_batches (int n) keys (int (m * n)) (filled @ replicate (Suc r) []) =
      fill_batches (int n) keys (int (m * n + n)) ((filled @ [take n ?rest]) @ replicate r [])"
    using fill_batches_step [OF Suc(2) k, of "filled @ replicate (Suc r) []"] Suc(2,4) upd by simp
  also have "m * n + n = Suc m * n" by simp
  also have "fill_batches (int n) keys (int (Suc m * n)) ((filled @ [take n ?rest]) @ replicate r []) =
      Returned ((filled @ [take n ?rest]) @ chunks n (drop (Suc m * n) keys))"
    by (rule Suc.IH) (use Suc(2-4) rest in auto)
  finally show ?case by (simp add: rest)
qed

lemma make_batches_chunks:
  assumes "0 < n" "keys \<noteq> []"
  shows "make_batches (int n) keys = Returned (chunks n keys)"
proof -
  have "numOfBatches (int (length keys)) (int n) = int (length (chunks n keys))"
    using assms by (simp add: numOfBatches_def length_chunks zdiv_int [symmetric] zmod_int [symmetric])
  with fill_batches_chunks [OF assms(1), of 0 keys _ "[]"] show ?thesis
    by (simp add: make_batches_def)
qed

lemma make_batches_negative:
  assumes "bsz < 0" "keys \<noteq> []"
  shows "make_batches bsz keys = Panicked"
  using assms by (simp add: make_batches_def Let_def fill_batches.simps [of bsz keys 0])

section \<open>Times of a backfill\<close>

text \<open>
  The cron library parses an expression into the function that gives the next time strictly after
  a given one, in nanoseconds. The loop of the code may run for ever, so it is partial:
  \<open>None\<close> stands for not returning. \<open>fires\<close> is what the library documents of a schedule
  that fires at the times \<open>S\<close>.
\<close>

type_synonym cron_lib = "string \<Rightarrow> string + (int \<Rightarrow> int)"

definition fires :: "int set \<Rightarrow> (int \<Rightarrow> int) \<Rightarrow> bool" where
  "fires S Next \<longleftrightarrow> (\<forall>t. Next t \<in> S \<and> t < Next t \<and> (\<forall>x\<in>S. t < x \<longrightarrow> Next t \<le> x))"

partial_function (option) run_timestamps :: "(int \<Rightarrow> int) \<Rightarrow> int \<Rightarrow> int \<Rightarrow> int list option" where
  "run_timestamps Next end_ts t =
     (if t \<le> end_ts
      then Option.bind (run_timestamps Next end_ts (Next t)) (\<lambda>rest. Some (t # rest))
      else Some [])"

definition calculateBackfillRunTimestamps :: "cron_lib \<Rightarrow> trigger_run \<Rightarrow> (string + int list) option" where
  "calculateBackfillRunTimestamps cron run =
     (case ts_start (tr_spec run) of
        None \<Rightarrow> Some (Inl ''timestamp: nil Timestamp'')
      | Some start \<Rightarrow>
     (case ts_end (tr_spec run) of
        None \<Rightarrow> Some (Inl ''timestamp: nil Timestamp'')
      | Some end_ts \<Rightarrow>
     (case GetCronSchedule (ts_trigger (tr_spec run)) of
        None \<Rightarrow> Some (Inl ''cron and interval schedule cannot be empty'')
      | Some cronExp \<Rightarrow>
     (case cron cronExp of
        Inl err \<Rightarrow> Some (Inl (''failed to parse cron schedule in original trigger run: '' @ err))
      | Inr Next \<Rightarrow>
          let nextRun = Next start; previousOne = nextRun - (Next nextRun - nextRun) in
          map_option (\<lambda>ts. Inr ((if previousOne = start then [start] else []) @ ts))
            (run_timestamps Next end_ts nextRun)))))"

lemma run_timestamps_covers:
  assumes "fires S Next" "t \<in> S"
  shows "\<exists>ts. run_timestamps Next end_ts t = Some ts \<and> set ts = {x \<in> S. t \<le> x \<and> x \<le> end_ts} \<and>
    sorted_wrt (<) ts"
  using assms(2)
proof (induction "nat (end_ts - t + 1)" arbitrary: t rule: less_induct)
  case less
  show ?case
  proof (cases "t \<le> end_ts")
    case False
    then show ?thesis by (subst run_timestamps.simps) auto
  next
    case True
    from assms(1) have n: "Next t \<in> S" "t < Next t" "\<And>x. x \<in> S \<Longrightarrow> t < x \<Longrightarrow> Next t \<le> x"
      by (auto simp: fires_def)
    have "nat (end_ts - Next t + 1) < nat (end_ts - t + 1)" using n(2) True by simp
    from less(1) [OF this n(1)] obtain ts where ts: "run_timestamps Next end_ts (Next t) = Some ts"
      "set ts = {x \<in> S. Next t \<le> x \<and> x \<le> end_ts}" "sorted_wrt (<) ts" by blast
    have "{x \<in> S. t \<le> x \<and> x \<le> end_ts} = insert t {x \<in> S. Next t \<le> x \<and> x \<le> end_ts}"
      using True n less(2) by (force simp: order_le_less)
    with ts n(2) True show ?thesis
      by (subst run_timestamps.simps) auto
  qed
qed

text \<open>A schedule that never fires: the library answers with the zero time, and the loop never ends.\<close>

lemma run_timestamps_diverges:
  assumes "Next t = t" "t \<le> end_ts"
  shows "run_timestamps Next end_ts t = None"
proof (rule ccontr)
  assume "run_timestamps Next end_ts t \<noteq> None"
  then obtain ts where ts: "run_timestamps Next end_ts t = Some ts" by blast
  then have "run_timestamps Next end_ts t = Some (t # ts)"
    using assms by (subst run_timestamps.simps) simp
  with ts show False by simp
qed

section \<open>Generators\<close>

text \<open>A nil trigger is dereferenced. The maps are ranged over in any order and the result sorted.\<close>

definition cron_GenerateBatchParams :: "trigger_run \<Rightarrow> params list list outcome" where
  "cron_GenerateBatchParams run =
     (case ts_trigger (tr_spec run) of
        None \<Rightarrow> Panicked
      | Some tg \<Rightarrow>
          if tg_parameters tg = [] then Returned [[cron_param '''']]
          else make_batches (policy_batch_size tg)
                 (sortParams (map (\<lambda>(k, _). cron_param k) (tg_parameters tg))))"

definition cron_GenerateConcurrentParams :: "trigger_run \<Rightarrow> params list outcome" where
  "cron_GenerateConcurrentParams run =
     (case ts_trigger (tr_spec run) of
        None \<Rightarrow> Panicked
      | Some tg \<Rightarrow> Returned (sortParams (map (\<lambda>(k, _). cron_param k) (tg_parameters tg))))"

definition backfill_keys :: "trigger \<Rightarrow> int list \<Rightarrow> params list" where
  "backfill_keys tg timestamps =
     concat (map (\<lambda>t. map (\<lambda>(k, _). backfill_param t k) (tg_parameters tg)) timestamps)"

definition empty_param :: params where
  "empty_param = \<lparr>pm_id = '''', pm_time = None, pm_backfill_id = ''''\<rparr>"

definition backfill_GenerateBatchParams ::
    "cron_lib \<Rightarrow> trigger_run \<Rightarrow> (string + params list list) outcome option" where
  "backfill_GenerateBatchParams cron run =
     map_option (\<lambda>r. case r of
         Inl err \<Rightarrow> Returned (Inl err)
       | Inr timestamps \<Rightarrow>
           (case ts_trigger (tr_spec run) of
              None \<Rightarrow> Panicked
            | Some tg \<Rightarrow>
                if backfill_keys tg timestamps = [] then Returned (Inr [[empty_param]])
                else (case make_batches (policy_batch_size tg) (sortParams (backfill_keys tg timestamps)) of
                        Panicked \<Rightarrow> Panicked
                      | Returned bs \<Rightarrow> Returned (Inr bs))))
       (calculateBackfillRunTimestamps cron run)"

definition backfill_GenerateConcurrentParams ::
    "cron_lib \<Rightarrow> trigger_run \<Rightarrow> (string + params list) outcome option" where
  "backfill_GenerateConcurrentParams cron run =
     map_option (\<lambda>r. case r of
         Inl err \<Rightarrow> Returned (Inl err)
       | Inr timestamps \<Rightarrow>
           (case ts_trigger (tr_spec run) of
              None \<Rightarrow> Panicked
            | Some tg \<Rightarrow> Returned (Inr (sortParams (backfill_keys tg timestamps)))))
       (calculateBackfillRunTimestamps cron run)"

text \<open>\<^verbatim>\<open>GetParameterGenerator\<close> with the call of the activity: backfill for backfills, cron for the rest.\<close>

definition GenerateBatchRunParams ::
    "cron_lib \<Rightarrow> trigger_run \<Rightarrow> (string + params list list) outcome option" where
  "GenerateBatchRunParams cron run =
     (if GetTriggerType run = TypeBackfill then backfill_GenerateBatchParams cron run
      else Some (case cron_GenerateBatchParams run of Panicked \<Rightarrow> Panicked | Returned bs \<Rightarrow> Returned (Inr bs)))"

definition GenerateConcurrentRunParams ::
    "cron_lib \<Rightarrow> trigger_run \<Rightarrow> (string + params list) outcome option" where
  "GenerateConcurrentRunParams cron run =
     (if GetTriggerType run = TypeBackfill then backfill_GenerateConcurrentParams cron run
      else Some (case cron_GenerateConcurrentParams run of Panicked \<Rightarrow> Panicked | Returned ps \<Rightarrow> Returned (Inr ps)))"

section \<open>Properties\<close>

text \<open>
  C32. A backfill covers its window exactly. If the schedule fires at the times \<open>S\<close>, the computation
  returns, and yields in increasing order every time of \<open>S\<close> after the start up to the end, and
  nothing else but possibly the start; the start is included exactly if the schedule's next two
  times lie as far apart as the start and the next, whether or not it is in \<open>S\<close>.
\<close>

theorem backfill_covers_the_window:
  assumes "ts_start (tr_spec run) = Some start" "ts_end (tr_spec run) = Some end_ts"
    and "GetCronSchedule (ts_trigger (tr_spec run)) = Some cronExp" "cron cronExp = Inr Next"
    and "fires S Next"
  shows "\<exists>ts. calculateBackfillRunTimestamps cron run = Some (Inr ts) \<and> sorted_wrt (<) ts \<and>
    set ts = {x \<in> S. start < x \<and> x \<le> end_ts} \<union>
      (if Next (Next start) - Next start = Next start - start then {start} else {})"
proof -
  have n: "Next start \<in> S" "start < Next start" "\<And>x. x \<in> S \<Longrightarrow> start < x \<Longrightarrow> Next start \<le> x"
    using assms(5) by (auto simp: fires_def)
  from run_timestamps_covers [OF assms(5) n(1)] obtain ts where
    ts: "run_timestamps Next end_ts (Next start) = Some ts"
    "set ts = {x \<in> S. Next start \<le> x \<and> x \<le> end_ts}" "sorted_wrt (<) ts" by blast
  have window: "{x \<in> S. Next start \<le> x \<and> x \<le> end_ts} = {x \<in> S. start < x \<and> x \<le> end_ts}"
    using n by force
  let ?pre = "if Next start - (Next (Next start) - Next start) = start then [start] else []"
  have "calculateBackfillRunTimestamps cron run = Some (Inr (?pre @ ts))"
    using assms(1-4) ts(1) by (simp add: calculateBackfillRunTimestamps_def Let_def)
  moreover have "sorted_wrt (<) (?pre @ ts)" using ts n(2) by auto
  moreover have "set (?pre @ ts) = {x \<in> S. start < x \<and> x \<le> end_ts} \<union>
      (if Next (Next start) - Next start = Next start - start then {start} else {})"
    using ts(2) window by auto
  ultimately show ?thesis by blast
qed

definition expected_params :: "cron_lib \<Rightarrow> trigger_run \<Rightarrow> params multiset" where
  "expected_params cron run =
     (let ks = (case ts_trigger (tr_spec run) of None \<Rightarrow> [] | Some tg \<Rightarrow> map fst (tg_parameters tg)) in
      if GetTriggerType run = TypeBackfill
      then (case calculateBackfillRunTimestamps cron run of
              Some (Inr ts) \<Rightarrow> mset (concat (map (\<lambda>t. map (backfill_param t) ks) ts)) | _ \<Rightarrow> {#})
      else mset (map cron_param ks))"

lemma distinct_of_count: "mset xs = M \<Longrightarrow> (\<And>p. count M p \<le> 1) \<Longrightarrow> distinct xs"
proof -
  assume M: "mset xs = M" and le: "\<And>p. count M p \<le> 1"
  have "count (mset xs) a = (if a \<in> set xs then 1 else 0)" for a
    using le [of a] M count_greater_zero_iff [of M a] by (auto simp: not_in_iff dest: le_antisym)
  then show "distinct xs" by (simp add: distinct_count_atmost_1)
qed

lemma batches_partition_the_runs_facts:
  assumes "GenerateBatchRunParams cron run = Some (Returned (Inr bs))"
    and "ts_trigger (tr_spec run) = Some tg"
    and "policy_batch_size tg = int n" "0 < n"
    and "expected_params cron run \<noteq> {#}"
  shows "mset (concat bs) = expected_params cron run"
    and "(\<And>p. count (expected_params cron run) p \<le> 1) \<Longrightarrow> sorted_wrt param_less (concat bs)"
    and "\<forall>b\<in>set bs. b \<noteq> [] \<and> length b \<le> n"
    and "\<And>k. Suc k < length bs \<Longrightarrow> length (bs ! k) = n"
proof -
  have backfill: "concat (map (\<lambda>t. map (backfill_param t) (map fst (tg_parameters tg))) ts) = backfill_keys tg ts" for ts
    by (simp add: backfill_keys_def comp_def split_def)
  have cron: "map cron_param (map fst (tg_parameters tg)) = map (\<lambda>(k, _). cron_param k) (tg_parameters tg)"
    by (simp add: comp_def split_def)
  obtain keys where keys: "bs = chunks n (sortParams keys)" "mset keys = expected_params cron run" "uniform keys"
  proof (cases "GetTriggerType run = TypeBackfill")
    case True
    with assms(5) obtain ts where ts: "calculateBackfillRunTimestamps cron run = Some (Inr ts)"
      by (auto simp: expected_params_def split: option.splits sum.splits)
    have ex: "expected_params cron run = mset (backfill_keys tg ts)"
      using True assms(2) ts by (simp only: expected_params_def Let_def option.case sum.case backfill refl if_True)
    with assms(5) have ne: "backfill_keys tg ts \<noteq> []" by auto
    then have "sortParams (backfill_keys tg ts) \<noteq> []" by (metis length_0_conv length_sortParams)
    with assms(1,2,3,4) True ts ne have "bs = chunks n (sortParams (backfill_keys tg ts))"
      by (simp add: GenerateBatchRunParams_def backfill_GenerateBatchParams_def make_batches_chunks)
    moreover have "uniform (backfill_keys tg ts)" by (auto simp: uniform_def backfill_keys_def)
    ultimately show thesis
      by (intro that [of "backfill_keys tg ts"]) (use ex in auto)
  next
    case False
    let ?keys = "map (\<lambda>(k, _). cron_param k) (tg_parameters tg)"
    have ex: "expected_params cron run = mset ?keys"
      using False assms(2) by (simp only: expected_params_def Let_def option.case cron if_False)
    with assms(5) have ne: "tg_parameters tg \<noteq> []" by auto
    then have "sortParams ?keys \<noteq> []" by (metis length_0_conv length_map length_sortParams)
    with assms(1,2,3,4) False ne have "bs = chunks n (sortParams ?keys)"
      by (simp add: GenerateBatchRunParams_def cron_GenerateBatchParams_def make_batches_chunks)
    moreover have "uniform ?keys" by (auto simp: uniform_def)
    ultimately show thesis by (intro that [of ?keys]) (use ex in auto)
  qed
  show "mset (concat bs) = expected_params cron run"
    using keys(1,2) assms(4) by (simp add: concat_chunks)
  show "(\<And>p. count (expected_params cron run) p \<le> 1) \<Longrightarrow> sorted_wrt param_less (concat bs)"
    using keys(1,3) distinct_of_count [OF keys(2)] assms(4) sorted_sortParams by (simp add: concat_chunks)
  show "\<forall>b\<in>set bs. b \<noteq> [] \<and> length b \<le> n"
    using keys(1) chunk_sizes [OF assms(4)] by blast
  show "\<And>k. Suc k < length bs \<Longrightarrow> length (bs ! k) = n"
    using keys(1) full_chunks [OF assms(4)] by blast
qed

text \<open>
  C33. Batches partition the runs of a trigger. With a positive batch size, what the activity returns
  holds each combination of parameter set and time exactly once, whatever the order in which the
  map was ranged over, in the order of time and then id; no batch is empty or too large, and all
  but the last are full.
\<close>

theorem batches_partition_the_runs:
  assumes "GenerateBatchRunParams cron run = Some (Returned (Inr bs))"
    and "ts_trigger (tr_spec run) = Some tg"
    and "policy_batch_size tg = int n" "0 < n"
    and "expected_params cron run \<noteq> {#}"
  shows "mset (concat bs) = expected_params cron run \<and>
    ((\<forall>p. count (expected_params cron run) p \<le> 1) \<longrightarrow> sorted_wrt param_less (concat bs)) \<and>
    (\<forall>b\<in>set bs. b \<noteq> [] \<and> length b \<le> n) \<and>
    (\<forall>k. Suc k < length bs \<longrightarrow> length (bs ! k) = n)"
  using batches_partition_the_runs_facts [OF assms] by blast

text \<open>A negative batch size panics as soon as there are parameters, and a schedule that never fires
  makes the computation of the times run for ever.\<close>

lemma negative_batch_size_panics:
  assumes "ts_trigger (tr_spec run) = Some tg" "policy_batch_size tg < 0" "tg_parameters tg \<noteq> []"
    "GetTriggerType run \<noteq> TypeBackfill"
  shows "GenerateBatchRunParams cron run = Some Panicked"
proof -
  have "sortParams (map (\<lambda>(k, _). cron_param k) (tg_parameters tg)) \<noteq> []"
    using assms(3) by (metis length_0_conv length_map length_sortParams)
  with assms show ?thesis
    by (simp add: GenerateBatchRunParams_def cron_GenerateBatchParams_def make_batches_negative)
qed

lemma silent_schedule_loops:
  assumes "ts_start (tr_spec run) = Some start" "ts_end (tr_spec run) = Some end_ts"
    and "GetCronSchedule (ts_trigger (tr_spec run)) = Some cronExp" "cron cronExp = Inr Next"
    and "\<And>t. Next t = zero" "zero \<le> end_ts"
  shows "calculateBackfillRunTimestamps cron run = None"
  using assms run_timestamps_diverges [of Next zero end_ts]
  by (simp add: calculateBackfillRunTimestamps_def Let_def)

text \<open>An irregular schedule: it fires in the first two of every ten units. A start at which it fires
  is left out, and one at which it does not is included.\<close>

definition two_in_ten :: "int \<Rightarrow> int" where
  "two_in_ten t = (if t mod 10 = 0 then t + 1 else t - t mod 10 + 10)"

lemma two_in_ten_fires: "fires {x. x mod 10 \<in> {0, 1}} two_in_ten"
proof -
  have "two_in_ten t mod 10 \<in> {0, 1}" "t < two_in_ten t" for t
    unfolding two_in_ten_def by (auto; presburger)+
  moreover have "two_in_ten t \<le> x" if "x mod 10 = 0 \<or> x mod 10 = 1" "t < x" for t x
    using that unfolding two_in_ten_def by (auto; presburger)
  ultimately show ?thesis by (auto simp: fires_def)
qed

lemma irregular_schedules_miscount:
  "(11 :: int) \<in> {x. x mod 10 \<in> {0, 1}} \<and> two_in_ten (two_in_ten 11) - two_in_ten 11 \<noteq> two_in_ten 11 - 11"
  "(19 :: int) \<notin> {x. x mod 10 \<in> {0, 1}} \<and> two_in_ten (two_in_ten 19) - two_in_ten 19 = two_in_ten 19 - 19"
  by (simp_all add: two_in_ten_def)

section \<open>Witnesses\<close>

definition example_batches :: trigger where
  "example_batches =
     \<lparr>tg_type = Some (CronSchedule ''c''),
      tg_parameters = [(''q'', \<lparr>ep_parameter_map = None, ep_workflow_config = None, ep_task_configs = None,
        ep_environ = None, ep_args = None, ep_kw_args = None\<rparr>)],
      tg_batch_policy = Some \<lparr>bp_batch_size = 2, bp_wait = None\<rparr>, tg_max_concurrency = 0,
      tg_proxy_user = ''''\<rparr>"

definition example_window :: trigger_run where
  "example_window =
     \<lparr>om_namespace = ''ns'', om_name = ''b'', om_uid = ''u'', om_generation = 1,
      om_creation_ts = Some 0, om_deletion_ts = None, om_labels = None, om_annotations = None,
      om_finalizers = [], om_owner_refs = [],
      tr_spec = \<lparr>ts_pipeline = Some (''ns'', ''p''), ts_revision = None,
        ts_trigger = Some example_batches,
        ts_actor = None, ts_kill = False, ts_start = Some 5, ts_end = Some 21,
        ts_source_trigger_name = '''', ts_auto_flip = False, ts_notifications = None,
        ts_action = NO_ACTION\<rparr>,
      tr_status = empty_status\<rparr>"

lemma backfill_covers_the_window_witness:
  "\<exists>ts. calculateBackfillRunTimestamps (\<lambda>_. Inr two_in_ten) example_window = Some (Inr ts) \<and>
     set ts = {x. x mod 10 \<in> {0, 1} \<and> 5 < x \<and> x \<le> 21}"
proof -
  have "two_in_ten (two_in_ten 5) - two_in_ten 5 \<noteq> two_in_ten 5 - 5" by (simp add: two_in_ten_def)
  with backfill_covers_the_window [OF _ _ _ _ two_in_ten_fires, of example_window 5 21 "''c''" "\<lambda>_. Inr two_in_ten"]
  show ?thesis by (auto simp: example_window_def example_batches_def GetCronSchedule_def)
qed

lemma batches_partition_the_runs_witness:
  "let cron = (\<lambda>_. Inr two_in_ten);
       ps = [backfill_param 10 ''q'', backfill_param 11 ''q'', backfill_param 20 ''q'', backfill_param 21 ''q''] in
   \<exists>bs. GenerateBatchRunParams cron example_window = Some (Returned (Inr bs)) \<and>
     mset (concat bs) = mset ps \<and> (\<forall>b\<in>set bs. b \<noteq> [] \<and> length b \<le> 2)"
proof -
  let ?cron = "\<lambda>_. Inr two_in_ten" and ?tg = "example_batches"
  let ?ps = "[backfill_param 10 ''q'', backfill_param 11 ''q'', backfill_param 20 ''q'', backfill_param 21 ''q'']"
  have stop: "run_timestamps two_in_ten 21 30 = Some []" by (subst run_timestamps.simps) simp
  have "run_timestamps two_in_ten 21 21 = Some [21]"
    by (subst run_timestamps.simps) (simp add: two_in_ten_def stop)
  then have "run_timestamps two_in_ten 21 20 = Some [20, 21]"
    by (subst run_timestamps.simps) (simp add: two_in_ten_def)
  then have "run_timestamps two_in_ten 21 11 = Some [11, 20, 21]"
    by (subst run_timestamps.simps) (simp add: two_in_ten_def)
  then have "run_timestamps two_in_ten 21 10 = Some [10, 11, 20, 21]"
    by (subst run_timestamps.simps) (simp add: two_in_ten_def)
  then have times: "calculateBackfillRunTimestamps ?cron example_window = Some (Inr [10, 11, 20, 21])"
    by (simp add: calculateBackfillRunTimestamps_def example_window_def example_batches_def GetCronSchedule_def two_in_ten_def Let_def)
  have tg: "ts_trigger (tr_spec example_window) = Some ?tg" "policy_batch_size ?tg = int 2"
    "GetTriggerType example_window = TypeBackfill" "map fst (tg_parameters ?tg) = [''q'']"
    by (simp_all add: example_window_def example_batches_def policy_batch_size_def GetTriggerType_def Let_def)
  have ex: "expected_params ?cron example_window = mset ?ps"
    using times tg by (simp add: expected_params_def Let_def)
  have keys: "backfill_keys ?tg [10, 11, 20, 21] = ?ps"
    using tg(4) by (auto simp: backfill_keys_def example_batches_def)
  have "sortParams ?ps \<noteq> []" by (metis length_0_conv length_sortParams list.distinct(1))
  then have "GenerateBatchRunParams ?cron example_window = Some (Returned (Inr (chunks 2 (sortParams ?ps))))"
    using times tg keys make_batches_chunks [of 2 "sortParams ?ps"]
    by (simp add: GenerateBatchRunParams_def backfill_GenerateBatchParams_def)
  from batches_partition_the_runs [OF this tg(1,2)] ex this show ?thesis by (simp add: Let_def)
qed

end
