(* ===== verification/Trigger_Workflow.thy ===== *)
theory Trigger_Workflow
  imports Trigger_Params "HOL-Library.AList"
begin

text \<open>
  The workflows a trigger runs on the engine (\<^verbatim>\<open>go/worker/workflows/trigger\<close>) and their activities
  (\<^verbatim>\<open>go/worker/activities/trigger/trigger_activities.go\<close>): the request for one pipeline run, the
  previous time of its schedule, batches one after another, and a bounded number of runs at a
  time. Random names and the clock are the environment's.
\<close>

section \<open>Previous scheduled time\<close>

text \<open>The loop may run for ever: \<open>None\<close> stands for not returning.\<close>

partial_function (option) last_before :: "(int \<Rightarrow> int) \<Rightarrow> int \<Rightarrow> int \<Rightarrow> int option" where
  "last_before Next ts prev =
     (if \<not> Next prev < ts then Some prev else last_before Next ts (Next prev))"

definition prevScheduledTime :: "cron_lib \<Rightarrow> trigger option \<Rightarrow> int \<Rightarrow> int option option" where
  "prevScheduledTime cron t ts =
     (case Option.bind t tg_type of
        Some (IntervalSchedule None) \<Rightarrow> Some None
      | Some (IntervalSchedule (Some (secs, nanos))) \<Rightarrow>
          let interval = seconds secs + nanos in
          if interval \<le> 0 then Some None else Some (Some (ts - interval))
      | Some (CronSchedule c) \<Rightarrow>
          if c = '''' then Some None
          else (case cron c of
                  Inl err \<Rightarrow> Some None
                | Inr Next \<Rightarrow>
                    let approxPeriod = Next ts - ts; candidate = Next (ts - 2 * approxPeriod) in
                    if \<not> candidate < ts then Some None
                    else map_option Some (last_before Next ts candidate))
      | _ \<Rightarrow> Some None)"

lemma last_before_finds:
  assumes "fires S Next" "c \<in> S" "c < ts"
  shows "\<exists>p. last_before Next ts c = Some p \<and> p \<in> S \<and> p < ts \<and> (\<forall>x\<in>S. x < ts \<longrightarrow> x \<le> p)"
  using assms(2,3)
proof (induction "nat (ts - c)" arbitrary: c rule: less_induct)
  case less
  from assms(1) have n: "Next c \<in> S" "c < Next c" "\<And>x. x \<in> S \<Longrightarrow> c < x \<Longrightarrow> Next c \<le> x"
    by (auto simp: fires_def)
  show ?case
  proof (cases "Next c < ts")
    case True
    have "nat (ts - Next c) < nat (ts - c)" using n(2) less(3) by simp
    from less(1) [OF this n(1) True] True show ?thesis by (subst last_before.simps) simp
  next
    case False
    then have "\<forall>x\<in>S. x < ts \<longrightarrow> x \<le> c" using n(3) by force
    with False less(2,3) show ?thesis by (subst last_before.simps) auto
  qed
qed

text \<open>
  The time handed to a run as its previous schedule is the right one. If the schedule fires at
  the times \<open>S\<close>, the search ends; the time it finds is the last one of \<open>S\<close> before the execution,
  and it finds none only if none lies within two periods (of the length of the current one)
  before it.
\<close>

theorem previous_schedule_is_the_last_before:
  assumes "t = Some tg" "tg_type tg = Some (CronSchedule c)" "c \<noteq> ''''" "cron c = Inr Next" "fires S Next"
  shows "case prevScheduledTime cron t ts of
      None \<Rightarrow> False
    | Some None \<Rightarrow> \<forall>x\<in>S. x < ts \<longrightarrow> x \<le> ts - 2 * (Next ts - ts)
    | Some (Some p) \<Rightarrow> p \<in> S \<and> p < ts \<and> (\<forall>x\<in>S. x < ts \<longrightarrow> x \<le> p)"
proof -
  let ?c = "Next (ts - 2 * (Next ts - ts))"
  from assms(5) have c: "?c \<in> S" "\<And>x. x \<in> S \<Longrightarrow> ts - 2 * (Next ts - ts) < x \<Longrightarrow> ?c \<le> x"
    by (auto simp: fires_def)
  show ?thesis
  proof (cases "?c < ts")
    case False
    then have "prevScheduledTime cron t ts = Some None"
      using assms(1-4) by (simp add: prevScheduledTime_def Let_def)
    moreover have "\<forall>x\<in>S. x < ts \<longrightarrow> x \<le> ts - 2 * (Next ts - ts)" using False c(2) by force
    ultimately show ?thesis by simp
  next
    case True
    from last_before_finds [OF assms(5) c(1) True] obtain p where
      p: "last_before Next ts ?c = Some p" "p \<in> S" "p < ts" "\<forall>x\<in>S. x < ts \<longrightarrow> x \<le> p" by blast
    then have "prevScheduledTime cron t ts = Some (Some p)"
      using assms(1-4) True by (simp add: prevScheduledTime_def Let_def)
    with p show ?thesis by simp
  qed
qed

lemma previous_schedule_is_the_last_before_witness:
  "case prevScheduledTime (\<lambda>_. Inr two_in_ten) (Some example_batches) 20 of
      None \<Rightarrow> False
    | Some None \<Rightarrow> \<forall>x\<in>{x. x mod 10 \<in> {0, 1}}. x < 20 \<longrightarrow> x \<le> 20 - 2 * (two_in_ten 20 - 20)
    | Some (Some p) \<Rightarrow> p \<in> {x. x mod 10 \<in> {0, 1}} \<and> p < 20 \<and> (\<forall>x\<in>{x. x mod 10 \<in> {0, 1}}. x < 20 \<longrightarrow> x \<le> p)"
  by (rule previous_schedule_is_the_last_before [OF refl _ _ _ two_in_ten_fires, of _ "''c''"])
    (simp_all add: example_batches_def)

text \<open>With a schedule whose gaps differ the search may start too late and find nothing.\<close>

lemma previous_schedule_can_be_missed:
  "prevScheduledTime (\<lambda>_. Inr two_in_ten) (Some example_batches) 20 = Some None \<and> 11 mod 10 \<in> {0, 1 :: int}"
  by (simp add: prevScheduledTime_def example_batches_def two_in_ten_def)

section \<open>Requests\<close>

type_synonym labels = "string \<rightharpoonup> string"

definition TriggerredByLabel :: string where
  "TriggerredByLabel = ''pipelinerun.michelangelo/triggered-by''"
definition EnvironmentLabel :: string where
  "EnvironmentLabel = ''pipelinerun.michelangelo/environment''"
definition SourceTriggerLabel :: string where
  "SourceTriggerLabel = ''pipelinerun.michelangelo/source-trigger''"
definition ExecutionTimestampLabel :: string where
  "ExecutionTimestampLabel = ''pipelinerun.michelangelo/execution-timestamp''"
definition ParameterIDLabel :: string where
  "ParameterIDLabel = ''pipelinerun.michelangelo/parameter-id''"
definition PipelineManifestTypeLabel :: string where
  "PipelineManifestTypeLabel = ''pipeline.michelangelo/PipelineManifestType''"
definition PipelineNameLabel :: string where
  "PipelineNameLabel = ''pipelinerun.michelangelo/pipeline-name''"

lemmas trigger_labels =
  TriggerredByLabel_def EnvironmentLabel_def SourceTriggerLabel_def ExecutionTimestampLabel_def
  ParameterIDLabel_def PipelineManifestTypeLabel_def PipelineNameLabel_def

record run_request =
  rq_name :: string
  rq_namespace :: string
  rq_labels :: labels
  rq_annotations :: labels
  rq_pipeline :: "string \<times> string"
  rq_input :: "pstruct option"
  rq_actor :: "string option"
  rq_revision :: "(string \<times> string) option"
  rq_notifications :: "notification list option"

text \<open>The input for one parameter set; the order of the cases is the code's.\<close>

definition generateUniflowPRInput :: "execution_params \<Rightarrow> pstruct" where
  "generateUniflowPRInput dp =
     (if ep_workflow_config dp \<noteq> None \<or> ep_task_configs dp \<noteq> None then
        [(''workflow_config'', Some (PV_Struct (ep_workflow_config dp))),
         (''task_configs'', Some (PV_Struct (Some
            (case ep_task_configs dp of None \<Rightarrow> []
             | Some cs \<Rightarrow> map (\<lambda>(k, v). (k, Some (PV_Struct v))) cs))))]
      else if ep_environ dp \<noteq> None \<or> ep_kw_args dp \<noteq> None \<or> ep_args dp \<noteq> None then
        [(''environ'', Some (PV_Struct (Some
            (case ep_environ dp of None \<Rightarrow> []
             | Some es \<Rightarrow> map (\<lambda>(k, v). (k, Some (PV_String v))) es)))),
         (''args'', Some (PV_List (Some
            (case ep_args dp of None \<Rightarrow> [] | Some as \<Rightarrow> map (\<lambda>a. Some (PV_Struct a)) as)))),
         (''kw_args'', Some (PV_Struct (Some
            (case ep_kw_args dp of None \<Rightarrow> [] | Some kw \<Rightarrow> kw))))]
      else [])"

text \<open>The previous schedule goes into the environment, which is created when missing; any other
  value there is dereferenced as a struct.\<close>

definition LastScheduleKey :: string where "LastScheduleKey = ''LAST_SCHEDULE_TIMESTAMP''"

definition unix_seconds :: "int \<Rightarrow> string" where
  "unix_seconds ts = FormatInt (ts div 1000000000)"

definition with_last_schedule :: "int \<Rightarrow> pstruct option \<Rightarrow> pstruct outcome" where
  "with_last_schedule lastTs input =
     (let fs = (case input of None \<Rightarrow> [] | Some fs \<Rightarrow> fs);
          environ = (case map_of fs ''environ'' of
             Some (Some v) \<Rightarrow> v | _ \<Rightarrow> PV_Struct (Some [])) in
      (case environ of
         PV_Struct (Some es) \<Rightarrow>
           Returned (AList.update ''environ'' (Some (PV_Struct (Some
             (AList.update LastScheduleKey (Some (PV_String (unix_seconds lastTs))) es)))) fs)
       | _ \<Rightarrow> Panicked))"

definition request_labels :: "trigger_run \<Rightarrow> string \<Rightarrow> int \<Rightarrow> labels" where
  "request_labels run pipeline ts =
     [ExecutionTimestampLabel \<mapsto> unix_seconds ts, TriggerredByLabel \<mapsto> om_name run,
      SourceTriggerLabel \<mapsto> om_name run, PipelineNameLabel \<mapsto> pipeline,
      EnvironmentLabel \<mapsto> (case map_lookup (om_labels run) EnvironmentLabel of
         Some env \<Rightarrow> env | None \<Rightarrow> ''production'')]"

definition generatePipelineRunRequest ::
    "trigger_run \<Rightarrow> string \<Rightarrow> string \<Rightarrow> int \<Rightarrow> int option \<Rightarrow> (string + run_request) outcome" where
  "generatePipelineRunRequest run paramID name ts lastTs =
     (case (ts_pipeline (tr_spec run), ts_trigger (tr_spec run)) of
        (Some (pns, pname), Some tg) \<Rightarrow>
          let labels = request_labels run pname ts;
              paramsMap = tg_parameters tg in
          if paramsMap \<noteq> [] \<and> map_of paramsMap paramID = None then
            Returned (Inl (''invalid parameter id: '' @ paramID))
          else
            let labels = (if paramsMap \<noteq> [] then labels(ParameterIDLabel \<mapsto> paramID) else labels);
                input = (if paramsMap \<noteq> []
                   then map_option generateUniflowPRInput (map_of paramsMap paramID) else None) in
            (case (case lastTs of
                     None \<Rightarrow> Returned input
                   | Some l \<Rightarrow> (case with_last_schedule l input of
                       Panicked \<Rightarrow> Panicked | Returned fs \<Rightarrow> Returned (Some fs))) of
               Panicked \<Rightarrow> Panicked
             | Returned input \<Rightarrow>
                 Returned (Inr
                   \<lparr>rq_name = name, rq_namespace = om_namespace run,
                    rq_labels = labels(PipelineManifestTypeLabel \<mapsto>
                      map_index (om_labels run) PipelineManifestTypeLabel),
                    rq_annotations = [''michelangelo.uber.com/pipelinerun.engine'' \<mapsto> ''condition'',
                      ''michelangelo/UpdateTimestamp'' \<mapsto> unix_seconds ts,
                      ''michelangelo/SpecUpdateTimestamp'' \<mapsto> unix_seconds ts],
                    rq_pipeline = (pns, pname), rq_input = input,
                    rq_actor = map_option ui_name (ts_actor (tr_spec run)),
                    rq_revision = ts_revision (tr_spec run),
                    rq_notifications = (case ts_notifications (tr_spec run) of
                       Some (n # ns) \<Rightarrow> Some (n # ns) | _ \<Rightarrow> None)\<rparr>))
      | _ \<Rightarrow> Panicked)"

end
