(* ===== verification/Trigger_Batches.thy ===== *)
theory Trigger_Batches
  imports Trigger_Workflow
begin

text \<open>
  The execution of a trigger's workflow on the engine
  (\<^verbatim>\<open>go/worker/workflows/trigger/cron_trigger_workflows.go\<close>): the activities that create and
  watch a pipeline run, the retries the engine makes under the activities' options, one run
  (\<open>runPipeline\<close>), and the batches with their pauses (\<open>batchRun\<close>).
\<close>

section \<open>Activities\<close>

text \<open>An activity answers with an error's reason and message; a panic has the reason \<open>Panic\<close>.\<close>

type_synonym act_error = "string \<times> string"

text \<open>The error of the call and its response, which may be nil or hold a nil run.\<close>

type_synonym run_answer = "string option \<times> pipeline_run option option"

definition CreatePipelineRun :: "run_answer \<Rightarrow> (act_error + pipeline_run) outcome" where
  "CreatePipelineRun answer =
     (case answer of
        (None, Some (Some pr)) \<Rightarrow> Returned (Inr pr)
      | (None, _) \<Rightarrow> Panicked
      | (Some e, _) \<Rightarrow> Returned (Inl (''CreatePipelineRun'', e)))"

text \<open>The cropped copy keeps identification, specification without input, and the outcome.\<close>

definition cropPipelineRun :: "pipeline_run \<Rightarrow> pipeline_run" where
  "cropPipelineRun pr =
     \<lparr>om_namespace = om_namespace pr, om_name = om_name pr, om_uid = '''', om_generation = 0,
      om_creation_ts = None, om_deletion_ts = None, om_labels = om_labels pr,
      om_annotations = om_annotations pr, om_finalizers = [], om_owner_refs = [],
      pr_spec = (pr_spec pr)\<lparr>sp_input := None\<rparr>,
      pr_status = \<lparr>st_state = st_state (pr_status pr), st_workflow_id = '''', st_workflow_run_id = '''',
        st_conditions = [], st_steps = [], st_source_pipeline = None,
        st_end_time = st_end_time (pr_status pr),
        st_error_message = st_error_message (pr_status pr)\<rparr>\<rparr>"

definition PipelineRunSensor :: "run_answer \<Rightarrow> act_error + pipeline_run" where
  "PipelineRunSensor answer =
     (case answer of
        (Some e, _) \<Rightarrow> Inl (''GetPipelineRun'', e)
      | (None, Some (Some pr)) \<Rightarrow>
          if st_state (pr_status pr) \<in> {Run_INVALID, Run_PENDING, Run_RUNNING}
          then Inl (''PipelineRunNotReady'', ''PipelineRun is in the non-terminal status'')
          else Inr (cropPipelineRun pr)
      | (None, _) \<Rightarrow> Inl (''EmptyResponse'', ''empty response from pipeline run service''))"

definition activity_panic :: act_error where "activity_panic = (''Panic'', ''panic'')"

definition activity_result :: "(act_error + 'a) outcome \<Rightarrow> act_error + 'a" where
  "activity_result r = (case r of Returned x \<Rightarrow> x | Panicked \<Rightarrow> Inl activity_panic)"

section \<open>Engine\<close>

definition NonRetriableErrorReasonsDefault :: "string list" where
  "NonRetriableErrorReasonsDefault =
     [''400'', ''404'', ''500'', ''Panic'', ''CanceledError'', ''no-retry'']"

text \<open>Five attempts for the default options. The sensor is tried until fourteen days have passed, at
  least twenty seconds apart, which is at most 60481 attempts.\<close>

definition default_attempts :: nat where "default_attempts = 5"

definition sensor_attempts :: nat where
  "sensor_attempts = 14 * 24 * 3600 div 20 + 1"

datatype tw_event =
    TwParams "act_error option"
  | TwCreate run_request run_answer
  | TwTriggered triggered_run
  | TwSensor "string \<times> string" run_answer
  | TwSleep int

text \<open>
  The engine and the services it reaches. \<open>tw_lost\<close> is an attempt of the parameter activity that
  fails outside the code, \<open>tw_give_up\<close> is the engine ending the retries before the bound.
  A random name may fail to draw its bytes.
\<close>

record tw_env =
  tw_cron :: cron_lib
  tw_now :: "tw_event list \<Rightarrow> int"
  tw_format :: "int \<Rightarrow> string"
  tw_random :: "tw_event list \<Rightarrow> nat list option"
  tw_nanos :: "tw_event list \<Rightarrow> nat"
  tw_lost :: "tw_event list \<Rightarrow> act_error option"
  tw_create :: "tw_event list \<Rightarrow> run_answer"
  tw_sensor :: "tw_event list \<Rightarrow> run_answer"
  tw_give_up :: "tw_event list \<Rightarrow> bool"

definition retriable :: "act_error + 'a \<Rightarrow> bool" where
  "retriable r = (case r of Inl (reason, _) \<Rightarrow> reason \<notin> set NonRetriableErrorReasonsDefault | Inr _ \<Rightarrow> False)"

fun execute_activity ::
    "(tw_event list \<Rightarrow> bool) \<Rightarrow> nat \<Rightarrow> (tw_event, act_error + 'a) io \<Rightarrow> (tw_event, act_error + 'a) io" where
  "execute_activity give_up n attempt = do {
     r \<leftarrow> attempt;
     stop \<leftarrow> peek give_up;
     (case n of
        Suc (Suc m) \<Rightarrow>
          if retriable r \<and> \<not> stop then execute_activity give_up (Suc m) attempt
          else State_Monad.return r
      | _ \<Rightarrow> State_Monad.return r)
   }"

declare execute_activity.simps [simp del]

section \<open>One run\<close>

definition hex_nibble :: "nat \<Rightarrow> char" where
  "hex_nibble n = char_of (if n < 10 then 48 + n else 87 + n)"

definition hex_encode :: "nat list \<Rightarrow> string" where
  "hex_encode bs = concat (map (\<lambda>b. [hex_nibble (b div 16), hex_nibble (b mod 16)]) bs)"

text \<open>\<open>s[:n]\<close> panics when the string is shorter.\<close>

definition prefix_of :: "nat \<Rightarrow> string \<Rightarrow> string outcome" where
  "prefix_of n s = (if n \<le> length s then Returned (take n s) else Panicked)"

definition generateRandomString :: "nat \<Rightarrow> nat list option \<Rightarrow> nat \<Rightarrow> string outcome" where
  "generateRandomString n drawn nanos =
     (case drawn of None \<Rightarrow> prefix_of n (decimal nanos) | Some bytes \<Rightarrow> prefix_of n (hex_encode bytes))"

definition generatePipelineRunName :: "tw_env \<Rightarrow> (tw_event, string outcome) io" where
  "generatePipelineRunName E = do {
     now \<leftarrow> peek (tw_now E);
     drawn \<leftarrow> peek (tw_random E);
     nanos \<leftarrow> peek (tw_nanos E);
     State_Monad.return (case generateRandomString 8 drawn nanos of
         Panicked \<Rightarrow> Panicked
       | Returned r \<Rightarrow> Returned (''pipeline-run-'' @ tw_format E now @ ''-'' @ r))
   }"

datatype tw_stop = TwError act_error | TwPanic | TwHang

definition create_attempt :: "tw_env \<Rightarrow> run_request \<Rightarrow> (tw_event, act_error + pipeline_run) io" where
  "create_attempt E rq = do {
     answer \<leftarrow> ask (tw_create E) (TwCreate rq);
     State_Monad.return (activity_result (CreatePipelineRun answer))
   }"

definition sensor_attempt :: "tw_env \<Rightarrow> string \<times> string \<Rightarrow> (tw_event, act_error + pipeline_run) io" where
  "sensor_attempt E key = do {
     answer \<leftarrow> ask (tw_sensor E) (TwSensor key);
     State_Monad.return (PipelineRunSensor answer)
   }"

definition run_request_for ::
    "tw_env \<Rightarrow> trigger_run \<Rightarrow> int \<Rightarrow> params \<Rightarrow> string \<Rightarrow> tw_stop + run_request" where
  "run_request_for E run logicalTs p name =
     (let ts = GetExecutionTimestamp p logicalTs in
      (case prevScheduledTime (tw_cron E) (ts_trigger (tr_spec run)) ts of
         None \<Rightarrow> Inl TwHang
       | Some lastTs \<Rightarrow>
           (case generatePipelineRunRequest run (GetParameterID p) name ts lastTs of
              Panicked \<Rightarrow> Inl TwPanic
            | Returned (Inl e) \<Rightarrow> Inl (TwError (''generic'', e))
            | Returned (Inr rq) \<Rightarrow> Inr rq)))"

definition runPipeline ::
    "tw_env \<Rightarrow> trigger_run \<Rightarrow> int \<Rightarrow> params \<Rightarrow> bool \<Rightarrow> (tw_event, tw_stop + unit) io" where
  "runPipeline E run logicalTs p sensor = do {
     name \<leftarrow> generatePipelineRunName E;
     (case name of
        Panicked \<Rightarrow> State_Monad.return (Inl TwPanic)
      | Returned nm \<Rightarrow>
     (case run_request_for E run logicalTs p nm of
        Inl stop \<Rightarrow> State_Monad.return (Inl stop)
      | Inr rq \<Rightarrow> do {
          created \<leftarrow> execute_activity (tw_give_up E) default_attempts (create_attempt E rq);
          (case created of
             Inl e \<Rightarrow> State_Monad.return (Inl (TwError e))
           | Inr pr \<Rightarrow> do {
               now \<leftarrow> peek (tw_now E);
               _ \<leftarrow> emit (TwTriggered
                     (GetTriggeredRun p (om_name pr) (GetExecutionTimestamp p logicalTs) now));
               if \<not> sensor then State_Monad.return (Inr ())
               else do {
                 watched \<leftarrow> execute_activity (tw_give_up E) sensor_attempts
                   (sensor_attempt E (om_namespace pr, om_name pr));
                 State_Monad.return (case watched of Inl e \<Rightarrow> Inl (TwError e) | Inr _ \<Rightarrow> Inr ())
               }
             })
        }))
   }"

section \<open>Batches\<close>

definition empty_execution_params :: execution_params where
  "empty_execution_params =
     \<lparr>ep_parameter_map = None, ep_workflow_config = None, ep_task_configs = None, ep_environ = None,
      ep_args = None, ep_kw_args = None\<rparr>"

definition with_default_parameters :: "trigger \<Rightarrow> trigger_run \<Rightarrow> trigger_run" where
  "with_default_parameters tg run =
     (if tg_parameters tg = [] then run\<lparr>tr_spec := (tr_spec run)\<lparr>ts_trigger :=
        Some (tg\<lparr>tg_parameters := [(''default'', empty_execution_params)]\<rparr>)\<rparr>\<rparr> else run)"

definition wait_seconds :: "trigger \<Rightarrow> int" where
  "wait_seconds tg =
     (case tg_batch_policy tg of Some p \<Rightarrow> (case bp_wait p of Some (s, _) \<Rightarrow> s | None \<Rightarrow> 600) | None \<Rightarrow> 600)"

text \<open>The activity that generates the parameters; one that never returns is timed out.\<close>

definition params_result :: "string \<Rightarrow> (string + 'a) outcome option \<Rightarrow> act_error + 'a" where
  "params_result reason r =
     (case r of
        None \<Rightarrow> Inl (''timeout'', ''StartToClose'')
      | Some Panicked \<Rightarrow> Inl activity_panic
      | Some (Returned (Inl e)) \<Rightarrow> Inl (reason, e)
      | Some (Returned (Inr x)) \<Rightarrow> Inr x)"

definition params_attempt :: "tw_env \<Rightarrow> act_error + 'a \<Rightarrow> (tw_event, act_error + 'a) io" where
  "params_attempt E result = do {
     lost \<leftarrow> ask (tw_lost E) TwParams;
     State_Monad.return (case lost of Some e \<Rightarrow> Inl e | None \<Rightarrow> result)
   }"

text \<open>The errors of single runs are only logged.\<close>

fun run_batch :: "tw_env \<Rightarrow> trigger_run \<Rightarrow> int \<Rightarrow> params list \<Rightarrow> (tw_event, tw_stop + unit) io" where
  "run_batch E run logicalTs [] = State_Monad.return (Inr ())"
| "run_batch E run logicalTs (p # ps) = do {
     r \<leftarrow> runPipeline E run logicalTs p False;
     (case r of
        Inl TwPanic \<Rightarrow> State_Monad.return (Inl TwPanic)
      | Inl TwHang \<Rightarrow> State_Monad.return (Inl TwHang)
      | _ \<Rightarrow> run_batch E run logicalTs ps)
   }"

fun run_batches ::
    "tw_env \<Rightarrow> trigger_run \<Rightarrow> int \<Rightarrow> int \<Rightarrow> params list list \<Rightarrow> (tw_event, tw_stop + unit) io" where
  "run_batches E run logicalTs wait [] = State_Monad.return (Inr ())"
| "run_batches E run logicalTs wait (b # bs) =
     and_then (run_batch E run logicalTs b) (\<lambda>_. do {
       _ \<leftarrow> (if bs \<noteq> [] then emit (TwSleep (seconds wait)) else State_Monad.return ());
       run_batches E run logicalTs wait bs
     })"

definition batchRun :: "tw_env \<Rightarrow> trigger_run \<Rightarrow> int \<Rightarrow> (tw_event, tw_stop + unit) io" where
  "batchRun E run logicalTs =
     (case ts_trigger (tr_spec run) of
        None \<Rightarrow> State_Monad.return (Inl TwPanic)
      | Some tg \<Rightarrow>
          let run = with_default_parameters tg run in do {
            r \<leftarrow> execute_activity (tw_give_up E) default_attempts
              (params_attempt E (params_result ''GenerateBatchParams'' (GenerateBatchRunParams (tw_cron E) run)));
            (case r of
               Inl e \<Rightarrow> State_Monad.return (Inl (TwError e))
             | Inr batches \<Rightarrow> run_batches E run logicalTs (wait_seconds tg) batches)
          })"

section \<open>Retries\<close>

text \<open>
  An activity is one to \<open>n\<close> attempts, every one but the last a retriable error, and its result is
  that of the last. \<open>step h r h'\<close> describes one attempt.
\<close>

inductive attempt_chain :: "('e list \<Rightarrow> 'r \<Rightarrow> 'e list \<Rightarrow> bool) \<Rightarrow> ('r \<Rightarrow> bool) \<Rightarrow> nat \<Rightarrow> 'e list \<Rightarrow> 'r \<Rightarrow> 'e list \<Rightarrow> bool"
  for step again where
  last: "step h r h' \<Longrightarrow> attempt_chain step again (Suc n) h r h'"
| retry: "step h r h1 \<Longrightarrow> again r \<Longrightarrow> attempt_chain step again n h1 r' h' \<Longrightarrow> attempt_chain step again (Suc n) h r' h'"

lemma execute_activity_attempts:
  assumes "run_state (execute_activity give_up n attempt) h = (r, h')" "n \<noteq> 0"
  shows "attempt_chain (\<lambda>h r h'. run_state attempt h = (r, h')) retriable n h r h'"
  using assms
proof (induction n arbitrary: h)
  case (Suc n)
  obtain r1 h1 where a: "run_state attempt h = (r1, h1)" by (cases "run_state attempt h")
  show ?case
  proof (cases "n \<noteq> 0 \<and> retriable r1 \<and> \<not> give_up h1")
    case True
    then obtain m where n: "n = Suc m" by (cases n) auto
    with Suc.prems(1) a True have "run_state (execute_activity give_up n attempt) h1 = (r, h')"
      by (subst (asm) execute_activity.simps) simp
    from Suc.IH [OF this] a True show ?thesis by (auto intro: attempt_chain.retry)
  next
    case False
    with Suc.prems(1) a have "r1 = r" "h1 = h'"
      by (subst (asm) execute_activity.simps; auto split: nat.splits if_splits)+
    with a show ?thesis by (auto intro: attempt_chain.last)
  qed
qed simp

text \<open>So a retried call is a bounded number of the call's events, and the answer is the last one's.\<close>

lemma attempts_events:
  assumes "attempt_chain step again n h r h'" "\<And>h r h'. step h r h' \<Longrightarrow> \<exists>e. h' = h @ [e] \<and> P e \<and> r = f e"
  shows "\<exists>es e. h' = h @ es @ [e] \<and> (\<forall>x\<in>set es. P x \<and> again (f x)) \<and> P e \<and> r = f e \<and> length es < n"
  using assms(1)
proof (induction rule: attempt_chain.induct)
  case (last h r h' n)
  from assms(2) [OF this] obtain e where "h' = h @ [e]" "P e" "r = f e" by blast
  then show ?case by (intro exI [of _ "[]"] exI [of _ e]) simp
next
  case (retry h r h1 n r' h')
  from assms(2) [OF retry(1)] obtain e1 where e1: "h1 = h @ [e1]" "P e1" "r = f e1" by blast
  from retry.IH obtain es e where
    "h' = h1 @ es @ [e]" "\<forall>x\<in>set es. P x \<and> again (f x)" "P e" "r' = f e" "length es < n" by blast
  with e1 retry(2) show ?case by (intro exI [of _ "e1 # es"] exI [of _ e]) auto
qed

section \<open>The trace of a run\<close>

text \<open>
  What the workflow relies on: four random bytes can be drawn, and every schedule the parser
  accepts fires for ever.
\<close>

definition engine_ok :: "tw_env \<Rightarrow> bool" where
  "engine_ok E \<longleftrightarrow>
     (\<forall>h. \<exists>bs. tw_random E h = Some bs \<and> length bs = 4) \<and>
     (\<forall>c Next. tw_cron E c = Inr Next \<longrightarrow> (\<exists>S. fires S Next))"

definition create_result :: "run_answer \<Rightarrow> act_error + pipeline_run" where
  "create_result a = activity_result (CreatePipelineRun a)"

definition retried :: "nat \<Rightarrow> ('a \<Rightarrow> act_error + 'b) \<Rightarrow> 'a list \<Rightarrow> bool" where
  "retried n result as \<longleftrightarrow> length as < n \<and> (\<forall>a\<in>set as. retriable (result a))"

text \<open>The sensor's polls of a created run.\<close>

definition watch_trace :: "bool \<Rightarrow> pipeline_run \<Rightarrow> tw_event list \<Rightarrow> bool" where
  "watch_trace sensor pr tr \<longleftrightarrow>
     (if sensor then \<exists>polls a. retried sensor_attempts PipelineRunSensor polls \<and>
         tr = map (TwSensor (om_namespace pr, om_name pr)) (polls @ [a])
      else tr = [])"

text \<open>
  One run: nothing if its parameter is not in the map; otherwise one request, sent once and again
  only after a retriable error, at most five times, and a created run is recorded.
\<close>

definition run_trace ::
    "tw_env \<Rightarrow> trigger_run \<Rightarrow> int \<Rightarrow> params \<Rightarrow> bool \<Rightarrow> tw_event list \<Rightarrow> bool" where
  "run_trace E run logicalTs p sensor tr \<longleftrightarrow>
     (\<forall>tg. ts_trigger (tr_spec run) = Some tg \<longrightarrow>
        (if tg_parameters tg \<noteq> [] \<and> map_of (tg_parameters tg) (GetParameterID p) = None then tr = []
         else \<exists>nm rq failed a rest.
           run_request_for E run logicalTs p nm = Inr rq \<and> retried default_attempts create_result failed \<and>
           tr = map (TwCreate rq) (failed @ [a]) @ rest \<and>
           (case create_result a of
              Inl _ \<Rightarrow> rest = []
            | Inr pr \<Rightarrow> \<exists>now watch.
                rest = TwTriggered (GetTriggeredRun p (om_name pr) (GetExecutionTimestamp p logicalTs) now) # watch \<and>
                watch_trace sensor pr watch)))"

lemma run_traceI:
  assumes "ts_trigger (tr_spec run) = Some tg"
    and "\<not> (tg_parameters tg \<noteq> [] \<and> map_of (tg_parameters tg) (GetParameterID p) = None)"
    and "run_request_for E run logicalTs p nm = Inr rq" "retried default_attempts create_result failed"
    and "case create_result a of
           Inl _ \<Rightarrow> rest = []
         | Inr pr \<Rightarrow> \<exists>now watch.
             rest = TwTriggered (GetTriggeredRun p (om_name pr) (GetExecutionTimestamp p logicalTs) now) # watch \<and>
             watch_trace sensor pr watch"
  shows "run_trace E run logicalTs p sensor (map (TwCreate rq) (failed @ [a]) @ rest)"
  unfolding run_trace_def using assms by (metis option.inject)

lemma prevScheduledTime_returns:
  assumes "engine_ok E"
  obtains lastTs where "prevScheduledTime (tw_cron E) t ts = Some lastTs"
proof -
  have "\<exists>p. last_before Next ts (Next x) = Some p" if "tw_cron E c = Inr Next" "Next x < ts" for Next x c
  proof -
    from assms that(1) obtain S where S: "fires S Next" unfolding engine_ok_def by blast
    then have "Next x \<in> S" by (auto simp: fires_def)
    from last_before_finds [OF S this that(2)] show ?thesis by blast
  qed
  then have "prevScheduledTime (tw_cron E) t ts \<noteq> None"
    unfolding prevScheduledTime_def
    by (auto simp: Let_def split: option.splits trigger_type.splits sum.splits)
  with that show ?thesis by blast
qed

lemma with_last_schedule_returns:
  "\<exists>fs. with_last_schedule l (map_option generateUniflowPRInput dp) = Returned fs"
  by (cases dp) (auto simp: with_last_schedule_def generateUniflowPRInput_def Let_def)

lemma request_is_made:
  assumes "engine_ok E" "ts_pipeline (tr_spec run) = Some pl" "ts_trigger (tr_spec run) = Some tg"
  obtains (unknown) e where "tg_parameters tg \<noteq> [] \<and> map_of (tg_parameters tg) (GetParameterID p) = None"
    "run_request_for E run logicalTs p nm = Inl (TwError e)"
  | (made) rq where "\<not> (tg_parameters tg \<noteq> [] \<and> map_of (tg_parameters tg) (GetParameterID p) = None)"
    "run_request_for E run logicalTs p nm = Inr rq"
proof -
  let ?ts = "GetExecutionTimestamp p logicalTs" and ?bad = "tg_parameters tg \<noteq> [] \<and> map_of (tg_parameters tg) (GetParameterID p) = None"
  from prevScheduledTime_returns [OF assms(1)] obtain lastTs where
    l: "prevScheduledTime (tw_cron E) (ts_trigger (tr_spec run)) ?ts = Some lastTs" .
  obtain ns nm' where pl: "pl = (ns, nm')" by (cases pl)
  show ?thesis
  proof (cases ?bad)
    case True
    with l assms(2,3) pl have "\<exists>e. run_request_for E run logicalTs p nm = Inl (TwError e)"
      by (simp add: run_request_for_def generatePipelineRunRequest_def Let_def)
    with True unknown show ?thesis by blast
  next
    case False
    let ?in = "if tg_parameters tg \<noteq> [] then map_option generateUniflowPRInput (map_of (tg_parameters tg) (GetParameterID p)) else None"
    have "\<exists>fs. with_last_schedule x ?in = Returned fs" for x
      using with_last_schedule_returns [of x None] with_last_schedule_returns [of x "map_of (tg_parameters tg) (GetParameterID p)"]
      by simp
    then obtain f where f: "\<And>x. with_last_schedule x ?in = Returned (f x)" by metis
    from False l assms(2,3) pl f have "\<exists>rq. run_request_for E run logicalTs p nm = Inr rq"
      by (cases lastTs) (simp_all add: run_request_for_def generatePipelineRunRequest_def Let_def)
    with False made show ?thesis by blast
  qed
qed

text \<open>A retried call of a service: its requests and their answers.\<close>

lemma retried_calls:
  assumes "run_state (execute_activity give_up n (do {a \<leftarrow> ask answer event; State_Monad.return (result a)})) h = (r, h')"
    and "n \<noteq> 0"
  shows "\<exists>failed a. h' = h @ map event (failed @ [a]) \<and> retried n result failed \<and> r = result a"
proof -
  let ?step = "\<lambda>h r h'. run_state (do {a \<leftarrow> ask answer event; State_Monad.return (result a)}) h = (r, h')"
  from execute_activity_attempts [OF assms]
  have "attempt_chain ?step retriable n h r h'" .
  then show ?thesis
  proof (induction rule: attempt_chain.induct)
    case (last h r h' n)
    then show ?case by (intro exI [of _ "[]"] exI [of _ "answer h"]) (auto simp: retried_def)
  next
    case (retry h r h1 n r' h')
    from retry.IH obtain failed a where
      ih: "h' = h1 @ map event (failed @ [a])" "retried n result failed" "r' = result a" by blast
    from retry(1,2) ih show ?case
      by (intro exI [of _ "answer h # failed"] exI [of _ a]) (auto simp: retried_def)
  qed
qed

lemma runPipeline_trace:
  assumes "engine_ok E" "ts_pipeline (tr_spec run) = Some pl" "ts_trigger (tr_spec run) = Some tg"
    and "run_state (runPipeline E run logicalTs p sensor) h = (r, h')"
  shows "\<exists>tr. h' = h @ tr \<and> run_trace E run logicalTs p sensor tr \<and> r \<noteq> Inl TwPanic \<and> r \<noteq> Inl TwHang"
proof -
  from assms(1) obtain bs where bs: "tw_random E h = Some bs" "length bs = 4" unfolding engine_ok_def by blast
  have "length (hex_encode bs) = 2 * length bs" by (induction bs) (simp_all add: hex_encode_def)
  with bs have "\<exists>nm. run_state (generatePipelineRunName E) h = (Returned nm, h)"
    by (simp add: generatePipelineRunName_def generateRandomString_def prefix_of_def)
  then obtain nm where nm: "run_state (generatePipelineRunName E) h = (Returned nm, h)" ..
  show ?thesis
  proof (cases rule: request_is_made [OF assms(1-3), of p logicalTs nm, case_names unknown made])
    case (unknown e)
    with assms(3,4) nm show ?thesis
      by (intro exI [of _ "[]"]) (auto simp: runPipeline_def run_trace_def)
  next
    case (made rq)
    obtain c h1 where c: "run_state (execute_activity (tw_give_up E) default_attempts (create_attempt E rq)) h = (c, h1)"
      by fastforce
    have "create_result = (\<lambda>a. activity_result (CreatePipelineRun a))" by (simp add: create_result_def fun_eq_iff)
    with retried_calls [OF c [unfolded create_attempt_def]] obtain failed a where
      fa: "h1 = h @ map (TwCreate rq) (failed @ [a])" "retried default_attempts create_result failed"
      "c = create_result a"
      unfolding default_attempts_def by (metis zero_neq_numeral)
    show ?thesis
    proof (cases c)
      case (Inl e)
      with fa(3) have cr: "create_result a = Inl e" by simp
      from made c [unfolded Inl] nm assms(4) have "r = Inl (TwError e)" "h' = h1" by (auto simp: runPipeline_def)
      moreover have "run_trace E run logicalTs p sensor (map (TwCreate rq) (failed @ [a]) @ [])"
        using cr by (intro run_traceI [OF assms(3) made fa(2)]) simp
      ultimately show ?thesis using fa(1) by auto
    next
      case (Inr pr)
      with fa(3) have cr: "create_result a = Inr pr" by simp
      let ?info = "TwTriggered (GetTriggeredRun p (om_name pr) (GetExecutionTimestamp p logicalTs) (tw_now E h1))"
      have "\<exists>watch. h' = (h1 @ [?info]) @ watch \<and> watch_trace sensor pr watch \<and> r \<noteq> Inl TwPanic \<and> r \<noteq> Inl TwHang"
      proof (cases sensor)
        case False
        with made c [unfolded Inr] nm assms(4) show ?thesis
          by (auto simp: runPipeline_def watch_trace_def)
      next
        case True
        obtain w h2 where w: "run_state (execute_activity (tw_give_up E) sensor_attempts
            (sensor_attempt E (om_namespace pr, om_name pr))) (h1 @ [?info]) = (w, h2)" by fastforce
        from retried_calls [OF w [unfolded sensor_attempt_def]] have
          "\<exists>watch. h2 = (h1 @ [?info]) @ watch \<and> watch_trace True pr watch"
          by (auto simp: sensor_attempts_def watch_trace_def)
        with True made c [unfolded Inr] nm w assms(4) show ?thesis
          by (auto simp: runPipeline_def split: sum.splits)
      qed
      then obtain watch where
        "h' = (h1 @ [?info]) @ watch" "watch_trace sensor pr watch" "r \<noteq> Inl TwPanic" "r \<noteq> Inl TwHang" by blast
      moreover from this cr have "run_trace E run logicalTs p sensor (map (TwCreate rq) (failed @ [a]) @ ?info # watch)"
        by (intro run_traceI [OF assms(3) made fa(2)]) auto
      ultimately show ?thesis using fa(1) by auto
    qed
  qed
qed

section \<open>The trace of a batch run\<close>

fun with_pauses :: "int \<Rightarrow> tw_event list list \<Rightarrow> tw_event list" where
  "with_pauses wait [] = []"
| "with_pauses wait (b # bs) =
     b @ (if bs = [] then [] else TwSleep (seconds wait) # with_pauses wait bs)"

lemma run_batch_trace:
  assumes "engine_ok E" "ts_pipeline (tr_spec run) = Some pl" "ts_trigger (tr_spec run) = Some tg"
    and "run_state (run_batch E run logicalTs ps) h = (r, h')"
  shows "\<exists>trs. h' = h @ concat trs \<and> list_all2 (\<lambda>p tr. run_trace E run logicalTs p False tr) ps trs \<and> r = Inr ()"
  using assms(4)
proof (induction ps arbitrary: h)
  case (Cons p ps)
  obtain r1 h1 where p: "run_state (runPipeline E run logicalTs p False) h = (r1, h1)" by fastforce
  from runPipeline_trace [OF assms(1-3) p] obtain tr where
    tr: "h1 = h @ tr" "run_trace E run logicalTs p False tr" "r1 \<noteq> Inl TwPanic" "r1 \<noteq> Inl TwHang" by blast
  with Cons.prems p have "run_state (run_batch E run logicalTs ps) h1 = (r, h')"
    by (auto split: sum.splits tw_stop.splits)
  from Cons.IH [OF this] obtain trs where "h' = h1 @ concat trs"
    "list_all2 (\<lambda>p tr. run_trace E run logicalTs p False tr) ps trs" "r = Inr ()" by blast
  with tr show ?case by (intro exI [of _ "tr # trs"]) simp
qed simp

lemma run_batches_trace:
  assumes "engine_ok E" "ts_pipeline (tr_spec run) = Some pl" "ts_trigger (tr_spec run) = Some tg"
    and "run_state (run_batches E run logicalTs wait bs) h = (r, h')"
  shows "\<exists>batches. h' = h @ with_pauses wait (map concat batches) \<and>
    list_all2 (list_all2 (\<lambda>p tr. run_trace E run logicalTs p False tr)) bs batches \<and> r = Inr ()"
  using assms(4)
proof (induction bs arbitrary: h)
  case (Cons b bs)
  obtain r1 h1 where b: "run_state (run_batch E run logicalTs b) h = (r1, h1)" by fastforce
  from run_batch_trace [OF assms(1-3) b] obtain trs where
    trs: "h1 = h @ concat trs" "list_all2 (\<lambda>p tr. run_trace E run logicalTs p False tr) b trs" "r1 = Inr ()" by blast
  let ?h2 = "if bs = [] then h1 else h1 @ [TwSleep (seconds wait)]"
  from Cons.prems b trs(3) have "run_state (run_batches E run logicalTs wait bs) ?h2 = (r, h')"
    by (auto simp: and_then_def split: if_splits)
  from Cons.IH [OF this] obtain batches where ih: "h' = ?h2 @ with_pauses wait (map concat batches)"
    "list_all2 (list_all2 (\<lambda>p tr. run_trace E run logicalTs p False tr)) bs batches" "r = Inr ()" by blast
  then have "batches = [] \<longleftrightarrow> bs = []" by auto
  with ih trs show ?case by (intro exI [of _ "trs # batches"]) auto
qed simp

lemma with_default_parameters_sel [simp]:
  "ts_pipeline (tr_spec (with_default_parameters tg run)) = ts_pipeline (tr_spec run)"
  "ts_trigger (tr_spec run) = Some tg \<Longrightarrow>
     \<exists>tg'. ts_trigger (tr_spec (with_default_parameters tg run)) = Some tg' \<and> tg_parameters tg' \<noteq> []"
  by (auto simp: with_default_parameters_def)


section \<open>Witness\<close>

definition example_engine :: tw_env where
  "example_engine =
     \<lparr>tw_cron = (\<lambda>_. Inr two_in_ten), tw_now = (\<lambda>h. int (length h)), tw_format = FormatInt,
      tw_random = (\<lambda>_. Some [1, 2, 3, 255]), tw_nanos = (\<lambda>_. 0), tw_lost = (\<lambda>_. None),
      tw_create = (\<lambda>_. (Some ''busy'', None)), tw_sensor = (\<lambda>_. (None, None)), tw_give_up = (\<lambda>_. False)\<rparr>"

lemma example_engine_ok: "engine_ok example_engine"
  using two_in_ten_fires by (auto simp: engine_ok_def example_engine_def)

lemma example_window_sel:
  "ts_pipeline (tr_spec example_window) = Some (''ns'', ''p'')"
  "ts_trigger (tr_spec example_window) = Some example_batches"
  by (simp_all add: example_window_def)


end
