(* ===== verification/Trigger_Pool.thy ===== *)
theory Trigger_Pool
  imports Trigger_Batches
begin

text \<open>
  The concurrent workflow of a trigger (\<^verbatim>\<open>concurrentRun\<close>, \<^verbatim>\<open>runPipelineAsync\<close>, \<^verbatim>\<open>CronTrigger\<close> and
  \<^verbatim>\<open>BackfillTrigger\<close> in \<^verbatim>\<open>go/worker/workflows/trigger\<close>): coroutines that each create and watch one
  run, and the selector that starts the next one when a future is ready. The engine may let any
  coroutine go on at any moment, so an execution is a sequence of steps.
\<close>

section \<open>A coroutine\<close>

text \<open>
  A coroutine is \<^verbatim>\<open>runPipeline\<close> between two points where it waits: for the request (the number of
  attempts made so far), for the sensor, or for nobody once its future is set.
\<close>

datatype co =
    CoNew
  | CoCreating nat run_request
  | CoWatching nat "string \<times> string"
  | CoFinished "tw_stop + unit"

definition finished :: "co \<Rightarrow> bool" where
  "finished c \<longleftrightarrow> (case c of CoFinished _ \<Rightarrow> True | _ \<Rightarrow> False)"

definition tries_again :: "tw_env \<Rightarrow> nat \<Rightarrow> nat \<Rightarrow> act_error + 'a \<Rightarrow> tw_event list \<Rightarrow> bool" where
  "tries_again E limit k r h \<longleftrightarrow> Suc k < limit \<and> retriable r \<and> \<not> tw_give_up E h"

fun co_next ::
    "tw_env \<Rightarrow> trigger_run \<Rightarrow> int \<Rightarrow> params \<Rightarrow> tw_event list \<Rightarrow> co \<Rightarrow> tw_event list \<times> co" where
  "co_next E run logicalTs p h CoNew =
     (case fst (run_state (generatePipelineRunName E) h) of
        Panicked \<Rightarrow> ([], CoFinished (Inl TwPanic))
      | Returned nm \<Rightarrow>
          (case run_request_for E run logicalTs p nm of
             Inl stop \<Rightarrow> ([], CoFinished (Inl stop))
           | Inr rq \<Rightarrow> ([], CoCreating 0 rq)))"
| "co_next E run logicalTs p h (CoCreating k rq) =
     (let a = tw_create E h; h1 = h @ [TwCreate rq a] in
      if tries_again E default_attempts k (create_result a) h1 then ([TwCreate rq a], CoCreating (Suc k) rq)
      else (case create_result a of
              Inl e \<Rightarrow> ([TwCreate rq a], CoFinished (Inl (TwError e)))
            | Inr pr \<Rightarrow>
                ([TwCreate rq a,
                  TwTriggered (GetTriggeredRun p (om_name pr) (GetExecutionTimestamp p logicalTs) (tw_now E h1))],
                 CoWatching 0 (om_namespace pr, om_name pr))))"
| "co_next E run logicalTs p h (CoWatching k key) =
     (let a = tw_sensor E h; h1 = h @ [TwSensor key a] in
      if tries_again E sensor_attempts k (PipelineRunSensor a) h1 then ([TwSensor key a], CoWatching (Suc k) key)
      else ([TwSensor key a],
            CoFinished (case PipelineRunSensor a of Inl e \<Rightarrow> Inl (TwError e) | Inr _ \<Rightarrow> Inr ())))"
| "co_next E run logicalTs p h (CoFinished r) = ([], CoFinished r)"

section \<open>The pool\<close>

text \<open>
  The coroutines started so far, in the order of the parameters, the futures the selector has
  consumed, the last error, and the events, each with the index of the coroutine it comes from.
\<close>

record pool =
  po_trace :: "(nat \<times> tw_event) list"
  po_started :: "co list"
  po_consumed :: "nat list"
  po_error :: "act_error option"

definition history :: "tw_event list \<Rightarrow> pool \<Rightarrow> tw_event list" where
  "history h po = h @ map snd (po_trace po)"

definition advance :: "tw_env \<Rightarrow> trigger_run \<Rightarrow> int \<Rightarrow> params list \<Rightarrow> tw_event list \<Rightarrow> nat \<Rightarrow> pool \<Rightarrow> pool" where
  "advance E run logicalTs ps h i po =
     (let (es, c) = co_next E run logicalTs (ps ! i) (history h po) (po_started po ! i) in
      po\<lparr>po_trace := po_trace po @ map (Pair i) es, po_started := (po_started po)[i := c]\<rparr>)"

text \<open>The body of the last loop: one future is consumed, and the next parameter is started.\<close>

definition select :: "params list \<Rightarrow> nat \<Rightarrow> act_error option \<Rightarrow> pool \<Rightarrow> pool" where
  "select ps i e po =
     po\<lparr>po_consumed := po_consumed po @ [i],
        po_error := (case e of None \<Rightarrow> po_error po | Some x \<Rightarrow> Some x),
        po_started := po_started po @ (if length (po_started po) < length ps then [CoNew] else [])\<rparr>"

definition future_error :: "tw_stop + unit \<Rightarrow> act_error option option" where
  "future_error r = (case r of Inr _ \<Rightarrow> Some None | Inl (TwError e) \<Rightarrow> Some (Some e) | _ \<Rightarrow> None)"

inductive pool_step ::
    "tw_env \<Rightarrow> trigger_run \<Rightarrow> int \<Rightarrow> params list \<Rightarrow> tw_event list \<Rightarrow> pool \<Rightarrow> pool \<Rightarrow> bool"
  for E run logicalTs ps h where
  advance: "i < length (po_started po) \<Longrightarrow> \<not> finished (po_started po ! i) \<Longrightarrow>
    pool_step E run logicalTs ps h po (advance E run logicalTs ps h i po)"
| select: "length (po_consumed po) < length ps \<Longrightarrow> i < length (po_started po) \<Longrightarrow>
    i \<notin> set (po_consumed po) \<Longrightarrow> po_started po ! i = CoFinished r \<Longrightarrow> future_error r = Some e \<Longrightarrow>
    pool_step E run logicalTs ps h po (select ps i e po)"

definition initial_pool :: "int \<Rightarrow> params list \<Rightarrow> pool" where
  "initial_pool maxConcurrency ps =
     \<lparr>po_trace = [], po_started = replicate (min (nat maxConcurrency) (length ps)) CoNew,
      po_consumed = [], po_error = None\<rparr>"

text \<open>The first part of \<^verbatim>\<open>concurrentRun\<close>, up to the start of the first coroutines.\<close>

definition concurrentRun_params :: "tw_env \<Rightarrow> trigger \<Rightarrow> trigger_run \<Rightarrow> (tw_event, act_error + params list) io" where
  "concurrentRun_params E tg run =
     execute_activity (tw_give_up E) default_attempts
       (params_attempt E (params_result ''GenerateConcurrentParams''
          (GenerateConcurrentRunParams (tw_cron E) (with_default_parameters tg run))))"

inductive concurrentRun ::
    "tw_env \<Rightarrow> trigger_run \<Rightarrow> int \<Rightarrow> tw_event list \<Rightarrow> tw_stop + unit \<Rightarrow> tw_event list \<Rightarrow> bool"
  for E run logicalTs h where
  nil_trigger: "ts_trigger (tr_spec run) = None \<Longrightarrow> concurrentRun E run logicalTs h (Inl TwPanic) h"
| no_params: "ts_trigger (tr_spec run) = Some tg \<Longrightarrow> run_state (concurrentRun_params E tg run) h = (Inl e, h1) \<Longrightarrow>
    concurrentRun E run logicalTs h (Inl (TwError e)) h1"
| all_runs: "ts_trigger (tr_spec run) = Some tg \<Longrightarrow> run_state (concurrentRun_params E tg run) h = (Inr ps, h1) \<Longrightarrow>
    (pool_step E (with_default_parameters tg run) logicalTs ps h1)\<^sup>*\<^sup>* (initial_pool (tg_max_concurrency tg) ps) po \<Longrightarrow>
    length (po_consumed po) = length ps \<Longrightarrow>
    concurrentRun E run logicalTs h
      (case po_error po of None \<Rightarrow> Inr () | Some e \<Rightarrow> Inl (TwError e)) (history h1 po)"

section \<open>The workflows\<close>

text \<open>The context a workflow answers with: when it started, and the runs it recorded.\<close>

record trigger_context =
  tc_started :: int
  tc_runs :: "triggered_run list"
  tc_finished :: int

fun triggered :: "tw_event list \<Rightarrow> triggered_run list" where
  "triggered [] = []"
| "triggered (TwTriggered t # es) = t # triggered es"
| "triggered (e # es) = triggered es"

text \<open>\<^verbatim>\<open>CronTrigger\<close> and \<^verbatim>\<open>BackfillTrigger\<close> have the same body.\<close>

inductive trigger_workflow ::
    "tw_env \<Rightarrow> trigger_run \<Rightarrow> tw_event list \<Rightarrow> tw_stop + trigger_context \<Rightarrow> tw_event list \<Rightarrow> bool"
  for E run h where
  no_trigger: "ts_trigger (tr_spec run) = None \<Longrightarrow> trigger_workflow E run h (Inl TwPanic) h"
| failed: "ts_trigger (tr_spec run) = Some tg \<Longrightarrow>
    (if tg_max_concurrency tg > 0 then concurrentRun E run (tw_now E h) h (Inl stop) h'
     else run_state (batchRun E run (tw_now E h)) h = (Inl stop, h')) \<Longrightarrow>
    trigger_workflow E run h (Inl stop) h'"
| succeeded: "ts_trigger (tr_spec run) = Some tg \<Longrightarrow>
    (if tg_max_concurrency tg > 0 then concurrentRun E run (tw_now E h) h (Inr ()) h'
     else run_state (batchRun E run (tw_now E h)) h = (Inr (), h')) \<Longrightarrow> h' = h @ tr \<Longrightarrow>
    trigger_workflow E run h
      (Inr \<lparr>tc_started = tw_now E h, tc_runs = triggered tr, tc_finished = tw_now E h'\<rparr>) h'"

inductive_cases pool_stepE: "pool_step E run logicalTs ps h po po'"

section \<open>What a coroutine does\<close>

text \<open>The events a coroutine has caused, given its state.\<close>

fun co_trace :: "tw_env \<Rightarrow> trigger_run \<Rightarrow> int \<Rightarrow> params \<Rightarrow> co \<Rightarrow> tw_event list \<Rightarrow> bool" where
  "co_trace E run logicalTs p CoNew es \<longleftrightarrow> es = []"
| "co_trace E run logicalTs p (CoCreating k rq) es \<longleftrightarrow>
     (\<exists>nm failed. run_request_for E run logicalTs p nm = Inr rq \<and>
        (\<forall>tg. ts_trigger (tr_spec run) = Some tg \<longrightarrow>
           \<not> (tg_parameters tg \<noteq> [] \<and> map_of (tg_parameters tg) (GetParameterID p) = None)) \<and>
        es = map (TwCreate rq) failed \<and> length failed = k \<and> k < default_attempts \<and>
        (\<forall>a\<in>set failed. retriable (create_result a)))"
| "co_trace E run logicalTs p (CoWatching k key) es \<longleftrightarrow>
     (\<exists>nm rq failed a pr now polls. run_request_for E run logicalTs p nm = Inr rq \<and>
        (\<forall>tg. ts_trigger (tr_spec run) = Some tg \<longrightarrow>
           \<not> (tg_parameters tg \<noteq> [] \<and> map_of (tg_parameters tg) (GetParameterID p) = None)) \<and>
        retried default_attempts create_result failed \<and> create_result a = Inr pr \<and>
        es = map (TwCreate rq) (failed @ [a]) @
          TwTriggered (GetTriggeredRun p (om_name pr) (GetExecutionTimestamp p logicalTs) now) #
          map (TwSensor key) polls \<and>
        key = (om_namespace pr, om_name pr) \<and> length polls = k \<and> k < sensor_attempts \<and>
        (\<forall>a\<in>set polls. retriable (PipelineRunSensor a)))"
| "co_trace E run logicalTs p (CoFinished r) es \<longleftrightarrow>
     run_trace E run logicalTs p True es \<and> future_error r \<noteq> None"

lemma co_trace_watching:
  assumes "ts_trigger (tr_spec run) = Some tg"
    and "\<not> (tg_parameters tg \<noteq> [] \<and> map_of (tg_parameters tg) (GetParameterID p) = None)"
    and "run_request_for E run logicalTs p nm = Inr rq" "retried default_attempts create_result failed"
    and "create_result a = Inr pr" "length polls < sensor_attempts" "\<forall>a\<in>set polls. retriable (PipelineRunSensor a)"
    and "k = length polls" "key = (om_namespace pr, om_name pr)"
  shows "co_trace E run logicalTs p (CoWatching k key) (map (TwCreate rq) (failed @ [a]) @
    TwTriggered (GetTriggeredRun p (om_name pr) (GetExecutionTimestamp p logicalTs) now) # map (TwSensor key) polls)"
  unfolding co_trace.simps
  by (rule exI [of _ nm], rule exI [of _ rq], rule exI [of _ failed], rule exI [of _ a], rule exI [of _ pr],
      rule exI [of _ now], rule exI [of _ polls]) (use assms in simp)

lemma co_next_trace:
  assumes "engine_ok E" "ts_pipeline (tr_spec run) = Some pl" "ts_trigger (tr_spec run) = Some tg"
    and "co_trace E run logicalTs p c es" "co_next E run logicalTs p h c = (es', c')"
  shows "co_trace E run logicalTs p c' (es @ es')"
proof (cases c)
  case CoNew
  from assms(1) obtain bs where bs: "tw_random E h = Some bs" "length bs = 4" unfolding engine_ok_def by blast
  have "length (hex_encode bs) = 2 * length bs" by (induction bs) (simp_all add: hex_encode_def)
  with bs obtain nm where nm: "fst (run_state (generatePipelineRunName E) h) = Returned nm"
    by (simp add: generatePipelineRunName_def generateRandomString_def prefix_of_def)
  show ?thesis
  proof (cases rule: request_is_made [OF assms(1-3), of p logicalTs nm, case_names unknown made])
    case (unknown e)
    with CoNew nm assms(3-5) show ?thesis by (auto simp: run_trace_def future_error_def)
  next
    case (made rq)
    with CoNew nm assms(3-5) show ?thesis by (auto simp: default_attempts_def)
  qed
next
  case (CoCreating k rq)
  with assms(4) obtain nm failed where pre: "run_request_for E run logicalTs p nm = Inr rq"
    "\<not> (tg_parameters tg \<noteq> [] \<and> map_of (tg_parameters tg) (GetParameterID p) = None)"
    "es = map (TwCreate rq) failed" "length failed = k" "k < default_attempts"
    "\<forall>a\<in>set failed. retriable (create_result a)" using assms(3) by auto
  let ?a = "tw_create E h"
  have failed: "retried default_attempts create_result failed" using pre by (simp add: retried_def)
  show ?thesis
  proof (cases "tries_again E default_attempts k (create_result ?a) (h @ [TwCreate rq ?a])")
    case True
    with CoCreating assms(5) have "es' = [TwCreate rq ?a]" "c' = CoCreating (Suc k) rq" by (simp_all add: Let_def)
    with pre True assms(3) show ?thesis
      by (auto simp: tries_again_def intro!: exI [of _ nm] exI [of _ "failed @ [?a]"])
  next
    case no: False
    show ?thesis
    proof (cases "create_result ?a")
      case (Inl e)
      with no CoCreating assms(5) have "es' = [TwCreate rq ?a]" "c' = CoFinished (Inl (TwError e))"
        by (simp_all add: Let_def)
      with Inl pre(3) run_traceI [OF assms(3) pre(2,1) failed, where a = ?a and rest = "[]" and sensor = True] show ?thesis
        by (simp add: future_error_def)
    next
      case (Inr pr)
      with no CoCreating assms(5) have "c' = CoWatching 0 (om_namespace pr, om_name pr)"
        "es' = [TwCreate rq ?a, TwTriggered (GetTriggeredRun p (om_name pr)
           (GetExecutionTimestamp p logicalTs) (tw_now E (h @ [TwCreate rq ?a])))]"
        by (simp_all add: Let_def)
      with co_trace_watching [OF assms(3) pre(2,1) failed Inr, of "[]"] pre(3) show ?thesis
        by (simp add: sensor_attempts_def del: co_trace.simps)
    qed
  qed
next
  case (CoWatching k key)
  with assms(4) obtain nm rq failed a pr now polls where pre: "run_request_for E run logicalTs p nm = Inr rq"
    "\<not> (tg_parameters tg \<noteq> [] \<and> map_of (tg_parameters tg) (GetParameterID p) = None)"
    "retried default_attempts create_result failed" "create_result a = Inr pr"
    "es = map (TwCreate rq) (failed @ [a]) @
       TwTriggered (GetTriggeredRun p (om_name pr) (GetExecutionTimestamp p logicalTs) now) # map (TwSensor key) polls"
    "key = (om_namespace pr, om_name pr)" "length polls = k" "k < sensor_attempts"
    "\<forall>a\<in>set polls. retriable (PipelineRunSensor a)" using assms(3) by auto
  let ?b = "tw_sensor E h"
  show ?thesis
  proof (cases "tries_again E sensor_attempts k (PipelineRunSensor ?b) (h @ [TwSensor key ?b])")
    case True
    with CoWatching assms(5) have es': "es' = [TwSensor key ?b]" "c' = CoWatching (Suc k) key"
      by (simp_all add: Let_def)
    have b: "Suc k < sensor_attempts" "retriable (PipelineRunSensor ?b)"
      using True by (simp_all add: tries_again_def)
    have "\<forall>a\<in>set (polls @ [?b]). retriable (PipelineRunSensor a)" using pre(9) b(2) by auto
    with co_trace_watching [OF assms(3) pre(2,1,3,4), where polls = "polls @ [?b]" and k = "Suc k" and key = key and now = now] b(1) pre(6,7)
    have "co_trace E run logicalTs p (CoWatching (Suc k) key) (map (TwCreate rq) (failed @ [a]) @
       TwTriggered (GetTriggeredRun p (om_name pr) (GetExecutionTimestamp p logicalTs) now) #
       map (TwSensor key) (polls @ [?b]))"
      by (metis length_append_singleton)
    then show ?thesis unfolding es' pre(5) by (simp only: map_append list.map append_assoc append_Cons append_Nil)
  next
    case False
    have watch: "watch_trace True pr (map (TwSensor key) (polls @ [?b]))"
      unfolding watch_trace_def using pre(6-9) by (auto simp: retried_def)
    from False CoWatching assms(5) have es': "es' = [TwSensor key ?b]"
      and c': "c' = CoFinished (case PipelineRunSensor ?b of Inl e \<Rightarrow> Inl (TwError e) | Inr _ \<Rightarrow> Inr ())"
      by (simp_all add: Let_def)
    have "run_trace E run logicalTs p True (map (TwCreate rq) (failed @ [a]) @
       TwTriggered (GetTriggeredRun p (om_name pr) (GetExecutionTimestamp p logicalTs) now) #
       map (TwSensor key) (polls @ [?b]))"
      using pre(4) watch by (intro run_traceI [OF assms(3) pre(2,1,3)]) auto
    with es' c' pre(5) show ?thesis by (auto simp: future_error_def split: sum.splits)
  qed
next
  case (CoFinished r)
  with assms(4,5) show ?thesis by auto
qed

section \<open>What the pool does\<close>

lemma finishedD: "finished c \<Longrightarrow> \<exists>r. c = CoFinished r"
  by (cases c) (simp_all add: finished_def)

definition events_of :: "nat \<Rightarrow> (nat \<times> tw_event) list \<Rightarrow> tw_event list" where
  "events_of i tr = map snd (filter (\<lambda>x. fst x = i) tr)"

lemma events_of_append [simp]:
  "events_of i (tr @ map (Pair j) es) = events_of i tr @ (if i = j then es else [])"
  by (induction es arbitrary: tr) (auto simp: events_of_def)

text \<open>
  The number of started coroutines is determined by what the selector has consumed, it consumes
  each finished coroutine once, and each coroutine's events are those of one run of its parameter.
\<close>

definition pool_inv :: "tw_env \<Rightarrow> trigger_run \<Rightarrow> int \<Rightarrow> nat \<Rightarrow> params list \<Rightarrow> pool \<Rightarrow> bool" where
  "pool_inv E run logicalTs limit ps po \<longleftrightarrow>
     length (po_started po) = min (length ps) (min limit (length ps) + length (po_consumed po)) \<and>
     length (po_consumed po) \<le> length ps \<and> distinct (po_consumed po) \<and>
     (\<forall>i\<in>set (po_consumed po). i < length (po_started po) \<and> finished (po_started po ! i)) \<and>
     (\<forall>x\<in>set (po_trace po). fst x < length (po_started po)) \<and>
     (\<forall>i<length (po_started po).
        co_trace E run logicalTs (ps ! i) (po_started po ! i) (events_of i (po_trace po)))"

lemma pool_inv_initial: "pool_inv E run logicalTs (nat n) ps (initial_pool n ps)"
  by (simp add: pool_inv_def initial_pool_def events_of_def)

lemma pool_inv_step:
  assumes "engine_ok E" "ts_pipeline (tr_spec run) = Some pl" "ts_trigger (tr_spec run) = Some tg"
    and "pool_inv E run logicalTs limit ps po" "pool_step E run logicalTs ps h po po'"
  shows "pool_inv E run logicalTs limit ps po'"
  using assms(5)
proof cases
  case (advance i)
  let ?c = "po_started po ! i"
  obtain es c where n: "co_next E run logicalTs (ps ! i) (history h po) ?c = (es, c)" by fastforce
  from assms(4) advance(2) have "co_trace E run logicalTs (ps ! i) ?c (events_of i (po_trace po))"
    by (simp add: pool_inv_def)
  from co_next_trace [OF assms(1-3) this n] advance assms(4) n show ?thesis
    by (auto simp: pool_inv_def advance_def nth_list_update)
next
  case (select i r e)
  let ?n = "length (po_started po)"
  have new: "events_of ?n (po_trace po) = []"
  proof -
    have "\<forall>x\<in>set (po_trace po). fst x < ?n" using assms(4) unfolding pool_inv_def by blast
    then show ?thesis by (auto simp: events_of_def filter_empty_conv)
  qed
  let ?xs = "if ?n < length ps then [CoNew] else []"
  have sel: "po_started po' = po_started po @ ?xs" "po_consumed po' = po_consumed po @ [i]"
    "po_trace po' = po_trace po"
    using select(1) by (simp_all add: select_def)
  have co: "\<forall>j<length (po_started po'). co_trace E run logicalTs (ps ! j) (po_started po' ! j) (events_of j (po_trace po'))"
  proof (intro allI impI)
    fix j
    assume "j < length (po_started po')"
    then consider "j < ?n" | "j = ?n" "po_started po' ! j = CoNew"
      by (cases "j < ?n") (auto simp: sel nth_append split: if_splits)
    then show "co_trace E run logicalTs (ps ! j) (po_started po' ! j) (events_of j (po_trace po'))"
      by cases (use assms(4) new in \<open>simp_all add: sel pool_inv_def nth_append\<close>)
  qed
  have fin: "finished (po_started po ! i)" using select(5) by (simp add: finished_def)
  have len: "length (po_started po') = min (length ps) (min limit (length ps) + length (po_consumed po'))"
    using assms(4) unfolding sel by (auto simp: pool_inv_def)
  have con: "\<forall>i\<in>set (po_consumed po'). i < length (po_started po') \<and> finished (po_started po' ! i)"
    using assms(4) select(3) fin unfolding sel pool_inv_def by (auto simp: nth_append)
  have tr: "\<forall>x\<in>set (po_trace po'). fst x < length (po_started po')"
    using assms(4) unfolding sel pool_inv_def by auto
  from co len con tr assms(4) select(2,4) show ?thesis by (simp add: pool_inv_def sel)
qed

lemma pool_inv_reachable:
  assumes "engine_ok E" "ts_pipeline (tr_spec run) = Some pl" "ts_trigger (tr_spec run) = Some tg"
    and "(pool_step E run logicalTs ps h)\<^sup>*\<^sup>* (initial_pool n ps) po"
  shows "pool_inv E run logicalTs (nat n) ps po"
  using assms(4)
  by (induction rule: rtranclp_induct) (auto intro: pool_inv_initial pool_inv_step [OF assms(1-3)])

text \<open>A pool that has not consumed every future can go on.\<close>

lemma pool_progress:
  assumes "pool_inv E run logicalTs limit ps po" "0 < limit" "length (po_consumed po) < length ps"
  shows "\<exists>po'. pool_step E run logicalTs ps h po po'"
proof (cases "\<forall>i<length (po_started po). finished (po_started po ! i)")
  case True
  from assms have lt: "length (po_consumed po) < length (po_started po)" by (auto simp: pool_inv_def)
  have "card (set (po_consumed po)) < card {..<length (po_started po)}"
    using lt by (metis card_length card_lessThan le_less_trans)
  then obtain i where i: "i < length (po_started po)" "i \<notin> set (po_consumed po)"
    by (meson card_mono finite_set lessThan_iff not_le subsetI)
  with True obtain r where r: "po_started po ! i = CoFinished r" using finishedD by blast
  with i assms(1) have "future_error r \<noteq> None"
    unfolding pool_inv_def by (metis co_trace.simps(4))
  with i r assms(3) show ?thesis by (blast intro: pool_step.select)
next
  case False
  then show ?thesis by (blast intro: pool_step.advance)
qed

text \<open>Every step uses up some of the work that is left.\<close>

fun work :: "co \<Rightarrow> nat" where
  "work CoNew = default_attempts + sensor_attempts + 3"
| "work (CoCreating k rq) = default_attempts - k + sensor_attempts + 2"
| "work (CoWatching k key) = sensor_attempts - k + 1"
| "work (CoFinished r) = 0"

lemma co_next_work: "\<not> finished c \<Longrightarrow> work (snd (co_next E run logicalTs p h c)) < work c"
  by (cases c) (auto simp: Let_def finished_def tries_again_def split: outcome.splits sum.splits)

definition pool_work :: "params list \<Rightarrow> pool \<Rightarrow> nat" where
  "pool_work ps po = sum_list (map work (po_started po)) +
     (length ps - length (po_started po)) * work CoNew + (length ps - length (po_consumed po))"

lemma sum_list_update_less:
  "i < length xs \<Longrightarrow> f y < f (xs ! i) \<Longrightarrow> sum_list (map f (xs[i := y])) < (sum_list (map f xs) :: nat)"
  by (induction xs arbitrary: i) (auto split: nat.splits)

lemma pool_step_work:
  assumes "pool_step E run logicalTs ps h po po'"
  shows "pool_work ps po' < pool_work ps po"
  using assms
proof cases
  case (advance i)
  obtain es c where n: "co_next E run logicalTs (ps ! i) (history h po) (po_started po ! i) = (es, c)" by fastforce
  with co_next_work [OF advance(3)] have "work c < work (po_started po ! i)" by (metis snd_conv)
  with sum_list_update_less [OF advance(2)] n advance(1) show ?thesis
    by (simp add: pool_work_def advance_def)
next
  case (select i r e)
  have "(length ps - length (po_started po)) * work CoNew =
      work CoNew + (length ps - Suc (length (po_started po))) * work CoNew" if "length (po_started po) < length ps"
    using that by (metis Suc_diff_Suc mult_Suc)
  with select show ?thesis by (auto simp: pool_work_def select_def simp del: work.simps)
qed

lemma pool_steps_bounded:
  "(pool_step E run logicalTs ps h ^^ k) po po' \<Longrightarrow> k + pool_work ps po' \<le> pool_work ps po"
proof (induction k arbitrary: po')
  case (Suc k)
  from Suc.prems obtain po1 where "(pool_step E run logicalTs ps h ^^ k) po po1" "pool_step E run logicalTs ps h po1 po'"
    by auto
  with Suc.IH [of po1] pool_step_work [of E run logicalTs ps h po1 po'] show ?case by fastforce
qed simp

lemma pool_work_initial: "pool_work ps (initial_pool n ps) = length ps * (default_attempts + sensor_attempts + 4)"
proof -
  define m w where "m = min (nat n) (length ps)" and "w = work CoNew"
  have "m * w + (length ps - m) * w = length ps * w"
    unfolding m_def by (metis add_mult_distrib le_add_diff_inverse min.cobounded2)
  moreover have "pool_work ps (initial_pool n ps) = m * w + (length ps - m) * w + length ps"
    by (simp add: pool_work_def initial_pool_def sum_list_replicate m_def w_def del: work.simps)
  ultimately show ?thesis by (simp add: w_def algebra_simps)
qed

lemma concurrency_limit_holds_facts:
  assumes "engine_ok E" "ts_pipeline (tr_spec run) = Some pl" "ts_trigger (tr_spec run) = Some tg"
    and "(pool_step E run logicalTs ps h)\<^sup>*\<^sup>* (initial_pool n ps) po"
  shows "card {i. i < length (po_started po) \<and> \<not> finished (po_started po ! i)} \<le> nat n"
    and "length (po_started po) \<le> length ps" and "distinct (po_consumed po)"
proof -
  from pool_inv_reachable [OF assms] have inv: "pool_inv E run logicalTs (nat n) ps po" .
  then show "length (po_started po) \<le> length ps" "distinct (po_consumed po)"
    by (simp_all add: pool_inv_def)
  let ?active = "{i. i < length (po_started po) \<and> \<not> finished (po_started po ! i)}"
  have "?active \<subseteq> {..<length (po_started po)} - set (po_consumed po)"
    using inv by (auto simp: pool_inv_def)
  then have "card ?active \<le> card ({..<length (po_started po)} - set (po_consumed po))"
    by (intro card_mono) auto
  also have "\<dots> = length (po_started po) - length (po_consumed po)"
    using inv by (subst card_Diff_subset) (auto simp: pool_inv_def distinct_card)
  also have "\<dots> \<le> nat n" using inv by (auto simp: pool_inv_def)
  finally show "card ?active \<le> nat n" .
qed

text \<open>
  C35. A trigger never has more runs under way than its concurrency limit allows: whatever the
  interleaving of the coroutines, at most \<open>MaxConcurrency\<close> of those started are not finished, none
  is started for a parameter that does not exist, and the selector consumes no future twice.
\<close>

theorem concurrency_limit_holds:
  assumes "engine_ok E" "ts_pipeline (tr_spec run) = Some pl" "ts_trigger (tr_spec run) = Some tg"
    and "(pool_step E run logicalTs ps h)\<^sup>*\<^sup>* (initial_pool n ps) po"
  shows "card {i. i < length (po_started po) \<and> \<not> finished (po_started po ! i)} \<le> nat n \<and>
    length (po_started po) \<le> length ps \<and> distinct (po_consumed po)"
  using concurrency_limit_holds_facts [OF assms] by blast

lemma concurrent_workflow_ends_facts:
  assumes "engine_ok E" "ts_pipeline (tr_spec run) = Some pl" "ts_trigger (tr_spec run) = Some tg"
    and "0 < n" "(pool_step E run logicalTs ps h ^^ k) (initial_pool n ps) po"
  shows "k \<le> length ps * (default_attempts + sensor_attempts + 4)"
    and "length (po_consumed po) < length ps \<Longrightarrow> \<exists>po'. pool_step E run logicalTs ps h po po'"
    and "length (po_consumed po) = length ps \<Longrightarrow> i < length ps \<Longrightarrow>
      run_trace E run logicalTs (ps ! i) True (events_of i (po_trace po))"
proof -
  from pool_steps_bounded [OF assms(5)] show "k \<le> length ps * (default_attempts + sensor_attempts + 4)"
    by (simp add: pool_work_initial)
  from assms(5) have "(pool_step E run logicalTs ps h)\<^sup>*\<^sup>* (initial_pool n ps) po"
    by (rule relpowp_imp_rtranclp)
  from pool_inv_reachable [OF assms(1-3) this] have inv: "pool_inv E run logicalTs (nat n) ps po" .
  show "\<exists>po'. pool_step E run logicalTs ps h po po'" if "length (po_consumed po) < length ps"
    using pool_progress [OF inv _ that] assms(4) by simp
  assume all: "length (po_consumed po) = length ps" and i: "i < length ps"
  then have started: "length (po_started po) = length ps" using inv by (auto simp: pool_inv_def)
  have "set (po_consumed po) = {..<length ps}"
    using inv started all by (intro card_subset_eq) (auto simp: pool_inv_def distinct_card)
  with i inv have "finished (po_started po ! i)" by (auto simp: pool_inv_def)
  then obtain r where "po_started po ! i = CoFinished r" using finishedD by blast
  with inv i started show "run_trace E run logicalTs (ps ! i) True (events_of i (po_trace po))"
    unfolding pool_inv_def by (metis co_trace.simps(4))
qed

text \<open>
  C36. A concurrent workflow ends, having run every parameter once. Under every interleaving it makes
  a bounded number of steps (attempts included); as long as a future is not consumed some step is
  possible; and when all are, each parameter has had its request, its retries and its sensor in
  the order \<open>runPipeline\<close> gives them.
\<close>

theorem concurrent_workflow_ends:
  assumes "engine_ok E" "ts_pipeline (tr_spec run) = Some pl" "ts_trigger (tr_spec run) = Some tg"
    and "0 < n" "(pool_step E run logicalTs ps h ^^ k) (initial_pool n ps) po"
  shows "k \<le> length ps * (default_attempts + sensor_attempts + 4) \<and>
    (length (po_consumed po) < length ps \<longrightarrow> (\<exists>po'. pool_step E run logicalTs ps h po po')) \<and>
    (length (po_consumed po) = length ps \<longrightarrow>
      (\<forall>i<length ps. run_trace E run logicalTs (ps ! i) True (events_of i (po_trace po))))"
  using concurrent_workflow_ends_facts [OF assms] by blast

section \<open>A coroutine alone\<close>

definition co_exec ::
    "tw_env \<Rightarrow> trigger_run \<Rightarrow> int \<Rightarrow> params \<Rightarrow> tw_event list \<times> co \<Rightarrow> tw_event list \<times> co" where
  "co_exec E run logicalTs p s =
     (let (es, c) = co_next E run logicalTs p (fst s) (snd s) in (fst s @ es, c))"

lemma funpow_next: "(\<exists>k. (f ^^ k) (f s) = t) \<Longrightarrow> \<exists>k. (f ^^ k) s = t"
  by (metis funpow_Suc_right comp_apply)

lemma funpow_trans: "(f ^^ j) s = t \<Longrightarrow> (\<exists>k. (f ^^ k) t = u) \<Longrightarrow> \<exists>k. (f ^^ k) s = u"
  by (metis funpow_add comp_apply add.commute)

lemma execute_activity_once:
  "run_state (execute_activity give_up (limit - k) attempt) h =
     (let (r, h1) = run_state attempt h in
      if Suc k < limit \<and> retriable r \<and> \<not> give_up h1
      then run_state (execute_activity give_up (limit - Suc k) attempt) h1 else (r, h1))"
proof (cases "Suc k < limit")
  case True
  then obtain m where "limit - k = Suc (Suc m)" "limit - Suc k = Suc m" by (metis Suc_diff_Suc Suc_lessD)
  with True show ?thesis by (subst execute_activity.simps) (simp add: Let_def split: prod.splits)
next
  case False
  then have "limit - k = 0 \<or> limit - k = Suc 0" by auto
  with False show ?thesis by (subst execute_activity.simps) (auto split: prod.splits nat.splits)
qed

lemma creating_steps:
  "run_state (execute_activity (tw_give_up E) (default_attempts - k) (create_attempt E rq)) h = (r, h1) \<Longrightarrow>
   \<exists>j. (co_exec E run logicalTs p ^^ j) (h, CoCreating k rq) =
     (case r of
        Inl e \<Rightarrow> (h1, CoFinished (Inl (TwError e)))
      | Inr pr \<Rightarrow> (h1 @ [TwTriggered (GetTriggeredRun p (om_name pr) (GetExecutionTimestamp p logicalTs) (tw_now E h1))],
          CoWatching 0 (om_namespace pr, om_name pr)))"
proof (induction "default_attempts - k" arbitrary: k h rule: less_induct)
  case less
  let ?a = "tw_create E h"
  let ?h = "h @ [TwCreate rq ?a]"
  have attempt: "run_state (create_attempt E rq) h = (create_result ?a, ?h)"
    by (simp add: create_attempt_def create_result_def)
  show ?case
  proof (cases "tries_again E default_attempts k (create_result ?a) ?h")
    case True
    with less.prems attempt
    have 1: "run_state (execute_activity (tw_give_up E) (default_attempts - Suc k) (create_attempt E rq)) ?h = (r, h1)"
      by (subst (asm) execute_activity_once) (simp add: tries_again_def)
    have 2: "default_attempts - Suc k < default_attempts - k" using True by (auto simp: tries_again_def)
    have 3: "co_exec E run logicalTs p (h, CoCreating k rq) = (?h, CoCreating (Suc k) rq)"
      using True by (simp add: co_exec_def Let_def)
    from less.hyps [OF 2 1] show ?thesis unfolding 3 [symmetric] by (rule funpow_next)
  next
    case False
    with less.prems attempt have "r = create_result ?a" "h1 = ?h"
      by (subst (asm) execute_activity_once; auto simp: tries_again_def split: if_splits)+
    with False show ?thesis
      by (intro exI [of _ 1]) (simp add: co_exec_def Let_def split: sum.splits)
  qed
qed

lemma watching_steps:
  "run_state (execute_activity (tw_give_up E) (sensor_attempts - k) (sensor_attempt E key)) h = (r, h1) \<Longrightarrow>
   \<exists>j. (co_exec E run logicalTs p ^^ j) (h, CoWatching k key) =
     (h1, CoFinished (case r of Inl e \<Rightarrow> Inl (TwError e) | Inr _ \<Rightarrow> Inr ()))"
proof (induction "sensor_attempts - k" arbitrary: k h rule: less_induct)
  case less
  let ?a = "tw_sensor E h"
  let ?h = "h @ [TwSensor key ?a]"
  have attempt: "run_state (sensor_attempt E key) h = (PipelineRunSensor ?a, ?h)"
    by (simp add: sensor_attempt_def)
  show ?case
  proof (cases "tries_again E sensor_attempts k (PipelineRunSensor ?a) ?h")
    case True
    with less.prems attempt
    have 1: "run_state (execute_activity (tw_give_up E) (sensor_attempts - Suc k) (sensor_attempt E key)) ?h = (r, h1)"
      by (subst (asm) execute_activity_once) (simp add: tries_again_def)
    have 2: "sensor_attempts - Suc k < sensor_attempts - k" using True by (auto simp: tries_again_def)
    have 3: "co_exec E run logicalTs p (h, CoWatching k key) = (?h, CoWatching (Suc k) key)"
      using True by (simp add: co_exec_def Let_def)
    from less.hyps [OF 2 1] show ?thesis unfolding 3 [symmetric] by (rule funpow_next)
  next
    case False
    with less.prems attempt have "r = PipelineRunSensor ?a" "h1 = ?h"
      by (subst (asm) execute_activity_once; auto simp: tries_again_def split: if_splits)+
    with False show ?thesis
      by (intro exI [of _ 1]) (simp add: co_exec_def Let_def)
  qed
qed

text \<open>
  C37. A coroutine that runs alone is the sequential code: after finitely many of its steps it has
  caused the events of \<open>runPipeline\<close> and holds its answer, whatever the services say. So the
  interleaved executions above are those of the code.
\<close>

theorem coroutine_refines_the_run:
  "\<exists>k. (co_exec E run logicalTs p ^^ k) (h, CoNew) =
     (snd (run_state (runPipeline E run logicalTs p True) h),
      CoFinished (fst (run_state (runPipeline E run logicalTs p True) h)))"
proof -
  have name: "run_state (generatePipelineRunName E) h = (fst (run_state (generatePipelineRunName E) h), h)"
    by (simp add: generatePipelineRunName_def)
  show ?thesis
  proof (cases "fst (run_state (generatePipelineRunName E) h)")
    case Panicked
    with name have "run_state (generatePipelineRunName E) h = (Panicked, h)" by metis
    then show ?thesis by (intro exI [of _ 1]) (simp add: co_exec_def runPipeline_def)
  next
    case (Returned nm)
    with name have nm: "run_state (generatePipelineRunName E) h = (Returned nm, h)" by metis
    show ?thesis
    proof (cases "run_request_for E run logicalTs p nm")
      case (Inl stop)
      with nm show ?thesis by (intro exI [of _ 1]) (simp add: co_exec_def runPipeline_def)
    next
      case (Inr rq)
      have start: "co_exec E run logicalTs p (h, CoNew) = (h, CoCreating 0 rq)"
        using nm Inr by (simp add: co_exec_def)
      obtain r h1 where r: "run_state (execute_activity (tw_give_up E) default_attempts (create_attempt E rq)) h = (r, h1)"
        by fastforce
      from creating_steps [of E 0 rq h r h1 run logicalTs p, unfolded diff_zero, OF r] obtain j where
        j: "(co_exec E run logicalTs p ^^ j) (h, CoCreating 0 rq) =
          (case r of Inl e \<Rightarrow> (h1, CoFinished (Inl (TwError e)))
           | Inr pr \<Rightarrow> (h1 @ [TwTriggered (GetTriggeredRun p (om_name pr) (GetExecutionTimestamp p logicalTs) (tw_now E h1))],
               CoWatching 0 (om_namespace pr, om_name pr)))" ..
      show ?thesis
      proof (cases r)
        case (Inl e)
        have "run_state (runPipeline E run logicalTs p True) h = (Inl (TwError e), h1)"
          using nm Inr r \<open>r = Inl e\<close> by (simp add: runPipeline_def)
        with j [unfolded \<open>r = Inl e\<close> sum.case] show ?thesis
          by - (rule funpow_next, auto simp: start)
      next
        case pr: (Inr pr)
        let ?h = "h1 @ [TwTriggered (GetTriggeredRun p (om_name pr) (GetExecutionTimestamp p logicalTs) (tw_now E h1))]"
        let ?key = "(om_namespace pr, om_name pr)"
        obtain w h2 where w: "run_state (execute_activity (tw_give_up E) sensor_attempts (sensor_attempt E ?key)) ?h = (w, h2)"
          by fastforce
        from watching_steps [of E 0 ?key ?h w h2 run logicalTs p, unfolded diff_zero, OF w]
        have "\<exists>k. (co_exec E run logicalTs p ^^ k) (?h, CoWatching 0 ?key) =
          (h2, CoFinished (case w of Inl e \<Rightarrow> Inl (TwError e) | Inr _ \<Rightarrow> Inr ()))" .
        with j [unfolded pr sum.case] have "\<exists>k. (co_exec E run logicalTs p ^^ k) (h, CoCreating 0 rq) =
          (h2, CoFinished (case w of Inl e \<Rightarrow> Inl (TwError e) | Inr _ \<Rightarrow> Inr ()))"
          by (rule funpow_trans)
        moreover have "run_state (runPipeline E run logicalTs p True) h =
            (case w of Inl e \<Rightarrow> Inl (TwError e) | Inr _ \<Rightarrow> Inr (), h2)"
          using nm Inr r pr w by (simp add: runPipeline_def split: sum.splits)
        ultimately show ?thesis by - (rule funpow_next, simp add: start)
      qed
    qed
  qed
qed

section \<open>Witnesses\<close>

definition pool_params :: "params list" where
  "pool_params = [backfill_param 10 ''q'', backfill_param 11 ''q'', backfill_param 20 ''q'']"

lemma concurrency_limit_holds_witness:
  "\<exists>po. pool_step example_engine example_window 30 pool_params [] (initial_pool 2 pool_params) po \<and>
     card {i. i < length (po_started po) \<and> \<not> finished (po_started po ! i)} \<le> nat 2"
proof -
  let ?po = "advance example_engine example_window 30 pool_params [] 0 (initial_pool 2 pool_params)"
  have step: "pool_step example_engine example_window 30 pool_params [] (initial_pool 2 pool_params) ?po"
    by (rule pool_step.advance) (simp_all add: initial_pool_def pool_params_def finished_def)
  then have "(pool_step example_engine example_window 30 pool_params [])\<^sup>*\<^sup>* (initial_pool 2 pool_params) ?po"
    by (rule r_into_rtranclp)
  from concurrency_limit_holds [OF example_engine_ok example_window_sel this] step show ?thesis by blast
qed

lemma concurrent_workflow_ends_witness:
  "\<exists>po. (pool_step example_engine example_window 30 pool_params [] ^^ 1) (initial_pool 2 pool_params) po \<and>
     1 \<le> length pool_params * (default_attempts + sensor_attempts + 4) \<and>
     (\<exists>po'. pool_step example_engine example_window 30 pool_params [] po po')"
proof -
  let ?po = "advance example_engine example_window 30 pool_params [] 0 (initial_pool 2 pool_params)"
  have "pool_step example_engine example_window 30 pool_params [] (initial_pool 2 pool_params) ?po"
    by (rule pool_step.advance) (simp_all add: initial_pool_def pool_params_def finished_def)
  then have step: "(pool_step example_engine example_window 30 pool_params [] ^^ 1) (initial_pool 2 pool_params) ?po"
    by (metis relpowp_1)
  have len: "length (po_consumed ?po) < length pool_params"
    by (simp add: advance_def initial_pool_def pool_params_def split: prod.splits)
  from concurrent_workflow_ends [OF example_engine_ok example_window_sel _ step] len step
  show ?thesis by (meson zero_less_numeral)
qed

end
