(* ===== verification/Routing.thy ===== *)
theory Routing
  imports Prelude "HOL-Library.List_Lexorder" "HOL-Library.Char_ord" "HOL-Library.AList"
begin

text \<open>
  The routes of the gateway (\<^verbatim>\<open>go/components/common/routing\<close>): the route manager that keeps the
  rules of an HTTPRoute, and the names and paths the controllers of deployments and of inference
  servers agree on (\<^verbatim>\<open>go/components/inferenceserver/common/routenames\<close>). A route is an
  unstructured object; its rules are read and written through the accessors of the Kubernetes
  library, a parameter here. The locale \<open>keyed_rules\<close> states what a list of rules owes its
  users: it is a finite map from match paths to rules.
\<close>

section \<open>Names and paths\<close>

definition DiscoveryRouteName :: "string \<Rightarrow> string" where
  "DiscoveryRouteName isName = isName @ ''-discovery''"

definition TrafficRouteName :: "string \<Rightarrow> string" where
  "TrafficRouteName isName = isName @ ''-traffic''"

definition DiscoveryMatchPath :: "string \<Rightarrow> string \<Rightarrow> string" where
  "DiscoveryMatchPath isName deploymentName = ''/'' @ isName @ ''/'' @ deploymentName"

definition DiscoveryRewritePath :: "string \<Rightarrow> string \<Rightarrow> string" where
  "DiscoveryRewritePath isName deploymentName = ''/cluster/'' @ isName @ ''/'' @ deploymentName"

definition TrafficMatchPath :: "string \<Rightarrow> string \<Rightarrow> string" where
  "TrafficMatchPath isName deploymentName = ''/cluster/'' @ isName @ ''/'' @ deploymentName"

definition TrafficRewritePath :: "string \<Rightarrow> string" where
  "TrafficRewritePath modelName = ''/v2/models/'' @ modelName"

lemma TrafficMatchPath_inject [simp]: "TrafficMatchPath s d = TrafficMatchPath s d' \<longleftrightarrow> d = d'"
  by (simp add: TrafficMatchPath_def)

lemma TrafficRewritePath_inject [simp]: "TrafficRewritePath m = TrafficRewritePath m' \<longleftrightarrow> m = m'"
  by (simp add: TrafficRewritePath_def)

lemma TrafficRewritePath_nonempty [simp]: "TrafficRewritePath m \<noteq> ''''"
  by (simp add: TrafficRewritePath_def)

lemma route_names_distinct [simp]: "DiscoveryRouteName s \<noteq> TrafficRouteName s"
  by (simp add: DiscoveryRouteName_def TrafficRouteName_def)

section \<open>Rules\<close>

text \<open>The string types \<^verbatim>\<open>PathMatchType\<close> and \<^verbatim>\<open>RewriteType\<close> have an empty zero value.\<close>

definition PathMatchExact :: string where "PathMatchExact = ''Exact''"
definition PathMatchPrefix :: string where "PathMatchPrefix = ''Prefix''"
definition RewriteFullPath :: string where "RewriteFullPath = ''FullPath''"
definition RewritePrefix :: string where "RewritePrefix = ''Prefix''"

record rule =
  ru_match_path :: string
  ru_match_type :: string
  ru_rewrite_path :: string
  ru_rewrite_type :: string
  ru_backend_name :: string
  ru_backend_port :: int

record route_owner =
  ro_api_version :: string
  ro_kind :: string
  ro_name :: string
  ro_uid :: string

record route_config =
  rg_gateway_name :: string
  rg_gateway_namespace :: string
  rg_owner :: "route_owner option"
  rg_rules :: "rule list"

text \<open>
  A rule as the object holds it. The keys of a JSON object are kept in order, so the entries
  below are in the alphabetical order of their keys, not in that of the source.
\<close>

definition path_match :: "rule \<Rightarrow> json" where
  "path_match r = JObject
     [(''path'', JObject
        [(''type'', JString (if ru_match_type r = PathMatchPrefix then ''PathPrefix'' else ''Exact'')),
         (''value'', JString (ru_match_path r))])]"

definition rewrite_filter :: "rule \<Rightarrow> json" where
  "rewrite_filter r =
     (let (typeName, key) =
        (if ru_rewrite_type r = RewriteFullPath then (''ReplaceFullPath'', ''replaceFullPath'')
         else (''ReplacePrefixMatch'', ''replacePrefixMatch''))
      in JObject
        [(''type'', JString ''URLRewrite''),
         (''urlRewrite'', JObject
            [(''path'', JObject [(key, JString (ru_rewrite_path r)), (''type'', JString typeName)])])])"

definition backend_ref :: "rule \<Rightarrow> json" where
  "backend_ref r = JObject
     [(''group'', JString ''''), (''kind'', JString ''Service''), (''name'', JString (ru_backend_name r)),
      (''port'', JNumber (if ru_backend_port r = 0 then 80 else ru_backend_port r)),
      (''weight'', JNumber 1)]"

definition buildHTTPRule :: "rule \<Rightarrow> json" where
  "buildHTTPRule r = JObject
     ((if ru_backend_name r \<noteq> '''' then [(''backendRefs'', JList [backend_ref r])] else []) @
      (if ru_rewrite_path r \<noteq> '''' then [(''filters'', JList [rewrite_filter r])] else []) @
      [(''matches'', JList [path_match r])])"

section \<open>Unstructured objects\<close>

text \<open>
  \<^verbatim>\<open>unstructured.NestedSlice\<close>, \<^verbatim>\<open>NestedString\<close> and \<^verbatim>\<open>SetNestedSlice\<close> of the Kubernetes library,
  with the value they return (nil or empty when the field is missing or has another type); the
  code ignores what else they return. \<open>unstr_ok\<close> is their documented behaviour, stated over the
  value found by following the fields.
\<close>

record unstr_lib =
  us_slice :: "json \<Rightarrow> string list \<Rightarrow> json list"
  us_string :: "json \<Rightarrow> string list \<Rightarrow> string"
  us_set_slice :: "json \<Rightarrow> json list \<Rightarrow> string list \<Rightarrow> api_error + json"

fun json_at :: "json \<Rightarrow> string list \<Rightarrow> json option" where
  "json_at j [] = Some j"
| "json_at (JObject fs) (k # ks) =
     (case map_of fs k of None \<Rightarrow> None | Some j \<Rightarrow> json_at j ks)"
| "json_at _ (k # ks) = None"

definition unstr_ok :: "unstr_lib \<Rightarrow> bool" where
  "unstr_ok L \<longleftrightarrow>
     (\<forall>j ks. us_slice L j ks = (case json_at j ks of Some (JList xs) \<Rightarrow> xs | _ \<Rightarrow> [])) \<and>
     (\<forall>j ks. us_string L j ks = (case json_at j ks of Some (JString s) \<Rightarrow> s | _ \<Rightarrow> '''')) \<and>
     (\<forall>j xs ks j'. us_set_slice L j xs ks = Inr j' \<longrightarrow>
        json_at j' ks = Some (JList xs) \<and>
        (\<forall>ps. length ps = length ks \<and> ps \<noteq> ks \<longrightarrow> json_at j' ps = json_at j ps))"

lemma unstr_okD:
  assumes "unstr_ok L"
  shows "us_slice L j ks = (case json_at j ks of Some (JList xs) \<Rightarrow> xs | _ \<Rightarrow> [])"
    and "us_string L j ks = (case json_at j ks of Some (JString s) \<Rightarrow> s | _ \<Rightarrow> '''')"
    and "us_set_slice L j xs ks = Inr j' \<Longrightarrow> json_at j' ks = Some (JList xs)"
  using assms by (simp_all add: unstr_ok_def)

text \<open>\<^verbatim>\<open>rulePath\<close> and \<^verbatim>\<open>httpRuleRewritePath\<close> of a rule of any shape.\<close>

fun is_object :: "json \<Rightarrow> bool" where
  "is_object (JObject _) = True"
| "is_object _ = False"

definition rulePath :: "unstr_lib \<Rightarrow> json \<Rightarrow> string" where
  "rulePath L r =
     (if \<not> is_object r then ''''
      else case us_slice L r [''matches''] of
             [] \<Rightarrow> ''''
           | first # _ \<Rightarrow> if is_object first then us_string L first [''path'', ''value''] else '''')"

definition httpRuleRewritePath :: "unstr_lib \<Rightarrow> json \<Rightarrow> string" where
  "httpRuleRewritePath L r =
     (if \<not> is_object r then ''''
      else case us_slice L r [''filters''] of
             [] \<Rightarrow> ''''
           | f # _ \<Rightarrow>
               if \<not> is_object f then ''''
               else let v = us_string L f [''urlRewrite'', ''path'', ''replaceFullPath'']
                    in if v \<noteq> '''' then v
                       else us_string L f [''urlRewrite'', ''path'', ''replacePrefixMatch''])"

lemma rulePath_buildHTTPRule [simp]: "unstr_ok L \<Longrightarrow> rulePath L (buildHTTPRule r) = ru_match_path r"
  by (simp add: rulePath_def buildHTTPRule_def path_match_def unstr_okD)

lemma httpRuleRewritePath_buildHTTPRule [simp]:
  "unstr_ok L \<Longrightarrow> httpRuleRewritePath L (buildHTTPRule r) = ru_rewrite_path r"
  by (simp add: httpRuleRewritePath_def buildHTTPRule_def rewrite_filter_def unstr_okD Let_def)

subsection \<open>Lists of rules\<close>

fun findHTTPRuleByPath :: "unstr_lib \<Rightarrow> json list \<Rightarrow> string \<Rightarrow> nat option" where
  "findHTTPRuleByPath L [] path = None"
| "findHTTPRuleByPath L (r # rs) path =
     (if rulePath L r = path then Some 0 else map_option Suc (findHTTPRuleByPath L rs path))"

definition upsertHTTPRule :: "unstr_lib \<Rightarrow> json list \<Rightarrow> json \<Rightarrow> json list" where
  "upsertHTTPRule L rules r =
     (case findHTTPRuleByPath L rules (rulePath L r) of
        Some i \<Rightarrow> rules[i := r]
      | None \<Rightarrow> rules @ [r])"

definition removeHTTPRuleByPath :: "unstr_lib \<Rightarrow> json list \<Rightarrow> string \<Rightarrow> json list" where
  "removeHTTPRuleByPath L rules path = filter (\<lambda>r. rulePath L r \<noteq> path) rules"

definition find_rule :: "unstr_lib \<Rightarrow> json list \<Rightarrow> string \<Rightarrow> json option" where
  "find_rule L rules path =
     (case findHTTPRuleByPath L rules path of None \<Rightarrow> None | Some i \<Rightarrow> Some (rules ! i))"

lemma find_rule_simps [simp]:
  "find_rule L [] path = None"
  "find_rule L (r # rs) path = (if rulePath L r = path then Some r else find_rule L rs path)"
  by (auto simp: find_rule_def split: option.splits)

lemma find_rule_append:
  "find_rule L (rs @ rs') path =
     (case find_rule L rs path of None \<Rightarrow> find_rule L rs' path | Some r \<Rightarrow> Some r)"
  by (induction rs) auto

text \<open>Well-formed: at most one rule per match path.\<close>

definition one_per_path :: "unstr_lib \<Rightarrow> json list \<Rightarrow> bool" where
  "one_per_path L rules \<longleftrightarrow> distinct (map (rulePath L) rules)"

lemma findHTTPRuleByPath_None:
  "findHTTPRuleByPath L rules path = None \<longleftrightarrow> path \<notin> rulePath L ` set rules"
  by (induction rules) auto

lemma findHTTPRuleByPath_Some:
  "findHTTPRuleByPath L rules path = Some i \<Longrightarrow> i < length rules \<and> rulePath L (rules ! i) = path"
  by (induction rules arbitrary: i) (auto split: if_splits)

lemma upsertHTTPRule_simps [simp]:
  "upsertHTTPRule L [] r = [r]"
  "upsertHTTPRule L (q # rs) r =
     (if rulePath L q = rulePath L r then r # rs else q # upsertHTTPRule L rs r)"
  by (auto simp: upsertHTTPRule_def split: option.splits)

lemma find_rule_upsert:
  "find_rule L (upsertHTTPRule L rules r) = (find_rule L rules)(rulePath L r \<mapsto> r)"
  by (induction rules) auto

lemma find_rule_remove:
  "find_rule L (removeHTTPRuleByPath L rules path) = (find_rule L rules)(path := None)"
  by (induction rules) (auto simp: removeHTTPRuleByPath_def)

lemma set_upsert_paths:
  "rulePath L ` set (upsertHTTPRule L rules r) = insert (rulePath L r) (rulePath L ` set rules)"
  by (induction rules) auto

lemma one_per_path_upsert: "one_per_path L rules \<Longrightarrow> one_per_path L (upsertHTTPRule L rules r)"
proof (induction rules)
  case (Cons q rules)
  then show ?case
    using set_upsert_paths [of L rules r] by (auto simp: one_per_path_def)
qed (simp add: one_per_path_def)

lemma one_per_path_remove:
  "one_per_path L rules \<Longrightarrow> one_per_path L (removeHTTPRuleByPath L rules path)"
  by (induction rules) (auto simp: one_per_path_def removeHTTPRuleByPath_def)

text \<open>
  What the manager promises of a list of rules, and what its users may conclude from it: a
  sequence of upserts is the sequence of map updates, a sequence of removals restricts the map.
\<close>

locale keyed_rules =
  fixes path :: "'r \<Rightarrow> 'k"
    and upsert :: "'l \<Rightarrow> 'r \<Rightarrow> 'l"
    and remove :: "'l \<Rightarrow> 'k \<Rightarrow> 'l"
    and lookup :: "'l \<Rightarrow> 'k \<Rightarrow> 'r option"
    and invar :: "'l \<Rightarrow> bool"
  assumes lookup_upsert: "lookup (upsert l r) = (lookup l)(path r \<mapsto> r)"
    and lookup_remove: "lookup (remove l k) = (lookup l)(k := None)"
    and invar_upsert: "invar l \<Longrightarrow> invar (upsert l r)"
    and invar_remove: "invar l \<Longrightarrow> invar (remove l k)"
begin

lemma lookup_upserts: "lookup (foldl upsert l rs) = lookup l ++ map_of (map (\<lambda>r. (path r, r)) (rev rs))"
proof (induction rs rule: rev_induct)
  case (snoc r rs)
  then show ?case by (simp add: lookup_upsert fun_eq_iff map_add_def)
qed simp

lemma lookup_removes: "lookup (foldl remove l ks) = lookup l |` (- set ks)"
  by (induction ks rule: rev_induct) (auto simp: lookup_remove fun_eq_iff restrict_map_def)

lemma invar_upserts: "invar l \<Longrightarrow> invar (foldl upsert l rs)"
  by (induction rs arbitrary: l) (auto intro: invar_upsert)

lemma invar_removes: "invar l \<Longrightarrow> invar (foldl remove l ks)"
  by (induction ks arbitrary: l) (auto intro: invar_remove)

end

interpretation rules: keyed_rules "rulePath L" "upsertHTTPRule L" "removeHTTPRuleByPath L"
  "find_rule L" "one_per_path L"
  for L
  by unfold_locales
    (auto simp: find_rule_upsert find_rule_remove intro: one_per_path_upsert one_per_path_remove)

section \<open>Comparing rules\<close>

text \<open>
  \<^verbatim>\<open>mapsDeepEqual\<close> compares objects key by key, the lists that are entries of an object item by
  item, and anything else with \<^verbatim>\<open>==\<close>, which panics on two lists. The order in which Go ranges over
  an object only decides between a panic and a difference found first; the model takes the order
  of the keys.
\<close>

definition and_also :: "bool outcome \<Rightarrow> bool outcome \<Rightarrow> bool outcome" where
  "and_also x y = (case x of Returned True \<Rightarrow> y | _ \<Rightarrow> x)"

lemma and_also_True [simp]: "and_also x y = Returned True \<longleftrightarrow> x = Returned True \<and> y = Returned True"
  by (auto simp: and_also_def split: outcome.splits bool.splits)

fun mapsDeepEqual :: "json \<Rightarrow> json \<Rightarrow> bool outcome"
  and entriesEqual :: "(string \<times> json) list \<Rightarrow> (string \<times> json) list \<Rightarrow> bool outcome"
  and itemsEqual :: "json list \<Rightarrow> json list \<Rightarrow> bool outcome" where
  "mapsDeepEqual (JObject am) b =
     (case b of
        JObject bm \<Rightarrow> if length am \<noteq> length bm then Returned False else entriesEqual am bm
      | _ \<Rightarrow> Returned False)"
| "mapsDeepEqual (JList as) b =
     (case b of JObject bm \<Rightarrow> Returned False | JList bs \<Rightarrow> Panicked | _ \<Rightarrow> Returned False)"
| "mapsDeepEqual a b = (if is_object b then Returned False else Returned (a = b))"
| "entriesEqual [] bm = Returned True"
| "entriesEqual ((k, JList as) # am) bm =
     (case map_of bm k of
        Some (JList bs) \<Rightarrow>
          if length as \<noteq> length bs then Returned False
          else and_also (itemsEqual as bs) (entriesEqual am bm)
      | _ \<Rightarrow> Returned False)"
| "entriesEqual ((k, av) # am) bm =
     (case map_of bm k of
        None \<Rightarrow> Returned False
      | Some bv \<Rightarrow> and_also (mapsDeepEqual av bv) (entriesEqual am bm))"
| "itemsEqual (a # as) (b # bs) = and_also (mapsDeepEqual a b) (itemsEqual as bs)"
| "itemsEqual _ _ = Returned True"

definition httpRulesEqual :: "json list \<Rightarrow> json list \<Rightarrow> bool outcome" where
  "httpRulesEqual a b = (if length a \<noteq> length b then Returned False else itemsEqual a b)"

text \<open>Objects with their keys in order.\<close>

fun json_sorted :: "json \<Rightarrow> bool" where
  "json_sorted (JObject fs) \<longleftrightarrow>
     sorted_wrt (<) (map fst fs) \<and> (\<forall>f \<in> set fs. json_sorted (snd f))"
| "json_sorted (JList js) \<longleftrightarrow> (\<forall>j \<in> set js. json_sorted j)"
| "json_sorted _ \<longleftrightarrow> True"

lemma same_entries:
  fixes am bm :: "(string \<times> json) list"
  assumes "\<forall>f \<in> set am. map_of bm (fst f) = Some (snd f)"
    and "length am = length bm"
    and "sorted_wrt (<) (map fst am)" "sorted_wrt (<) (map fst bm)"
  shows "am = bm"
proof -
  have d: "sorted (map fst am) \<and> distinct (map fst am)" "sorted (map fst bm) \<and> distinct (map fst bm)"
    using assms(3,4) strict_sorted_iff by blast+
  have sub: "set am \<subseteq> set bm"
    using assms(1) by (metis map_of_SomeD prod.collapse subsetI)
  have "card (set am) = card (set bm)"
    using d assms(2) by (metis distinct_card distinct_map)
  with sub have "set am = set bm" by (simp add: card_subset_eq)
  with d show ?thesis
    by (intro map_sorted_distinct_set_unique [where f = fst]) (auto simp: distinct_map)
qed

lemma sorted_entry:
  assumes "map_of bm k = Some v" "\<forall>f \<in> set bm. json_sorted (snd f)"
  shows "json_sorted v"
  using assms by (metis map_of_SomeD snd_conv)

lemma deep_equal_sound:
  "mapsDeepEqual a b = Returned True \<Longrightarrow> json_sorted a \<Longrightarrow> json_sorted b \<Longrightarrow> a = b"
  "entriesEqual am bm = Returned True \<Longrightarrow> \<forall>f \<in> set am. json_sorted (snd f) \<Longrightarrow>
     \<forall>f \<in> set bm. json_sorted (snd f) \<Longrightarrow> \<forall>f \<in> set am. map_of bm (fst f) = Some (snd f)"
  "itemsEqual as bs = Returned True \<Longrightarrow> length as = length bs \<Longrightarrow> \<forall>j \<in> set as. json_sorted j \<Longrightarrow>
     \<forall>j \<in> set bs. json_sorted j \<Longrightarrow> as = bs"
proof (induction a b and am bm and as bs rule: mapsDeepEqual_entriesEqual_itemsEqual.induct)
  case (1 am b)
  then show ?case by (auto split: json.splits if_splits intro!: same_entries)
qed (auto split: json.splits if_splits option.splits dest!: sorted_entry dest: sym)

section \<open>The route manager\<close>

text \<open>The object \<^verbatim>\<open>buildHTTPRoute\<close> creates; its owner, when there is one, is its controller.\<close>

record http_route =
  hr_name :: string
  hr_namespace :: string
  hr_spec :: json
  hr_owner :: "(route_owner \<times> bool \<times> bool) option"

definition buildHTTPRoute :: "string \<Rightarrow> string \<Rightarrow> route_config \<Rightarrow> http_route" where
  "buildHTTPRoute name ns config =
     \<lparr>hr_name = name, hr_namespace = ns,
      hr_spec = JObject
        ([(''parentRefs'', JList [JObject
            [(''group'', JString ''gateway.networking.k8s.io''), (''kind'', JString ''Gateway''),
             (''name'', JString (rg_gateway_name config)),
             (''namespace'', JString (rg_gateway_namespace config))]])] @
         (if rg_rules config \<noteq> [] then [(''rules'', JList (map buildHTTPRule (rg_rules config)))]
          else [])),
      hr_owner = map_option (\<lambda>r. (r, True, True)) (rg_owner config)\<rparr>"

text \<open>
  The dynamic client of a cluster. A call is an event that records its answer; the answer may
  depend on everything that happened before, so other clients may write the same route between
  any two calls.
\<close>

datatype route_call =
    RouteGet string string "api_error + json"
  | RouteUpdate string json "api_error option"
  | RouteCreate string http_route "api_error option"
  | RouteDelete string string "api_error option"

record 'e route_answers =
  ra_get :: "'e list \<Rightarrow> string \<Rightarrow> string \<Rightarrow> api_error + json"
  ra_update :: "'e list \<Rightarrow> string \<Rightarrow> json \<Rightarrow> api_error option"
  ra_create :: "'e list \<Rightarrow> string \<Rightarrow> http_route \<Rightarrow> api_error option"
  ra_delete :: "'e list \<Rightarrow> string \<Rightarrow> string \<Rightarrow> api_error option"

record 'e route_client =
  rc_get :: "string \<Rightarrow> string \<Rightarrow> ('e, api_error + json) io"
  rc_update :: "string \<Rightarrow> json \<Rightarrow> ('e, api_error option) io"
  rc_create :: "string \<Rightarrow> http_route \<Rightarrow> ('e, api_error option) io"
  rc_delete :: "string \<Rightarrow> string \<Rightarrow> ('e, api_error option) io"

definition client_of :: "(route_call \<Rightarrow> 'e) \<Rightarrow> 'e route_answers \<Rightarrow> 'e route_client" where
  "client_of emb A =
     \<lparr>rc_get = (\<lambda>ns name. ask (\<lambda>h. ra_get A h ns name) (\<lambda>x. emb (RouteGet ns name x))),
      rc_update = (\<lambda>ns obj. ask (\<lambda>h. ra_update A h ns obj) (\<lambda>x. emb (RouteUpdate ns obj x))),
      rc_create = (\<lambda>ns r. ask (\<lambda>h. ra_create A h ns r) (\<lambda>x. emb (RouteCreate ns r x))),
      rc_delete = (\<lambda>ns name. ask (\<lambda>h. ra_delete A h ns name) (\<lambda>x. emb (RouteDelete ns name x)))\<rparr>"

lemma run_state_client [simp]:
  "run_state (rc_get (client_of emb A) ns name) h =
     (ra_get A h ns name, h @ [emb (RouteGet ns name (ra_get A h ns name))])"
  "run_state (rc_update (client_of emb A) ns obj) h =
     (ra_update A h ns obj, h @ [emb (RouteUpdate ns obj (ra_update A h ns obj))])"
  "run_state (rc_create (client_of emb A) ns r) h =
     (ra_create A h ns r, h @ [emb (RouteCreate ns r (ra_create A h ns r))])"
  "run_state (rc_delete (client_of emb A) ns name) h =
     (ra_delete A h ns name, h @ [emb (RouteDelete ns name (ra_delete A h ns name))])"
  by (simp_all add: client_of_def)

fun reason_of :: "api_error \<Rightarrow> status_reason option" where
  "reason_of (K8sStatusError r) = Some r"
| "reason_of (K8sOtherAPIStatus r) = Some r"
| "reason_of _ = None"

definition CreateRoute ::
    "'e route_client \<Rightarrow> string \<Rightarrow> string \<Rightarrow> route_config \<Rightarrow> ('e, api_error option) io" where
  "CreateRoute cl name ns config = do {
     got \<leftarrow> rc_get cl ns name;
     (case got of
        Inr obj \<Rightarrow> State_Monad.return None
      | Inl err \<Rightarrow>
          if \<not> k8s_is_not_found err then State_Monad.return (Some err)
          else do {
            createErr \<leftarrow> rc_create cl ns (buildHTTPRoute name ns config);
            State_Monad.return (case createErr of
                None \<Rightarrow> None
              | Some e \<Rightarrow> if reason_of e = Some ReasonAlreadyExists then None else Some e)
          })
   }"

definition RouteExists ::
    "'e route_client \<Rightarrow> string \<Rightarrow> string \<Rightarrow> ('e, api_error + bool) io" where
  "RouteExists cl name ns = do {
     got \<leftarrow> rc_get cl ns name;
     State_Monad.return (case got of
         Inr obj \<Rightarrow> Inr True
       | Inl err \<Rightarrow> if k8s_is_not_found err then Inr False else Inl err)
   }"

definition DeleteRoute :: "'e route_client \<Rightarrow> string \<Rightarrow> string \<Rightarrow> ('e, api_error option) io" where
  "DeleteRoute cl name ns = do {
     got \<leftarrow> rc_delete cl ns name;
     State_Monad.return (case got of
         None \<Rightarrow> None
       | Some err \<Rightarrow> if k8s_is_not_found err then None else Some err)
   }"

text \<open>
  \<^verbatim>\<open>retry.RetryOnConflict\<close> of the Kubernetes client is a parameter: it runs its argument again
  while it answers with a conflict, a bounded number of times, and then answers with the last.
\<close>

definition is_conflict :: "stop \<Rightarrow> bool" where
  "is_conflict s = (case s of Failing e \<Rightarrow> reason_of e = Some ReasonConflict | _ \<Rightarrow> False)"

primrec try_up_to :: "nat \<Rightarrow> ('e, stop + unit) io \<Rightarrow> ('e, stop + unit) io" where
  "try_up_to 0 m = m"
| "try_up_to (Suc n) m = do {
     got \<leftarrow> m;
     (case got of
        Inl s \<Rightarrow> if is_conflict s then try_up_to n m else State_Monad.return got
      | Inr _ \<Rightarrow> State_Monad.return got)
   }"

definition retries_on_conflict :: "(('e, stop + unit) io \<Rightarrow> ('e, stop + unit) io) \<Rightarrow> bool" where
  "retries_on_conflict rt \<longleftrightarrow> (\<exists>n. \<forall>m. rt m = try_up_to n m)"

abbreviation spec_rules :: "string list" where
  "spec_rules \<equiv> [''spec'', ''rules'']"

text \<open>Writing the desired rules when they differ from those just read, common to both operations.\<close>

definition write_rules ::
    "unstr_lib \<Rightarrow> 'e route_client \<Rightarrow> string \<Rightarrow> json \<Rightarrow> json list \<Rightarrow> json list \<Rightarrow> ('e, stop + unit) io" where
  "write_rules L cl ns obj existing desired =
     (case httpRulesEqual existing desired of
        Panicked \<Rightarrow> State_Monad.return (Inl Panics)
      | Returned True \<Rightarrow> State_Monad.return (Inr ())
      | Returned False \<Rightarrow>
          (case us_set_slice L obj desired spec_rules of
             Inl e \<Rightarrow> State_Monad.return (Inl (Failing e))
           | Inr obj' \<Rightarrow> do {
               err \<leftarrow> rc_update cl ns obj';
               State_Monad.return (case err of None \<Rightarrow> Inr () | Some e \<Rightarrow> Inl (Failing e))
             }))"

definition AddRules ::
    "unstr_lib \<Rightarrow> (('e, stop + unit) io \<Rightarrow> ('e, stop + unit) io) \<Rightarrow> 'e route_client
     \<Rightarrow> string \<Rightarrow> string \<Rightarrow> rule list \<Rightarrow> ('e, stop + unit) io" where
  "AddRules L rt cl name ns rs = rt (do {
     got \<leftarrow> rc_get cl ns name;
     (case got of
        Inl err \<Rightarrow> State_Monad.return (Inl (Failing
          (if k8s_is_not_found err then OtherError ''route not found'' else err)))
      | Inr obj \<Rightarrow>
          let existing = us_slice L obj spec_rules;
              desired = foldl (\<lambda>d r. upsertHTTPRule L d (buildHTTPRule r)) existing rs
          in write_rules L cl ns obj existing desired)
   })"

definition RemoveRules ::
    "unstr_lib \<Rightarrow> (('e, stop + unit) io \<Rightarrow> ('e, stop + unit) io) \<Rightarrow> 'e route_client
     \<Rightarrow> string \<Rightarrow> string \<Rightarrow> string list \<Rightarrow> ('e, stop + unit) io" where
  "RemoveRules L rt cl name ns matchPaths = rt (do {
     got \<leftarrow> rc_get cl ns name;
     (case got of
        Inl err \<Rightarrow> State_Monad.return (if k8s_is_not_found err then Inr () else Inl (Failing err))
      | Inr obj \<Rightarrow>
          let existing = us_slice L obj spec_rules;
              desired = foldl (removeHTTPRuleByPath L) existing matchPaths
          in write_rules L cl ns obj existing desired)
   })"

definition RuleExists ::
    "unstr_lib \<Rightarrow> 'e route_client \<Rightarrow> string \<Rightarrow> string \<Rightarrow> rule \<Rightarrow> ('e, api_error + bool) io" where
  "RuleExists L cl name ns r = do {
     got \<leftarrow> rc_get cl ns name;
     State_Monad.return (case got of
         Inl err \<Rightarrow> if k8s_is_not_found err then Inr False else Inl err
       | Inr obj \<Rightarrow>
           let rs = us_slice L obj spec_rules
           in (case findHTTPRuleByPath L rs (ru_match_path r) of
                 None \<Rightarrow> Inr False
               | Some i \<Rightarrow>
                   if ru_rewrite_path r = '''' then Inr True
                   else Inr (httpRuleRewritePath L (rs ! i) = ru_rewrite_path r)))
   }"

subsection \<open>What the operations do to the rules of a route\<close>

text \<open>An event that changed the route.\<close>

definition accepted :: "(route_call \<Rightarrow> 'e) \<Rightarrow> 'e \<Rightarrow> bool" where
  "accepted emb e \<longleftrightarrow> (\<exists>ns obj. e = emb (RouteUpdate ns obj None))"

definition rules_of :: "unstr_lib \<Rightarrow> json \<Rightarrow> string \<Rightarrow> json option" where
  "rules_of L obj = find_rule L (us_slice L obj spec_rules)"

definition table_of :: "rule list \<Rightarrow> string \<Rightarrow> json option" where
  "table_of rs = map_of (map (\<lambda>r. (ru_match_path r, buildHTTPRule r)) (rev rs))"

lemma json_at_sorted: "json_at j ks = Some j' \<Longrightarrow> json_sorted j \<Longrightarrow> json_sorted j'"
proof (induction j ks rule: json_at.induct)
  case (2 fs k ks)
  then show ?case by (auto split: option.splits dest: sorted_entry)
qed auto

lemma us_slice_sorted:
  assumes "unstr_ok L" "json_sorted j" "r \<in> set (us_slice L j ks)"
  shows "json_sorted r"
proof -
  from assms obtain rs where "json_at j ks = Some (JList rs)" "r \<in> set rs"
    by (cases "json_at j ks") (auto simp add: unstr_okD(1) split: json.splits)
  with json_at_sorted [OF this(1) assms(2)] show ?thesis by simp
qed

lemma buildHTTPRule_sorted [simp]: "json_sorted (buildHTTPRule r)"
  by (auto simp: buildHTTPRule_def path_match_def rewrite_filter_def backend_ref_def Let_def less_char_def)

lemma upsert_subset: "set (upsertHTTPRule L rules q) \<subseteq> insert q (set rules)"
  by (induction rules) auto

lemma upserts_sorted:
  "\<forall>r \<in> set rules. json_sorted r \<Longrightarrow>
   \<forall>r \<in> set (foldl (\<lambda>d r. upsertHTTPRule L d (buildHTTPRule r)) rules rs). json_sorted r"
proof (induction rs arbitrary: rules)
  case (Cons q rs)
  from Cons.prems have "\<forall>r \<in> set (upsertHTTPRule L rules (buildHTTPRule q)). json_sorted r"
    using upsert_subset [of L rules "buildHTTPRule q"] by auto
  from Cons.IH [OF this] show ?case by simp
qed simp

lemma removes_subset: "set (foldl (removeHTTPRuleByPath L) rules ps) \<subseteq> set rules"
proof (induction ps arbitrary: rules)
  case (Cons p ps)
  from Cons.IH [of "removeHTTPRuleByPath L rules p"] show ?case
    by (auto simp: removeHTTPRuleByPath_def)
qed simp

lemma httpRulesEqual_sound:
  assumes "httpRulesEqual as bs = Returned True"
    and "\<forall>r \<in> set as. json_sorted r" "\<forall>r \<in> set bs. json_sorted r"
  shows "as = bs"
  using assms deep_equal_sound(3) [of as bs] by (auto simp: httpRulesEqual_def split: if_splits)

lemma find_upserts:
  assumes "unstr_ok L"
  shows "find_rule L (foldl (\<lambda>d r. upsertHTTPRule L d (buildHTTPRule r)) l rs) =
           find_rule L l ++ table_of rs"
proof -
  have "foldl (\<lambda>d r. upsertHTTPRule L d (buildHTTPRule r)) l rs =
        foldl (upsertHTTPRule L) l (map buildHTTPRule rs)" for l
    by (induction rs arbitrary: l) simp_all
  then show ?thesis
    by (simp add: rules.lookup_upserts table_of_def rev_map comp_def assms)
qed

lemma write_rules_run:
  assumes run: "run_state (write_rules L (client_of emb A) ns obj old new) h = (res, h')"
    and sorted: "\<forall>r \<in> set old. json_sorted r" "\<forall>r \<in> set new. json_sorted r"
  obtains (unchanged) "res = Inr ()" "h' = h" "new = old"
  | (written) obj' where "res = Inr ()" "h' = h @ [emb (RouteUpdate ns obj' None)]"
      "us_set_slice L obj new spec_rules = Inr obj'"
  | (failed) s tr where "res = Inl s" "h' = h @ tr" "inj emb \<Longrightarrow> \<not> list_ex (accepted emb) tr"
proof (cases "httpRulesEqual old new")
  case Panicked
  with run show thesis by (intro failed) (auto simp: write_rules_def)
next
  case (Returned same)
  show thesis
  proof (cases same)
    case True
    with Returned run httpRulesEqual_sound [OF _ sorted] show thesis
      by (intro unchanged) (auto simp: write_rules_def)
  next
    case False
    show thesis
    proof (cases "us_set_slice L obj new spec_rules")
      case (Inl e)
      with False Returned run show thesis by (intro failed) (auto simp: write_rules_def)
    next
      case (Inr obj')
      show thesis
      proof (cases "ra_update A h ns obj'")
        case None
        with Inr False Returned run show thesis by (intro written) (auto simp: write_rules_def)
      next
        case (Some e)
        with Inr False Returned run show thesis
          by (intro failed [of "Failing e" "[emb (RouteUpdate ns obj' (Some e))]"])
            (auto simp: write_rules_def accepted_def dest: injD)
      qed
    qed
  qed
qed

lemma try_up_to_success:
  assumes "run_state (try_up_to n m) h = (Inr (), h')"
    and quiet: "\<And>h s h1. run_state m h = (Inl s, h1) \<Longrightarrow> \<exists>tr. h1 = h @ tr \<and> \<not> list_ex P tr"
  shows "\<exists>pre. \<not> list_ex P pre \<and> run_state m (h @ pre) = (Inr (), h')"
  using assms(1)
proof (induction n arbitrary: h)
  case 0
  then show ?case by (intro exI [of _ "[]"]) simp
next
  case (Suc n)
  obtain got h1 where m: "run_state m h = (got, h1)" by fastforce
  show ?case
  proof (cases got)
    case (Inr u)
    with m Suc.prems show ?thesis by (intro exI [of _ "[]"]) auto
  next
    case (Inl s)
    with m Suc.prems have "run_state (try_up_to n m) h1 = (Inr (), h')"
      by (auto split: if_splits)
    from Suc.IH [OF this] obtain pre where
      pre: "\<not> list_ex P pre" "run_state m (h1 @ pre) = (Inr (), h')" by blast
    from quiet m Inl obtain tr where "h1 = h @ tr" "\<not> list_ex P tr" by blast
    with pre show ?thesis by (intro exI [of _ "tr @ pre"]) auto
  qed
qed

text \<open>
  The rules of the route when an operation has succeeded: those of the object it read last,
  updated as requested, and nothing was written before.
\<close>

definition takes_effect ::
    "unstr_lib \<Rightarrow> (route_call \<Rightarrow> 'e) \<Rightarrow> string \<Rightarrow> string \<Rightarrow> 'e list
     \<Rightarrow> ((string \<rightharpoonup> json) \<Rightarrow> (string \<rightharpoonup> json)) \<Rightarrow> 'e list \<Rightarrow> bool" where
  "takes_effect L emb ns name h change h' \<longleftrightarrow>
     (\<exists>pre obj obj'. \<not> list_ex (accepted emb) pre \<and>
        rules_of L obj' = change (rules_of L obj) \<and>
        (obj' = obj \<and> h' = h @ pre @ [emb (RouteGet ns name (Inr obj))] \<or>
         h' = h @ pre @ [emb (RouteGet ns name (Inr obj)), emb (RouteUpdate ns obj' None)]))"

lemma takes_effectI:
  assumes "unstr_ok L" "\<not> list_ex (accepted emb) pre"
    and served: "\<And>r. r \<in> set (us_slice L obj spec_rules) \<Longrightarrow> json_sorted r"
    and new: "\<forall>r \<in> set new. json_sorted r" "find_rule L new = change (rules_of L obj)"
    and run: "run_state (write_rules L (client_of emb A) ns obj (us_slice L obj spec_rules) new)
      (h @ pre @ [emb (RouteGet ns name (Inr obj))]) = (Inr (), h')"
  shows "takes_effect L emb ns name h change h'"
proof -
  from served have "\<forall>r \<in> set (us_slice L obj spec_rules). json_sorted r" by blast
  with run show ?thesis using new(1)
  proof (cases rule: write_rules_run)
    case unchanged
    from new(2) [unfolded unchanged(3)] have "rules_of L obj = change (rules_of L obj)"
      by (simp add: rules_of_def)
    with unchanged assms(2) show ?thesis unfolding takes_effect_def by blast
  next
    case (written obj')
    with new(2) have "rules_of L obj' = change (rules_of L obj)"
      by (simp add: rules_of_def unstr_okD(1) [OF assms(1), of obj'] unstr_okD(3) [OF assms(1)])
    with written assms(2) show ?thesis unfolding takes_effect_def by fastforce
  qed simp
qed

text \<open>A retried attempt that reads the route, computes the new rules and writes them.\<close>

lemma attempts_take_effect:
  assumes lib: "unstr_ok L" and retry: "retries_on_conflict rt" and emb: "inj emb"
    and served: "\<And>h ns name obj. ra_get A h ns name = Inr obj \<Longrightarrow> json_sorted obj"
    and m: "m = do {
       got \<leftarrow> rc_get (client_of emb A) ns name;
       (case got of
          Inl err \<Rightarrow> State_Monad.return (f err)
        | Inr obj \<Rightarrow> write_rules L (client_of emb A) ns obj (us_slice L obj spec_rules) (new obj))
     }"
    and new: "\<And>obj. json_sorted obj \<Longrightarrow> \<forall>r \<in> set (new obj). json_sorted r"
      "\<And>obj. find_rule L (new obj) = change (rules_of L obj)"
    and run: "run_state (rt m) h = (Inr (), h')"
  obtains (took) "takes_effect L emb ns name h change h'"
  | (absent) pre err where "h' = h @ pre @ [emb (RouteGet ns name (Inl err))]" "f err = Inr ()"
      "\<not> list_ex (accepted emb) pre"
proof -
  have sorted: "\<forall>r \<in> set (us_slice L obj spec_rules). json_sorted r"
    if "ra_get A g ns name = Inr obj" for g obj
    using us_slice_sorted [OF lib served [OF that]] by blast
  have quiet_get: "\<not> accepted emb (emb (RouteGet ns name x))" for x
    using emb by (auto simp: accepted_def dest: injD)
  have "\<exists>tr. g1 = g @ tr \<and> \<not> list_ex (accepted emb) tr" if failed: "run_state m g = (Inl s, g1)" for g s g1
  proof (cases "ra_get A g ns name")
    case (Inl err)
    with failed have "g1 = g @ [emb (RouteGet ns name (Inl err))]" by (simp add: m)
    with quiet_get show ?thesis by simp
  next
    case (Inr obj)
    with failed have "run_state (write_rules L (client_of emb A) ns obj (us_slice L obj spec_rules)
        (new obj)) (g @ [emb (RouteGet ns name (Inr obj))]) = (Inl s, g1)"
      by (simp add: m)
    then show ?thesis
      using sorted [OF Inr] new(1) [OF served [OF Inr]]
    proof (cases rule: write_rules_run)
      case (failed s' tr)
      with emb quiet_get show ?thesis
        by (intro exI [of _ "emb (RouteGet ns name (Inr obj)) # tr"]) auto
    qed auto
  qed
  moreover from run retry obtain n where "run_state (try_up_to n m) h = (Inr (), h')"
    by (auto simp: retries_on_conflict_def)
  ultimately obtain pre where pre: "\<not> list_ex (accepted emb) pre"
    and last: "run_state m (h @ pre) = (Inr (), h')"
    using try_up_to_success [where P = "accepted emb"] by blast
  show thesis
  proof (cases "ra_get A (h @ pre) ns name")
    case (Inl err)
    with last pre show thesis by (intro absent) (auto simp: m)
  next
    case (Inr obj)
    with last have "run_state (write_rules L (client_of emb A) ns obj (us_slice L obj spec_rules)
        (new obj)) (h @ pre @ [emb (RouteGet ns name (Inr obj))]) = (Inr (), h')"
      by (simp add: m)
    then have "takes_effect L emb ns name h change h'"
      using takes_effectI [where new = "new obj" and obj = obj and change = change, OF lib pre]
        sorted [OF Inr] new(1) [OF served [OF Inr]] new(2) by blast
    then show thesis by (rule took)
  qed
qed

lemma add_rules_effect:
  assumes lib: "unstr_ok L" and retry: "retries_on_conflict rt" and emb: "inj emb"
    and served: "\<And>h ns name obj. ra_get A h ns name = Inr obj \<Longrightarrow> json_sorted obj"
    and run: "run_state (AddRules L rt (client_of emb A) name ns rs) h = (Inr (), h')"
  shows "takes_effect L emb ns name h (\<lambda>old. old ++ table_of rs) h'"
  using lib retry emb served refl _ _ run [unfolded AddRules_def Let_def]
proof (rule attempts_take_effect)
  show "\<forall>r \<in> set (foldl (\<lambda>d r. upsertHTTPRule L d (buildHTTPRule r)) (us_slice L obj spec_rules) rs).
      json_sorted r" if "json_sorted obj" for obj
    using that by (intro upserts_sorted) (blast intro: us_slice_sorted [OF lib])
  show "find_rule L (foldl (\<lambda>d r. upsertHTTPRule L d (buildHTTPRule r)) (us_slice L obj spec_rules) rs) =
      rules_of L obj ++ table_of rs" for obj
    by (simp add: find_upserts [OF lib] rules_of_def)
qed auto

lemma remove_rules_effect:
  assumes lib: "unstr_ok L" and retry: "retries_on_conflict rt" and emb: "inj emb"
    and served: "\<And>h ns name obj. ra_get A h ns name = Inr obj \<Longrightarrow> json_sorted obj"
    and run: "run_state (RemoveRules L rt (client_of emb A) name ns ps) h = (Inr (), h')"
  obtains (removed) "takes_effect L emb ns name h (\<lambda>old. old |` (- set ps)) h'"
  | (no_route) pre err where "h' = h @ pre @ [emb (RouteGet ns name (Inl err))]"
      "k8s_is_not_found err" "\<not> list_ex (accepted emb) pre"
  using lib retry emb served refl _ _ run [unfolded RemoveRules_def Let_def]
proof (rule attempts_take_effect)
  show "\<forall>r \<in> set (foldl (removeHTTPRuleByPath L) (us_slice L obj spec_rules) ps). json_sorted r"
    if "json_sorted obj" for obj
    using that removes_subset by (blast intro: us_slice_sorted [OF lib])
  show "find_rule L (foldl (removeHTTPRuleByPath L) (us_slice L obj spec_rules) ps) =
      rules_of L obj |` (- set ps)" for obj
    by (simp add: rules.lookup_removes rules_of_def)
qed (auto split: if_splits)

section \<open>A concrete library and cluster\<close>

fun set_json :: "json \<Rightarrow> json \<Rightarrow> string list \<Rightarrow> json option" where
  "set_json j x [] = Some x"
| "set_json (JObject fs) x (k # ks) =
     map_option (\<lambda>j'. JObject (AList.update k j' fs))
       (set_json (case map_of fs k of None \<Rightarrow> JObject [] | Some j \<Rightarrow> j) x ks)"
| "set_json _ x (k # ks) = None"

definition plain_unstr :: unstr_lib where
  "plain_unstr =
     \<lparr>us_slice = (\<lambda>j ks. case json_at j ks of Some (JList xs) \<Rightarrow> xs | _ \<Rightarrow> []),
      us_string = (\<lambda>j ks. case json_at j ks of Some (JString s) \<Rightarrow> s | _ \<Rightarrow> ''''),
      us_set_slice = (\<lambda>j xs ks. case set_json j (JList xs) ks of
         None \<Rightarrow> Inl (OtherError ''not an object'') | Some j' \<Rightarrow> Inr j')\<rparr>"

lemma set_json_same: "set_json j x ks = Some j' \<Longrightarrow> json_at j' ks = Some x"
  by (induction j x ks arbitrary: j' rule: set_json.induct)
    (auto simp: update_conv' split: option.splits)

lemma set_json_other:
  "set_json j x ks = Some j' \<Longrightarrow> length ps = length ks \<Longrightarrow> ps \<noteq> ks \<Longrightarrow> json_at j' ps = json_at j ps"
proof (induction j x ks arbitrary: j' ps rule: set_json.induct)
  case (2 fs x k ks)
  from 2(3) obtain p ps' where ps: "ps = p # ps'" "length ps' = length ks" by (cases ps) auto
  from 2(2) obtain j1 where j1: "j' = JObject (AList.update k j1 fs)"
    "set_json (case map_of fs k of None \<Rightarrow> JObject [] | Some j \<Rightarrow> j) x ks = Some j1" by auto
  show ?case
  proof (cases "p = k")
    case False
    with ps j1 show ?thesis by (simp add: update_conv')
  next
    case True
    with ps 2(4) have "ps' \<noteq> ks" by simp
    with 2(1) [OF j1(2) ps(2)] have *: "json_at j1 ps' = json_at (case map_of fs k of None \<Rightarrow> JObject [] | Some j \<Rightarrow> j) ps'" .
    from \<open>ps' \<noteq> ks\<close> ps(2) have "ps' \<noteq> []" by auto
    then have "json_at (JObject []) ps' = None" by (cases ps') auto
    with * True ps j1 show ?thesis by (simp add: update_conv' split: option.splits)
  qed
qed auto

lemma plain_unstr_ok [simp]: "unstr_ok plain_unstr"
  using set_json_same set_json_other
  by (auto simp: unstr_ok_def plain_unstr_def split: option.splits)

text \<open>A cluster that serves one route and accepts every write but the first.\<close>

definition example_route :: json where
  "example_route = JObject [(''spec'', JObject [(''rules'', JList [buildHTTPRule
     \<lparr>ru_match_path = ''/old'', ru_match_type = PathMatchPrefix, ru_rewrite_path = ''/v2/models/m'',
      ru_rewrite_type = RewritePrefix, ru_backend_name = ''triton'', ru_backend_port = 0\<rparr>])])]"

definition example_answers :: "route_call route_answers" where
  "example_answers =
     \<lparr>ra_get = (\<lambda>h ns name. Inr example_route),
      ra_update = (\<lambda>h ns obj. if length h \<le> 1 then Some (K8sStatusError ReasonConflict) else None),
      ra_create = (\<lambda>h ns r. None), ra_delete = (\<lambda>h ns name. None)\<rparr>"

definition example_rule :: rule where
  "example_rule =
     \<lparr>ru_match_path = ''/new'', ru_match_type = PathMatchPrefix, ru_rewrite_path = ''/v2/models/n'',
      ru_rewrite_type = RewritePrefix, ru_backend_name = ''triton'', ru_backend_port = 0\<rparr>"

lemma us_simps:
  "us_slice plain_unstr example_route spec_rules = [buildHTTPRule
     \<lparr>ru_match_path = ''/old'', ru_match_type = PathMatchPrefix, ru_rewrite_path = ''/v2/models/m'',
      ru_rewrite_type = RewritePrefix, ru_backend_name = ''triton'', ru_backend_port = 0\<rparr>]"
  "us_set_slice plain_unstr example_route xs spec_rules =
     Inr (JObject [(''spec'', JObject [(''rules'', JList xs)])])"
  by (simp_all add: plain_unstr_def example_route_def)

lemma example_route_sorted [simp]: "json_sorted example_route"
  by (simp add: example_route_def)

section \<open>Properties\<close>

text \<open>
  C9. A successful \<^verbatim>\<open>AddRules\<close> takes effect exactly once, on the version of the route it read last:
  whatever other clients do, however many attempts end in a conflict and in whatever order the
  answers come, the rules of the route are then those of that version with the requested rules
  put under their match paths, no other rule is touched, and nothing was written before.
\<close>

theorem added_rules_take_effect:
  assumes "unstr_ok L" "retries_on_conflict rt" "inj emb"
    and "\<And>h ns name obj. ra_get A h ns name = Inr obj \<Longrightarrow> json_sorted obj"
    and "run_state (AddRules L rt (client_of emb A) name ns rs) h = (Inr (), h')"
  shows "takes_effect L emb ns name h (\<lambda>old. old ++ table_of rs) h'"
  using assms by (rule add_rules_effect)

theorem added_rules_take_effect_witness:
  "\<exists>h'. run_state (AddRules plain_unstr (try_up_to 4) (client_of id example_answers) ''r'' ''ns'' [example_rule]) []
       = (Inr (), h') \<and> length h' = 4 \<and>
     takes_effect plain_unstr id ''ns'' ''r'' [] (\<lambda>old. old ++ table_of [example_rule]) h'"
proof -
  let ?m = "AddRules plain_unstr (try_up_to 4) (client_of id example_answers) ''r'' ''ns'' [example_rule]"
  have four: "try_up_to 4 = try_up_to (Suc (Suc (Suc (Suc 0))))" by (simp add: numeral_eq_Suc)
  have run: "fst (run_state ?m []) = Inr () \<and> length (snd (run_state ?m [])) = 4"
    unfolding AddRules_def four
    by (simp add: write_rules_def httpRulesEqual_def us_simps is_conflict_def example_answers_def
        example_rule_def)
  then obtain h' where "run_state ?m [] = (Inr (), h')" "length h' = 4"
    by (metis prod.collapse)
  moreover from this(1) have "takes_effect plain_unstr id ''ns'' ''r'' []
      (\<lambda>old. old ++ table_of [example_rule]) h'"
    by (intro added_rules_take_effect [where rt = "try_up_to 4" and A = example_answers])
      (auto simp: retries_on_conflict_def example_answers_def)
  ultimately show ?thesis by blast
qed

end
