(* ===== verification/Model_Config.thy ===== *)
theory Model_Config
  imports Routing Proto_Values
begin

text \<open>
  The model configuration of an inference server
  (\<^verbatim>\<open>go/components/inferenceserver/modelconfig/provider.go\<close>): the list of models a ConfigMap holds
  as one JSON text, which a sidecar of the server loads from. A list of models is a finite map
  from names to entries, by the same interface as the rules of a route.
\<close>

section \<open>Lists of models\<close>

record model_entry =
  me_name :: string
  me_storage_path :: string

fun add_entry :: "model_entry list \<Rightarrow> model_entry \<Rightarrow> model_entry list" where
  "add_entry [] entry = [\<lparr>me_name = me_name entry, me_storage_path = me_storage_path entry\<rparr>]"
| "add_entry (c # cs) entry =
     (if me_name c = me_name entry then c\<lparr>me_storage_path := me_storage_path entry\<rparr> # cs
      else c # add_entry cs entry)"

definition remove_entry :: "model_entry list \<Rightarrow> string \<Rightarrow> model_entry list" where
  "remove_entry cs modelName = filter (\<lambda>c. me_name c \<noteq> modelName) cs"

fun find_entry :: "model_entry list \<Rightarrow> string \<Rightarrow> model_entry option" where
  "find_entry [] n = None"
| "find_entry (c # cs) n = (if me_name c = n then Some c else find_entry cs n)"

lemma find_entry_None: "find_entry cs n = None \<longleftrightarrow> n \<notin> me_name ` set cs"
  by (induction cs) auto

lemma add_entry_names: "me_name ` set (add_entry cs e) = insert (me_name e) (me_name ` set cs)"
  by (induction cs) auto

lemma add_entry_distinct: "distinct (map me_name cs) \<Longrightarrow> distinct (map me_name (add_entry cs e))"
proof (induction cs)
  case (Cons c cs)
  then show ?case using add_entry_names [of cs e] by auto
qed simp

lemma remove_entry_distinct: "distinct (map me_name cs) \<Longrightarrow> distinct (map me_name (remove_entry cs n))"
  by (induction cs) (auto simp: remove_entry_def)

lemma find_add_entry: "find_entry (add_entry cs e) = (find_entry cs)(me_name e \<mapsto> e)"
  by (induction cs) (auto simp: fun_eq_iff)

lemma find_remove_entry: "find_entry (remove_entry cs n) = (find_entry cs)(n := None)"
  by (induction cs) (auto simp: remove_entry_def fun_eq_iff)

interpretation models: keyed_rules me_name add_entry remove_entry find_entry
  "\<lambda>cs. distinct (map me_name cs)"
  by unfold_locales
    (simp_all add: find_add_entry find_remove_entry add_entry_distinct remove_entry_distinct)

section \<open>ConfigMaps\<close>

definition modelListKey :: string where "modelListKey = ''model-list.json''"

definition generateConfigMapName :: "string \<Rightarrow> string" where
  "generateConfigMapName inferenceServer = inferenceServer @ ''-'' @ ''model-config''"

text \<open>
  The JSON text of a list of models is a parameter, with one law: a list of valid UTF-8 strings
  survives it. Marshalling such a list cannot fail.
\<close>

record model_codec =
  mc_marshal :: "model_entry list \<Rightarrow> string"
  mc_unmarshal :: "string \<Rightarrow> model_entry list option"

definition valid_entry :: "model_entry \<Rightarrow> bool" where
  "valid_entry e \<longleftrightarrow> ValidString (me_name e) \<and> ValidString (me_storage_path e)"

definition codec_ok :: "model_codec \<Rightarrow> bool" where
  "codec_ok C \<longleftrightarrow> (\<forall>es. list_all valid_entry es \<longrightarrow> mc_unmarshal C (mc_marshal C es) = Some es)"

record config_map =
  cm_name :: string
  cm_labels :: gomap
  cm_annotations :: gomap
  cm_data :: gomap

datatype cm_call =
    CmGet string string "api_error + config_map"
  | CmUpdate string config_map "api_error option"
  | CmCreate string config_map "api_error option"
  | CmDelete string string "api_error option"

record 'e cm_answers =
  ca_get :: "'e list \<Rightarrow> string \<Rightarrow> string \<Rightarrow> api_error + config_map"
  ca_update :: "'e list \<Rightarrow> string \<Rightarrow> config_map \<Rightarrow> api_error option"
  ca_create :: "'e list \<Rightarrow> string \<Rightarrow> config_map \<Rightarrow> api_error option"
  ca_delete :: "'e list \<Rightarrow> string \<Rightarrow> string \<Rightarrow> api_error option"

record 'e kube_client =
  kc_get :: "string \<Rightarrow> string \<Rightarrow> ('e, api_error + config_map) io"
  kc_update :: "string \<Rightarrow> config_map \<Rightarrow> ('e, api_error option) io"
  kc_create :: "string \<Rightarrow> config_map \<Rightarrow> ('e, api_error option) io"
  kc_delete :: "string \<Rightarrow> string \<Rightarrow> ('e, api_error option) io"

definition kube_of :: "(cm_call \<Rightarrow> 'e) \<Rightarrow> 'e cm_answers \<Rightarrow> 'e kube_client" where
  "kube_of emb A =
     \<lparr>kc_get = (\<lambda>ns name. ask (\<lambda>h. ca_get A h ns name) (\<lambda>x. emb (CmGet ns name x))),
      kc_update = (\<lambda>ns c. ask (\<lambda>h. ca_update A h ns c) (\<lambda>x. emb (CmUpdate ns c x))),
      kc_create = (\<lambda>ns c. ask (\<lambda>h. ca_create A h ns c) (\<lambda>x. emb (CmCreate ns c x))),
      kc_delete = (\<lambda>ns name. ask (\<lambda>h. ca_delete A h ns name) (\<lambda>x. emb (CmDelete ns name x)))\<rparr>"

lemma run_state_kube [simp]:
  "run_state (kc_get (kube_of emb A) ns name) h =
     (ca_get A h ns name, h @ [emb (CmGet ns name (ca_get A h ns name))])"
  "run_state (kc_update (kube_of emb A) ns c) h =
     (ca_update A h ns c, h @ [emb (CmUpdate ns c (ca_update A h ns c))])"
  "run_state (kc_create (kube_of emb A) ns c) h =
     (ca_create A h ns c, h @ [emb (CmCreate ns c (ca_create A h ns c))])"
  "run_state (kc_delete (kube_of emb A) ns name) h =
     (ca_delete A h ns name, h @ [emb (CmDelete ns name (ca_delete A h ns name))])"
  by (simp_all add: kube_of_def)

definition parseModelConfigsFromConfigMap :: "model_codec \<Rightarrow> config_map \<Rightarrow> api_error + model_entry list" where
  "parseModelConfigsFromConfigMap C cm =
     (case map_lookup (cm_data cm) modelListKey of
        None \<Rightarrow> Inr []
      | Some modelListJSON \<Rightarrow>
          (case mc_unmarshal C modelListJSON of
             None \<Rightarrow> Inl (OtherError ''failed to parse model-list.json'')
           | Some modelConfigs \<Rightarrow> Inr modelConfigs))"

text \<open>\<^verbatim>\<open>updateConfigMapWithModels\<close>: the ConfigMap it writes, and the write.\<close>

definition with_models :: "model_codec \<Rightarrow> model_entry list \<Rightarrow> config_map \<Rightarrow> config_map" where
  "with_models C modelConfigs cm =
     cm\<lparr>cm_data := put_entry (cm_data cm) modelListKey (mc_marshal C modelConfigs)\<rparr>"

definition updateConfigMapWithModels ::
    "model_codec \<Rightarrow> 'e kube_client \<Rightarrow> string \<Rightarrow> config_map \<Rightarrow> model_entry list \<Rightarrow> ('e, api_error option) io" where
  "updateConfigMapWithModels C cl ns cm modelConfigs = kc_update cl ns (with_models C modelConfigs cm)"

definition CreateModelConfig ::
    "'e kube_client \<Rightarrow> string \<Rightarrow> string \<Rightarrow> gomap \<Rightarrow> gomap \<Rightarrow> ('e, api_error option) io" where
  "CreateModelConfig cl inferenceServer ns labels annotations = do {
     existing \<leftarrow> kc_get cl ns (generateConfigMapName inferenceServer);
     (case existing of
        Inr _ \<Rightarrow> State_Monad.return None
      | Inl _ \<Rightarrow>
          kc_create cl ns
            \<lparr>cm_name = generateConfigMapName inferenceServer,
             cm_labels = Some
               ([''app.kubernetes.io/component'' \<mapsto> ''model-config'',
                 ''app.kubernetes.io/part-of'' \<mapsto> ''michelangelo'',
                 ''michelangelo.ai/inference-server'' \<mapsto> inferenceServer] ++
                (case labels of None \<Rightarrow> Map.empty | Some f \<Rightarrow> f)),
             cm_annotations = annotations, cm_data = Some Map.empty\<rparr>)
   }"

definition CheckModelConfigExists ::
    "'e kube_client \<Rightarrow> string \<Rightarrow> string \<Rightarrow> ('e, api_error + bool) io" where
  "CheckModelConfigExists cl inferenceServer ns = do {
     got \<leftarrow> kc_get cl ns (generateConfigMapName inferenceServer);
     State_Monad.return (case got of
         Inr _ \<Rightarrow> Inr True
       | Inl err \<Rightarrow> if k8s_is_not_found err then Inr False else Inl err)
   }"

definition GetModelsFromConfig ::
    "model_codec \<Rightarrow> 'e kube_client \<Rightarrow> string \<Rightarrow> string \<Rightarrow> ('e, api_error + model_entry list) io" where
  "GetModelsFromConfig C cl inferenceServer ns = do {
     got \<leftarrow> kc_get cl ns (generateConfigMapName inferenceServer);
     State_Monad.return (case got of
         Inl err \<Rightarrow> Inl err
       | Inr cm \<Rightarrow> parseModelConfigsFromConfigMap C cm)
   }"

definition AddModelToConfig ::
    "model_codec \<Rightarrow> 'e kube_client \<Rightarrow> string \<Rightarrow> string \<Rightarrow> model_entry \<Rightarrow> ('e, api_error option) io" where
  "AddModelToConfig C cl inferenceServer ns entry = do {
     got \<leftarrow> kc_get cl ns (generateConfigMapName inferenceServer);
     (case got of
        Inl err \<Rightarrow> State_Monad.return (Some err)
      | Inr cm \<Rightarrow>
          (case parseModelConfigsFromConfigMap C cm of
             Inl err \<Rightarrow> State_Monad.return (Some err)
           | Inr currentConfigs \<Rightarrow> updateConfigMapWithModels C cl ns cm (add_entry currentConfigs entry)))
   }"

definition RemoveModelFromConfig ::
    "model_codec \<Rightarrow> 'e kube_client \<Rightarrow> string \<Rightarrow> string \<Rightarrow> string \<Rightarrow> ('e, api_error option) io" where
  "RemoveModelFromConfig C cl inferenceServer ns modelName = do {
     got \<leftarrow> kc_get cl ns (generateConfigMapName inferenceServer);
     (case got of
        Inl err \<Rightarrow> State_Monad.return (Some err)
      | Inr cm \<Rightarrow>
          (case parseModelConfigsFromConfigMap C cm of
             Inl err \<Rightarrow> State_Monad.return (Some err)
           | Inr currentConfigs \<Rightarrow>
               updateConfigMapWithModels C cl ns cm (remove_entry currentConfigs modelName)))
   }"

definition DeleteModelConfig :: "'e kube_client \<Rightarrow> string \<Rightarrow> string \<Rightarrow> ('e, api_error option) io" where
  "DeleteModelConfig cl inferenceServer ns = kc_delete cl ns (generateConfigMapName inferenceServer)"

text \<open>\<^verbatim>\<open>CheckModelExists\<close> of \<^verbatim>\<open>deployment/plugins/oss/common/model_config.go\<close>.\<close>

definition CheckModelExists ::
    "model_codec \<Rightarrow> 'e kube_client \<Rightarrow> string \<Rightarrow> string \<Rightarrow> string \<Rightarrow> ('e, api_error + bool) io" where
  "CheckModelExists C cl modelName inferenceServer ns = do {
     got \<leftarrow> GetModelsFromConfig C cl inferenceServer ns;
     State_Monad.return (case got of
         Inl err \<Rightarrow> Inl err
       | Inr models \<Rightarrow> Inr (\<exists>m \<in> set models. me_name m = modelName))
   }"

section \<open>What the operations do to the models\<close>

text \<open>The models a ConfigMap lists, when its text can be read.\<close>

definition models_of :: "model_codec \<Rightarrow> config_map \<Rightarrow> (string \<rightharpoonup> model_entry) option" where
  "models_of C cm =
     (case parseModelConfigsFromConfigMap C cm of Inl _ \<Rightarrow> None | Inr es \<Rightarrow> Some (find_entry es))"

lemma list_all_add_entry: "list_all valid_entry cs \<Longrightarrow> valid_entry e \<Longrightarrow> list_all valid_entry (add_entry cs e)"
  by (induction cs) (auto simp: valid_entry_def)

lemma list_all_remove_entry: "list_all P cs \<Longrightarrow> list_all P (remove_entry cs n)"
  by (auto simp: remove_entry_def list_all_iff)

lemma parse_with_models:
  "codec_ok C \<Longrightarrow> list_all valid_entry es \<Longrightarrow> parseModelConfigsFromConfigMap C (with_models C es cm) = Inr es"
  by (simp add: parseModelConfigsFromConfigMap_def with_models_def codec_ok_def)

text \<open>
  The write of a successful operation: the ConfigMap that was read with its models changed,
  and every other key of its data as it was.
\<close>

definition rewrites_models ::
    "model_codec \<Rightarrow> (cm_call \<Rightarrow> 'e) \<Rightarrow> string \<Rightarrow> string \<Rightarrow> 'e list
     \<Rightarrow> ((string \<rightharpoonup> model_entry) \<Rightarrow> (string \<rightharpoonup> model_entry)) \<Rightarrow> 'e list \<Rightarrow> bool" where
  "rewrites_models C emb ns name h change h' \<longleftrightarrow>
     (\<exists>cm cm' old. h' = h @ [emb (CmGet ns name (Inr cm)), emb (CmUpdate ns cm' None)] \<and>
        models_of C cm = Some old \<and> models_of C cm' = Some (change old) \<and>
        (\<forall>k. k \<noteq> modelListKey \<longrightarrow> map_lookup (cm_data cm') k = map_lookup (cm_data cm) k))"

lemma add_model_effect:
  assumes codec: "codec_ok C" and entry: "valid_entry e"
    and valid: "\<And>s es. mc_unmarshal C s = Some es \<Longrightarrow> list_all valid_entry es"
    and run: "run_state (AddModelToConfig C (kube_of emb A) is ns e) h = (None, h')"
  shows "rewrites_models C emb ns (generateConfigMapName is) h (\<lambda>old. old(me_name e \<mapsto> e)) h'"
proof -
  from run obtain cm es where got: "ca_get A h ns (generateConfigMapName is) = Inr cm"
    and es: "parseModelConfigsFromConfigMap C cm = Inr es"
    and h': "h' = h @ [emb (CmGet ns (generateConfigMapName is) (Inr cm)),
        emb (CmUpdate ns (with_models C (add_entry es e) cm) None)]"
    by (auto simp: AddModelToConfig_def updateConfigMapWithModels_def split: sum.splits)
  from es valid have "list_all valid_entry es"
    by (auto simp: parseModelConfigsFromConfigMap_def split: option.splits)
  then have "parseModelConfigsFromConfigMap C (with_models C (add_entry es e) cm) = Inr (add_entry es e)"
    using codec entry by (simp add: parse_with_models list_all_add_entry)
  with es h' show ?thesis
    unfolding rewrites_models_def models_of_def
    by (intro exI [of _ cm] exI [of _ "with_models C (add_entry es e) cm"] exI [of _ "find_entry es"])
      (simp add: models.lookup_upsert with_models_def)
qed

lemma remove_model_effect:
  assumes codec: "codec_ok C"
    and valid: "\<And>s es. mc_unmarshal C s = Some es \<Longrightarrow> list_all valid_entry es"
    and run: "run_state (RemoveModelFromConfig C (kube_of emb A) is ns n) h = (None, h')"
  shows "rewrites_models C emb ns (generateConfigMapName is) h (\<lambda>old. old(n := None)) h'"
proof -
  from run obtain cm es where got: "ca_get A h ns (generateConfigMapName is) = Inr cm"
    and es: "parseModelConfigsFromConfigMap C cm = Inr es"
    and h': "h' = h @ [emb (CmGet ns (generateConfigMapName is) (Inr cm)),
        emb (CmUpdate ns (with_models C (remove_entry es n) cm) None)]"
    by (auto simp: RemoveModelFromConfig_def updateConfigMapWithModels_def split: sum.splits)
  from es valid have "list_all valid_entry es"
    by (auto simp: parseModelConfigsFromConfigMap_def split: option.splits)
  then have "parseModelConfigsFromConfigMap C (with_models C (remove_entry es n) cm) = Inr (remove_entry es n)"
    using codec by (simp add: parse_with_models list_all_remove_entry)
  with es h' show ?thesis
    unfolding rewrites_models_def models_of_def
    by (intro exI [of _ cm] exI [of _ "with_models C (remove_entry es n) cm"] exI [of _ "find_entry es"])
      (simp add: models.lookup_remove with_models_def)
qed

text \<open>What \<^verbatim>\<open>CheckModelExists\<close> answers is whether the ConfigMap it is served lists the model.\<close>

lemma CheckModelExists_models:
  assumes "ca_get A h ns (generateConfigMapName is) = Inr cm" "models_of C cm = Some old"
  shows "fst (run_state (CheckModelExists C (kube_of emb A) n is ns) h) = Inr (n \<in> dom old)"
proof -
  from assms(2) obtain es where "parseModelConfigsFromConfigMap C cm = Inr es" "old = find_entry es"
    by (auto simp: models_of_def split: sum.splits)
  moreover have "n \<in> dom (find_entry es) \<longleftrightarrow> (\<exists>m \<in> set es. me_name m = n)"
    using find_entry_None [of es n] by auto
  ultimately show ?thesis
    using assms(1) by (simp add: CheckModelExists_def GetModelsFromConfig_def)
qed

end
