(* ===== verification/Deployment_Model.thy ===== *)
theory Deployment_Model
  imports Conditions Model_Config
begin

text \<open>
  The data of the deployment controller (\<^verbatim>\<open>go/components/deployment\<close>,
  \<^verbatim>\<open>proto/api/v2/deployment.proto\<close>, \<^verbatim>\<open>inference_server.proto\<close>): deployments and the stages of
  their life, the predicates that decide what a pass does, the snapshot of target clusters kept in
  an annotation, and the environment the controller and its plugin talk to.
\<close>

section \<open>Deployments\<close>

datatype deployment_stage =
    DS_INVALID | DS_VALIDATION | DS_PLACEMENT | DS_RESOURCE_ACQUISITION
  | DS_ROLLOUT_COMPLETE | DS_ROLLOUT_FAILED
  | DS_ROLLBACK_IN_PROGRESS | DS_ROLLBACK_COMPLETE | DS_ROLLBACK_FAILED
  | DS_CLEAN_UP_IN_PROGRESS | DS_CLEAN_UP_COMPLETE | DS_CLEAN_UP_FAILED

datatype deployment_state =
    DState_INVALID | DState_INITIALIZING | DState_HEALTHY | DState_UNHEALTHY | DState_EMPTY

record revision_ref =
  rv_namespace :: string
  rv_name :: string

text \<open>\<^verbatim>\<open>GetName\<close> of a nil reference is empty.\<close>

definition name_of :: "revision_ref option \<Rightarrow> string" where
  "name_of r = (case r of None \<Rightarrow> '''' | Some v \<Rightarrow> rv_name v)"

datatype rollout_strategy =
    RS_None | RS_Zonal | RS_Blast bool \<comment> \<open>with rollback trigger\<close>
  | RS_RedBlack | RS_Rolling | RS_Disaggregated

record deployment_spec =
  ds_desired :: "revision_ref option"
  ds_inference_server :: "revision_ref option"
  ds_deleted :: bool
  ds_strategy :: "rollout_strategy option"
  ds_definition :: "(string \<times> string) option" \<comment> \<open>target type and sub-type\<close>

record deployment_status =
  dt_state :: deployment_state
  dt_message :: string
  dt_stage :: deployment_stage
  dt_candidate :: "revision_ref option"
  dt_current :: "revision_ref option"
  dt_conditions :: "condition list"
  dt_snapshot :: "condition list"

record deployment = obj_meta +
  dp_spec :: deployment_spec
  dp_status :: deployment_status

abbreviation stage_of :: "deployment \<Rightarrow> deployment_stage" where
  "stage_of d \<equiv> dt_stage (dp_status d)"
abbreviation current_of :: "deployment \<Rightarrow> revision_ref option" where
  "current_of d \<equiv> dt_current (dp_status d)"
abbreviation candidate_of :: "deployment \<Rightarrow> revision_ref option" where
  "candidate_of d \<equiv> dt_candidate (dp_status d)"
abbreviation desired_of :: "deployment \<Rightarrow> revision_ref option" where
  "desired_of d \<equiv> ds_desired (dp_spec d)"
abbreviation server_of :: "deployment \<Rightarrow> string" where
  "server_of d \<equiv> name_of (ds_inference_server (dp_spec d))"

definition set_stage :: "deployment_stage \<Rightarrow> deployment \<Rightarrow> deployment" where
  "set_stage s d = d\<lparr>dp_status := (dp_status d)\<lparr>dt_stage := s\<rparr>\<rparr>"
definition set_dmessage :: "string \<Rightarrow> deployment \<Rightarrow> deployment" where
  "set_dmessage m d = d\<lparr>dp_status := (dp_status d)\<lparr>dt_message := m\<rparr>\<rparr>"
definition set_dstate :: "deployment_state \<Rightarrow> deployment \<Rightarrow> deployment" where
  "set_dstate s d = d\<lparr>dp_status := (dp_status d)\<lparr>dt_state := s\<rparr>\<rparr>"
definition set_candidate :: "revision_ref option \<Rightarrow> deployment \<Rightarrow> deployment" where
  "set_candidate r d = d\<lparr>dp_status := (dp_status d)\<lparr>dt_candidate := r\<rparr>\<rparr>"
definition set_current :: "revision_ref option \<Rightarrow> deployment \<Rightarrow> deployment" where
  "set_current r d = d\<lparr>dp_status := (dp_status d)\<lparr>dt_current := r\<rparr>\<rparr>"
definition set_dconditions :: "condition list \<Rightarrow> deployment \<Rightarrow> deployment" where
  "set_dconditions cs d = d\<lparr>dp_status := (dp_status d)\<lparr>dt_conditions := cs\<rparr>\<rparr>"

lemmas dep_set_defs = set_stage_def set_dmessage_def set_dstate_def set_candidate_def
  set_current_def set_dconditions_def

section \<open>What a pass does\<close>

definition IsTerminalStage :: "deployment_stage \<Rightarrow> bool" where
  "IsTerminalStage s \<longleftrightarrow> s \<in> {DS_ROLLOUT_COMPLETE, DS_ROLLBACK_COMPLETE, DS_CLEAN_UP_COMPLETE,
     DS_ROLLOUT_FAILED, DS_ROLLBACK_FAILED, DS_CLEAN_UP_FAILED}"

definition IsRollbackStage :: "deployment_stage \<Rightarrow> bool" where
  "IsRollbackStage s \<longleftrightarrow> s \<in> {DS_ROLLBACK_IN_PROGRESS, DS_ROLLBACK_COMPLETE, DS_ROLLBACK_FAILED}"

definition IsCleanupStage :: "deployment_stage \<Rightarrow> bool" where
  "IsCleanupStage s \<longleftrightarrow> s \<in> {DS_CLEAN_UP_IN_PROGRESS, DS_CLEAN_UP_COMPLETE, DS_CLEAN_UP_FAILED}"

definition IsCleanupCompleteStage :: "deployment_stage \<Rightarrow> bool" where
  "IsCleanupCompleteStage s \<longleftrightarrow> s \<in> {DS_CLEAN_UP_COMPLETE, DS_CLEAN_UP_FAILED}"

definition isInitializationStage :: "deployment_stage \<Rightarrow> bool" where
  "isInitializationStage s \<longleftrightarrow> s = DS_INVALID"

lemmas stage_classes = IsTerminalStage_def IsRollbackStage_def IsCleanupStage_def
  IsCleanupCompleteStage_def isInitializationStage_def

fun revisionEqual :: "revision_ref option \<Rightarrow> revision_ref option \<Rightarrow> bool" where
  "revisionEqual None None = True"
| "revisionEqual (Some a) (Some b) = (rv_name a = rv_name b \<and> rv_namespace a = rv_namespace b)"
| "revisionEqual _ _ = False"

definition desiredRevisionEqual :: "revision_ref option \<Rightarrow> revision_ref option \<Rightarrow> bool" where
  "desiredRevisionEqual a b = revisionEqual a b"

lemma revisionEqual_iff [simp]: "revisionEqual a b \<longleftrightarrow> a = b"
  by (cases a; cases b) auto

definition TriggerNewRollout :: "deployment \<Rightarrow> bool" where
  "TriggerNewRollout d \<longleftrightarrow>
     \<not> desiredRevisionEqual (desired_of d) (candidate_of d) \<and>
     (IsTerminalStage (stage_of d) \<or> isInitializationStage (stage_of d))"

definition ShouldRollback :: "deployment \<Rightarrow> bool" where
  "ShouldRollback d \<longleftrightarrow>
     desired_of d \<noteq> None \<and> \<not> desiredRevisionEqual (desired_of d) (candidate_of d) \<and>
     \<not> IsTerminalStage (stage_of d) \<and> \<not> isInitializationStage (stage_of d)"

definition RolloutInProgress :: "deployment \<Rightarrow> bool" where
  "RolloutInProgress d \<longleftrightarrow>
     \<not> revisionEqual (current_of d) (candidate_of d) \<and>
     \<not> IsTerminalStage (stage_of d) \<and> \<not> isInitializationStage (stage_of d)"

definition InSteadyState :: "deployment \<Rightarrow> bool" where
  "InSteadyState d \<longleftrightarrow> stage_of d = DS_ROLLOUT_COMPLETE \<or> stage_of d = DS_ROLLBACK_COMPLETE"

definition ShouldCleanup :: "deployment \<Rightarrow> bool" where
  "ShouldCleanup d \<longleftrightarrow>
     om_deletion_ts d \<noteq> None \<or> ds_deleted (dp_spec d) \<or>
     (desired_of d = None \<and> (current_of d \<noteq> None \<or> candidate_of d \<noteq> None))"

definition ShouldSkipRollout :: "deployment \<Rightarrow> bool" where
  "ShouldSkipRollout d \<longleftrightarrow> candidate_of d \<noteq> None \<and> revisionEqual (candidate_of d) (current_of d)"

definition IsEmergencyRollout :: "deployment \<Rightarrow> bool" where
  "IsEmergencyRollout d =
     (case ds_strategy (dp_spec d) of Some (RS_Blast _) \<Rightarrow> True | _ \<Rightarrow> False)"

definition RollbackAlertsEnabled :: "deployment \<Rightarrow> bool" where
  "RollbackAlertsEnabled d =
     (case ds_strategy (dp_spec d) of Some (RS_Blast withTrigger) \<Rightarrow> withTrigger | _ \<Rightarrow> True)"

section \<open>Counting rollouts\<close>

text \<open>
  \<^verbatim>\<open>strconv.Atoi\<close> on a 64-bit machine: an optional sign and decimal digits, in range; the
  increment wraps around.
\<close>

definition digit_value :: "char \<Rightarrow> nat option" where
  "digit_value c = (let n = of_char c :: nat in if 48 \<le> n \<and> n \<le> 57 then Some (n - 48) else None)"

fun digits_value :: "string \<Rightarrow> nat \<Rightarrow> nat option" where
  "digits_value [] acc = Some acc"
| "digits_value (c # cs) acc =
     (case digit_value c of None \<Rightarrow> None | Some n \<Rightarrow> digits_value cs (10 * acc + n))"

definition Atoi :: "string \<Rightarrow> int option" where
  "Atoi s =
     (let (neg, ds) = (case s of [] \<Rightarrow> (False, [])
          | c # cs \<Rightarrow> if c = CHR ''-'' then (True, cs) else if c = CHR ''+'' then (False, cs) else (False, s))
      in if ds = [] then None
         else case digits_value ds 0 of
                None \<Rightarrow> None
              | Some n \<Rightarrow> let i = (if neg then - int n else int n)
                           in if - (2 ^ 63) \<le> i \<and> i < 2 ^ 63 then Some i else None)"

definition wrap64 :: "int \<Rightarrow> int" where
  "wrap64 i = (i + 2 ^ 63) mod 2 ^ 64 - 2 ^ 63"

definition deploymentRolloutCount :: string where
  "deploymentRolloutCount = ''deployment.rollout.count''"
definition deploymentRollbackReason :: string where
  "deploymentRollbackReason = ''deployment.rollback.reason''"
definition deploymentCleanedUpFinalizer :: string where
  "deploymentCleanedUpFinalizer = ''deployments.michelangelo.uber.com/finalizer''"

definition incrementRolloutCount :: "deployment \<Rightarrow> deployment" where
  "incrementRolloutCount d =
     d\<lparr>om_annotations := put_entry (om_annotations d) deploymentRolloutCount
        (case map_lookup (om_annotations d) deploymentRolloutCount of
           None \<Rightarrow> ''0''
         | Some countStr \<Rightarrow>
             (case Atoi countStr of
                None \<Rightarrow> ''0''
              | Some count \<Rightarrow> FormatInt (wrap64 (count + 1))))\<rparr>"

definition updateRollbackReason :: "deployment \<Rightarrow> bool \<Rightarrow> deployment" where
  "updateRollbackReason d isHealthy =
     d\<lparr>om_annotations := put_entry (om_annotations d) deploymentRollbackReason
        (if \<not> isHealthy then ''Alert fired'' else ''Desired model changed'')\<rparr>"

section \<open>Clusters\<close>

record connection =
  cn_host :: string
  cn_port :: string
  cn_token_tag :: string
  cn_ca_data_tag :: string

record cluster_target =
  ct_id :: string
  ct_kubernetes :: "connection option"

datatype server_state =
    IS_INVALID | IS_INITIALIZED | IS_CREATE_PENDING | IS_SERVING | IS_FAILED | IS_DELETE_PENDING
  | IS_CREATING | IS_DELETING | IS_DELETED

record inference_server =
  is_targets :: "cluster_target list"
  is_statuses :: "(string \<times> server_state) list"

definition healthyTargets :: "inference_server \<Rightarrow> cluster_target list" where
  "healthyTargets srv =
     filter (\<lambda>t. \<exists>st \<in> set (is_statuses srv). snd st = IS_SERVING \<and> fst st = ct_id t) (is_targets srv)"

text \<open>
  The wire form of a target, whose JSON text is a parameter (\<^verbatim>\<open>json.Marshal\<close> of such a list cannot
  fail), and the annotation that holds it.
\<close>

record target_item =
  ti_cluster_id :: string
  ti_host :: string
  ti_port :: string
  ti_token_tag :: string
  ti_ca_data_tag :: string

record target_codec =
  tc_marshal :: "target_item list \<Rightarrow> string"
  tc_unmarshal :: "string \<Rightarrow> target_item list option"

definition TargetClustersAnnotation :: string where
  "TargetClustersAnnotation = ''deployment.michelangelo.ai/target-clusters''"

definition target_of_item :: "target_item \<Rightarrow> cluster_target" where
  "target_of_item i =
     \<lparr>ct_id = ti_cluster_id i,
      ct_kubernetes = Some \<lparr>cn_host = ti_host i, cn_port = ti_port i,
        cn_token_tag = ti_token_tag i, cn_ca_data_tag = ti_ca_data_tag i\<rparr>\<rparr>"

definition item_of_target :: "cluster_target \<Rightarrow> target_item" where
  "item_of_target t =
     (case ct_kubernetes t of
        None \<Rightarrow> \<lparr>ti_cluster_id = ct_id t, ti_host = '''', ti_port = '''', ti_token_tag = '''',
                 ti_ca_data_tag = ''''\<rparr>
      | Some k \<Rightarrow> \<lparr>ti_cluster_id = ct_id t, ti_host = cn_host k, ti_port = cn_port k,
                   ti_token_tag = cn_token_tag k, ti_ca_data_tag = cn_ca_data_tag k\<rparr>)"

text \<open>The answer is an error or a list that may be nil.\<close>

definition ReadTargetClustersAnnotation ::
    "target_codec \<Rightarrow> deployment \<Rightarrow> api_error + cluster_target list option" where
  "ReadTargetClustersAnnotation T d =
     (case map_lookup (om_annotations d) TargetClustersAnnotation of
        None \<Rightarrow> Inr None
      | Some raw \<Rightarrow>
          (case tc_unmarshal T raw of
             None \<Rightarrow> Inl (OtherError ''unmarshal target clusters annotation'')
           | Some items \<Rightarrow> Inr (Some (map target_of_item items))))"

definition WriteTargetClustersAnnotation ::
    "target_codec \<Rightarrow> deployment \<Rightarrow> cluster_target list \<Rightarrow> deployment" where
  "WriteTargetClustersAnnotation T d targets =
     d\<lparr>om_annotations := put_entry (om_annotations d) TargetClustersAnnotation
        (tc_marshal T (map item_of_target targets))\<rparr>"

text \<open>\<^verbatim>\<open>sort.Strings\<close> on both sides: the same identifiers, with their multiplicity.\<close>

definition ClusterTargetsEqual :: "cluster_target list \<Rightarrow> cluster_target list \<Rightarrow> bool" where
  "ClusterTargetsEqual left right \<longleftrightarrow>
     length left = length right \<and> sort (map ct_id left) = sort (map ct_id right)"

definition targets_of :: "api_error + cluster_target list option \<Rightarrow> cluster_target list" where
  "targets_of r = (case r of Inr (Some ts) \<Rightarrow> ts | _ \<Rightarrow> [])"

text \<open>The host and the port of a target's API server; those of a target without a connection are empty.\<close>

definition APIServerURLFromTarget :: "cluster_target \<Rightarrow> string" where
  "APIServerURLFromTarget t =
     (case ct_kubernetes t of None \<Rightarrow> '':'' | Some k \<Rightarrow> cn_host k @ '':'' @ cn_port k)"

section \<open>The environment\<close>

text \<open>
  Everything a pass talks to: the API handler, the registry of backends and of plugins, the client
  factory, the backend of the inference server, and one Kubernetes and one dynamic client per
  cluster. The texts of errors are a parameter, as they end up in conditions and messages. A
  nil dereference is an event of its own, so that a panic inside an actor is visible outside the
  engine, which does not recover it.
\<close>

datatype cluster_side = ControlPlane | InCluster cluster_target

datatype client_kind = KubeClient | HttpClient | DynamicClient

datatype devent =
    DE_Get string string "api_error + deployment"
  | DE_Update deployment "api_error + deployment"
  | DE_UpdateStatus deployment "api_error option"
  | DE_Server string string "api_error + inference_server"
  | DE_Client client_kind cluster_target "api_error option"
  | DE_Model cluster_target string string string "api_error + bool" \<comment> \<open>server, namespace, model\<close>
  | DE_Healthy string string "api_error + bool"
  | DE_Route cluster_side route_call
  | DE_Cm cluster_side cm_call
  | DE_Panic

record dep_env =
  de_now :: "devent list \<Rightarrow> int"
  de_show :: "api_error \<Rightarrow> string"
  de_finlib :: finlib
  de_unstr :: unstr_lib
  de_retry :: "(devent, stop + unit) io \<Rightarrow> (devent, stop + unit) io"
  de_models :: model_codec
  de_targets :: target_codec
  de_backend :: "api_error option"
  de_plugin :: "string \<Rightarrow> string \<Rightarrow> api_error option"
  de_get :: "devent list \<Rightarrow> string \<Rightarrow> string \<Rightarrow> api_error + deployment"
  de_update :: "devent list \<Rightarrow> deployment \<Rightarrow> api_error + deployment"
  de_update_status :: "devent list \<Rightarrow> deployment \<Rightarrow> api_error option"
  de_server :: "devent list \<Rightarrow> string \<Rightarrow> string \<Rightarrow> api_error + inference_server"
  de_client :: "devent list \<Rightarrow> client_kind \<Rightarrow> cluster_target \<Rightarrow> api_error option"
  de_model :: "devent list \<Rightarrow> cluster_target \<Rightarrow> string \<Rightarrow> string \<Rightarrow> string \<Rightarrow> api_error + bool"
  de_healthy :: "devent list \<Rightarrow> string \<Rightarrow> string \<Rightarrow> api_error + bool"
  de_routes :: "cluster_side \<Rightarrow> devent route_answers"
  de_cms :: "cluster_side \<Rightarrow> devent cm_answers"

definition dynamic_of :: "dep_env \<Rightarrow> cluster_side \<Rightarrow> devent route_client" where
  "dynamic_of R c = client_of (DE_Route c) (de_routes R c)"

definition kube_client_of :: "dep_env \<Rightarrow> cluster_side \<Rightarrow> devent kube_client" where
  "kube_client_of R c = kube_of (DE_Cm c) (de_cms R c)"

definition get_client :: "dep_env \<Rightarrow> client_kind \<Rightarrow> cluster_target \<Rightarrow> (devent, api_error option) io" where
  "get_client R k t = ask (\<lambda>h. de_client R h k t) (\<lambda>x. DE_Client k t x)"

definition FetchInferenceServer :: "dep_env \<Rightarrow> deployment \<Rightarrow> (devent, api_error + inference_server) io" where
  "FetchInferenceServer R d =
     (case ds_inference_server (dp_spec d) of
        None \<Rightarrow> State_Monad.return (Inl (OtherError ''deployment has no inference server reference''))
      | Some isRef \<Rightarrow> ask (\<lambda>h. de_server R h (om_namespace d) (rv_name isRef))
                         (\<lambda>x. DE_Server (om_namespace d) (rv_name isRef) x))"

definition CheckModelStatus ::
    "dep_env \<Rightarrow> cluster_target \<Rightarrow> string \<Rightarrow> string \<Rightarrow> string \<Rightarrow> (devent, api_error + bool) io" where
  "CheckModelStatus R t server ns model =
     ask (\<lambda>h. de_model R h t server ns model) (\<lambda>x. DE_Model t server ns model x)"

text \<open>\<^verbatim>\<open>CheckModelStatusAllClusters\<close>: an error, or the clusters that are not ready; no clusters at all
  count as not ready.\<close>

fun check_clusters ::
    "dep_env \<Rightarrow> string \<Rightarrow> string \<Rightarrow> string \<Rightarrow> cluster_target list \<Rightarrow> string list
     \<Rightarrow> (devent, api_error + string list) io" where
  "check_clusters R server ns model [] unhealthy = State_Monad.return (Inr unhealthy)"
| "check_clusters R server ns model (t # ts) unhealthy = do {
     kubeErr \<leftarrow> get_client R KubeClient t;
     (case kubeErr of
        Some e \<Rightarrow> State_Monad.return (Inl e)
      | None \<Rightarrow> do {
          httpErr \<leftarrow> get_client R HttpClient t;
          (case httpErr of
             Some e \<Rightarrow> State_Monad.return (Inl e)
           | None \<Rightarrow> do {
               ready \<leftarrow> CheckModelStatus R t server ns model;
               (case ready of
                  Inl e \<Rightarrow> State_Monad.return (Inl e)
                | Inr b \<Rightarrow> check_clusters R server ns model ts
                    (if b then unhealthy else unhealthy @ [ct_id t]))
             })
        })
   }"

definition CheckModelStatusAllClusters ::
    "dep_env \<Rightarrow> deployment \<Rightarrow> string \<Rightarrow> string \<Rightarrow> (devent, api_error + bool) io" where
  "CheckModelStatusAllClusters R d server model =
     (case ReadTargetClustersAnnotation (de_targets R) d of
        Inl e \<Rightarrow> State_Monad.return (Inl e)
      | Inr targets \<Rightarrow>
          if targets_of (Inr targets) = [] then State_Monad.return (Inr False)
          else do {
            got \<leftarrow> check_clusters R server (om_namespace d) model (targets_of (Inr targets)) [];
            State_Monad.return (map_sum id (\<lambda>unhealthy. unhealthy = []) got)
          })"

end
