(* ===== verification/Deployment_Plugin.thy ===== *)
theory Deployment_Plugin
  imports Deployment_Model
begin

text \<open>
  The open-source deployment plugin (\<^verbatim>\<open>go/components/deployment/plugins/oss\<close>): the actors of a
  rollout, a rollback, a cleanup and the steady state, run by the condition engine, and the
  questions the controller asks of a plugin. The texts of conditions are those of the source.
\<close>

section \<open>Answers of an actor\<close>

type_synonym dep_io = "(devent, (api_error + condition) \<times> deployment) io"

definition say_true :: "dep_env \<Rightarrow> deployment \<Rightarrow> condition \<Rightarrow> dep_io" where
  "say_true R d c = do {
     now \<leftarrow> peek (de_now R);
     State_Monad.return (Inr (GenerateTrueCondition now c), d)
   }"

definition say_false :: "dep_env \<Rightarrow> deployment \<Rightarrow> condition \<Rightarrow> string \<Rightarrow> string \<Rightarrow> dep_io" where
  "say_false R d c message reason = do {
     now \<leftarrow> peek (de_now R);
     State_Monad.return (Inr (GenerateFalseCondition now c message reason), d)
   }"

definition say_unknown :: "dep_env \<Rightarrow> deployment \<Rightarrow> condition \<Rightarrow> string \<Rightarrow> string \<Rightarrow> dep_io" where
  "say_unknown R d c message reason = do {
     now \<leftarrow> peek (de_now R);
     State_Monad.return (Inr (GenerateUnknownCondition now c message reason), d)
   }"

text \<open>A panic stops the pass; the answer is never looked at.\<close>

definition panics :: "deployment \<Rightarrow> dep_io" where
  "panics d = do {
     _ \<leftarrow> emit DE_Panic;
     State_Monad.return (Inl (OtherError ''panic''), d)
   }"

text \<open>
  A condition that is already in the list is changed in place, also when the actor returns an
  error with it and the engine puts nothing.
\<close>

definition in_place :: "condition \<Rightarrow> deployment \<Rightarrow> deployment" where
  "in_place c d =
     set_dconditions (map (\<lambda>e. if c_type e = c_type c then c else e) (dt_conditions (dp_status d))) d"

definition dep_put :: "deployment \<Rightarrow> condition \<Rightarrow> deployment" where
  "dep_put d c = set_dconditions (put_condition c (dt_conditions (dp_status d))) d"

definition dep_plugin_of :: "(devent list, deployment) actor list \<Rightarrow> (devent list, deployment) plugin" where
  "dep_plugin_of as =
     \<lparr>p_actors = as, p_get_conditions = (\<lambda>d. dt_conditions (dp_status d)), p_put_condition = dep_put\<rparr>"

section \<open>Actors of a rollout\<close>

definition ActorTypeValidation :: string where "ActorTypeValidation = ''Validated''"
definition ActorTypeAssetPreparation :: string where "ActorTypeAssetPreparation = ''AssetsPrepared''"
definition ActorTypePlacementPrep :: string where "ActorTypePlacementPrep = ''PlacementPrepared''"
definition ActorTypeRollingRollout :: string where "ActorTypeRollingRollout = ''RollingRolloutComplete''"
definition ActorTypeTrafficRouting :: string where "ActorTypeTrafficRouting = ''TrafficRoutingConfigured''"
definition ActorTypeDiscoveryRouting :: string where "ActorTypeDiscoveryRouting = ''DiscoveryRoutingConfigured''"
definition ActorTypeRolloutComplete :: string where "ActorTypeRolloutComplete = ''RolloutCompleted''"
definition ActorTypeCleanup :: string where "ActorTypeCleanup = ''CleanupComplete''"
definition ActorTypeModelCleanup :: string where "ActorTypeModelCleanup = ''ModelCleanupComplete''"
definition ActorTypeRollback :: string where "ActorTypeRollback = ''RollbackComplete''"
definition ActorTypeSteadyState :: string where "ActorTypeSteadyState = ''StateSteady''"

lemmas actor_types = ActorTypeValidation_def ActorTypeAssetPreparation_def ActorTypePlacementPrep_def
  ActorTypeRollingRollout_def ActorTypeTrafficRouting_def ActorTypeDiscoveryRouting_def
  ActorTypeRolloutComplete_def ActorTypeCleanup_def ActorTypeModelCleanup_def
  ActorTypeRollback_def ActorTypeSteadyState_def

definition ValidationActor :: "dep_env \<Rightarrow> (devent list, deployment) actor" where
  "ValidationActor R =
     \<lparr>a_type = ActorTypeValidation,
      a_retrieve = (\<lambda>d c.
        if ds_inference_server (dp_spec d) = None then
          say_false R d c ''NoInferenceServer'' ''Inference server is not specified for deployment''
        else case desired_of d of
          None \<Rightarrow> say_false R d c ''NoDesiredRevision'' ''Desired revision is not specified for deployment''
        | Some rv \<Rightarrow>
            if rv_name rv = '''' then
              say_false R d c ''InvalidModelName'' ''Desired revision name cannot be empty''
            else say_true R d c),
      a_run = (\<lambda>d c. State_Monad.return (Inr c, d))\<rparr>"

definition AssetPreparationActor :: "dep_env \<Rightarrow> (devent list, deployment) actor" where
  "AssetPreparationActor R =
     \<lparr>a_type = ActorTypeAssetPreparation,
      a_retrieve = (\<lambda>d c.
        if desired_of d = None then
          say_false R d c ''NoDesiredRevision'' ''No desired revision specified for asset preparation''
        else say_true R d c),
      a_run = (\<lambda>d c. State_Monad.return (Inr c, d))\<rparr>"

definition placement_retrieve :: "dep_env \<Rightarrow> deployment \<Rightarrow> condition \<Rightarrow> dep_io" where
  "placement_retrieve R d c =
     (case ReadTargetClustersAnnotation (de_targets R) d of
        Inl err \<Rightarrow> say_false R d c ''AnnotationReadFailed'' (de_show R err)
      | Inr None \<Rightarrow> say_false R d c ''SnapshotMissing'' ''target-clusters annotation is absent''
      | Inr (Some snapshot) \<Rightarrow> do {
          got \<leftarrow> FetchInferenceServer R d;
          (case got of
             Inl err \<Rightarrow> say_false R d c ''InferenceServerNotFound'' (de_show R err)
           | Inr srv \<Rightarrow>
               if \<not> ClusterTargetsEqual (healthyTargets srv) snapshot then
                 say_false R d c ''ClusterSetChanged'' ''serving cluster set has changed since last snapshot''
               else say_true R d c)
        })"

definition placement_run :: "dep_env \<Rightarrow> deployment \<Rightarrow> condition \<Rightarrow> dep_io" where
  "placement_run R d c = do {
     got \<leftarrow> FetchInferenceServer R d;
     (case got of
        Inl err \<Rightarrow> do {
          now \<leftarrow> peek (de_now R);
          State_Monad.return (Inl err,
            in_place (GenerateFalseCondition now c ''InferenceServerNotFound'' (de_show R err)) d)
        }
      | Inr srv \<Rightarrow>
          if healthyTargets srv = [] then
            say_unknown R d c ''NoClusterServing'' ''no cluster has reached serving state''
          else
            let d' = WriteTargetClustersAnnotation (de_targets R) d (healthyTargets srv)
            in (case ReadTargetClustersAnnotation (de_targets R) d of
                  Inr (Some existing) \<Rightarrow> say_true R d' c
                | _ \<Rightarrow> say_unknown R d' c ''AnnotationWritten''
                         ''cluster snapshot written; actor chain rebuilds on next reconcile''))
   }"

definition PlacementPrepActor :: "dep_env \<Rightarrow> (devent list, deployment) actor" where
  "PlacementPrepActor R =
     \<lparr>a_type = ActorTypePlacementPrep, a_retrieve = placement_retrieve R, a_run = placement_run R\<rparr>"

text \<open>
  \<^verbatim>\<open>ReadModelLoadedFlag\<close>, whose error the callers ignore, and \<^verbatim>\<open>WriteModelLoadedFlag\<close>, which
  cannot fail.
\<close>

definition ReadModelLoadedFlag :: "condition \<Rightarrow> bool" where
  "ReadModelLoadedFlag c = (case c_metadata c of Some (AnyBool b) \<Rightarrow> b | _ \<Rightarrow> False)"

definition WriteModelLoadedFlag :: "condition \<Rightarrow> condition" where
  "WriteModelLoadedFlag c = c\<lparr>c_metadata := Some (AnyBool True)\<rparr>"

text \<open>The clients of a cluster the backend needs.\<close>

definition with_backend ::
    "dep_env \<Rightarrow> cluster_target \<Rightarrow> deployment \<Rightarrow> condition \<Rightarrow> dep_io \<Rightarrow> dep_io" where
  "with_backend R t d c go = do {
     kubeErr \<leftarrow> get_client R KubeClient t;
     (case kubeErr of
        Some err \<Rightarrow> say_false R d c ''ClientUnavailable'' (de_show R err)
      | None \<Rightarrow> do {
          httpErr \<leftarrow> get_client R HttpClient t;
          (case httpErr of
             Some err \<Rightarrow> say_false R d c ''HTTPClientUnavailable'' (de_show R err)
           | None \<Rightarrow>
               (case de_backend R of
                  Some err \<Rightarrow> say_false R d c ''BackendUnavailable'' (de_show R err)
                | None \<Rightarrow> go))
        })
   }"

definition rolling_retrieve :: "dep_env \<Rightarrow> cluster_target \<Rightarrow> deployment \<Rightarrow> condition \<Rightarrow> dep_io" where
  "rolling_retrieve R t d c =
     (if ReadModelLoadedFlag c then say_true R d c
      else with_backend R t d c (do {
        ready \<leftarrow> CheckModelStatus R t (server_of d) (om_namespace d) (name_of (desired_of d));
        (case ready of
           Inl err \<Rightarrow> say_false R d c ''ModelStatusCheckFailed'' (de_show R err)
         | Inr b \<Rightarrow>
             if \<not> b then
               say_false R d c ''ModelNotReady''
                 (''model '' @ name_of (desired_of d) @ '' not yet loaded in cluster '' @ ct_id t)
             else say_true R d (WriteModelLoadedFlag c))
      }))"

definition rolling_run :: "dep_env \<Rightarrow> cluster_target \<Rightarrow> deployment \<Rightarrow> condition \<Rightarrow> dep_io" where
  "rolling_run R t d c = do {
     kubeErr \<leftarrow> get_client R KubeClient t;
     (case kubeErr of
        Some err \<Rightarrow> say_false R d c ''ClientUnavailable'' (de_show R err)
      | None \<Rightarrow> do {
          let modelName = name_of (desired_of d);
          addErr \<leftarrow> AddModelToConfig (de_models R) (kube_client_of R (InCluster t)) (server_of d) (om_namespace d)
            \<lparr>me_name = modelName, me_storage_path = ''s3://deploy-models/'' @ modelName @ ''/''\<rparr>;
          (case addErr of
             Some err \<Rightarrow> say_false R d c ''AddModelToConfigFailed'' (de_show R err)
           | None \<Rightarrow> say_unknown R d c ''ModelLoading''
                       (''model '' @ modelName @ '' loading in cluster '' @ ct_id t))
        })
   }"

definition RollingRolloutActor :: "dep_env \<Rightarrow> cluster_target \<Rightarrow> (devent list, deployment) actor" where
  "RollingRolloutActor R t =
     \<lparr>a_type = ActorTypeRollingRollout @ ''-'' @ ct_id t,
      a_retrieve = rolling_retrieve R t, a_run = rolling_run R t\<rparr>"

definition traffic_rule :: "deployment \<Rightarrow> rule" where
  "traffic_rule d =
     \<lparr>ru_match_path = TrafficMatchPath (server_of d) (om_name d), ru_match_type = PathMatchPrefix,
      ru_rewrite_path = TrafficRewritePath (name_of (desired_of d)), ru_rewrite_type = RewritePrefix,
      ru_backend_name = server_of d @ ''-inference-service'', ru_backend_port = 0\<rparr>"

text \<open>What is looked up: a rule with a match path and, when it matters, a rewrite path.\<close>

definition rule_query :: "string \<Rightarrow> string \<Rightarrow> rule" where
  "rule_query matchPath rewritePath =
     \<lparr>ru_match_path = matchPath, ru_match_type = '''', ru_rewrite_path = rewritePath,
      ru_rewrite_type = '''', ru_backend_name = '''', ru_backend_port = 0\<rparr>"

definition traffic_retrieve :: "dep_env \<Rightarrow> cluster_target \<Rightarrow> deployment \<Rightarrow> condition \<Rightarrow> dep_io" where
  "traffic_retrieve R t d c = do {
     dynErr \<leftarrow> get_client R DynamicClient t;
     (case dynErr of
        Some err \<Rightarrow> say_false R d c ''DynamicClientUnavailable'' (de_show R err)
      | None \<Rightarrow> do {
          ok \<leftarrow> RuleExists (de_unstr R) (dynamic_of R (InCluster t)) (TrafficRouteName (server_of d))
            (om_namespace d)
            (rule_query (TrafficMatchPath (server_of d) (om_name d))
               (TrafficRewritePath (name_of (desired_of d))));
          (case ok of
             Inl err \<Rightarrow> say_false R d c ''TrafficRouteStatusCheckFailed'' (de_show R err)
           | Inr b \<Rightarrow>
               if \<not> b then
                 say_false R d c ''TrafficRouteNotReady''
                   (''traffic route for deployment '' @ om_name d @ '' is not configured for model '' @
                    name_of (desired_of d) @ '' in cluster '' @ ct_id t)
               else say_true R d c)
        })
   }"

text \<open>What an actor makes of the outcome of a change of routes; a panic stays one.\<close>

definition after_routes ::
    "dep_env \<Rightarrow> deployment \<Rightarrow> condition \<Rightarrow> string \<Rightarrow> (api_error \<Rightarrow> string) \<Rightarrow> stop + unit \<Rightarrow> dep_io \<Rightarrow> dep_io" where
  "after_routes R d c message reason outcome go =
     (case outcome of
        Inl (Failing err) \<Rightarrow> say_false R d c message (reason err)
      | Inl _ \<Rightarrow> panics d
      | Inr _ \<Rightarrow> go)"

definition traffic_run :: "dep_env \<Rightarrow> cluster_target \<Rightarrow> deployment \<Rightarrow> condition \<Rightarrow> dep_io" where
  "traffic_run R t d c = do {
     dynErr \<leftarrow> get_client R DynamicClient t;
     (case dynErr of
        Some err \<Rightarrow> say_false R d c ''DynamicClientUnavailable'' (de_show R err)
      | None \<Rightarrow> do {
          got \<leftarrow> AddRules (de_unstr R) (de_retry R) (dynamic_of R (InCluster t))
            (TrafficRouteName (server_of d)) (om_namespace d) [traffic_rule d];
          after_routes R d c ''TrafficRouteUpsertFailed'' (de_show R) got (say_true R d c)
        })
   }"

definition TrafficRoutingActor :: "dep_env \<Rightarrow> cluster_target \<Rightarrow> (devent list, deployment) actor" where
  "TrafficRoutingActor R t =
     \<lparr>a_type = ActorTypeTrafficRouting @ ''-'' @ ct_id t,
      a_retrieve = traffic_retrieve R t, a_run = traffic_run R t\<rparr>"

definition discovery_rule :: "deployment \<Rightarrow> rule" where
  "discovery_rule d =
     \<lparr>ru_match_path = DiscoveryMatchPath (server_of d) (om_name d), ru_match_type = PathMatchPrefix,
      ru_rewrite_path = DiscoveryRewritePath (server_of d) (om_name d), ru_rewrite_type = RewritePrefix,
      ru_backend_name = server_of d @ ''-endpoints'', ru_backend_port = 0\<rparr>"

definition discovery_retrieve :: "dep_env \<Rightarrow> deployment \<Rightarrow> condition \<Rightarrow> dep_io" where
  "discovery_retrieve R d c = do {
     ok \<leftarrow> RuleExists (de_unstr R) (dynamic_of R ControlPlane) (DiscoveryRouteName (server_of d))
       (om_namespace d) (rule_query (DiscoveryMatchPath (server_of d) (om_name d)) '''');
     (case ok of
        Inl err \<Rightarrow> say_false R d c ''DiscoveryRouteStatusCheckFailed'' (de_show R err)
      | Inr b \<Rightarrow>
          if \<not> b then
            say_false R d c ''DiscoveryRouteNotReady'' ''discovery route is not configured for the deployment''
          else say_true R d c)
   }"

definition discovery_run :: "dep_env \<Rightarrow> deployment \<Rightarrow> condition \<Rightarrow> dep_io" where
  "discovery_run R d c = do {
     got \<leftarrow> AddRules (de_unstr R) (de_retry R) (dynamic_of R ControlPlane)
       (DiscoveryRouteName (server_of d)) (om_namespace d) [discovery_rule d];
     after_routes R d c ''DiscoveryRouteUpsertFailed'' (de_show R) got (say_true R d c)
   }"

definition DiscoveryRoutingActor :: "dep_env \<Rightarrow> (devent list, deployment) actor" where
  "DiscoveryRoutingActor R =
     \<lparr>a_type = ActorTypeDiscoveryRouting,
      a_retrieve = discovery_retrieve R, a_run = discovery_run R\<rparr>"

definition noCleanupNeeded :: "deployment \<Rightarrow> bool" where
  "noCleanupNeeded d \<longleftrightarrow>
     (case current_of d of None \<Rightarrow> True | Some rv \<Rightarrow> rv_name rv = name_of (desired_of d))"

definition model_cleanup_retrieve :: "dep_env \<Rightarrow> cluster_target \<Rightarrow> deployment \<Rightarrow> condition \<Rightarrow> dep_io" where
  "model_cleanup_retrieve R t d c =
     (if noCleanupNeeded d then say_true R d c
      else with_backend R t d c (do {
        stillLoaded \<leftarrow> CheckModelStatus R t (server_of d) (om_namespace d) (name_of (current_of d));
        (case stillLoaded of
           Inl err \<Rightarrow> say_false R d c ''ModelStatusCheckFailed'' (de_show R err)
         | Inr b \<Rightarrow>
             if b then
               say_false R d c ''OldModelStillLoaded''
                 (''model '' @ name_of (current_of d) @ '' still loaded in cluster '' @ ct_id t)
             else say_true R d c)
      }))"

definition model_cleanup_run :: "dep_env \<Rightarrow> cluster_target \<Rightarrow> deployment \<Rightarrow> condition \<Rightarrow> dep_io" where
  "model_cleanup_run R t d c =
     (if noCleanupNeeded d then say_true R d c
      else do {
        kubeErr \<leftarrow> get_client R KubeClient t;
        (case kubeErr of
           Some err \<Rightarrow> say_false R d c ''ClientUnavailable'' (de_show R err)
         | None \<Rightarrow> do {
             rmErr \<leftarrow> RemoveModelFromConfig (de_models R) (kube_client_of R (InCluster t)) (server_of d)
               (om_namespace d) (name_of (current_of d));
             (case rmErr of
                Some err \<Rightarrow> say_false R d c ''RemoveModelFromConfigFailed'' (de_show R err)
              | None \<Rightarrow> say_unknown R d c ''ModelUnloading''
                          (''model '' @ name_of (current_of d) @ '' unloading from cluster '' @ ct_id t))
           })
      })"

definition ModelCleanupActor :: "dep_env \<Rightarrow> cluster_target \<Rightarrow> (devent list, deployment) actor" where
  "ModelCleanupActor R t =
     \<lparr>a_type = ActorTypeModelCleanup @ ''-'' @ ct_id t,
      a_retrieve = model_cleanup_retrieve R t, a_run = model_cleanup_run R t\<rparr>"

definition RolloutCompletionActor :: "dep_env \<Rightarrow> (devent list, deployment) actor" where
  "RolloutCompletionActor R =
     \<lparr>a_type = ActorTypeRolloutComplete,
      a_retrieve = (\<lambda>d c.
        if ReadModelLoadedFlag c then say_true R d c
        else say_false R d c ''CompletionTasksPending'' ''Rollout completion tasks are pending''),
      a_run = (\<lambda>d c.
        say_true R
          (d\<lparr>om_annotations := del_entry (del_entry (om_annotations d)
              ''rollout.michelangelo.ai/in-progress'') ''rollout.michelangelo.ai/start-time''\<rparr>)
          (c\<lparr>c_metadata := Some (AnyBool True)\<rparr>))\<rparr>"

section \<open>The rollout plugin\<close>

definition getRollingActors :: "dep_env \<Rightarrow> deployment \<Rightarrow> api_error + (devent list, deployment) actor list" where
  "getRollingActors R d =
     (case ReadTargetClustersAnnotation (de_targets R) d of
        Inl err \<Rightarrow> Inl err
      | Inr read \<Rightarrow>
          let targets = targets_of (Inr read)
          in if targets = [] then Inr []
             else Inr (concat (map (\<lambda>t. [RollingRolloutActor R t, TrafficRoutingActor R t]) targets) @
                       [DiscoveryRoutingActor R] @ map (ModelCleanupActor R) targets))"

text \<open>Every strategy is rolled out like the rolling one.\<close>

definition GetActorsForStrategy :: "dep_env \<Rightarrow> deployment \<Rightarrow> api_error + (devent list, deployment) actor list" where
  "GetActorsForStrategy R d = getRollingActors R d"

definition NewRolloutPlugin :: "dep_env \<Rightarrow> deployment \<Rightarrow> api_error + (devent list, deployment) plugin" where
  "NewRolloutPlugin R d =
     (case GetActorsForStrategy R d of
        Inl err \<Rightarrow> Inl err
      | Inr placementActors \<Rightarrow>
          Inr (dep_plugin_of
            ([ValidationActor R, AssetPreparationActor R, PlacementPrepActor R] @ placementActors @
             [RolloutCompletionActor R])))"

section \<open>Rollback, cleanup and steady state\<close>

definition rollback_retrieve :: "dep_env \<Rightarrow> deployment \<Rightarrow> condition \<Rightarrow> dep_io" where
  "rollback_retrieve R d c =
     (let candidateModel = name_of (candidate_of d)
      in if candidateModel = '''' then say_true R d c
         else do {
           got \<leftarrow> CheckModelExists (de_models R) (kube_client_of R ControlPlane) candidateModel (server_of d)
             (om_namespace d);
           (case got of
              Inl err \<Rightarrow> say_false R d c ''UnableToCheckModelExistsInModelConfig''
                (''Unable to check if model '' @ candidateModel @ '' exists in model config: '' @ de_show R err)
            | Inr exists \<Rightarrow>
                if exists then say_false R d c ''ModelStillExistsInModelConfig''
                  (''Candidate Model '' @ candidateModel @ '' still exists in model config'')
                else say_true R d c)
         })"

definition rollback_run :: "dep_env \<Rightarrow> deployment \<Rightarrow> condition \<Rightarrow> dep_io" where
  "rollback_run R d c = do {
     let candidateModel = name_of (candidate_of d);
     rmErr \<leftarrow> RemoveModelFromConfig (de_models R) (kube_client_of R ControlPlane) (server_of d)
       (om_namespace d) candidateModel;
     (case rmErr of
        Some err \<Rightarrow> say_false R d c ''RemoveCandidateModelFromModelConfigFailed''
          (''Failed to remove candidate model '' @ candidateModel @ '' from model config: '' @ de_show R err)
      | None \<Rightarrow> say_true R d c)
   }"

definition RollbackActor :: "dep_env \<Rightarrow> (devent list, deployment) actor" where
  "RollbackActor R =
     \<lparr>a_type = ActorTypeRollback, a_retrieve = rollback_retrieve R, a_run = rollback_run R\<rparr>"

text \<open>The loops of the cleanup actor over the clusters of the snapshot.\<close>

fun routes_gone ::
    "dep_env \<Rightarrow> deployment \<Rightarrow> condition \<Rightarrow> rule \<Rightarrow> cluster_target list \<Rightarrow> dep_io \<Rightarrow> dep_io" where
  "routes_gone R d c query [] go = go"
| "routes_gone R d c query (t # ts) go = do {
     dynErr \<leftarrow> get_client R DynamicClient t;
     (case dynErr of
        Some err \<Rightarrow> say_false R d c ''UnableToCheckTrafficRouteExists''
          (''Unable to get dynamic client for cluster '' @ ct_id t @ '': '' @ de_show R err)
      | None \<Rightarrow> do {
          got \<leftarrow> RuleExists (de_unstr R) (dynamic_of R (InCluster t)) (TrafficRouteName (server_of d))
            (om_namespace d) query;
          (case got of
             Inl err \<Rightarrow> say_false R d c ''UnableToCheckTrafficRouteExists''
               (''Unable to check if TrafficRoute exists for deployment '' @ om_name d @ '' in cluster '' @
                ct_id t @ '': '' @ de_show R err)
           | Inr exists \<Rightarrow>
               if exists then say_false R d c ''TrafficRouteStillExists''
                 (''Cleanup required: TrafficRoute for deployment '' @ om_name d @
                  '' still exists in cluster '' @ ct_id t)
               else routes_gone R d c query ts go)
        })
   }"

fun remove_traffic ::
    "dep_env \<Rightarrow> deployment \<Rightarrow> condition \<Rightarrow> cluster_target list \<Rightarrow> dep_io \<Rightarrow> dep_io" where
  "remove_traffic R d c [] go = go"
| "remove_traffic R d c (t # ts) go = do {
     dynErr \<leftarrow> get_client R DynamicClient t;
     (case dynErr of
        Some err \<Rightarrow> say_false R d c ''TrafficRouteRemovalFailed''
          (''Failed to get dynamic client for cluster '' @ ct_id t @ '': '' @ de_show R err)
      | None \<Rightarrow> do {
          got \<leftarrow> RemoveRules (de_unstr R) (de_retry R) (dynamic_of R (InCluster t))
            (TrafficRouteName (server_of d)) (om_namespace d) [TrafficMatchPath (server_of d) (om_name d)];
          after_routes R d c ''TrafficRouteRemovalFailed''
            (\<lambda>err. ''Failed to remove TrafficRoute for deployment '' @ om_name d @ '' in cluster '' @
              ct_id t @ '': '' @ de_show R err)
            got (remove_traffic R d c ts go)
        })
   }"

definition cleanup_retrieve :: "dep_env \<Rightarrow> deployment \<Rightarrow> condition \<Rightarrow> dep_io" where
  "cleanup_retrieve R d c = do {
     got \<leftarrow> CheckModelExists (de_models R) (kube_client_of R ControlPlane) (name_of (current_of d))
       (server_of d) (om_namespace d);
     (case got of
        Inl err \<Rightarrow>
          (case current_of d of
             None \<Rightarrow> panics d
           | Some rv \<Rightarrow> say_false R d c ''UnableToCheckModelExists''
               (''Unable to check if model '' @ rv_name rv @ '' exists in Inference Server: '' @ de_show R err))
      | Inr exists \<Rightarrow>
          if exists then
            (case current_of d of
               None \<Rightarrow> panics d
             | Some rv \<Rightarrow> say_false R d c ''ModelStillExistsInInferenceServer''
                 (''Model '' @ rv_name rv @ '' still exists in Inference Server''))
          else (case ReadTargetClustersAnnotation (de_targets R) d of
             Inl err \<Rightarrow> say_false R d c ''UnableToReadTargetClusters''
               (''Unable to read target-clusters annotation: '' @ de_show R err)
           | Inr targets \<Rightarrow>
               routes_gone R d c
                 (rule_query (TrafficMatchPath (server_of d) (om_name d))
                    (TrafficRewritePath (name_of (current_of d))))
                 (targets_of (Inr targets))
                 (do {
                    left \<leftarrow> RuleExists (de_unstr R) (dynamic_of R ControlPlane)
                      (DiscoveryRouteName (server_of d)) (om_namespace d)
                      (rule_query (DiscoveryMatchPath (server_of d) (om_name d)) '''');
                    (case left of
                       Inl err \<Rightarrow> say_false R d c ''UnableToCheckDiscoveryRouteExists''
                         (''Unable to check if DiscoveryRoute exists for deployment '' @ om_name d @ '': '' @
                          de_show R err)
                     | Inr b \<Rightarrow>
                         if b then say_false R d c ''DiscoveryRouteStillExists''
                           (''Cleanup required: DiscoveryRoute for deployment '' @ om_name d @ '' still exists'')
                         else say_true R d c)
                  })))
   }"

definition cleanup_run :: "dep_env \<Rightarrow> deployment \<Rightarrow> condition \<Rightarrow> dep_io" where
  "cleanup_run R d c =
     (case (current_of d, ds_inference_server (dp_spec d)) of
        (Some rv, Some isRef) \<Rightarrow> do {
          rmErr \<leftarrow> RemoveModelFromConfig (de_models R) (kube_client_of R ControlPlane) (rv_name isRef)
            (om_namespace d) (rv_name rv);
          (case rmErr of
             Some err \<Rightarrow> say_false R d c ''ModelUnloadingFailed''
               (''Failed to unload old model '' @ rv_name rv @ '' from inference server: '' @ de_show R err)
           | None \<Rightarrow>
               (case ReadTargetClustersAnnotation (de_targets R) d of
                  Inl err \<Rightarrow> say_false R d c ''UnableToReadTargetClusters''
                    (''Unable to read target-clusters annotation: '' @ de_show R err)
                | Inr targets \<Rightarrow>
                    remove_traffic R d c (targets_of (Inr targets))
                      (do {
                         got \<leftarrow> RemoveRules (de_unstr R) (de_retry R) (dynamic_of R ControlPlane)
                           (DiscoveryRouteName (rv_name isRef)) (om_namespace d)
                           [DiscoveryMatchPath (rv_name isRef) (om_name d)];
                         after_routes R d c ''DiscoveryRouteRemovalFailed''
                           (\<lambda>err. ''Failed to remove DiscoveryRoute for deployment '' @ om_name d @ '': '' @
                             de_show R err)
                           got (say_true R d c)
                       })))
        }
      | _ \<Rightarrow> panics d)"

definition CleanupActor :: "dep_env \<Rightarrow> (devent list, deployment) actor" where
  "CleanupActor R =
     \<lparr>a_type = ActorTypeCleanup, a_retrieve = cleanup_retrieve R, a_run = cleanup_run R\<rparr>"

definition SteadyStateActor :: "dep_env \<Rightarrow> (devent list, deployment) actor" where
  "SteadyStateActor R =
     \<lparr>a_type = ActorTypeSteadyState,
      a_retrieve = say_true R,
      a_run = (\<lambda>d c. State_Monad.return (Inr c, d))\<rparr>"

section \<open>The plugin\<close>

text \<open>
  The interface \<^verbatim>\<open>plugins.Plugin\<close>. The controller never looks at the error of a state or of a
  health check but returns it, so a panic is told apart from an error.
\<close>

record dep_plugin =
  dp_get_state :: "deployment \<Rightarrow> (devent, stop + deployment) io"
  dp_health_gate :: "deployment \<Rightarrow> (devent, api_error + bool) io"
  dp_rollout :: "deployment \<Rightarrow> api_error + (devent list, deployment) plugin"
  dp_rollback :: "(devent list, deployment) plugin"
  dp_cleanup :: "(devent list, deployment) plugin"
  dp_steady :: "(devent list, deployment) plugin"
  dp_parse_stage :: "deployment \<Rightarrow> deployment_stage"
  dp_populate_message :: "deployment \<Rightarrow> deployment"

definition NewRollbackPlugin :: "dep_env \<Rightarrow> (devent list, deployment) plugin" where
  "NewRollbackPlugin R = dep_plugin_of [RollbackActor R]"
definition NewCleanupPlugin :: "dep_env \<Rightarrow> (devent list, deployment) plugin" where
  "NewCleanupPlugin R = dep_plugin_of [CleanupActor R]"
definition NewSteadyStatePlugin :: "dep_env \<Rightarrow> (devent list, deployment) plugin" where
  "NewSteadyStatePlugin R = dep_plugin_of [SteadyStateActor R]"

definition isFromSteadyState :: "condition \<Rightarrow> bool" where
  "isFromSteadyState c \<longleftrightarrow> ActorTypeSteadyState = c_type c"

fun parse_conditions :: "deployment_stage \<Rightarrow> condition list \<Rightarrow> deployment_stage" where
  "parse_conditions stage [] = stage"
| "parse_conditions stage (c # cs) =
     (if isFromSteadyState c then stage
      else if c_status c = CS_TRUE then
        (if c_type c = ActorTypeRolloutComplete then DS_ROLLOUT_COMPLETE
         else if c_type c = ActorTypeCleanup then DS_CLEAN_UP_COMPLETE
         else if c_type c = ActorTypeRollback then DS_ROLLBACK_COMPLETE
         else parse_conditions stage cs)
      else if c_type c = ActorTypeValidation \<or> c_type c = ActorTypeAssetPreparation then DS_VALIDATION
      else if c_type c = ActorTypeCleanup then DS_CLEAN_UP_IN_PROGRESS
      else if c_type c = ActorTypeRollback then DS_ROLLBACK_IN_PROGRESS
      else DS_PLACEMENT)"

definition ParseStage :: "deployment \<Rightarrow> deployment_stage" where
  "ParseStage d = parse_conditions (stage_of d) (dt_conditions (dp_status d))"

definition GetState :: "dep_env \<Rightarrow> deployment \<Rightarrow> (devent, stop + deployment) io" where
  "GetState R d =
     (if current_of d = None then
        State_Monad.return (Inr (set_dstate
          (if stage_of d = DS_CLEAN_UP_COMPLETE then DState_EMPTY else DState_INITIALIZING) d))
      else if server_of d = '''' then State_Monad.return (Inr (set_dstate DState_INVALID d))
      else case de_backend R of
        Some err \<Rightarrow> State_Monad.return (Inl (Failing err))
      | None \<Rightarrow>
          (case desired_of d of
             None \<Rightarrow> do {
               _ \<leftarrow> emit DE_Panic;
               State_Monad.return (Inl Panics)
             }
           | Some rv \<Rightarrow> do {
               got \<leftarrow> CheckModelStatusAllClusters R d (server_of d) (rv_name rv);
               State_Monad.return (case got of
                   Inl err \<Rightarrow> Inl (Failing err)
                 | Inr healthy \<Rightarrow> Inr (set_dstate (if healthy then DState_HEALTHY else DState_UNHEALTHY) d))
             }))"

definition HealthCheckGate :: "dep_env \<Rightarrow> deployment \<Rightarrow> (devent, api_error + bool) io" where
  "HealthCheckGate R d =
     (case ds_inference_server (dp_spec d) of
        None \<Rightarrow> State_Monad.return (Inr False)
      | Some isRef \<Rightarrow>
          (case de_backend R of
             Some err \<Rightarrow> State_Monad.return (Inl err)
           | None \<Rightarrow> ask (\<lambda>h. de_healthy R h (om_namespace d) (rv_name isRef))
                        (\<lambda>x. DE_Healthy (om_namespace d) (rv_name isRef) x)))"

definition PopulateMessage :: "deployment \<Rightarrow> deployment" where
  "PopulateMessage d =
     (if dt_message (dp_status d) = '''' then set_dmessage ''Deployment processed by OSS plugin'' d else d)"

definition oss_plugin :: "dep_env \<Rightarrow> dep_plugin" where
  "oss_plugin R =
     \<lparr>dp_get_state = GetState R, dp_health_gate = HealthCheckGate R, dp_rollout = NewRolloutPlugin R,
      dp_rollback = NewRollbackPlugin R, dp_cleanup = NewCleanupPlugin R,
      dp_steady = NewSteadyStatePlugin R, dp_parse_stage = ParseStage,
      dp_populate_message = PopulateMessage\<rparr>"

end
