(* ===== verification/Deployment.thy ===== *)
theory Deployment
  imports Deployment_Plugin
begin

text \<open>
  The deployment controller (\<^verbatim>\<open>go/components/deployment/controller.go\<close>, \<^verbatim>\<open>util.go\<close>): a pass picks
  cleanup, rollback, rollout or steady state, runs the actors of that plugin, derives the new stage
  from their conditions and writes the object back. The controller is written against the plugin
  interface; \<open>plugin_contract\<close> states what it relies on, and the open-source plugin is its
  interpretation.
\<close>

section \<open>Running a plugin\<close>

definition deploymentRequeuePeriod :: int where "deploymentRequeuePeriod = seconds 10"

definition defaultResult :: ctrl_result where
  "defaultResult = \<lparr>cr_requeue = True, cr_requeue_after = deploymentRequeuePeriod\<rparr>"

definition default_engine_result :: engine_result where
  "default_engine_result =
     \<lparr>er_result = defaultResult, er_satisfied = False, er_terminal = False, er_killed = False\<rparr>"

definition kept_conditions :: "(devent list, deployment) plugin \<Rightarrow> condition list \<Rightarrow> condition list" where
  "kept_conditions p cs =
     concat (map (\<lambda>c. map (\<lambda>_. c) (filter (\<lambda>a. c_type c = a_type a) (p_actors p))) cs)"

definition removeConditionsForDeployment ::
    "deployment \<Rightarrow> (devent list, deployment) plugin option \<Rightarrow> deployment" where
  "removeConditionsForDeployment d pl =
     (case pl of None \<Rightarrow> d | Some p \<Rightarrow> set_dconditions (kept_conditions p (dt_conditions (dp_status d))) d)"

text \<open>The engine does not recover a panic of an actor, so it leaves the engine.\<close>

definition is_panic :: "devent \<Rightarrow> bool" where
  "is_panic e = (case e of DE_Panic \<Rightarrow> True | _ \<Rightarrow> False)"

type_synonym processed = "(engine_result \<times> api_error option \<times> deployment) outcome"

definition run_engine :: "(devent list, deployment) plugin \<Rightarrow> deployment \<Rightarrow> (devent, processed) io" where
  "run_engine p d = do {
     seen \<leftarrow> peek length;
     (result, d') \<leftarrow> engineRun p d;
     panicked \<leftarrow> peek (\<lambda>h. list_ex is_panic (drop seen h));
     State_Monad.return (if panicked then Panicked
       else Returned (result, None, removeConditionsForDeployment d' (Some p)))
   }"

definition run_rollout :: "dep_plugin \<Rightarrow> deployment \<Rightarrow> (devent, processed) io" where
  "run_rollout P d =
     (case dp_rollout P d of
        Inl err \<Rightarrow> State_Monad.return (Returned (default_engine_result, Some err, d))
      | Inr p \<Rightarrow> run_engine p d)"

definition bool_text :: "bool \<Rightarrow> string" where
  "bool_text b = (if b then ''true'' else ''false'')"

definition begin_rollback :: "bool \<Rightarrow> bool \<Rightarrow> deployment \<Rightarrow> deployment" where
  "begin_rollback isHealthy desiredModelChanged d =
     (if IsRollbackStage (stage_of d) then d
      else updateRollbackReason
        (set_stage DS_ROLLBACK_IN_PROGRESS
          (set_dmessage (''Detected that a rollback should occur due to alert firing=['' @
             bool_text isHealthy @ ''], or due to the desired model changing=['' @
             bool_text desiredModelChanged @ '']'') d)) isHealthy)"

definition begin_rollout :: "deployment \<Rightarrow> deployment" where
  "begin_rollout d =
     (set_candidate (desired_of d) d)
       \<lparr>om_annotations := del_entry (om_annotations d) deploymentRollbackReason\<rparr>"

definition processPlugin :: "dep_plugin \<Rightarrow> deployment \<Rightarrow> (devent, processed) io" where
  "processPlugin P d =
     (if ShouldCleanup d then
        run_engine (dp_cleanup P)
          (if IsCleanupStage (stage_of d) then d else set_stage DS_CLEAN_UP_IN_PROGRESS d)
      else if RolloutInProgress d then do {
        gate \<leftarrow> dp_health_gate P d;
        (case gate of
           Inl err \<Rightarrow> State_Monad.return (Returned (default_engine_result, Some err, d))
         | Inr isHealthy \<Rightarrow>
             if (\<not> isHealthy \<or> ShouldRollback d) \<and> RollbackAlertsEnabled d then
               run_engine (dp_rollback P) (begin_rollback isHealthy (ShouldRollback d) d)
             else run_rollout P d)
      }
      else if TriggerNewRollout d then
        (if ShouldSkipRollout (begin_rollout d) then
           State_Monad.return (Returned (default_engine_result, None, begin_rollout d))
         else run_rollout P (set_stage DS_VALIDATION (incrementRolloutCount (begin_rollout d))))
      else if InSteadyState d then run_engine (dp_steady P) d
      else State_Monad.return (Returned (default_engine_result, None, d)))"

section \<open>Stage transitions\<close>

definition getTerminalStage :: "deployment \<Rightarrow> deployment_stage \<times> bool" where
  "getTerminalStage d =
     (if IsCleanupStage (stage_of d) then (DS_CLEAN_UP_FAILED, False)
      else if IsRollbackStage (stage_of d) then (DS_ROLLBACK_FAILED, True)
      else if RolloutInProgress d then (DS_ROLLOUT_FAILED, True)
      else (stage_of d, False))"

definition join_messages :: "string list \<Rightarrow> string" where
  "join_messages ms = (case ms of [] \<Rightarrow> '''' | m # ms' \<Rightarrow> m @ concat (map (\<lambda>x. ''. '' @ x) ms'))"

text \<open>
  The messages a terminal stage logs are not stored: only whether there are any matters. Creating
  the deployment event does nothing and cannot fail.
\<close>

definition terminal_messages :: "deployment \<Rightarrow> api_error option \<Rightarrow> bool" where
  "terminal_messages d err \<longleftrightarrow>
     stage_of d \<in> {DS_ROLLOUT_FAILED, DS_CLEAN_UP_FAILED, DS_ROLLBACK_FAILED} \<or>
     (\<exists>c \<in> set (dt_conditions (dp_status d)). c_status c \<noteq> CS_TRUE) \<or> err \<noteq> None"

definition handleStageTransition ::
    "dep_env \<Rightarrow> deployment \<Rightarrow> api_error option \<Rightarrow> bool \<times> deployment" where
  "handleStageTransition R d err =
     (if \<not> IsTerminalStage (stage_of d) then
        (let messages =
           (if dt_message (dp_status d) \<noteq> '''' then [dt_message (dp_status d)] else []) @
           (case err of None \<Rightarrow> [] | Some e \<Rightarrow> [''Error from latest reconciliation: '' @ de_show R e])
         in (False, if messages \<noteq> [] then set_dmessage (join_messages messages) d else d))
      else
        (let graduated =
           (if stage_of d = DS_ROLLOUT_COMPLETE then set_current (candidate_of d) d
            else if stage_of d = DS_CLEAN_UP_COMPLETE then set_candidate None (set_current None d)
            else d)
         in (True, if terminal_messages d err then graduated else set_dmessage '''' graduated)))"

definition handleTerminalTransition :: "dep_plugin \<Rightarrow> deployment \<Rightarrow> deployment" where
  "handleTerminalTransition P d =
     (let d1 = (if stage_of d = DS_ROLLOUT_FAILED
                then d\<lparr>dp_status := (dp_status d)\<lparr>dt_snapshot := dt_conditions (dp_status d)\<rparr>\<rparr> else d);
          d2 = set_dconditions [] d1
      in if stage_of d2 = DS_ROLLBACK_COMPLETE \<or> stage_of d2 = DS_ROLLOUT_FAILED
         then dp_populate_message P d2 else d2)"

definition next_stage :: "dep_plugin \<Rightarrow> engine_result \<Rightarrow> deployment \<Rightarrow> deployment_stage" where
  "next_stage P result d =
     (if er_terminal result \<and> \<not> er_satisfied result then fst (getTerminalStage d) else dp_parse_stage P d)"

definition next_result :: "engine_result \<Rightarrow> deployment \<Rightarrow> ctrl_result" where
  "next_result result d =
     (if er_terminal result \<and> \<not> er_satisfied result then
        (if snd (getTerminalStage d) then defaultResult else er_result result)
      else if er_terminal result \<and> er_satisfied result then defaultResult
      else er_result result)"

definition transition ::
    "dep_env \<Rightarrow> dep_plugin \<Rightarrow> deployment_stage \<Rightarrow> deployment_stage \<Rightarrow> api_error option \<Rightarrow> deployment \<Rightarrow> deployment" where
  "transition R P originalStage stage err d =
     (if originalStage \<noteq> stage then
        (case handleStageTransition R (set_stage stage d) err of
           (terminal, d') \<Rightarrow> if terminal then handleTerminalTransition P d' else d')
      else d)"

section \<open>A pass\<close>

definition getPlugin :: "dep_env \<Rightarrow> deployment \<Rightarrow> api_error option" where
  "getPlugin R d =
     (case ds_definition (dp_spec d) of
        None \<Rightarrow> de_plugin R ''TARGET_TYPE_INFERENCE_SERVER'' ''''
      | Some (targetType, subType) \<Rightarrow> de_plugin R targetType subType)"

text \<open>\<^verbatim>\<open>r.Update\<close> leaves in the object what the server answers.\<close>

definition do_dep_update :: "dep_env \<Rightarrow> deployment \<Rightarrow> (devent, api_error + deployment) io" where
  "do_dep_update R d = ask (\<lambda>h. de_update R h d) (\<lambda>x. DE_Update d x)"

definition add_finalizer :: "dep_env \<Rightarrow> deployment \<Rightarrow> (devent, api_error + deployment) io" where
  "add_finalizer R d =
     (if om_deletion_ts d = None \<and>
         \<not> fl_contains (de_finlib R) (om_finalizers d) deploymentCleanedUpFinalizer then
        do_dep_update R (d\<lparr>om_finalizers := fl_add (de_finlib R) (om_finalizers d) deploymentCleanedUpFinalizer\<rparr>)
      else State_Monad.return (Inr d))"

type_synonym dep_pass = "(ctrl_result \<times> api_error option \<times> deployment) outcome"

definition finish_pass :: "dep_env \<Rightarrow> dep_plugin \<Rightarrow> ctrl_result \<Rightarrow> api_error option \<Rightarrow> deployment \<Rightarrow> (devent, dep_pass) io" where
  "finish_pass R P result err d = do {
     got \<leftarrow> dp_get_state P d;
     State_Monad.return (case got of
         Inl (Failing e) \<Rightarrow> Returned (defaultResult, Some e, d)
       | Inl _ \<Rightarrow> Panicked
       | Inr d' \<Rightarrow>
           if IsCleanupCompleteStage (stage_of d') then
             Returned (no_requeue, None,
               d'\<lparr>om_finalizers := fl_remove (de_finlib R) (om_finalizers d') deploymentCleanedUpFinalizer\<rparr>)
           else Returned (result, err, d'))
   }"

definition after_plugin :: "dep_env \<Rightarrow> dep_plugin \<Rightarrow> deployment_stage \<Rightarrow> processed \<Rightarrow> (devent, dep_pass) io" where
  "after_plugin R P originalStage got =
     (case got of
        Panicked \<Rightarrow> State_Monad.return Panicked
      | Returned (result, err, d) \<Rightarrow>
          finish_pass R P (next_result result d) err
            (transition R P originalStage (next_stage P result d) err d))"

definition dep_reconcile :: "dep_env \<Rightarrow> dep_plugin \<Rightarrow> deployment \<Rightarrow> (devent, dep_pass) io" where
  "dep_reconcile R P d0 = do {
     added \<leftarrow> add_finalizer R d0;
     (case added of
        Inl err \<Rightarrow> State_Monad.return (Returned (defaultResult, Some err, d0))
      | Inr d \<Rightarrow>
          (case getPlugin R d of
             Some err \<Rightarrow> State_Monad.return (Returned (defaultResult, Some err, d))
           | None \<Rightarrow> do {
               got \<leftarrow> processPlugin P d;
               after_plugin R P (stage_of d) got
             }))
   }"

text \<open>A panic is recovered: the pass answers with the zero result and writes nothing.\<close>

definition ReconcileDeployment ::
    "dep_env \<Rightarrow> string \<Rightarrow> string \<Rightarrow> (devent, ctrl_result \<times> api_error option) io" where
  "ReconcileDeployment R ns name = do {
     got \<leftarrow> ask (\<lambda>h. de_get R h ns name) (\<lambda>x. DE_Get ns name x);
     (case got of
        Inl err \<Rightarrow> State_Monad.return (no_requeue, if IsNotFoundError err then None else Some err)
      | Inr original \<Rightarrow> do {
          pass \<leftarrow> dep_reconcile R (oss_plugin R) original;
          (case pass of
             Panicked \<Rightarrow> State_Monad.return (no_requeue, None)
           | Returned (result, Some err, d) \<Rightarrow> State_Monad.return (result, Some err)
           | Returned (result, None, d) \<Rightarrow>
               if original = d then State_Monad.return (result, None)
               else do {
                 updated \<leftarrow> do_dep_update R d;
                 (case updated of
                    Inl updateErr \<Rightarrow> State_Monad.return (result, None)
                  | Inr stored \<Rightarrow> do {
                      let withStatus = stored\<lparr>dp_status := dp_status d\<rparr>;
                      _ \<leftarrow> ask (\<lambda>h. de_update_status R h withStatus) (\<lambda>x. DE_UpdateStatus withStatus x);
                      State_Monad.return (result, None)
                    })
               })
        })
   }"

section \<open>What the controller relies on\<close>

text \<open>Actors change the annotations and the conditions of a deployment and nothing else.\<close>

definition progressed :: "deployment \<Rightarrow> deployment \<Rightarrow> bool" where
  "progressed d d' \<longleftrightarrow>
     (\<exists>a cs. d' = d\<lparr>om_annotations := a, dp_status := (dp_status d)\<lparr>dt_conditions := cs\<rparr>\<rparr>)"

lemma progressed_refl [simp, intro!]: "progressed d d"
  unfolding progressed_def by (intro exI [of _ "om_annotations d"] exI [of _ "dt_conditions (dp_status d)"]) simp

lemma progressed_trans: "progressed d d' \<Longrightarrow> progressed d' d'' \<Longrightarrow> progressed d d''"
  by (fastforce simp: progressed_def)

lemma progressed_conditions [simp]: "progressed d (set_dconditions cs d)"
  unfolding progressed_def set_dconditions_def by (intro exI [of _ "om_annotations d"] exI [of _ cs]) simp

lemma progressed_sel:
  assumes "progressed d d'"
  shows "dp_spec d' = dp_spec d" "stage_of d' = stage_of d" "current_of d' = current_of d"
    and "candidate_of d' = candidate_of d" "om_finalizers d' = om_finalizers d"
    and "om_deletion_ts d' = om_deletion_ts d" "om_name d' = om_name d" "om_namespace d' = om_namespace d"
  using assms by (auto simp: progressed_def)

definition frames :: "(devent list, deployment) plugin \<Rightarrow> bool" where
  "frames p \<longleftrightarrow>
     (\<forall>a \<in> set (p_actors p). \<forall>d c h x d' h'.
        (run_state (a_retrieve a d c) h = ((x, d'), h') \<longrightarrow> progressed d d') \<and>
        (run_state (a_run a d c) h = ((x, d'), h') \<longrightarrow> progressed d d')) \<and>
     (\<forall>d c. progressed d (p_put_condition p d c))"

lemma runActors_progress:
  assumes frame: "frames p"
  shows "set as \<subseteq> set (p_actors p) \<Longrightarrow> run_state (runActors p as b c d) h = ((x, d'), h') \<Longrightarrow> progressed d d'"
proof (induction as arbitrary: b c d h)
  case (Cons a as)
  from Cons.prems(1) have a: "a \<in> set (p_actors p)" and as: "set as \<subseteq> set (p_actors p)" by auto
  have ret: "progressed d1 d2" if "run_state (a_retrieve a d1 e) h1 = ((y, d2), h2)" for d1 e h1 y d2 h2
    using frame a that by (fastforce simp: frames_def)
  have run: "progressed d1 d2" if "run_state (a_run a d1 e) h1 = ((y, d2), h2)" for d1 e h1 y d2 h2
    using frame a that by (fastforce simp: frames_def)
  have put: "progressed d1 (p_put_condition p d1 e)" for d1 e
    using frame by (simp add: frames_def)
  from Cons.prems(2) show ?case
  proof (cases rule: runActors_ConsE)
    case (retrieve_error e r1)
    with ret show ?thesis by blast
  next
    case (skipped e r1 w1)
    with ret put Cons.IH [OF as skipped(3)] show ?thesis by (blast intro: progressed_trans)
  next
    case (run_error e r1 w1 e' r2)
    with ret run show ?thesis by (blast intro: progressed_trans)
  next
    case (ran e r1 w1 e' r2 w2)
    with ret run put Cons.IH [OF as ran(5)] show ?thesis by (blast intro: progressed_trans)
  qed
qed simp

definition within :: "(devent list, deployment) plugin \<Rightarrow> deployment \<Rightarrow> bool" where
  "within p d \<longleftrightarrow> c_type ` set (dt_conditions (dp_status d)) \<subseteq> a_type ` set (p_actors p)"

lemma run_engine_result:
  assumes "frames p" "run_state (run_engine p d) h = (Returned (result, err, d'), h')"
  shows "err = None" "progressed d d'" "within p d'"
proof -
  obtain res d1 h1 where run: "run_state (engineRun p d) h = ((res, d1), h1)"
    by (metis prod.exhaust)
  then obtain x where x: "run_state (runPlugin p d) h = ((x, d1), h1)"
    by (auto simp: run_state_engineRun split: prod.splits)
  have d': "err = None" "d' = removeConditionsForDeployment d1 (Some p)"
    using assms(2) run by (auto simp: run_engine_def split: if_splits)
  show "err = None" by (rule d')
  from x have "progressed d d1"
    unfolding runPlugin_def using runActors_progress [OF assms(1)] by blast
  with d' show "progressed d d'"
    by (auto simp: removeConditionsForDeployment_def intro: progressed_trans)
  show "within p d'"
    using d' by (auto simp: removeConditionsForDeployment_def within_def kept_conditions_def
        set_dconditions_def)
qed

lemma run_engine_no_error [simp]: "run_state (run_engine p d) h \<noteq> (Returned (result, Some e, d'), h')"
  by (auto simp: run_engine_def split: prod.splits if_splits)

text \<open>
  A deployment that is not to be cleaned up carries no condition of a cleanup: without this, an
  error of the health check could be taken for the end of a cleanup.
\<close>

definition no_leftover :: "dep_plugin \<Rightarrow> deployment \<Rightarrow> bool" where
  "no_leftover P d \<longleftrightarrow> ShouldCleanup d \<or>
     (\<forall>c \<in> set (dt_conditions (dp_status d)). c_type c \<notin> a_type ` set (p_actors (dp_cleanup P)))"

text \<open>The stages a pass can leave a deployment in, by what the pass does.\<close>

definition stage_step :: "dep_plugin \<Rightarrow> deployment \<Rightarrow> deployment_stage \<Rightarrow> bool" where
  "stage_step P d s \<longleftrightarrow>
     (if ShouldCleanup d then IsCleanupStage s
      else if RolloutInProgress d then
        IsRollbackStage s \<or> s = stage_of d \<or>
        s \<in> {DS_VALIDATION, DS_PLACEMENT, DS_ROLLOUT_COMPLETE,
             if IsCleanupStage (stage_of d) then DS_CLEAN_UP_FAILED else DS_ROLLOUT_FAILED}
      else if TriggerNewRollout d \<and> desired_of d \<noteq> current_of d then
        s \<in> {DS_VALIDATION, DS_PLACEMENT, DS_ROLLOUT_COMPLETE, DS_ROLLOUT_FAILED}
      else s = stage_of d \<or> s = dp_parse_stage P d \<or> s = dp_parse_stage P (begin_rollout d) \<or>
        (stage_of d = DS_ROLLBACK_COMPLETE \<and> s = DS_ROLLBACK_FAILED))"

text \<open>
  The contract of a plugin: its actors keep to their part of the object, the state and the message
  are all it sets otherwise, and the stage it reads off the conditions of one of its four actor
  lists is one of that list's stages, or the stage the object has.
\<close>

locale plugin_contract =
  fixes P :: dep_plugin
  assumes frames_rollout: "dp_rollout P d0 = Inr p \<Longrightarrow> frames p"
    and frames_rollback: "frames (dp_rollback P)"
    and frames_cleanup: "frames (dp_cleanup P)"
    and frames_steady: "frames (dp_steady P)"
    and state_only: "run_state (dp_get_state P d) h = (Inr d', h') \<Longrightarrow> \<exists>s. d' = set_dstate s d"
    and message_only: "\<exists>m. dp_populate_message P d = set_dmessage m d"
    and parse_cleanup: "within (dp_cleanup P) d \<Longrightarrow>
      dp_parse_stage P d \<in> {stage_of d, DS_CLEAN_UP_IN_PROGRESS, DS_CLEAN_UP_COMPLETE}"
    and parse_rollback: "within (dp_rollback P) d \<Longrightarrow>
      dp_parse_stage P d \<in> {stage_of d, DS_ROLLBACK_IN_PROGRESS, DS_ROLLBACK_COMPLETE}"
    and parse_rollout: "dp_rollout P d0 = Inr p \<Longrightarrow> within p d \<Longrightarrow>
      dp_parse_stage P d \<in> {stage_of d, DS_VALIDATION, DS_PLACEMENT, DS_ROLLOUT_COMPLETE}"
    and parse_steady: "within (dp_steady P) d \<Longrightarrow> dp_parse_stage P d = stage_of d"
    and parse_completes: "IsCleanupCompleteStage (dp_parse_stage P d) \<Longrightarrow> dp_parse_stage P d = stage_of d \<or>
      (\<exists>c \<in> set (dt_conditions (dp_status d)). c_type c \<in> a_type ` set (p_actors (dp_cleanup P)))"
begin

text \<open>A pass that returns no error has processed the plugin in one of six ways.\<close>

lemma processed_cases:
  assumes "run_state (processPlugin P d) h = (Returned (result, None, d'), h')"
  obtains
    (cleanup) d1 where "ShouldCleanup d" "IsCleanupStage (stage_of d1)"
      "d1 = (if IsCleanupStage (stage_of d) then d else set_stage DS_CLEAN_UP_IN_PROGRESS d)"
      "progressed d1 d'" "within (dp_cleanup P) d'"
  | (rollback) d1 where "\<not> ShouldCleanup d" "RolloutInProgress d" "d1 = d \<or> (\<exists>b b'. d1 = begin_rollback b b' d)"
      "IsRollbackStage (stage_of d1)" "progressed d1 d'" "within (dp_rollback P) d'"
  | (rollout) p g b where "\<not> ShouldCleanup d" "RolloutInProgress d" "dp_rollout P d = Inr p"
      "progressed d d'" "within p d'" "run_state (run_engine p d) g = (Returned (result, None, d'), h')"
      "run_state (dp_health_gate P d) h = (Inr b, g)"
  | (new_rollout) p d1 where "\<not> ShouldCleanup d" "TriggerNewRollout d" "desired_of d \<noteq> current_of d"
      "d1 = set_stage DS_VALIDATION (incrementRolloutCount (begin_rollout d))"
      "dp_rollout P d1 = Inr p" "progressed d1 d'" "within p d'"
      "run_state (run_engine p d1) h = (Returned (result, None, d'), h')"
  | (steady) "\<not> ShouldCleanup d" "\<not> TriggerNewRollout d" "InSteadyState d" "progressed d d'"
      "within (dp_steady P) d'"
  | (idle) "\<not> ShouldCleanup d" "\<not> RolloutInProgress d" "d' = d \<or> d' = begin_rollout d"
      "result = default_engine_result" "\<not> (TriggerNewRollout d \<and> desired_of d \<noteq> current_of d)"
proof (cases "ShouldCleanup d")
  case True
  let ?d1 = "if IsCleanupStage (stage_of d) then d else set_stage DS_CLEAN_UP_IN_PROGRESS d"
  from assms True have "run_state (run_engine (dp_cleanup P) ?d1) h = (Returned (result, None, d'), h')"
    by (simp add: processPlugin_def)
  from run_engine_result [OF frames_cleanup this] True show thesis
    by (intro cleanup [OF _ _ refl]) (auto simp: set_stage_def IsCleanupStage_def)
next
  case no_cleanup: False
  show thesis
  proof (cases "RolloutInProgress d")
    case True
    obtain gate h1 where gate: "run_state (dp_health_gate P d) h = (gate, h1)" by fastforce
    with assms no_cleanup True obtain isHealthy where healthy: "gate = Inr isHealthy"
      by (cases gate) (auto simp: processPlugin_def)
    show thesis
    proof (cases "(\<not> isHealthy \<or> ShouldRollback d) \<and> RollbackAlertsEnabled d")
      case reverting: True
      with assms no_cleanup True gate healthy
      have "run_state (run_engine (dp_rollback P) (begin_rollback isHealthy (ShouldRollback d) d)) h1 =
          (Returned (result, None, d'), h')" by (auto simp: processPlugin_def)
      from run_engine_result [OF frames_rollback this] no_cleanup True show thesis
        by (intro rollback [of "begin_rollback isHealthy (ShouldRollback d) d"])
          (auto simp: begin_rollback_def updateRollbackReason_def set_stage_def IsRollbackStage_def)
    next
      case False
      with assms no_cleanup True gate healthy
      have "run_state (run_rollout P d) h1 = (Returned (result, None, d'), h')"
        by (auto simp: processPlugin_def)
      then obtain p where p: "dp_rollout P d = Inr p"
        and engine: "run_state (run_engine p d) h1 = (Returned (result, None, d'), h')"
        by (auto simp: run_rollout_def split: sum.splits)
      from run_engine_result [OF frames_rollout [OF p] engine] no_cleanup True p engine gate healthy show thesis
        by (intro rollout) simp_all
    qed
  next
    case no_rollout: False
    show thesis
    proof (cases "TriggerNewRollout d")
      case True
      show thesis
      proof (cases "ShouldSkipRollout (begin_rollout d)")
        case skip: True
        then have "desired_of d = current_of d"
          by (auto simp: ShouldSkipRollout_def begin_rollout_def set_candidate_def)
        with skip assms no_cleanup no_rollout True show thesis
          by (intro idle) (auto simp: processPlugin_def)
      next
        case False
        let ?d1 = "set_stage DS_VALIDATION (incrementRolloutCount (begin_rollout d))"
        from False True no_cleanup have "desired_of d \<noteq> current_of d"
          by (auto simp: ShouldSkipRollout_def begin_rollout_def set_candidate_def ShouldCleanup_def
              TriggerNewRollout_def desiredRevisionEqual_def)
        moreover from assms no_cleanup no_rollout True False
        have "run_state (run_rollout P ?d1) h = (Returned (result, None, d'), h')"
          by (simp add: processPlugin_def)
        then obtain p where p: "dp_rollout P ?d1 = Inr p"
          and engine: "run_state (run_engine p ?d1) h = (Returned (result, None, d'), h')"
          by (auto simp: run_rollout_def split: sum.splits)
        from run_engine_result [OF frames_rollout [OF p] engine] calculation no_cleanup True p engine
        show thesis by (intro new_rollout [OF _ _ _ refl])
      qed
    next
      case False
      show thesis
      proof (cases "InSteadyState d")
        case True
        with assms no_cleanup no_rollout False
        have "run_state (run_engine (dp_steady P) d) h = (Returned (result, None, d'), h')"
          by (simp add: processPlugin_def)
        from run_engine_result [OF frames_steady this] no_cleanup False True show thesis
          by (intro steady)
      next
        case not_steady: False
        with assms no_cleanup no_rollout False show thesis
          by (intro idle) (auto simp: processPlugin_def)
      qed
    qed
  qed
qed

text \<open>What a transition and the end of a pass do to the object.\<close>

lemma handleTerminalTransition_sel:
  "stage_of (handleTerminalTransition P d) = stage_of d"
  "dp_spec (handleTerminalTransition P d) = dp_spec d"
  "om_finalizers (handleTerminalTransition P d) = om_finalizers d"
  "candidate_of (handleTerminalTransition P d) = candidate_of d"
  "current_of (handleTerminalTransition P d) = current_of d"
proof -
  obtain m where "dp_populate_message P = (\<lambda>d. set_dmessage (m d) d)"
    using message_only by metis
  then show "stage_of (handleTerminalTransition P d) = stage_of d"
    "dp_spec (handleTerminalTransition P d) = dp_spec d"
    "om_finalizers (handleTerminalTransition P d) = om_finalizers d"
    "candidate_of (handleTerminalTransition P d) = candidate_of d"
    "current_of (handleTerminalTransition P d) = current_of d"
    by (simp_all add: handleTerminalTransition_def set_dmessage_def set_dconditions_def Let_def)
qed

lemma transition_sel:
  "stage_of (transition R P s0 s err d) = (if s0 \<noteq> s then s else stage_of d)"
  "dp_spec (transition R P s0 s err d) = dp_spec d"
  "om_finalizers (transition R P s0 s err d) = om_finalizers d"
  "candidate_of (transition R P s0 s err d) =
     (if s0 \<noteq> s \<and> s = DS_CLEAN_UP_COMPLETE then None else candidate_of d)"
  "current_of (transition R P s0 s err d) =
     (if s0 \<noteq> s \<and> s = DS_CLEAN_UP_COMPLETE then None
      else if s0 \<noteq> s \<and> s = DS_ROLLOUT_COMPLETE then candidate_of d else current_of d)"
proof -
  define t where "t = handleStageTransition R (set_stage s d) err"
  have "stage_of (snd t) = s" "dp_spec (snd t) = dp_spec d" "om_finalizers (snd t) = om_finalizers d"
    "candidate_of (snd t) = (if s = DS_CLEAN_UP_COMPLETE then None else candidate_of d)"
    "current_of (snd t) = (if s = DS_CLEAN_UP_COMPLETE then None
       else if s = DS_ROLLOUT_COMPLETE then candidate_of d else current_of d)"
    unfolding t_def
    by (simp_all add: handleStageTransition_def Let_def set_stage_def set_current_def set_candidate_def
        set_dmessage_def IsTerminalStage_def)
  moreover have "transition R P s0 s err d =
      (if s0 \<noteq> s then if fst t then handleTerminalTransition P (snd t) else snd t else d)"
    by (simp add: transition_def t_def case_prod_beta)
  ultimately show "stage_of (transition R P s0 s err d) = (if s0 \<noteq> s then s else stage_of d)"
    "dp_spec (transition R P s0 s err d) = dp_spec d"
    "om_finalizers (transition R P s0 s err d) = om_finalizers d"
    "candidate_of (transition R P s0 s err d) =
       (if s0 \<noteq> s \<and> s = DS_CLEAN_UP_COMPLETE then None else candidate_of d)"
    "current_of (transition R P s0 s err d) =
       (if s0 \<noteq> s \<and> s = DS_CLEAN_UP_COMPLETE then None
        else if s0 \<noteq> s \<and> s = DS_ROLLOUT_COMPLETE then candidate_of d else current_of d)"
    by (simp_all add: handleTerminalTransition_sel) auto
qed

lemma failed_processing:
  assumes "run_state (processPlugin P d) h = (Returned (result, Some e, d'), h')" "no_leftover P d"
  shows "\<not> IsCleanupCompleteStage (stage_of (transition R P s0 (next_stage P result d') err d'))"
proof -
  have "\<not> ShouldCleanup d \<and> result = default_engine_result \<and>
      (RolloutInProgress d \<and> d' = d \<or>
       \<not> RolloutInProgress d \<and> d' = set_stage DS_VALIDATION (incrementRolloutCount (begin_rollout d)))"
    using assms(1) by (auto simp: processPlugin_def run_rollout_def split: if_splits sum.splits prod.splits)
  then have stage: "\<not> IsCleanupCompleteStage (stage_of d')" and result: "result = default_engine_result"
    and "dt_conditions (dp_status d') = dt_conditions (dp_status d)" and "\<not> ShouldCleanup d"
    by (auto simp: dep_set_defs stage_classes RolloutInProgress_def incrementRolloutCount_def begin_rollout_def)
  with assms(2) parse_completes [of d'] have "\<not> IsCleanupCompleteStage (dp_parse_stage P d')"
    by (auto simp: no_leftover_def)
  with stage result show ?thesis
    by (simp add: transition_sel next_stage_def default_engine_result_def)
qed

lemma pass_cases:
  assumes add: "run_state (add_finalizer R d0) h = (Inr d, h1)"
    and pass: "run_state (dep_reconcile R P d0) h = (Returned (res, None, d''), h')"
    and clean: "no_leftover P d"
  obtains result d' h2 s where "run_state (processPlugin P d) h1 = (Returned (result, None, d'), h2)"
    "let d3 = set_dstate s (transition R P (stage_of d) (next_stage P result d') None d')
     in d'' = (if IsCleanupCompleteStage (stage_of d3) then d3\<lparr>om_finalizers :=
         fl_remove (de_finlib R) (om_finalizers d3) deploymentCleanedUpFinalizer\<rparr> else d3)"
    "getPlugin R d = None"
    "run_state (after_plugin R P (stage_of d) (Returned (result, None, d'))) h2 = (Returned (res, None, d''), h')"
proof -
  from add pass obtain got h2 where proc: "run_state (processPlugin P d) h1 = (got, h2)"
    and after: "run_state (after_plugin R P (stage_of d) got) h2 = (Returned (res, None, d''), h')"
    and plugin: "getPlugin R d = None"
    by (auto simp: dep_reconcile_def split: option.splits prod.splits)
  from after obtain result err d' where got: "got = Returned (result, err, d')"
    by (auto simp: after_plugin_def split: outcome.splits)
  let ?t = "transition R P (stage_of d) (next_stage P result d') err d'"
  from after got obtain d3 h3 where state: "run_state (dp_get_state P ?t) h2 = (Inr d3, h3)"
    and d'': "(IsCleanupCompleteStage (stage_of d3) \<and> d'' = d3\<lparr>om_finalizers :=
         fl_remove (de_finlib R) (om_finalizers d3) deploymentCleanedUpFinalizer\<rparr>) \<or>
       (\<not> IsCleanupCompleteStage (stage_of d3) \<and> err = None \<and> d'' = d3)"
    by (auto simp: after_plugin_def finish_pass_def split: prod.splits sum.splits stop.splits if_splits)
  from state_only [OF state] obtain s where s: "d3 = set_dstate s ?t" by blast
  then have "stage_of d3 = stage_of ?t" by (simp add: set_dstate_def)
  have "err = None"
  proof (rule ccontr)
    assume "err \<noteq> None"
    with failed_processing [OF _ clean] proc got have "\<not> IsCleanupCompleteStage (stage_of ?t)" by blast
    with d'' \<open>err \<noteq> None\<close> \<open>stage_of d3 = stage_of ?t\<close> show False by auto
  qed
  with proc got d'' s plugin after show thesis
    by (intro that) (auto simp: Let_def)
qed

lemma progressed_predicates:
  assumes "progressed d d'"
  shows "RolloutInProgress d' = RolloutInProgress d"
  using progressed_sel [OF assms] by (simp add: RolloutInProgress_def)

lemma stage_after:
  assumes proc: "run_state (processPlugin P d) h = (Returned (result, None, d'), h')"
  shows "stage_step P d (if stage_of d \<noteq> next_stage P result d' then next_stage P result d' else stage_of d')"
  using proc
proof (cases rule: processed_cases)
  case (cleanup d1)
  then have "IsCleanupStage (stage_of d')" using progressed_sel(2) [of d1 d'] by simp
  moreover from this have "IsCleanupStage (next_stage P result d')"
    using parse_cleanup [of d'] cleanup by (auto simp: next_stage_def getTerminalStage_def IsCleanupStage_def)
  ultimately show ?thesis using cleanup by (simp add: stage_step_def)
next
  case (rollback d1)
  then have "IsRollbackStage (stage_of d')" using progressed_sel(2) [of d1 d'] by simp
  moreover from this have "IsRollbackStage (next_stage P result d')"
    using parse_rollback [of d'] rollback
    by (auto simp: next_stage_def getTerminalStage_def IsCleanupStage_def IsRollbackStage_def)
  ultimately show ?thesis using rollback by (simp add: stage_step_def)
next
  case (rollout p g b)
  with parse_rollout [of d p d'] progressed_sel(2) [of d d'] progressed_predicates [of d d'] show ?thesis
    by (auto simp: stage_step_def next_stage_def getTerminalStage_def IsRollbackStage_def)
next
  case (new_rollout p d1)
  from new_rollout(2) have "\<not> RolloutInProgress d"
    by (auto simp: TriggerNewRollout_def RolloutInProgress_def)
  moreover from new_rollout have "RolloutInProgress d1" "stage_of d1 = DS_VALIDATION"
    by (auto simp: RolloutInProgress_def dep_set_defs incrementRolloutCount_def begin_rollout_def stage_classes)
  ultimately show ?thesis
    using new_rollout parse_rollout [of d1 p d'] progressed_sel(2) [of d1 d'] progressed_predicates [of d1 d']
    by (auto simp: stage_step_def next_stage_def getTerminalStage_def stage_classes)
next
  case steady
  then have "\<not> RolloutInProgress d" "\<not> RolloutInProgress d'"
    using progressed_sel(2) [of d d'] by (auto simp: RolloutInProgress_def InSteadyState_def stage_classes)
  with steady parse_steady [of d'] progressed_sel(2) [of d d'] show ?thesis
    by (auto simp: stage_step_def next_stage_def getTerminalStage_def stage_classes InSteadyState_def)
next
  case idle
  have "stage_of (begin_rollout d) = stage_of d" by (simp add: begin_rollout_def set_candidate_def)
  with idle show ?thesis
    by (auto simp: stage_step_def next_stage_def default_engine_result_def)
qed

text \<open>The three facts of a pass the properties state.\<close>

lemma pass_stage:
  assumes "run_state (add_finalizer R d0) h = (Inr d, h1)"
    and "run_state (dep_reconcile R P d0) h = (Returned (res, None, d''), h')"
    and "no_leftover P d"
  shows "stage_step P d (stage_of d'')"
proof (rule pass_cases [OF assms])
  fix result d' h2 s
  assume proc: "run_state (processPlugin P d) h1 = (Returned (result, None, d'), h2)"
    and d'': "let d3 = set_dstate s (transition R P (stage_of d) (next_stage P result d') None d')
     in d'' = (if IsCleanupCompleteStage (stage_of d3) then d3\<lparr>om_finalizers :=
         fl_remove (de_finlib R) (om_finalizers d3) deploymentCleanedUpFinalizer\<rparr> else d3)"
  from d'' have "stage_of d'' = stage_of (transition R P (stage_of d) (next_stage P result d') None d')"
    by (simp add: Let_def set_dstate_def)
  with stage_after [OF proc] show ?thesis by (simp add: transition_sel)
qed

lemma pass_current:
  assumes "run_state (add_finalizer R d0) h = (Inr d, h1)"
    and "run_state (dep_reconcile R P d0) h = (Returned (res, None, d''), h')"
    and "no_leftover P d"
  shows "current_of d'' = current_of d \<or>
    stage_of d'' = DS_ROLLOUT_COMPLETE \<and> current_of d'' = candidate_of d'' \<or>
    stage_of d'' = DS_CLEAN_UP_COMPLETE \<and> current_of d'' = None \<and> candidate_of d'' = None"
proof (rule pass_cases [OF assms])
  fix result d' h2 s
  assume proc: "run_state (processPlugin P d) h1 = (Returned (result, None, d'), h2)"
    and d'': "let d3 = set_dstate s (transition R P (stage_of d) (next_stage P result d') None d')
     in d'' = (if IsCleanupCompleteStage (stage_of d3) then d3\<lparr>om_finalizers :=
         fl_remove (de_finlib R) (om_finalizers d3) deploymentCleanedUpFinalizer\<rparr> else d3)"
  have kept: "current_of d' = current_of d"
    using proc
    by (cases rule: processed_cases)
      (auto dest!: progressed_sel(3) simp: begin_rollback_def begin_rollout_def updateRollbackReason_def
        incrementRolloutCount_def dep_set_defs split: if_splits)
  let ?t = "transition R P (stage_of d) (next_stage P result d') None d'"
  from d'' have "stage_of d'' = stage_of ?t" "current_of d'' = current_of ?t" "candidate_of d'' = candidate_of ?t"
    by (simp_all add: Let_def set_dstate_def)
  with kept show ?thesis by (auto simp: transition_sel)
qed

lemma pass_finalizer:
  assumes "run_state (add_finalizer R d0) h = (Inr d, h1)"
    and "run_state (dep_reconcile R P d0) h = (Returned (res, None, d''), h')"
    and "no_leftover P d"
  shows "IsCleanupCompleteStage (stage_of d'') \<or> om_finalizers d'' = om_finalizers d"
proof (rule pass_cases [OF assms])
  fix result d' h2 s
  assume proc: "run_state (processPlugin P d) h1 = (Returned (result, None, d'), h2)"
    and d'': "let d3 = set_dstate s (transition R P (stage_of d) (next_stage P result d') None d')
     in d'' = (if IsCleanupCompleteStage (stage_of d3) then d3\<lparr>om_finalizers :=
         fl_remove (de_finlib R) (om_finalizers d3) deploymentCleanedUpFinalizer\<rparr> else d3)"
  have "om_finalizers d' = om_finalizers d"
    using proc
    by (cases rule: processed_cases)
      (auto dest!: progressed_sel(5) simp: begin_rollback_def begin_rollout_def updateRollbackReason_def
        incrementRolloutCount_def dep_set_defs split: if_splits)
  with d'' show ?thesis by (auto simp: Let_def set_dstate_def transition_sel split: if_splits)
qed

end

section \<open>The open-source plugin keeps the contract\<close>

text \<open>
  What its actors do to the object: on success they change annotations only and answer about
  their own condition; with an error they may have changed a condition in place.
\<close>

definition tidy :: "deployment \<Rightarrow> condition \<Rightarrow> (api_error + condition) \<times> deployment \<Rightarrow> bool" where
  "tidy d c res \<longleftrightarrow>
     (case fst res of
        Inr c' \<Rightarrow> c_type c' = c_type c \<and> (\<exists>a. snd res = d\<lparr>om_annotations := a\<rparr>)
      | Inl _ \<Rightarrow> progressed d (snd res))"

lemma tidy_progressed: "tidy d c (x, d') \<Longrightarrow> progressed d d'"
proof (cases x)
  case (Inr c')
  assume "tidy d c (x, d')"
  with Inr obtain a where "d' = d\<lparr>om_annotations := a\<rparr>" by (auto simp: tidy_def)
  then show ?thesis
    unfolding progressed_def by (intro exI [of _ a] exI [of _ "dt_conditions (dp_status d)"]) simp
qed (simp add: tidy_def)

lemma tidy_same [simp, intro]: "c_type c' = c_type c \<Longrightarrow> tidy d c (Inr c', d)"
  unfolding tidy_def by (auto intro: exI [of _ "om_annotations d"])

lemma gives_say [intro!]:
  "c_type c' = c_type c \<Longrightarrow> gives (tidy d c) (say_true R d c')"
  "gives (tidy d c) (say_false R d c message reason)"
  "gives (tidy d c) (say_unknown R d c message reason)"
  "gives (tidy d c) (panics d)"
  by (auto simp: say_true_def say_false_def say_unknown_def panics_def GenerateTrueCondition_def
      GenerateTrueConditionWithMessage_def GenerateFalseCondition_def GenerateUnknownCondition_def
      gives_def tidy_def intro: exI [of _ "om_annotations d"])

lemma gives_then [intro!]: "(\<And>x. gives P (f x)) \<Longrightarrow> gives P (State_Monad.bind m f)"
  by (rule gives_bind)

lemma gives_after_routes [intro!]:
  "gives (tidy d c) go \<Longrightarrow> gives (tidy d c) (after_routes R d c message reason outcome go)"
  using gives_say by (simp add: after_routes_def split: sum.split stop.split)

lemma gives_with_backend [intro!]:
  "gives (tidy d c) go \<Longrightarrow> gives (tidy d c) (with_backend R t d c go)"
  unfolding with_backend_def by (auto split: option.splits)

lemma gives_routes_gone [intro!]:
  "gives (tidy d c) go \<Longrightarrow> gives (tidy d c) (routes_gone R d c query ts go)"
  by (induction ts) (auto split: option.splits sum.splits)

lemma gives_remove_traffic [intro!]:
  "gives (tidy d c) go \<Longrightarrow> gives (tidy d c) (remove_traffic R d c ts go)"
  by (induction ts) (auto split: option.splits)

definition tidy_actor :: "(devent list, deployment) actor \<Rightarrow> bool" where
  "tidy_actor a \<longleftrightarrow> (\<forall>d c. gives (tidy d c) (a_retrieve a d c) \<and> gives (tidy d c) (a_run a d c))"

lemma tidy_ValidationActor [simp]: "tidy_actor (ValidationActor R)"
  by (auto simp: tidy_actor_def ValidationActor_def split: option.splits)

lemma tidy_AssetPreparationActor [simp]: "tidy_actor (AssetPreparationActor R)"
  by (auto simp: tidy_actor_def AssetPreparationActor_def)

lemma tidy_PlacementPrepActor [simp]: "tidy_actor (PlacementPrepActor R)"
proof -
  have "gives (tidy d c) (say_true R (WriteTargetClustersAnnotation T d ts) c)"
    "gives (tidy d c) (say_unknown R (WriteTargetClustersAnnotation T d ts) c m r)" for d c T ts m r
    by (auto simp: say_true_def say_unknown_def GenerateTrueCondition_def GenerateUnknownCondition_def
        GenerateTrueConditionWithMessage_def WriteTargetClustersAnnotation_def gives_def tidy_def)
  moreover have "gives (tidy d c) (State_Monad.return (Inl e, in_place c' d))" for d c e c'
    by (simp add: gives_def tidy_def in_place_def)
  ultimately show ?thesis
    by (auto simp: tidy_actor_def PlacementPrepActor_def placement_retrieve_def placement_run_def Let_def
        split: sum.splits option.splits)
qed

lemma tidy_RollingRolloutActor [simp]: "tidy_actor (RollingRolloutActor R t)"
  by (auto simp: tidy_actor_def RollingRolloutActor_def rolling_retrieve_def rolling_run_def
      WriteModelLoadedFlag_def Let_def split: sum.splits option.splits)

lemma tidy_TrafficRoutingActor [simp]: "tidy_actor (TrafficRoutingActor R t)"
  by (auto simp: tidy_actor_def TrafficRoutingActor_def traffic_retrieve_def traffic_run_def
      split: sum.splits option.splits)

lemma tidy_DiscoveryRoutingActor [simp]: "tidy_actor (DiscoveryRoutingActor R)"
  by (auto simp: tidy_actor_def DiscoveryRoutingActor_def discovery_retrieve_def discovery_run_def
      split: sum.splits)

lemma tidy_ModelCleanupActor [simp]: "tidy_actor (ModelCleanupActor R t)"
  by (auto simp: tidy_actor_def ModelCleanupActor_def model_cleanup_retrieve_def model_cleanup_run_def
      split: sum.splits option.splits)

lemma tidy_RolloutCompletionActor [simp]: "tidy_actor (RolloutCompletionActor R)"
proof -
  have "gives (tidy d c) (say_true R (d\<lparr>om_annotations := a\<rparr>) (c\<lparr>c_metadata := m\<rparr>))" for d c a m
    by (auto simp: say_true_def GenerateTrueCondition_def GenerateTrueConditionWithMessage_def
        gives_def tidy_def)
  then show ?thesis by (auto simp: tidy_actor_def RolloutCompletionActor_def)
qed

lemma tidy_RollbackActor [simp]: "tidy_actor (RollbackActor R)"
  by (auto simp: tidy_actor_def RollbackActor_def rollback_retrieve_def rollback_run_def Let_def
      split: sum.splits option.splits)

lemma tidy_CleanupActor [simp]: "tidy_actor (CleanupActor R)"
  by (auto simp: tidy_actor_def CleanupActor_def cleanup_retrieve_def cleanup_run_def
      split: sum.splits option.splits)

lemma tidy_SteadyStateActor [simp]: "tidy_actor (SteadyStateActor R)"
  by (auto simp: tidy_actor_def SteadyStateActor_def)

text \<open>The plugins of tidy actors keep to their part of the object.\<close>

lemma frames_of_tidy: "\<forall>a \<in> set as. tidy_actor a \<Longrightarrow> frames (dep_plugin_of as)"
  unfolding frames_def tidy_actor_def dep_plugin_of_def
  by (auto simp: dep_put_def dest!: givesD intro: tidy_progressed)

lemma rollout_plugin_cases:
  assumes "NewRolloutPlugin R d = Inr p"
  obtains ts where "ReadTargetClustersAnnotation (de_targets R) d = Inr ts"
    "p = dep_plugin_of ([ValidationActor R, AssetPreparationActor R, PlacementPrepActor R] @
       (if targets_of (Inr ts) = [] then []
        else concat (map (\<lambda>t. [RollingRolloutActor R t, TrafficRoutingActor R t]) (targets_of (Inr ts))) @
             [DiscoveryRoutingActor R] @ map (ModelCleanupActor R) (targets_of (Inr ts))) @
       [RolloutCompletionActor R])"
  using assms
  by (auto simp: NewRolloutPlugin_def GetActorsForStrategy_def getRollingActors_def Let_def
      split: sum.splits if_splits)

lemma rollout_plugin_tidy:
  assumes "NewRolloutPlugin R d = Inr p"
  shows "\<exists>as. p = dep_plugin_of as \<and> (\<forall>a \<in> set as. tidy_actor a)"
  using assms
proof (rule rollout_plugin_cases)
  fix ts
  assume "p = dep_plugin_of ([ValidationActor R, AssetPreparationActor R, PlacementPrepActor R] @
       (if targets_of (Inr ts) = [] then []
        else concat (map (\<lambda>t. [RollingRolloutActor R t, TrafficRoutingActor R t]) (targets_of (Inr ts))) @
             [DiscoveryRoutingActor R] @ map (ModelCleanupActor R) (targets_of (Inr ts))) @
       [RolloutCompletionActor R])"
  then show ?thesis by (intro exI conjI, assumption) auto
qed

lemma frames_rollout_plugin: "NewRolloutPlugin R d = Inr p \<Longrightarrow> frames p"
  using rollout_plugin_tidy frames_of_tidy by blast

text \<open>The types of the actors tell the four plugins apart.\<close>

lemma actor_type_sel [simp]:
  "a_type (ValidationActor R) = ActorTypeValidation"
  "a_type (AssetPreparationActor R) = ActorTypeAssetPreparation"
  "a_type (PlacementPrepActor R) = ActorTypePlacementPrep"
  "a_type (RollingRolloutActor R t) = ActorTypeRollingRollout @ ''-'' @ ct_id t"
  "a_type (TrafficRoutingActor R t) = ActorTypeTrafficRouting @ ''-'' @ ct_id t"
  "a_type (DiscoveryRoutingActor R) = ActorTypeDiscoveryRouting"
  "a_type (ModelCleanupActor R t) = ActorTypeModelCleanup @ ''-'' @ ct_id t"
  "a_type (RolloutCompletionActor R) = ActorTypeRolloutComplete"
  "a_type (RollbackActor R) = ActorTypeRollback"
  "a_type (CleanupActor R) = ActorTypeCleanup"
  "a_type (SteadyStateActor R) = ActorTypeSteadyState"
  by (simp_all add: ValidationActor_def AssetPreparationActor_def PlacementPrepActor_def
      RollingRolloutActor_def TrafficRoutingActor_def DiscoveryRoutingActor_def ModelCleanupActor_def
      RolloutCompletionActor_def RollbackActor_def CleanupActor_def SteadyStateActor_def)

lemma p_actors_dep_plugin_of [simp]: "p_actors (dep_plugin_of as) = as"
  by (simp add: dep_plugin_of_def)

definition rollout_type :: "string \<Rightarrow> bool" where
  "rollout_type t \<longleftrightarrow> t \<noteq> ActorTypeCleanup \<and> t \<noteq> ActorTypeRollback \<and> t \<noteq> ActorTypeSteadyState"

lemma rollout_types:
  "rollout_type ActorTypeValidation" "rollout_type ActorTypeAssetPreparation"
  "rollout_type ActorTypePlacementPrep" "rollout_type ActorTypeDiscoveryRouting"
  "rollout_type ActorTypeRolloutComplete" "rollout_type (ActorTypeRollingRollout @ s)"
  "rollout_type (ActorTypeTrafficRouting @ s)" "rollout_type (ActorTypeModelCleanup @ s)"
  by (simp_all add: rollout_type_def actor_types)

lemma rollout_plugin_types:
  "NewRolloutPlugin R d = Inr p \<Longrightarrow> a \<in> set (p_actors p) \<Longrightarrow> rollout_type (a_type a)"
  by (erule rollout_plugin_cases) (auto simp: rollout_types split: if_splits)

lemma parse_conditions_stages:
  "\<forall>c \<in> set cs. rollout_type (c_type c) \<Longrightarrow>
     parse_conditions s cs \<in> {s, DS_VALIDATION, DS_PLACEMENT, DS_ROLLOUT_COMPLETE}"
  "\<forall>c \<in> set cs. c_type c = ActorTypeCleanup \<Longrightarrow>
     parse_conditions s cs \<in> {s, DS_CLEAN_UP_IN_PROGRESS, DS_CLEAN_UP_COMPLETE}"
  "\<forall>c \<in> set cs. c_type c = ActorTypeRollback \<Longrightarrow>
     parse_conditions s cs \<in> {s, DS_ROLLBACK_IN_PROGRESS, DS_ROLLBACK_COMPLETE}"
  "\<forall>c \<in> set cs. c_type c = ActorTypeSteadyState \<Longrightarrow> parse_conditions s cs = s"
  "IsCleanupCompleteStage (parse_conditions s cs) \<Longrightarrow>
     parse_conditions s cs = s \<or> (\<exists>c \<in> set cs. c_type c = ActorTypeCleanup)"
  by (induction cs) (auto simp: rollout_type_def isFromSteadyState_def stage_classes actor_types split: if_splits)

lemma GetState_sets_state: "run_state (GetState R d) h = (Inr d', h') \<Longrightarrow> \<exists>s. d' = set_dstate s d"
  by (auto simp: GetState_def split: if_splits option.splits sum.splits prod.splits)

interpretation oss: plugin_contract "oss_plugin R" for R
proof unfold_locales
  fix d0 p
  assume "dp_rollout (oss_plugin R) d0 = Inr p"
  then show "frames p" by (intro frames_rollout_plugin) (simp add: oss_plugin_def)
next
  show "frames (dp_rollback (oss_plugin R))" "frames (dp_cleanup (oss_plugin R))" "frames (dp_steady (oss_plugin R))"
    by (simp_all add: oss_plugin_def NewRollbackPlugin_def NewCleanupPlugin_def NewSteadyStatePlugin_def
        frames_of_tidy)
next
  fix d h d' h'
  assume "run_state (dp_get_state (oss_plugin R) d) h = (Inr d', h')"
  then show "\<exists>s. d' = set_dstate s d" by (intro GetState_sets_state) (simp add: oss_plugin_def)
next
  fix d
  show "\<exists>m. dp_populate_message (oss_plugin R) d = set_dmessage m d"
    by (auto simp: oss_plugin_def PopulateMessage_def set_dmessage_def intro: exI [of _ "dt_message (dp_status d)"])
next
  fix d
  assume "within (dp_cleanup (oss_plugin R)) d"
  then show "dp_parse_stage (oss_plugin R) d \<in> {stage_of d, DS_CLEAN_UP_IN_PROGRESS, DS_CLEAN_UP_COMPLETE}"
    using parse_conditions_stages(2) [of "dt_conditions (dp_status d)" "stage_of d"]
    by (auto simp: oss_plugin_def NewCleanupPlugin_def within_def ParseStage_def)
next
  fix d
  assume "within (dp_rollback (oss_plugin R)) d"
  then show "dp_parse_stage (oss_plugin R) d \<in> {stage_of d, DS_ROLLBACK_IN_PROGRESS, DS_ROLLBACK_COMPLETE}"
    using parse_conditions_stages(3) [of "dt_conditions (dp_status d)" "stage_of d"]
    by (auto simp: oss_plugin_def NewRollbackPlugin_def within_def ParseStage_def)
next
  fix d0 p d
  assume p: "dp_rollout (oss_plugin R) d0 = Inr p" "within p d"
  then have "\<forall>c \<in> set (dt_conditions (dp_status d)). rollout_type (c_type c)"
    using rollout_plugin_types [of R d0 p] by (auto simp: oss_plugin_def within_def)
  from parse_conditions_stages(1) [OF this, of "stage_of d"]
  show "dp_parse_stage (oss_plugin R) d \<in> {stage_of d, DS_VALIDATION, DS_PLACEMENT, DS_ROLLOUT_COMPLETE}"
    by (simp add: oss_plugin_def ParseStage_def)
next
  fix d
  assume "within (dp_steady (oss_plugin R)) d"
  then show "dp_parse_stage (oss_plugin R) d = stage_of d"
    using parse_conditions_stages(4) [of "dt_conditions (dp_status d)" "stage_of d"]
    by (auto simp: oss_plugin_def NewSteadyStatePlugin_def within_def ParseStage_def)
next
  fix d
  assume "IsCleanupCompleteStage (dp_parse_stage (oss_plugin R) d)"
  then show "dp_parse_stage (oss_plugin R) d = stage_of d \<or>
      (\<exists>c \<in> set (dt_conditions (dp_status d)). c_type c \<in> a_type ` set (p_actors (dp_cleanup (oss_plugin R))))"
    using parse_conditions_stages(5) [of "stage_of d" "dt_conditions (dp_status d)"]
    by (auto simp: oss_plugin_def NewCleanupPlugin_def ParseStage_def)
qed

end
