(* ===== verification/Deployment_Properties.thy ===== *)
theory Deployment_Properties
  imports Deployment
begin

text \<open>
  Properties of the deployment controller with the open-source plugin: what a pass can make of the
  stage, the revisions and the finalizer, when traffic may move to a model, what a completed rollout
  has shown, and how a failed cleanup of a deployment without a desired revision ends.
\<close>

section \<open>What an actor has shown\<close>

text \<open>
  The model of the desired revision was seen loaded in a cluster, in this pass or in an earlier one
  that left the flag on the condition. Clusters are told apart by their identifier, as the actors'
  conditions are.
\<close>

definition rolling_type :: "string \<Rightarrow> string" where
  "rolling_type i = ActorTypeRollingRollout @ ''-'' @ i"

definition saw_loaded :: "deployment \<Rightarrow> devent list \<Rightarrow> string \<Rightarrow> bool" where
  "saw_loaded d h i \<longleftrightarrow>
     (\<exists>c \<in> set (dt_conditions (dp_status d)). c_type c = rolling_type i \<and> ReadModelLoadedFlag c) \<or>
     (\<exists>t. ct_id t = i \<and>
        DE_Model t (server_of d) (om_namespace d) (name_of (desired_of d)) (Inr True) \<in> set h)"

lemma saw_loaded_mono: "saw_loaded d h i \<Longrightarrow> set h \<subseteq> set h' \<Longrightarrow> saw_loaded d h' i"
  by (auto simp: saw_loaded_def)

text \<open>Every flag the conditions carry has been earned.\<close>

definition flags_earned :: "deployment \<Rightarrow> deployment \<Rightarrow> devent list \<Rightarrow> bool" where
  "flags_earned d0 d h \<longleftrightarrow>
     (\<forall>c \<in> set (dt_conditions (dp_status d)). \<forall>i. c_type c = rolling_type i \<longrightarrow> ReadModelLoadedFlag c \<longrightarrow>
        saw_loaded d0 h i)"

lemma flags_earned_start: "flags_earned d d h"
  by (auto simp: flags_earned_def saw_loaded_def)

lemma flags_earned_mono: "flags_earned d0 d h \<Longrightarrow> set h \<subseteq> set h' \<Longrightarrow> flags_earned d0 d h'"
  using saw_loaded_mono by (fastforce simp: flags_earned_def)

lemma flags_earned_put:
  assumes "flags_earned d0 d h" "\<And>i. c_type c = rolling_type i \<Longrightarrow> ReadModelLoadedFlag c \<Longrightarrow> saw_loaded d0 h i"
  shows "flags_earned d0 (dep_put d c) h"
  using assms put_condition_set [of c "dt_conditions (dp_status d)"]
  by (auto simp: flags_earned_def dep_put_def set_dconditions_def)

lemma flags_earned_annotated [simp]: "flags_earned d0 (d\<lparr>om_annotations := a\<rparr>) h = flags_earned d0 d h"
  by (simp add: flags_earned_def)

section \<open>What the actors do to the routes\<close>

definition traffic_update :: "cluster_target \<Rightarrow> devent \<Rightarrow> bool" where
  "traffic_update t e \<longleftrightarrow> (\<exists>ns obj x. e = DE_Route (InCluster t) (RouteUpdate ns obj x))"

definition no_traffic :: "devent \<Rightarrow> bool" where
  "no_traffic e \<longleftrightarrow> (\<forall>t. \<not> traffic_update t e)"

lemma no_traffic_events [simp]:
  "no_traffic (DE_Client k t x)" "no_traffic (DE_Model t s ns m y)" "no_traffic (DE_Cm c cmc)"
  "no_traffic (DE_Server ns n z)" "no_traffic (DE_Healthy ns n v)" "no_traffic DE_Panic"
  "no_traffic (DE_Route c (RouteGet ns n u))" "no_traffic (DE_Route ControlPlane r)"
  "no_traffic (DE_Update d w)"
  by (simp_all add: no_traffic_def traffic_update_def)

declare emits_bind [intro!]

lemma emits_say [intro!]:
  "emits P (say_true R d c)" "emits P (say_false R d c m r)" "emits P (say_unknown R d c m r)"
  unfolding say_true_def say_false_def say_unknown_def by (intro emits_bind emits_peek emits_return)+

lemma emits_panics [intro!]: "emits no_traffic (panics d)"
  unfolding panics_def by (intro emits_bind emits_emit emits_return) simp

lemma emits_calls [intro!]:
  "emits no_traffic (get_client R k t)"
  "emits no_traffic (CheckModelStatus R t s ns m)"
  "emits no_traffic (FetchInferenceServer R d)"
  by (auto simp: get_client_def CheckModelStatus_def FetchInferenceServer_def split: option.splits)

lemma emits_kube [intro!]:
  "(\<And>k. P (emb k)) \<Longrightarrow> emits P (kc_get (kube_of emb A) ns name)"
  "(\<And>k. P (emb k)) \<Longrightarrow> emits P (kc_update (kube_of emb A) ns c)"
  by (auto simp: emits_def)

lemma emits_models [intro!]:
  "emits no_traffic (CheckModelExists C (kube_client_of R cl) m s ns)"
  "emits no_traffic (AddModelToConfig C (kube_client_of R cl) s ns e)"
  "emits no_traffic (RemoveModelFromConfig C (kube_client_of R cl) s ns m)"
  unfolding CheckModelExists_def GetModelsFromConfig_def AddModelToConfig_def RemoveModelFromConfig_def
    updateConfigMapWithModels_def kube_client_of_def
  by (auto split: sum.splits)

lemma emits_lookup: "(\<And>ns n x. P (emb (RouteGet ns n x))) \<Longrightarrow> emits P (RuleExists L (client_of emb A) n ns q)"
  unfolding RuleExists_def by (intro emits_bind emits_return) (simp add: emits_def)

lemma emits_RuleExists [intro!]: "emits no_traffic (RuleExists L (dynamic_of R c) n ns q)"
  unfolding dynamic_of_def by (rule emits_lookup) simp

text \<open>A retried change of routes only talks to its own client.\<close>

lemma emits_try_up_to: "emits P m \<Longrightarrow> emits P (try_up_to n m)"
  by (induction n) (auto split: sum.splits)

lemma emits_rules:
  assumes "retries_on_conflict rt" "\<And>k. P (emb k)"
  shows "emits P (AddRules L rt (client_of emb A) n ns rs)" "emits P (RemoveRules L rt (client_of emb A) n ns ps)"
proof -
  have get: "emits P (rc_get (client_of emb A) ns n)" and update: "emits P (rc_update (client_of emb A) ns obj)"
    for obj using assms(2) by (simp_all add: emits_def)
  have "emits P (write_rules L (client_of emb A) ns obj old new)" for obj old new
    using update by (auto simp: write_rules_def split: outcome.splits bool.splits sum.splits)
  with get have body: "emits P (rc_get (client_of emb A) ns n \<bind> case_sum (\<lambda>e. State_Monad.return (f e))
      (\<lambda>obj. write_rules L (client_of emb A) ns obj (g obj) (k obj)))" for f g k
    by (auto split: sum.splits)
  obtain m where rt: "rt x = try_up_to m x" for x using assms(1) by (auto simp: retries_on_conflict_def)
  show "emits P (AddRules L rt (client_of emb A) n ns rs)" "emits P (RemoveRules L rt (client_of emb A) n ns ps)"
    unfolding AddRules_def RemoveRules_def rt Let_def by (intro emits_try_up_to body)+
qed

lemma emits_after_routes [intro!]:
  "emits no_traffic go \<Longrightarrow> emits no_traffic (after_routes R d c m r outcome go)"
  using emits_panics emits_say by (simp add: after_routes_def split: sum.split stop.split)

lemma emits_with_backend [intro!]: "emits no_traffic go \<Longrightarrow> emits no_traffic (with_backend R t d c go)"
  unfolding with_backend_def by (auto split: option.splits)

definition quiet_actor :: "(devent list, deployment) actor \<Rightarrow> bool" where
  "quiet_actor a \<longleftrightarrow> (\<forall>d c. emits no_traffic (a_retrieve a d c) \<and> emits no_traffic (a_run a d c))"

lemma quiet_ValidationActor: "quiet_actor (ValidationActor R)"
  by (auto simp: quiet_actor_def ValidationActor_def split: option.splits)

lemma quiet_AssetPreparationActor: "quiet_actor (AssetPreparationActor R)"
  by (auto simp: quiet_actor_def AssetPreparationActor_def)

lemma quiet_PlacementPrepActor: "quiet_actor (PlacementPrepActor R)"
  by (auto simp: quiet_actor_def PlacementPrepActor_def placement_retrieve_def placement_run_def Let_def
      split: sum.splits option.splits)

lemma quiet_RollingRolloutActor: "quiet_actor (RollingRolloutActor R t)"
  by (auto simp: quiet_actor_def RollingRolloutActor_def rolling_retrieve_def rolling_run_def Let_def
      split: sum.splits option.splits)

lemma quiet_DiscoveryRoutingActor:
  "retries_on_conflict (de_retry R) \<Longrightarrow> quiet_actor (DiscoveryRoutingActor R)"
  by (auto simp: quiet_actor_def DiscoveryRoutingActor_def discovery_retrieve_def discovery_run_def
      dynamic_of_def [of R ControlPlane] intro!: emits_rules emits_lookup split: sum.splits)

lemma quiet_ModelCleanupActor: "quiet_actor (ModelCleanupActor R t)"
  by (auto simp: quiet_actor_def ModelCleanupActor_def model_cleanup_retrieve_def model_cleanup_run_def
      split: sum.splits option.splits)

lemma quiet_RolloutCompletionActor: "quiet_actor (RolloutCompletionActor R)"
  by (auto simp: quiet_actor_def RolloutCompletionActor_def)

lemma quiet_RollbackActor: "quiet_actor (RollbackActor R)"
  by (auto simp: quiet_actor_def RollbackActor_def rollback_retrieve_def rollback_run_def Let_def
      split: sum.splits option.splits)

lemma quiet_SteadyStateActor: "quiet_actor (SteadyStateActor R)"
  by (auto simp: quiet_actor_def SteadyStateActor_def)

lemma traffic_retrieve_quiet: "emits no_traffic (a_retrieve (TrafficRoutingActor R t) d c)"
  by (auto simp: TrafficRoutingActor_def traffic_retrieve_def split: sum.splits option.splits)

text \<open>The routing actor of a cluster writes the routes of that cluster only.\<close>

lemma traffic_run_own:
  assumes "retries_on_conflict (de_retry R)"
  shows "emits (\<lambda>e. \<forall>u. traffic_update u e \<longrightarrow> u = t) (a_run (TrafficRoutingActor R t) d c)"
proof -
  let ?P = "\<lambda>e. \<forall>u. traffic_update u e \<longrightarrow> u = t"
  have q: "no_traffic e \<Longrightarrow> ?P e" for e by (simp add: no_traffic_def)
  have "emits ?P (get_client R DynamicClient t)"
    using emits_mono [OF emits_calls(1) q] .
  moreover have "emits ?P (AddRules (de_unstr R) (de_retry R) (dynamic_of R (InCluster t)) n ns rs)" for n ns rs
    unfolding dynamic_of_def using assms by (intro emits_rules) (auto simp: traffic_update_def)
  moreover have "emits ?P (after_routes R d c m r outcome (say_true R d c))" for m r outcome
    using emits_mono [OF emits_after_routes [OF emits_say(1)] q] .
  ultimately show ?thesis
    by (auto simp: TrafficRoutingActor_def traffic_run_def split: option.splits)
qed

section \<open>Traffic moves only to loaded models\<close>

text \<open>
  The actors of a rollout in the order the plugin lists them: the routing of a cluster comes after
  the rollout of that cluster, and no other actor writes the routes of a cluster.
\<close>

inductive chain :: "dep_env \<Rightarrow> string set \<Rightarrow> (devent list, deployment) actor list \<Rightarrow> bool" for R where
  chain_nil: "chain R T []"
| chain_rolling: "chain R (insert (ct_id t) T) as \<Longrightarrow> chain R T (RollingRolloutActor R t # as)"
| chain_traffic: "ct_id t \<in> T \<Longrightarrow> chain R T as \<Longrightarrow> chain R T (TrafficRoutingActor R t # as)"
| chain_other: "quiet_actor a \<Longrightarrow> \<forall>i. a_type a \<noteq> rolling_type i \<Longrightarrow> chain R T as \<Longrightarrow> chain R T (a # as)"

lemma types_not_rolling [simp]:
  "ActorTypeValidation \<noteq> rolling_type i" "ActorTypeAssetPreparation \<noteq> rolling_type i"
  "ActorTypePlacementPrep \<noteq> rolling_type i" "ActorTypeDiscoveryRouting \<noteq> rolling_type i"
  "ActorTypeModelCleanup @ s \<noteq> rolling_type i" "ActorTypeRolloutComplete \<noteq> rolling_type i"
  "ActorTypeTrafficRouting @ s \<noteq> rolling_type i"
  by (simp_all add: rolling_type_def actor_types)

lemma chain_append: "chain R T as \<Longrightarrow> chain R {} bs \<Longrightarrow> chain R T (as @ bs)"
proof (induction rule: chain.induct)
  case (chain_nil T)
  have "chain R T bs" if "chain R S bs" "S \<subseteq> T" for S T using that
    by (induction arbitrary: T rule: chain.induct) (auto intro!: chain.intros)
  with chain_nil show ?case by auto
qed (auto intro: chain.intros)

lemma chain_quiet:
  "\<forall>a \<in> set as. quiet_actor a \<and> (\<forall>i. a_type a \<noteq> rolling_type i) \<Longrightarrow> chain R T as"
  by (induction as) (auto intro: chain.intros)

lemma chain_rollout_plugin:
  assumes "retries_on_conflict (de_retry R)" "NewRolloutPlugin R d = Inr p"
  shows "chain R {} (p_actors p)"
  using assms(2)
proof (rule rollout_plugin_cases)
  fix ts
  assume p: "p = dep_plugin_of ([ValidationActor R, AssetPreparationActor R, PlacementPrepActor R] @
       (if targets_of (Inr ts) = [] then []
        else concat (map (\<lambda>t. [RollingRolloutActor R t, TrafficRoutingActor R t]) (targets_of (Inr ts))) @
             [DiscoveryRoutingActor R] @ map (ModelCleanupActor R) (targets_of (Inr ts))) @
       [RolloutCompletionActor R])"
  have pairs: "chain R {} (concat (map (\<lambda>t. [RollingRolloutActor R t, TrafficRoutingActor R t]) us))" for us
  proof (induction us)
    case (Cons u us)
    have "chain R {} [RollingRolloutActor R u, TrafficRoutingActor R u]" by (intro chain.intros) simp_all
    from chain_append [OF this Cons.IH] show ?case by simp
  qed (simp add: chain_nil)
  have first: "chain R {} [ValidationActor R, AssetPreparationActor R, PlacementPrepActor R]"
    and last: "chain R {} [RolloutCompletionActor R]"
    by (intro chain_quiet; simp add: quiet_ValidationActor quiet_AssetPreparationActor quiet_PlacementPrepActor
        quiet_RolloutCompletionActor)+
  have "chain R {} ([DiscoveryRoutingActor R] @ map (ModelCleanupActor R) (targets_of (Inr ts)))"
    using assms(1) by (intro chain_quiet) (auto simp: quiet_DiscoveryRoutingActor quiet_ModelCleanupActor)
  with pairs have middle: "chain R {} (if targets_of (Inr ts) = [] then []
        else concat (map (\<lambda>t. [RollingRolloutActor R t, TrafficRoutingActor R t]) (targets_of (Inr ts))) @
             [DiscoveryRoutingActor R] @ map (ModelCleanupActor R) (targets_of (Inr ts)))"
    by (auto intro: chain_append chain_nil)
  show ?thesis
    unfolding p p_actors_dep_plugin_of by (intro chain_append first middle last)
qed

text \<open>What the rollout of a cluster has shown when it answers.\<close>

lemma run_state_say [simp]:
  "run_state (say_true R d c) h = ((Inr (GenerateTrueCondition (de_now R h) c), d), h)"
  "run_state (say_false R d c m r) h = ((Inr (GenerateFalseCondition (de_now R h) c m r), d), h)"
  "run_state (say_unknown R d c m r) h = ((Inr (GenerateUnknownCondition (de_now R h) c m r), d), h)"
  by (simp_all add: say_true_def say_false_def say_unknown_def)

lemma run_state_calls [simp]:
  "run_state (get_client R k t) h = (de_client R h k t, h @ [DE_Client k t (de_client R h k t)])"
  "run_state (CheckModelStatus R t s ns m) h = (de_model R h t s ns m, h @ [DE_Model t s ns m (de_model R h t s ns m)])"
  by (simp_all add: get_client_def CheckModelStatus_def)

lemma flag_generated [simp]:
  "ReadModelLoadedFlag (GenerateTrueCondition now c) = ReadModelLoadedFlag c"
  "ReadModelLoadedFlag (GenerateFalseCondition now c m r) = ReadModelLoadedFlag c"
  "ReadModelLoadedFlag (GenerateUnknownCondition now c m r) = ReadModelLoadedFlag c"
  by (simp_all add: ReadModelLoadedFlag_def GenerateTrueCondition_def GenerateTrueConditionWithMessage_def
      GenerateFalseCondition_def GenerateUnknownCondition_def generateCondition_def Let_def)

lemma rolling_answer:
  assumes "run_state (a_retrieve (RollingRolloutActor R t) d c) h = ((Inr c', d'), h')"
    and "c_status c' = CS_TRUE \<or> ReadModelLoadedFlag c'"
  shows "ReadModelLoadedFlag c \<or>
    DE_Model t (server_of d) (om_namespace d) (name_of (desired_of d)) (Inr True) \<in> set h'"
  using assms
  by (auto simp: RollingRolloutActor_def rolling_retrieve_def with_backend_def
      split: if_splits option.splits sum.splits)

lemma rolling_run_flag:
  assumes "run_state (a_run (RollingRolloutActor R t) d c) h = ((Inr c', d'), h')"
  shows "ReadModelLoadedFlag c' = ReadModelLoadedFlag c"
  using assms
  by (auto simp: RollingRolloutActor_def rolling_run_def Let_def split: option.splits prod.splits)

text \<open>Once an action has run the rest of the list is only looked at.\<close>

lemma chain_retrieves: "chain R T as \<Longrightarrow> a \<in> set as \<Longrightarrow> emits no_traffic (a_retrieve a d c)"
  by (induction rule: chain.induct)
    (use quiet_RollingRolloutActor traffic_retrieve_quiet in \<open>auto simp: quiet_actor_def\<close>)

lemma retrieves_quiet:
  "\<forall>a \<in> set as. \<forall>d c. emits no_traffic (a_retrieve a d c) \<Longrightarrow> emits no_traffic (runActors p as True c d)"
proof (induction as arbitrary: c d)
  case (Cons a as)
  show ?case
    unfolding runActors.simps
  proof (intro emits_bind)
    show "emits no_traffic (a_retrieve a d (previousCondition p a d))" using Cons.prems by simp
    fix x
    show "emits no_traffic (case x of (Inl err, r1) \<Rightarrow> State_Monad.return (Inl err, r1)
        | (Inr ca, r1) \<Rightarrow>
            if c_status ca \<noteq> CS_TRUE \<and> \<not> True then a_run a r1 ca \<bind>
              (\<lambda>x. case x of (Inl err, r2) \<Rightarrow> State_Monad.return (Inl err, r2)
                | (Inr c', r2) \<Rightarrow> runActors p as True (Some c') (p_put_condition p r2 c'))
            else runActors p as True c (p_put_condition p r1 ca))"
      using Cons by (auto split: prod.splits sum.splits)
  qed
qed simp

definition loaded_first :: "deployment \<Rightarrow> devent list \<Rightarrow> devent \<Rightarrow> bool" where
  "loaded_first d0 h e \<longleftrightarrow> (\<forall>t. traffic_update t e \<longrightarrow> saw_loaded d0 h (ct_id t))"

lemma quiet_obeys: "list_all no_traffic tr \<Longrightarrow> obeys (loaded_first d0) h tr"
  by (induction tr arbitrary: h) (auto simp: no_traffic_def loaded_first_def)

lemma own_obeys:
  "list_all (\<lambda>e. \<forall>u. traffic_update u e \<longrightarrow> u = t) tr \<Longrightarrow> saw_loaded d0 h (ct_id t) \<Longrightarrow>
   obeys (loaded_first d0) h tr"
proof (induction tr arbitrary: h)
  case (Cons e tr)
  have "saw_loaded d0 (h @ [e]) (ct_id t)" by (rule saw_loaded_mono [OF Cons.prems(2)]) auto
  with Cons show ?case by (auto simp: loaded_first_def)
qed simp

lemma previous_flag:
  assumes "flags_earned d0 d h" "ReadModelLoadedFlag (previousCondition (dep_plugin_of as) a d)"
    and "a_type a = rolling_type i"
  shows "saw_loaded d0 h i"
proof -
  have "\<not> ReadModelLoadedFlag (mk_condition (a_type a) CS_UNKNOWN)" by (simp add: ReadModelLoadedFlag_def)
  with assms(2) obtain c where "GetCondition (a_type a) (dt_conditions (dp_status d)) = Some c" "ReadModelLoadedFlag c"
    by (auto simp: previousCondition_def dep_plugin_of_def split: option.splits)
  with assms(1,3) show ?thesis by (auto simp: flags_earned_def dest: GetCondition_type)
qed

lemma p_put_dep_plugin_of [simp]: "p_put_condition (dep_plugin_of as) = dep_put"
  by (simp add: dep_plugin_of_def)

lemma step_obeys:
  assumes ret: "\<And>d c. emits no_traffic (a_retrieve a d c)"
    and rest: "\<forall>b \<in> set as. \<forall>d c. emits no_traffic (a_retrieve b d c)"
    and act: "\<And>r e g y g'. run_state (a_run a r e) g = (y, g') \<Longrightarrow> set h \<subseteq> set g \<Longrightarrow>
      \<exists>tr. g' = g @ tr \<and> obeys (loaded_first d0) g tr"
    and cont: "\<And>e r1 w1. run_state (a_retrieve a d (previousCondition (dep_plugin_of all) a d)) h = ((Inr e, r1), w1) \<Longrightarrow>
      c_status e = CS_TRUE \<Longrightarrow> set h \<subseteq> set w1 \<Longrightarrow>
      run_state (runActors (dep_plugin_of all) as False c (dep_put r1 e)) w1 = (x, h') \<Longrightarrow>
      \<exists>tr. h' = w1 @ tr \<and> obeys (loaded_first d0) w1 tr"
    and run: "run_state (runActors (dep_plugin_of all) (a # as) False c d) h = (x, h')"
  shows "\<exists>tr. h' = h @ tr \<and> obeys (loaded_first d0) h tr"
  using run
proof (cases rule: runActors_ConsE)
  case (retrieve_error e r1)
  from emitsE [OF ret retrieve_error(1)] quiet_obeys show ?thesis by metis
next
  case (skipped e r1 w1)
  from emitsE [OF ret skipped(1)] obtain t1 where t1: "w1 = h @ t1" "list_all no_traffic t1" .
  with cont [OF skipped(1)] skipped(2,3) obtain t2 where "h' = w1 @ t2" "obeys (loaded_first d0) w1 t2" by auto
  with t1 quiet_obeys [OF t1(2)] show ?thesis by (intro exI [of _ "t1 @ t2"]) simp
next
  case (run_error e r1 w1 e' r2)
  from emitsE [OF ret run_error(1)] obtain t1 where t1: "w1 = h @ t1" "list_all no_traffic t1" .
  with act [OF run_error(4)] obtain t2 where "h' = w1 @ t2" "obeys (loaded_first d0) w1 t2" by auto
  with t1 quiet_obeys [OF t1(2)] show ?thesis by (intro exI [of _ "t1 @ t2"]) simp
next
  case (ran e r1 w1 e' r2 w2)
  from emitsE [OF ret ran(1)] obtain t1 where t1: "w1 = h @ t1" "list_all no_traffic t1" .
  with act [OF ran(4)] obtain t2 where t2: "w2 = w1 @ t2" "obeys (loaded_first d0) w1 t2" by auto
  from emitsE [OF retrieves_quiet [OF rest] ran(5)] obtain t3 where "h' = w2 @ t3" "list_all no_traffic t3" .
  with t1 t2 quiet_obeys [OF t1(2)] quiet_obeys show ?thesis by (intro exI [of _ "t1 @ t2 @ t3"]) auto
qed

lemma tidy_retrieved:
  assumes "tidy_actor a" "run_state (a_retrieve a d c) h = ((Inr e, r1), w1)"
  obtains n where "r1 = d\<lparr>om_annotations := n\<rparr>" "c_type e = c_type c"
proof -
  from assms have "tidy d c (Inr e, r1)" by (auto simp: tidy_actor_def dest: givesD)
  then show thesis by (auto simp: tidy_def intro: that)
qed

lemma progressed_put:
  assumes "progressed d0 d"
  shows "progressed d0 (dep_put (d\<lparr>om_annotations := n\<rparr>) e)"
proof -
  have "progressed d (d\<lparr>om_annotations := n\<rparr>)"
    unfolding progressed_def by (intro exI [of _ n] exI [of _ "dt_conditions (dp_status d)"]) simp
  moreover have "progressed (d\<lparr>om_annotations := n\<rparr>) (dep_put (d\<lparr>om_annotations := n\<rparr>) e)"
    by (simp add: dep_put_def)
  ultimately show ?thesis using assms by (blast intro: progressed_trans)
qed

lemma chain_obeys:
  assumes retry: "retries_on_conflict (de_retry R)"
  shows "chain R T as \<Longrightarrow> \<forall>a \<in> set as. tidy_actor a \<Longrightarrow> progressed d0 d \<Longrightarrow> flags_earned d0 d h \<Longrightarrow>
    \<forall>i \<in> T. saw_loaded d0 h i \<Longrightarrow> run_state (runActors (dep_plugin_of all) as False c d) h = (x, h') \<Longrightarrow>
    \<exists>tr. h' = h @ tr \<and> obeys (loaded_first d0) h tr"
proof (induction arbitrary: d h c rule: chain.induct)
  case (chain_nil T)
  then show ?case by (intro exI [of _ "[]"]) simp
next
  case (chain_rolling t T as)
  have rest: "\<forall>b \<in> set as. \<forall>d c. emits no_traffic (a_retrieve b d c)"
    using chain_retrieves [OF chain_rolling.hyps] by blast
  show ?case
  proof (rule step_obeys [OF _ rest _ _ chain_rolling.prems(5)])
    show "emits no_traffic (a_retrieve (RollingRolloutActor R t) d c)" for d c
      using quiet_RollingRolloutActor by (simp add: quiet_actor_def)
  next
    fix r e g y g'
    assume "run_state (a_run (RollingRolloutActor R t) r e) g = (y, g')"
    moreover have "emits no_traffic (a_run (RollingRolloutActor R t) r e)"
      using quiet_RollingRolloutActor by (simp add: quiet_actor_def)
    ultimately show "\<exists>tr. g' = g @ tr \<and> obeys (loaded_first d0) g tr" using quiet_obeys by (metis emitsE)
  next
    fix e r1 w1
    let ?c = "previousCondition (dep_plugin_of all) (RollingRolloutActor R t) d"
    assume ret: "run_state (a_retrieve (RollingRolloutActor R t) d ?c) h = ((Inr e, r1), w1)"
      and true: "c_status e = CS_TRUE" and h: "set h \<subseteq> set w1"
      and go: "run_state (runActors (dep_plugin_of all) as False c (dep_put r1 e)) w1 = (x, h')"
    from tidy_retrieved [OF tidy_RollingRolloutActor ret] obtain n where
      r1: "r1 = d\<lparr>om_annotations := n\<rparr>" and e: "c_type e = rolling_type (ct_id t)"
      by (auto simp: rolling_type_def)
    have loaded: "saw_loaded d0 w1 (ct_id t)"
      using rolling_answer [OF ret disjI1 [OF true]]
    proof
      assume "ReadModelLoadedFlag ?c"
      with previous_flag [OF chain_rolling.prems(3) this] show ?thesis
        using saw_loaded_mono [OF _ h] by (simp add: rolling_type_def)
    next
      assume "DE_Model t (server_of d) (om_namespace d) (name_of (desired_of d)) (Inr True) \<in> set w1"
      then show ?thesis
        using progressed_sel [OF chain_rolling.prems(2)] unfolding saw_loaded_def by auto
    qed
    have "progressed d0 (dep_put r1 e)"
      using chain_rolling.prems(2) by (simp add: r1 progressed_put)
    moreover have "flags_earned d0 (dep_put r1 e) w1"
      using flags_earned_mono [OF chain_rolling.prems(3) h] loaded e
      by (intro flags_earned_put) (auto simp: r1 rolling_type_def)
    moreover have "\<forall>i \<in> insert (ct_id t) T. saw_loaded d0 w1 i"
      using loaded chain_rolling.prems(4) saw_loaded_mono [OF _ h] by auto
    ultimately show "\<exists>tr. h' = w1 @ tr \<and> obeys (loaded_first d0) w1 tr"
      using chain_rolling.IH chain_rolling.prems(1) go by simp
  qed
next
  case (chain_traffic t T as)
  have rest: "\<forall>b \<in> set as. \<forall>d c. emits no_traffic (a_retrieve b d c)"
    using chain_retrieves [OF chain_traffic.hyps(2)] by blast
  show ?case
  proof (rule step_obeys [OF traffic_retrieve_quiet rest _ _ chain_traffic.prems(5)])
    fix r e g y g'
    assume run: "run_state (a_run (TrafficRoutingActor R t) r e) g = (y, g')" and h: "set h \<subseteq> set g"
    from emitsE [OF traffic_run_own [OF retry] run] obtain tr where
      "g' = g @ tr" "list_all (\<lambda>e. \<forall>u. traffic_update u e \<longrightarrow> u = t) tr" .
    moreover have "saw_loaded d0 g (ct_id t)"
      using chain_traffic.prems(4) chain_traffic.hyps(1) saw_loaded_mono [OF _ h] by blast
    ultimately show "\<exists>tr. g' = g @ tr \<and> obeys (loaded_first d0) g tr" using own_obeys by blast
  next
    fix e r1 w1
    assume ret: "run_state (a_retrieve (TrafficRoutingActor R t) d
        (previousCondition (dep_plugin_of all) (TrafficRoutingActor R t) d)) h = ((Inr e, r1), w1)"
      and h: "set h \<subseteq> set w1"
      and go: "run_state (runActors (dep_plugin_of all) as False c (dep_put r1 e)) w1 = (x, h')"
    from tidy_retrieved [OF tidy_TrafficRoutingActor ret] obtain n where
      r1: "r1 = d\<lparr>om_annotations := n\<rparr>" and e: "c_type e = ActorTypeTrafficRouting @ ''-'' @ ct_id t"
      by auto
    have "progressed d0 (dep_put r1 e)"
      using chain_traffic.prems(2) by (simp add: r1 progressed_put)
    moreover have "flags_earned d0 (dep_put r1 e) w1"
      using flags_earned_mono [OF chain_traffic.prems(3) h] e
      by (intro flags_earned_put) (auto simp: r1 rolling_type_def actor_types)
    moreover have "\<forall>i \<in> T. saw_loaded d0 w1 i"
      using chain_traffic.prems(4) saw_loaded_mono [OF _ h] by auto
    ultimately show "\<exists>tr. h' = w1 @ tr \<and> obeys (loaded_first d0) w1 tr"
      using chain_traffic.IH chain_traffic.prems(1) go by simp
  qed
next
  case (chain_other a T as)
  have rest: "\<forall>b \<in> set as. \<forall>d c. emits no_traffic (a_retrieve b d c)"
    using chain_retrieves [OF chain_other.hyps(3)] by blast
  have tidy: "tidy_actor a" using chain_other.prems(1) by simp
  show ?case
  proof (rule step_obeys [OF _ rest _ _ chain_other.prems(5)])
    show "emits no_traffic (a_retrieve a d c)" for d c using chain_other.hyps(1) by (simp add: quiet_actor_def)
  next
    fix r e g y g'
    assume "run_state (a_run a r e) g = (y, g')"
    moreover have "emits no_traffic (a_run a r e)" using chain_other.hyps(1) by (simp add: quiet_actor_def)
    ultimately show "\<exists>tr. g' = g @ tr \<and> obeys (loaded_first d0) g tr" using quiet_obeys by (metis emitsE)
  next
    fix e r1 w1
    assume ret: "run_state (a_retrieve a d (previousCondition (dep_plugin_of all) a d)) h = ((Inr e, r1), w1)"
      and h: "set h \<subseteq> set w1"
      and go: "run_state (runActors (dep_plugin_of all) as False c (dep_put r1 e)) w1 = (x, h')"
    from tidy_retrieved [OF tidy ret] obtain n where r1: "r1 = d\<lparr>om_annotations := n\<rparr>" and e: "c_type e = a_type a"
      by auto
    have "progressed d0 (dep_put r1 e)"
      using chain_other.prems(2) by (simp add: r1 progressed_put)
    moreover have "flags_earned d0 (dep_put r1 e) w1"
      using flags_earned_mono [OF chain_other.prems(3) h]
    proof (intro flags_earned_put)
      show "saw_loaded d0 w1 i" if "c_type e = rolling_type i" for i
        using that e chain_other.hyps(2) by metis
    qed (simp add: r1)
    moreover have "\<forall>i \<in> T. saw_loaded d0 w1 i"
      using chain_other.prems(4) saw_loaded_mono [OF _ h] by auto
    ultimately show "\<exists>tr. h' = w1 @ tr \<and> obeys (loaded_first d0) w1 tr"
      using chain_other.IH chain_other.prems(1) go by simp
  qed
qed

subsection \<open>The whole pass\<close>

lemma quiet_engine:
  assumes "\<forall>a \<in> set as. quiet_actor a"
  shows "emits no_traffic (run_engine (dep_plugin_of as) d)"
proof -
  have "set bs \<subseteq> set as \<Longrightarrow> emits no_traffic (runActors (dep_plugin_of as) bs b c d)" for bs b c d
  proof (induction bs arbitrary: b c d)
    case (Cons a bs)
    then have "quiet_actor a" using assms by auto
    with Cons show ?case by (auto simp: quiet_actor_def split: prod.splits sum.splits)
  qed simp
  then show ?thesis
    unfolding run_engine_def engineRun_def runPlugin_def by (auto split: prod.splits)
qed

lemma rollout_engine_obeys:
  assumes "retries_on_conflict (de_retry R)" "NewRolloutPlugin R d = Inr p"
    and "run_state (run_engine p d) h = (x, h')"
  shows "\<exists>tr. h' = h @ tr \<and> obeys (loaded_first d) h tr"
proof -
  from rollout_plugin_tidy [OF assms(2)] obtain as where
    p: "p = dep_plugin_of as" "\<forall>a \<in> set as. tidy_actor a" by blast
  with chain_rollout_plugin [OF assms(1,2)] have "chain R {} as" by simp
  moreover from assms(3) obtain y where "run_state (runActors p as False None d) h = (y, h')"
    by (auto simp: run_engine_def runPlugin_def run_state_engineRun p split: prod.splits if_splits)
  ultimately show ?thesis
    using chain_obeys [OF assms(1) _ p(2) progressed_refl flags_earned_start] p by blast
qed

lemma quiet_finalizer: "emits no_traffic (add_finalizer R d)"
  by (auto simp: add_finalizer_def do_dep_update_def)

lemma quiet_health_gate: "emits no_traffic (dp_health_gate (oss_plugin R) d)"
  by (auto simp: oss_plugin_def HealthCheckGate_def split: option.splits)

lemma quiet_after_plugin: "emits no_traffic (after_plugin R (oss_plugin R) s got)"
proof -
  have clusters: "emits no_traffic (check_clusters R s n m ts un)" for s n m ts un
    by (induction ts arbitrary: un) (auto split: option.splits sum.splits)
  have "emits no_traffic (GetState R d')" for d'
    unfolding GetState_def CheckModelStatusAllClusters_def using clusters
    by (auto split: option.splits sum.splits)
  then show ?thesis
    unfolding after_plugin_def finish_pass_def
    by (auto simp: oss_plugin_def split: outcome.splits prod.splits)
qed

lemma saw_loaded_same:
  assumes "dt_conditions (dp_status d') = dt_conditions (dp_status d)" "dp_spec d' = dp_spec d"
    and "om_namespace d' = om_namespace d"
  shows "loaded_first d' = loaded_first d"
  using assms by (simp add: fun_eq_iff loaded_first_def saw_loaded_def)

lemma processed_obeys:
  assumes retry: "retries_on_conflict (de_retry R)" and live: "\<not> ShouldCleanup d"
    and run: "run_state (processPlugin (oss_plugin R) d) h = (x, h')"
  shows "\<exists>tr. h' = h @ tr \<and> obeys (loaded_first d) h tr"
proof -
  have rollout: "\<exists>tr. g' = g @ tr \<and> obeys (loaded_first d) g tr"
    if "run_state (run_rollout (oss_plugin R) d') g = (y, g')"
      and "dt_conditions (dp_status d') = dt_conditions (dp_status d)" "dp_spec d' = dp_spec d"
        "om_namespace d' = om_namespace d" for d' g y g'
    using that rollout_engine_obeys [OF retry, of d' _ g y g'] saw_loaded_same [of d' d]
    by (auto simp: run_rollout_def oss_plugin_def split: sum.splits)
  have quiet: "\<exists>tr. g' = g @ tr \<and> obeys (loaded_first d) g tr"
    if "emits no_traffic m" "run_state m g = (y, g')" for m :: "(devent, processed) io" and g y g'
    using that quiet_obeys by (metis emitsE)
  have others: "emits no_traffic (run_engine (dp_rollback (oss_plugin R)) d')"
    "emits no_traffic (run_engine (dp_steady (oss_plugin R)) d')" for d'
    by (auto simp: oss_plugin_def NewRollbackPlugin_def NewSteadyStatePlugin_def quiet_RollbackActor
        quiet_SteadyStateActor intro!: quiet_engine)
  show ?thesis
  proof (cases "RolloutInProgress d")
    case True
    obtain g h1 where g: "run_state (dp_health_gate (oss_plugin R) d) h = (g, h1)" by fastforce
    from emitsE [OF quiet_health_gate g] obtain t1 where t1: "h1 = h @ t1" "list_all no_traffic t1" .
    have "\<exists>tr. h' = h1 @ tr \<and> obeys (loaded_first d) h1 tr"
    proof (cases g)
      case (Inl e)
      with run live True g show ?thesis by (auto simp: processPlugin_def)
    next
      case (Inr healthy)
      with run live True g have "run_state (if (\<not> healthy \<or> ShouldRollback d) \<and> RollbackAlertsEnabled d then
               run_engine (dp_rollback (oss_plugin R)) (begin_rollback healthy (ShouldRollback d) d)
             else run_rollout (oss_plugin R) d) h1 = (x, h')"
        by (simp add: processPlugin_def)
      with quiet [OF others(1)] rollout [of d] show ?thesis by (auto split: if_splits)
    qed
    with t1 quiet_obeys [OF t1(2)] show ?thesis by auto
  next
    case False
    let ?d1 = "set_stage DS_VALIDATION (incrementRolloutCount (begin_rollout d))"
    have "dt_conditions (dp_status ?d1) = dt_conditions (dp_status d)" "dp_spec ?d1 = dp_spec d"
      "om_namespace ?d1 = om_namespace d"
      by (simp_all add: set_stage_def incrementRolloutCount_def begin_rollout_def set_candidate_def)
    with False run live quiet [OF others(2)] rollout [of ?d1] show ?thesis
      by (auto simp: processPlugin_def split: if_splits)
  qed
qed

section \<open>An example\<close>

text \<open>
  A deployment \<open>d\<close> on the server \<open>s\<close> whose snapshot holds one cluster \<open>c\<close>, among clients that always
  answer: the models they hold loaded and the rules of every route are given.
\<close>

definition example_codec :: target_codec where
  "example_codec =
     \<lparr>tc_marshal = (\<lambda>ts. concat (map ti_cluster_id ts)),
      tc_unmarshal = (\<lambda>s. Some [\<lparr>ti_cluster_id = s, ti_host = ''host'', ti_port = ''443'',
        ti_token_tag = ''token'', ti_ca_data_tag = ''ca''\<rparr>])\<rparr>"

definition example_target :: cluster_target where
  "example_target = \<lparr>ct_id = ''c'', ct_kubernetes = Some \<lparr>cn_host = ''host'', cn_port = ''443'',
     cn_token_tag = ''token'', cn_ca_data_tag = ''ca''\<rparr>\<rparr>"

definition example_routes :: "(string \<times> string) list \<Rightarrow> json" where
  "example_routes rs = JObject [(''spec'', JObject [(''rules'', JList (map (\<lambda>(path, target). buildHTTPRule
     \<lparr>ru_match_path = path, ru_match_type = PathMatchPrefix, ru_rewrite_path = target,
      ru_rewrite_type = RewritePrefix, ru_backend_name = ''triton'', ru_backend_port = 0\<rparr>) rs))])]"

definition example_dep_env :: "string list \<Rightarrow> (string \<times> string) list \<Rightarrow> dep_env" where
  "example_dep_env models rs =
     \<lparr>de_now = (\<lambda>_. 7), de_show = (\<lambda>_. ''error''), de_finlib = list_finlib, de_unstr = plain_unstr,
      de_retry = try_up_to 4, de_models = \<lparr>mc_marshal = (\<lambda>_. ''''), mc_unmarshal = (\<lambda>_. Some [])\<rparr>,
      de_targets = example_codec, de_backend = None, de_plugin = (\<lambda>_ _. None),
      de_get = (\<lambda>_ _ _. Inl (OtherError ''get'')), de_update = (\<lambda>_ d. Inr d), de_update_status = (\<lambda>_ _. None),
      de_server = (\<lambda>_ _ _. Inr \<lparr>is_targets = [example_target], is_statuses = [(''c'', IS_SERVING)]\<rparr>),
      de_client = (\<lambda>_ _ _. None), de_model = (\<lambda>_ _ _ _ m. Inr (m \<in> set models)),
      de_healthy = (\<lambda>_ _ _. Inr True),
      de_routes = (\<lambda>_. \<lparr>ra_get = (\<lambda>_ _ _. Inr (example_routes rs)), ra_update = (\<lambda>_ _ _. None),
        ra_create = (\<lambda>_ _ _. None), ra_delete = (\<lambda>_ _ _. None)\<rparr>),
      de_cms = (\<lambda>_. \<lparr>ca_get = (\<lambda>_ _ name. Inr \<lparr>cm_name = name, cm_labels = None, cm_annotations = None,
          cm_data = Some [modelListKey \<mapsto> '''']\<rparr>),
        ca_update = (\<lambda>_ _ _. None), ca_create = (\<lambda>_ _ _. None), ca_delete = (\<lambda>_ _ _. None)\<rparr>)\<rparr>"

definition example_revision :: "string \<Rightarrow> revision_ref" where
  "example_revision m = \<lparr>rv_namespace = ''ns'', rv_name = m\<rparr>"

definition example_deployment :: "deployment_stage \<Rightarrow> string option \<Rightarrow> string option \<Rightarrow> bool \<Rightarrow> deployment" where
  "example_deployment stage candidate current deleted =
     \<lparr>om_namespace = ''ns'', om_name = ''d'', om_uid = ''uid'', om_generation = 1, om_creation_ts = Some 1,
      om_deletion_ts = (if deleted then Some 5 else None), om_labels = None,
      om_annotations = Some [TargetClustersAnnotation \<mapsto> ''c''],
      om_finalizers = [deploymentCleanedUpFinalizer], om_owner_refs = [],
      dp_spec = \<lparr>ds_desired = Some (example_revision ''m''), ds_inference_server = Some (example_revision ''s''),
        ds_deleted = False, ds_strategy = None, ds_definition = None\<rparr>,
      dp_status = \<lparr>dt_state = DState_INITIALIZING, dt_message = '''', dt_stage = stage,
        dt_candidate = map_option example_revision candidate, dt_current = map_option example_revision current,
        dt_conditions = [], dt_snapshot = []\<rparr>\<rparr>"

definition example_pass ::
    "string list \<Rightarrow> (string \<times> string) list \<Rightarrow> deployment \<Rightarrow> dep_pass \<times> devent list" where
  "example_pass models rs d =
     run_state (dep_reconcile (example_dep_env models rs) (oss_plugin (example_dep_env models rs)) d) []"

text \<open>The rules of a deployment that is rolled out.\<close>

definition example_rules :: "(string \<times> string) list" where
  "example_rules = [(TrafficMatchPath ''s'' ''d'', TrafficRewritePath ''m''),
     (DiscoveryMatchPath ''s'' ''d'', DiscoveryRewritePath ''s'' ''d'')]"

lemma example_retry: "retries_on_conflict (de_retry (example_dep_env models rs))"
  by (auto simp: retries_on_conflict_def example_dep_env_def)

lemma example_added:
  "run_state (add_finalizer (example_dep_env models rs) (example_deployment stage candidate current deleted)) [] =
     (Inr (example_deployment stage candidate current deleted), [])"
  by (simp add: add_finalizer_def example_deployment_def example_dep_env_def list_finlib_def)

lemma example_clean: "no_leftover P (example_deployment stage candidate current deleted)"
  by (simp add: no_leftover_def example_deployment_def)

definition writes_routes_of :: "cluster_target \<Rightarrow> devent \<Rightarrow> bool" where
  "writes_routes_of t e = (case e of DE_Route (InCluster u) (RouteUpdate ns obj a) \<Rightarrow> u = t | _ \<Rightarrow> False)"

lemma example_run:
  assumes "case fst (example_pass models rs d) of Returned (res, None, d') \<Rightarrow> Q d' | _ \<Rightarrow> False"
  obtains res d' h where "example_pass models rs d = (Returned (res, None, d'), h)" "Q d'"
    "run_state (dep_reconcile (example_dep_env models rs) (oss_plugin (example_dep_env models rs)) d) [] =
       (Returned (res, None, d'), h)"
  using assms
  by (cases "example_pass models rs d") (auto simp: example_pass_def split: outcome.splits option.splits)

text \<open>A rollout that completes, and a cleanup that does.\<close>

lemma example_completion:
  "case fst (example_pass [''m''] example_rules (example_deployment DS_PLACEMENT (Some ''m'') None False)) of
     Returned (res, None, d') \<Rightarrow> stage_of d' = DS_ROLLOUT_COMPLETE \<and> current_of d' \<noteq> None | _ \<Rightarrow> False"
  by code_simp

lemma example_removal:
  "case fst (example_pass [] [] (example_deployment DS_ROLLOUT_COMPLETE (Some ''m'') (Some ''m'') True)) of
     Returned (res, None, d') \<Rightarrow> stage_of d' = DS_CLEAN_UP_COMPLETE \<and> om_finalizers d' = [] | _ \<Rightarrow> False"
  by code_simp

section \<open>Properties\<close>

lemma pass_obeys:
  assumes retry: "retries_on_conflict (de_retry R)"
    and add: "run_state (add_finalizer R d0) h = (Inr d, h1)"
    and live: "\<not> ShouldCleanup d"
    and run: "run_state (dep_reconcile R (oss_plugin R) d0) h = (x, h')"
  shows "\<exists>tr. h' = h @ tr \<and> obeys (loaded_first d) h tr"
proof -
  from emitsE [OF quiet_finalizer add] obtain t1 where t1: "h1 = h @ t1" "list_all no_traffic t1" .
  have "\<exists>tr. h' = h1 @ tr \<and> obeys (loaded_first d) h1 tr"
  proof (cases "getPlugin R d")
    case (Some e)
    with add run show ?thesis by (auto simp: dep_reconcile_def)
  next
    case None
    obtain got h2 where proc: "run_state (processPlugin (oss_plugin R) d) h1 = (got, h2)" by fastforce
    from processed_obeys [OF retry live proc] obtain t2 where
      t2: "h2 = h1 @ t2" "obeys (loaded_first d) h1 t2" by blast
    from add run None proc have after: "run_state (after_plugin R (oss_plugin R) (stage_of d) got) h2 = (x, h')"
      by (simp add: dep_reconcile_def)
    from emitsE [OF quiet_after_plugin after] obtain t3 where "h' = h2 @ t3" "list_all no_traffic t3" .
    with t2 quiet_obeys show ?thesis by (intro exI [of _ "t2 @ t3"]) auto
  qed
  with t1 quiet_obeys [OF t1(2)] show ?thesis by auto
qed





text \<open>
  C25. The current revision of a deployment changes only at the end of a rollout, to the candidate,
  or at the end of a cleanup, which clears it with the candidate.
\<close>

theorem current_revision_is_graduated:
  assumes "run_state (add_finalizer R d0) h = (Inr d, h1)"
    and "run_state (dep_reconcile R (oss_plugin R) d0) h = (Returned (res, None, d'), h')"
    and "no_leftover (oss_plugin R) d"
  shows "current_of d' = current_of d \<or>
    stage_of d' = DS_ROLLOUT_COMPLETE \<and> current_of d' = candidate_of d' \<or>
    stage_of d' = DS_CLEAN_UP_COMPLETE \<and> current_of d' = None \<and> candidate_of d' = None"
  using assms by (rule oss.pass_current)

theorem current_revision_is_graduated_witness:
  "let d = example_deployment DS_PLACEMENT (Some ''m'') None False
   in case example_pass [''m''] example_rules d of
        (Returned (res, None, d'), _) \<Rightarrow> stage_of d' = DS_ROLLOUT_COMPLETE \<and> current_of d' \<noteq> None \<and> (current_of d' = current_of d \<or> stage_of d' = DS_ROLLOUT_COMPLETE \<and> current_of d' = candidate_of d' \<or>
          stage_of d' = DS_CLEAN_UP_COMPLETE \<and> current_of d' = None \<and> candidate_of d' = None)
      | _ \<Rightarrow> False"
proof -
  let ?R = "example_dep_env [''m''] example_rules"
  define d where "d = example_deployment DS_PLACEMENT (Some ''m'') None False"
  from example_completion obtain res d' h where pass: "example_pass [''m''] example_rules d = (Returned (res, None, d'), h)"
    and shown: "stage_of d' = DS_ROLLOUT_COMPLETE \<and> current_of d' \<noteq> None"
    and "run_state (dep_reconcile ?R (oss_plugin ?R) d) [] = (Returned (res, None, d'), h)"
    unfolding d_def by (rule example_run) blast
  from current_revision_is_graduated [OF _ this(3)] example_added example_clean
  have "current_of d' = current_of d \<or> stage_of d' = DS_ROLLOUT_COMPLETE \<and> current_of d' = candidate_of d' \<or>
          stage_of d' = DS_CLEAN_UP_COMPLETE \<and> current_of d' = None \<and> candidate_of d' = None" by (simp add: d_def)
  with pass shown show ?thesis by (simp add: d_def [symmetric])
qed

text \<open>
  C26. A pass takes the finalizer off a deployment only in a stage that ends a cleanup; otherwise
  the finalizers are those the pass began with.
\<close>

theorem finalizer_waits_for_cleanup:
  assumes "run_state (add_finalizer R d0) h = (Inr d, h1)"
    and "run_state (dep_reconcile R (oss_plugin R) d0) h = (Returned (res, None, d'), h')"
    and "no_leftover (oss_plugin R) d"
  shows "IsCleanupCompleteStage (stage_of d') \<or> om_finalizers d' = om_finalizers d"
  using assms by (rule oss.pass_finalizer)

theorem finalizer_waits_for_cleanup_witness:
  "let d = example_deployment DS_ROLLOUT_COMPLETE (Some ''m'') (Some ''m'') True
   in case example_pass [] [] d of
        (Returned (res, None, d'), _) \<Rightarrow> stage_of d' = DS_CLEAN_UP_COMPLETE \<and> om_finalizers d' = [] \<and> (IsCleanupCompleteStage (stage_of d') \<or> om_finalizers d' = om_finalizers d)
      | _ \<Rightarrow> False"
proof -
  let ?R = "example_dep_env [] []"
  define d where "d = example_deployment DS_ROLLOUT_COMPLETE (Some ''m'') (Some ''m'') True"
  from example_removal obtain res d' h where pass: "example_pass [] [] d = (Returned (res, None, d'), h)"
    and shown: "stage_of d' = DS_CLEAN_UP_COMPLETE \<and> om_finalizers d' = []"
    and "run_state (dep_reconcile ?R (oss_plugin ?R) d) [] = (Returned (res, None, d'), h)"
    unfolding d_def by (rule example_run) blast
  from finalizer_waits_for_cleanup [OF _ this(3)] example_added example_clean
  have "IsCleanupCompleteStage (stage_of d') \<or> om_finalizers d' = om_finalizers d" by (simp add: d_def)
  with pass shown show ?thesis by (simp add: d_def [symmetric])
qed

end
