(* ===== verification/Deployment_Completion.thy ===== *)
theory Deployment_Completion
  imports Deployment_Properties
begin

text \<open>
  What a completed rollout has shown: the pass that completes it has found, in that pass, every
  cluster of the snapshot routed to the loaded model, the discovery route in place and the old
  model gone.
\<close>

section \<open>A completed rollout\<close>

text \<open>What the routing and the cleanup of a cluster show, and the discovery route.\<close>

definition traffic_seen :: "dep_env \<Rightarrow> deployment \<Rightarrow> devent list \<Rightarrow> cluster_target \<Rightarrow> bool" where
  "traffic_seen R d tr t \<longleftrightarrow>
     (\<exists>obj r. DE_Route (InCluster t) (RouteGet (om_namespace d) (TrafficRouteName (server_of d)) (Inr obj)) \<in> set tr \<and>
        rules_of (de_unstr R) obj (TrafficMatchPath (server_of d) (om_name d)) = Some r \<and>
        httpRuleRewritePath (de_unstr R) r = TrafficRewritePath (name_of (desired_of d)))"

definition discovery_seen :: "dep_env \<Rightarrow> deployment \<Rightarrow> devent list \<Rightarrow> bool" where
  "discovery_seen R d tr \<longleftrightarrow>
     (\<exists>obj. DE_Route ControlPlane (RouteGet (om_namespace d) (DiscoveryRouteName (server_of d)) (Inr obj)) \<in> set tr \<and>
        rules_of (de_unstr R) obj (DiscoveryMatchPath (server_of d) (om_name d)) \<noteq> None)"

definition old_model_gone :: "deployment \<Rightarrow> devent list \<Rightarrow> cluster_target \<Rightarrow> bool" where
  "old_model_gone d tr t \<longleftrightarrow> noCleanupNeeded d \<or>
     DE_Model t (server_of d) (om_namespace d) (name_of (current_of d)) (Inr False) \<in> set tr"

definition rollout_shown :: "dep_env \<Rightarrow> deployment \<Rightarrow> devent list \<Rightarrow> bool" where
  "rollout_shown R d tr \<longleftrightarrow>
     ds_inference_server (dp_spec d) \<noteq> None \<and> name_of (desired_of d) \<noteq> '''' \<and>
     (let ts = targets_of (ReadTargetClustersAnnotation (de_targets R) d)
      in (\<forall>t \<in> set ts. saw_loaded d tr (ct_id t) \<and> traffic_seen R d tr t \<and> old_model_gone d tr t) \<and>
         (ts \<noteq> [] \<longrightarrow> discovery_seen R d tr))"

lemma RuleExists_run:
  "run_state (RuleExists L (client_of emb A) name ns q) h =
     (case ra_get A h ns name of
        Inl err \<Rightarrow> if k8s_is_not_found err then Inr False else Inl err
      | Inr obj \<Rightarrow> Inr (case rules_of L obj (ru_match_path q) of
            None \<Rightarrow> False
          | Some r \<Rightarrow> ru_rewrite_path q = '''' \<or> httpRuleRewritePath L r = ru_rewrite_path q),
      h @ [emb (RouteGet ns name (ra_get A h ns name))])"
  by (auto simp: RuleExists_def rules_of_def find_rule_def Let_def split: sum.splits option.splits)

lemma validation_shows:
  "run_state (a_retrieve (ValidationActor R) d c) h = ((Inr e, d'), h @ t) \<Longrightarrow> c_status e = CS_TRUE \<Longrightarrow>
     ds_inference_server (dp_spec d) \<noteq> None \<and> name_of (desired_of d) \<noteq> ''''"
  by (auto simp: ValidationActor_def name_of_def split: if_splits option.splits)

lemma traffic_shows:
  "run_state (a_retrieve (TrafficRoutingActor R u) d c) h = ((Inr e, d'), h @ t) \<Longrightarrow> c_status e = CS_TRUE \<Longrightarrow>
     traffic_seen R d t u"
  by (fastforce simp: TrafficRoutingActor_def traffic_retrieve_def dynamic_of_def RuleExists_run rule_query_def
      traffic_seen_def split: if_splits option.splits sum.splits)

lemma discovery_shows:
  "run_state (a_retrieve (DiscoveryRoutingActor R) d c) h = ((Inr e, d'), h @ t) \<Longrightarrow> c_status e = CS_TRUE \<Longrightarrow>
     discovery_seen R d t"
  by (fastforce simp: DiscoveryRoutingActor_def discovery_retrieve_def dynamic_of_def RuleExists_run rule_query_def
      discovery_seen_def split: if_splits option.splits sum.splits)

lemma model_cleanup_shows:
  "run_state (a_retrieve (ModelCleanupActor R u) d c) h = ((Inr e, d'), h @ t) \<Longrightarrow> c_status e = CS_TRUE \<Longrightarrow>
     old_model_gone d t u"
  by (auto simp: ModelCleanupActor_def model_cleanup_retrieve_def with_backend_def old_model_gone_def
      split: if_splits option.splits sum.splits)

lemma rolling_shows:
  "run_state (a_retrieve (RollingRolloutActor R u) d c) h = ((Inr e, d'), h @ t) \<Longrightarrow>
     c_status e = CS_TRUE \<or> ReadModelLoadedFlag e \<Longrightarrow>
     ReadModelLoadedFlag c \<or>
     DE_Model u (server_of d) (om_namespace d) (name_of (desired_of d)) (Inr True) \<in> set t"
  by (auto simp: RollingRolloutActor_def rolling_retrieve_def with_backend_def
      split: if_splits option.splits sum.splits)

text \<open>What an actor earns with an answer TRUE, given that the flags so far are earned.\<close>

definition earning ::
    "(devent list, deployment) actor list \<Rightarrow> deployment \<Rightarrow> (devent list, deployment) actor
     \<Rightarrow> (devent list \<Rightarrow> bool) \<Rightarrow> bool" where
  "earning all d0 a S \<longleftrightarrow>
     (\<forall>cs h u e r t. flags_earned d0 (set_dconditions cs d0) u \<longrightarrow>
        run_state (a_retrieve a (set_dconditions cs d0)
          (previousCondition (dep_plugin_of all) a (set_dconditions cs d0))) h = ((Inr e, r), h @ t) \<longrightarrow>
        r = set_dconditions cs d0 \<and> c_type e = a_type a \<and>
        (\<forall>i. c_type e = rolling_type i \<longrightarrow> ReadModelLoadedFlag e \<longrightarrow> saw_loaded d0 (u @ t) i) \<and>
        (c_status e = CS_TRUE \<longrightarrow> S (u @ t)))"

lemma retrieve_keeps:
  "run_state (a_retrieve (ValidationActor R) d c) h = ((x, r), w) \<Longrightarrow> r = d"
  "run_state (a_retrieve (AssetPreparationActor R) d c) h = ((x, r), w) \<Longrightarrow> r = d"
  "run_state (a_retrieve (PlacementPrepActor R) d c) h = ((x, r), w) \<Longrightarrow> r = d"
  "run_state (a_retrieve (RollingRolloutActor R t) d c) h = ((x, r), w) \<Longrightarrow> r = d"
  "run_state (a_retrieve (TrafficRoutingActor R t) d c) h = ((x, r), w) \<Longrightarrow> r = d"
  "run_state (a_retrieve (DiscoveryRoutingActor R) d c) h = ((x, r), w) \<Longrightarrow> r = d"
  "run_state (a_retrieve (ModelCleanupActor R t) d c) h = ((x, r), w) \<Longrightarrow> r = d"
  by (auto simp: ValidationActor_def AssetPreparationActor_def PlacementPrepActor_def placement_retrieve_def
      RollingRolloutActor_def rolling_retrieve_def TrafficRoutingActor_def traffic_retrieve_def
      DiscoveryRoutingActor_def discovery_retrieve_def ModelCleanupActor_def model_cleanup_retrieve_def
      with_backend_def split: if_splits option.splits sum.splits prod.splits)

lemma previous_type: "c_type (previousCondition p a d) = a_type a"
  by (auto simp: previousCondition_def mk_condition_def dest: GetCondition_type split: option.splits)

lemma set_dconditions_sel [simp]:
  "dt_conditions (dp_status (set_dconditions cs d)) = cs" "dp_spec (set_dconditions cs d) = dp_spec d"
  "om_namespace (set_dconditions cs d) = om_namespace d" "om_name (set_dconditions cs d) = om_name d"
  "current_of (set_dconditions cs d) = current_of d" "stage_of (set_dconditions cs d) = stage_of d"
  "om_annotations (set_dconditions cs d) = om_annotations d"
  "set_dconditions cs (set_dconditions cs' d) = set_dconditions cs d"
  by (simp_all add: set_dconditions_def)

lemma earning_other:
  assumes "tidy_actor a" "\<forall>i. a_type a \<noteq> rolling_type i"
    and keeps: "\<And>d c h x r w. run_state (a_retrieve a d c) h = ((x, r), w) \<Longrightarrow> r = d"
    and shown: "\<And>cs c h e r u t. run_state (a_retrieve a (set_dconditions cs d0) c) h = ((Inr e, r), h @ t) \<Longrightarrow>
      c_status e = CS_TRUE \<Longrightarrow> S (u @ t)"
  shows "earning all d0 a S"
  unfolding earning_def
proof (intro allI impI)
  fix cs h u e r t
  let ?d = "set_dconditions cs d0"
  assume ret: "run_state (a_retrieve a ?d (previousCondition (dep_plugin_of all) a ?d)) h = ((Inr e, r), h @ t)"
  from tidy_retrieved [OF assms(1) ret] have "c_type e = a_type a" by (auto simp: previous_type)
  with assms(2) shown [OF ret] keeps [OF ret] show "r = ?d \<and> c_type e = a_type a \<and>
      (\<forall>i. c_type e = rolling_type i \<longrightarrow> ReadModelLoadedFlag e \<longrightarrow> saw_loaded d0 (u @ t) i) \<and>
      (c_status e = CS_TRUE \<longrightarrow> S (u @ t))" by auto
qed

lemma earning_rolling: "earning all d0 (RollingRolloutActor R t) (\<lambda>u. saw_loaded d0 u (ct_id t))"
  unfolding earning_def
proof (intro allI impI)
  fix cs h u e r w
  let ?a = "RollingRolloutActor R t" and ?d = "set_dconditions cs d0"
  assume flags: "flags_earned d0 ?d u"
    and ret: "run_state (a_retrieve ?a ?d (previousCondition (dep_plugin_of all) ?a ?d)) h = ((Inr e, r), h @ w)"
  from tidy_retrieved [OF tidy_RollingRolloutActor ret] have type: "c_type e = rolling_type (ct_id t)"
    by (auto simp: previous_type rolling_type_def)
  have "saw_loaded d0 (u @ w) (ct_id t)" if "c_status e = CS_TRUE \<or> ReadModelLoadedFlag e"
    using rolling_shows [OF ret that]
  proof
    assume "ReadModelLoadedFlag (previousCondition (dep_plugin_of all) ?a ?d)"
    from previous_flag [OF flags this] have "saw_loaded d0 u (ct_id t)" by (simp add: rolling_type_def)
    then show ?thesis by (rule saw_loaded_mono) auto
  qed (auto simp: saw_loaded_def)
  with type retrieve_keeps(4) [OF ret] show "r = ?d \<and> c_type e = a_type ?a \<and>
      (\<forall>i. c_type e = rolling_type i \<longrightarrow> ReadModelLoadedFlag e \<longrightarrow> saw_loaded d0 (u @ w) i) \<and>
      (c_status e = CS_TRUE \<longrightarrow> saw_loaded d0 (u @ w) (ct_id t))"
    by (auto simp: rolling_type_def)
qed

text \<open>Nothing says yet that the rollout is complete.\<close>

definition unfinished :: "deployment \<Rightarrow> bool" where
  "unfinished d \<longleftrightarrow> (\<forall>c \<in> set (dt_conditions (dp_status d)). c_type c = ActorTypeRolloutComplete \<longrightarrow>
     c_status c \<noteq> CS_TRUE \<and> \<not> ReadModelLoadedFlag c)"

lemma unfinished_annotated [simp]: "unfinished (d\<lparr>om_annotations := a\<rparr>) = unfinished d"
  by (simp add: unfinished_def)

lemma unfinished_put:
  "unfinished d \<Longrightarrow> c_type c = ActorTypeRolloutComplete \<longrightarrow> c_status c \<noteq> CS_TRUE \<and> \<not> ReadModelLoadedFlag c \<Longrightarrow>
   unfinished (dep_put d c)"
  using put_condition_set [of c "dt_conditions (dp_status d)"] by (auto simp: unfinished_def dep_put_def)

lemma parse_completed:
  "parse_conditions s cs = DS_ROLLOUT_COMPLETE \<Longrightarrow> s = DS_ROLLOUT_COMPLETE \<or>
     (\<exists>c \<in> set cs. c_type c = ActorTypeRolloutComplete \<and> c_status c = CS_TRUE)"
  by (induction cs) (auto split: if_splits)

lemma unfinished_flag:
  assumes "unfinished d"
  shows "\<not> ReadModelLoadedFlag (previousCondition (dep_plugin_of all) (RolloutCompletionActor R) d)"
proof (cases "GetCondition ActorTypeRolloutComplete (dt_conditions (dp_status d))")
  case None
  then show ?thesis by (simp add: previousCondition_def dep_plugin_of_def mk_condition_def ReadModelLoadedFlag_def)
next
  case (Some c)
  with GetCondition_type [OF Some] assms show ?thesis
    by (simp add: previousCondition_def dep_plugin_of_def unfinished_def)
qed

lemma completion_looked:
  "\<not> ReadModelLoadedFlag c \<Longrightarrow> run_state (a_retrieve (RolloutCompletionActor R) d c) h =
     ((Inr (GenerateFalseCondition (de_now R h) c ''CompletionTasksPending'' ''Rollout completion tasks are pending''), d), h)"
  by (simp add: RolloutCompletionActor_def)

text \<open>Once an action has run, the completion is only looked at.\<close>

lemma unfinished_rest:
  assumes "\<forall>a \<in> set as. tidy_actor a \<and> a_type a \<noteq> ActorTypeRolloutComplete" "unfinished d"
    and "run_state (runActors (dep_plugin_of all) (as @ [RolloutCompletionActor R]) True c d) h = ((Inr x, d'), h')"
  shows "unfinished d'"
  using assms
proof (induction as arbitrary: c d h)
  case Nil
  from Nil(3) show ?case
    using unfinished_flag [OF Nil(2)] Nil(2) by (auto simp: completion_looked previous_type intro!: unfinished_put)
next
  case (Cons a as)
  from Cons.prems(3) show ?case
    unfolding append_Cons
  proof (cases rule: runActors_ConsE)
    case (skipped e r1 w1)
    from Cons.prems(1) have "tidy_actor a" by simp
    from tidy_retrieved [OF this skipped(1)] obtain n where
      "r1 = d\<lparr>om_annotations := n\<rparr>" "c_type e = a_type a" by (auto simp: previous_type)
    with Cons.prems(1,2) have "unfinished (dep_put r1 e)" by (intro unfinished_put) auto
    with Cons.IH [of "dep_put r1 e"] Cons.prems(1) skipped(3) show ?thesis by simp
  qed auto
qed

lemma earned_or_unfinished:
  assumes "\<forall>(a, S) \<in> set ps. earning all d0 a S \<and> tidy_actor a \<and> a_type a \<noteq> ActorTypeRolloutComplete \<and>
      (\<forall>d c. emits no_traffic (a_retrieve a d c)) \<and> (\<forall>u v. S u \<longrightarrow> S (u @ v))"
    and "unfinished (set_dconditions cs d0)" "flags_earned d0 (set_dconditions cs d0) u"
    and "run_state (runActors (dep_plugin_of all) (map fst ps @ [RolloutCompletionActor R]) False None
        (set_dconditions cs d0)) h = ((Inr x, d'), h')"
  shows "unfinished d' \<or> (\<exists>t. h' = h @ t \<and> (\<forall>(a, S) \<in> set ps. S (u @ t)))"
  using assms
proof (induction ps arbitrary: cs u h)
  case Nil
  then show ?case
    by (auto simp: completion_looked unfinished_flag RolloutCompletionActor_def [abs_def]
        split: prod.splits if_splits)
next
  case (Cons p ps)
  obtain a S where p: "p = (a, S)" by fastforce
  with Cons.prems(1) have earn: "earning all d0 a S" and tidy: "tidy_actor a"
    and type: "a_type a \<noteq> ActorTypeRolloutComplete" and quiet: "\<And>d c. emits no_traffic (a_retrieve a d c)"
    and mono: "\<And>u v. S u \<Longrightarrow> S (u @ v)" by auto
  let ?d = "set_dconditions cs d0"
  from Cons.prems(4) have "run_state (runActors (dep_plugin_of all) (a # map fst ps @ [RolloutCompletionActor R])
      False None ?d) h = ((Inr x, d'), h')" by (simp add: p)
  then show ?case
  proof (cases rule: runActors_ConsE)
    case (skipped e r1 w1)
    from emitsE [OF quiet skipped(1)] obtain t1 where w1: "w1 = h @ t1" .
    with earn Cons.prems(3) skipped(1) have r1: "r1 = ?d" and e: "c_type e = a_type a"
      and flag: "\<And>i. c_type e = rolling_type i \<Longrightarrow> ReadModelLoadedFlag e \<Longrightarrow> saw_loaded d0 (u @ t1) i"
      and shown: "c_status e = CS_TRUE \<Longrightarrow> S (u @ t1)" unfolding earning_def by blast+
    let ?cs = "put_condition e cs"
    have put: "dep_put r1 e = set_dconditions ?cs d0" by (simp add: r1 dep_put_def)
    have "unfinished (set_dconditions ?cs d0)"
      using unfinished_put [OF Cons.prems(2), of e] type e by (simp add: put [symmetric] r1)
    moreover have "flags_earned d0 (set_dconditions ?cs d0) (u @ t1)"
      unfolding put [symmetric] r1 using flag Cons.prems(3)
      by (intro flags_earned_put) (auto intro: flags_earned_mono)
    ultimately have "unfinished d' \<or> (\<exists>t. h' = w1 @ t \<and> (\<forall>(a, S) \<in> set ps. S ((u @ t1) @ t)))"
      using Cons.IH [of ?cs "u @ t1" w1] Cons.prems(1) skipped(3) by (simp add: put)
    moreover have "S (u @ t1 @ t)" for t using mono [OF shown, of t] skipped(2) by simp
    ultimately show ?thesis unfolding p w1 by fastforce
  next
    case (ran e r1 w1 e' r2 w2)
    from tidy_retrieved [OF tidy ran(1)] obtain n where r1: "r1 = ?d\<lparr>om_annotations := n\<rparr>" and e: "c_type e = a_type a"
      by (auto simp: previous_type)
    from tidy ran(4) have "tidy r1 e (Inr e', r2)" by (auto simp: tidy_actor_def dest: givesD)
    then obtain m where "r2 = r1\<lparr>om_annotations := m\<rparr>" "c_type e' = c_type e" by (auto simp: tidy_def)
    with Cons.prems(2) e type r1 have left: "unfinished (dep_put r2 e')" by (intro unfinished_put) auto
    have others: "\<forall>b \<in> set (map fst ps). tidy_actor b \<and> a_type b \<noteq> ActorTypeRolloutComplete"
      using Cons.prems(1) by auto
    from unfinished_rest [OF others left] ran(5) show ?thesis by simp
  qed simp_all
qed

subsection \<open>The actors of a rollout and what each shows\<close>

definition rollout_shows ::
    "dep_env \<Rightarrow> deployment \<Rightarrow> cluster_target list \<Rightarrow> ((devent list, deployment) actor \<times> (devent list \<Rightarrow> bool)) list" where
  "rollout_shows R d ts =
     [(ValidationActor R, \<lambda>_. ds_inference_server (dp_spec d) \<noteq> None \<and> name_of (desired_of d) \<noteq> ''''),
      (AssetPreparationActor R, \<lambda>_. True), (PlacementPrepActor R, \<lambda>_. True)] @
     (if ts = [] then []
      else concat (map (\<lambda>t. [(RollingRolloutActor R t, \<lambda>u. saw_loaded d u (ct_id t)),
                             (TrafficRoutingActor R t, \<lambda>u. traffic_seen R d u t)]) ts) @
           [(DiscoveryRoutingActor R, discovery_seen R d)] @
           map (\<lambda>t. (ModelCleanupActor R t, \<lambda>u. old_model_gone d u t)) ts)"

lemma seen_conditions [simp]:
  "traffic_seen R (set_dconditions cs d) = traffic_seen R d"
  "discovery_seen R (set_dconditions cs d) = discovery_seen R d"
  "old_model_gone (set_dconditions cs d) = old_model_gone d"
  by (simp_all add: fun_eq_iff traffic_seen_def discovery_seen_def old_model_gone_def noCleanupNeeded_def
      cong: option.case_cong)

lemma seen_mono:
  "saw_loaded d u i \<Longrightarrow> saw_loaded d (u @ v) i" "saw_loaded d v i \<Longrightarrow> saw_loaded d (u @ v) i"
  "traffic_seen R d u t \<Longrightarrow> traffic_seen R d (u @ v) t" "traffic_seen R d v t \<Longrightarrow> traffic_seen R d (u @ v) t"
  "discovery_seen R d u \<Longrightarrow> discovery_seen R d (u @ v)" "discovery_seen R d v \<Longrightarrow> discovery_seen R d (u @ v)"
  "old_model_gone d u t \<Longrightarrow> old_model_gone d (u @ v) t" "old_model_gone d v t \<Longrightarrow> old_model_gone d (u @ v) t"
  by (auto simp: saw_loaded_def traffic_seen_def discovery_seen_def old_model_gone_def)

lemma retrieves_are_quiet:
  "emits no_traffic (a_retrieve (ValidationActor R) d c)"
  "emits no_traffic (a_retrieve (AssetPreparationActor R) d c)"
  "emits no_traffic (a_retrieve (PlacementPrepActor R) d c)"
  "emits no_traffic (a_retrieve (RollingRolloutActor R t) d c)"
  "emits no_traffic (a_retrieve (ModelCleanupActor R t) d c)"
  "emits no_traffic (a_retrieve (DiscoveryRoutingActor R) d c)"
  using quiet_ValidationActor quiet_AssetPreparationActor quiet_PlacementPrepActor quiet_RollingRolloutActor
    quiet_ModelCleanupActor
  by (auto simp: quiet_actor_def DiscoveryRoutingActor_def discovery_retrieve_def split: sum.splits)

lemma types_not_complete [simp]:
  "ActorTypeValidation \<noteq> ActorTypeRolloutComplete" "ActorTypeAssetPreparation \<noteq> ActorTypeRolloutComplete"
  "ActorTypePlacementPrep \<noteq> ActorTypeRolloutComplete" "ActorTypeDiscoveryRouting \<noteq> ActorTypeRolloutComplete"
  "ActorTypeRollingRollout @ s \<noteq> ActorTypeRolloutComplete"
  "ActorTypeTrafficRouting @ s \<noteq> ActorTypeRolloutComplete"
  "ActorTypeModelCleanup @ s \<noteq> ActorTypeRolloutComplete"
  by (simp_all add: actor_types)

lemma rollout_shows_earned:
  "\<forall>(a, S) \<in> set (rollout_shows R d ts). earning all d a S \<and> tidy_actor a \<and> a_type a \<noteq> ActorTypeRolloutComplete \<and>
     (\<forall>e c. emits no_traffic (a_retrieve a e c)) \<and> (\<forall>u v. S u \<longrightarrow> S (u @ v))"
proof -
  have others:
    "earning all d (ValidationActor R) (\<lambda>_. ds_inference_server (dp_spec d) \<noteq> None \<and> name_of (desired_of d) \<noteq> '''')"
    "earning all d (AssetPreparationActor R) (\<lambda>_. True)" "earning all d (PlacementPrepActor R) (\<lambda>_. True)"
    by (rule earning_other; auto dest: validation_shows retrieve_keeps)+
  have traffic: "earning all d (TrafficRoutingActor R t) (\<lambda>u. traffic_seen R d u t)" for t
    by (rule earning_other, simp, simp, erule retrieve_keeps)
      (drule (1) traffic_shows, simp add: seen_mono)
  have discovery: "earning all d (DiscoveryRoutingActor R) (discovery_seen R d)"
    by (rule earning_other, simp, simp, erule retrieve_keeps)
      (drule (1) discovery_shows, simp add: seen_mono)
  have cleanup: "earning all d (ModelCleanupActor R t) (\<lambda>u. old_model_gone d u t)" for t
    by (rule earning_other, simp, simp, erule retrieve_keeps)
      (drule (1) model_cleanup_shows, simp add: seen_mono)
  show ?thesis
    using others traffic discovery cleanup earning_rolling
    by (auto simp: rollout_shows_def retrieves_are_quiet traffic_retrieve_quiet intro: seen_mono)
qed

lemma rollout_shows_all:
  assumes "\<forall>(a, S) \<in> set (rollout_shows R d (targets_of (ReadTargetClustersAnnotation (de_targets R) d))). S u"
  shows "rollout_shown R d u"
  using assms by (auto simp: rollout_shows_def rollout_shown_def Let_def split: if_splits)

lemma rollout_shows_actors:
  assumes "NewRolloutPlugin R d = Inr p"
  shows "p = dep_plugin_of (map fst (rollout_shows R d (targets_of (ReadTargetClustersAnnotation (de_targets R) d)))
    @ [RolloutCompletionActor R])"
  using assms
  by (rule rollout_plugin_cases) (simp add: rollout_shows_def map_concat comp_def)

subsection \<open>The pass that completes\<close>

lemma engine_completes:
  assumes plugin: "NewRolloutPlugin R d = Inr p" and "unfinished d"
    and run: "run_state (run_engine p d) h = (Returned (result, None, d'), h')"
    and stage: "next_stage (oss_plugin R) result d' = DS_ROLLOUT_COMPLETE" "stage_of d' \<noteq> DS_ROLLOUT_COMPLETE"
  shows "\<exists>t. h' = h @ t \<and> rollout_shown R d t"
proof -
  let ?ps = "rollout_shows R d (targets_of (ReadTargetClustersAnnotation (de_targets R) d))"
  have p: "p = dep_plugin_of (map fst ?ps @ [RolloutCompletionActor R])" by (rule rollout_shows_actors [OF plugin])
  from run obtain x d1 where actors: "run_state (runActors p (map fst ?ps @ [RolloutCompletionActor R]) False None d) h =
      ((x, d1), h')"
    and result: "result = classify x" and d': "d' = removeConditionsForDeployment d1 (Some p)"
    by (auto simp: run_engine_def runPlugin_def run_state_engineRun p split: prod.splits if_splits)
  have kept: "set (dt_conditions (dp_status d')) \<subseteq> set (dt_conditions (dp_status d1))"
    using d' by (auto simp: removeConditionsForDeployment_def kept_conditions_def)
  have failed: "fst (getTerminalStage d') \<noteq> DS_ROLLOUT_COMPLETE"
    using stage(2) by (simp add: getTerminalStage_def)
  with stage(1) have parse: "ParseStage d' = DS_ROLLOUT_COMPLETE" and "er_terminal result \<longrightarrow> er_satisfied result"
    by (auto simp: next_stage_def oss_plugin_def split: if_splits)
  with result obtain y where x: "x = Inr y" by (cases x) (auto simp: classify_def)
  from parse_completed parse stage(2) kept have "\<not> unfinished d1"
    unfolding ParseStage_def unfinished_def by blast
  moreover have d: "set_dconditions (dt_conditions (dp_status d)) d = d" by (simp add: set_dconditions_def)
  moreover from actors have "run_state (runActors (dep_plugin_of (map fst ?ps @ [RolloutCompletionActor R]))
      (map fst ?ps @ [RolloutCompletionActor R]) False None (set_dconditions (dt_conditions (dp_status d)) d)) h =
      ((Inr y, d1), h')" by (simp add: x d flip: p)
  from earned_or_unfinished [OF rollout_shows_earned _ _ this, of "[]"] assms(2)
  have "unfinished d1 \<or> (\<exists>t. h' = h @ t \<and> (\<forall>(a, S) \<in> set ?ps. S t))" by (simp add: d flags_earned_start)
  ultimately obtain t where "h' = h @ t" "\<forall>(a, S) \<in> set ?ps. S t" by blast
  with rollout_shows_all [of R d t] show ?thesis by auto
qed

lemma rollout_shown_same:
  assumes "dt_conditions (dp_status d') = dt_conditions (dp_status d)" "dp_spec d' = dp_spec d"
    "om_namespace d' = om_namespace d" "om_name d' = om_name d" "current_of d' = current_of d"
    "map_lookup (om_annotations d') TargetClustersAnnotation = map_lookup (om_annotations d) TargetClustersAnnotation"
  shows "rollout_shown R d' t = rollout_shown R d t"
  using assms
  by (simp add: rollout_shown_def ReadTargetClustersAnnotation_def saw_loaded_def traffic_seen_def discovery_seen_def
      old_model_gone_def noCleanupNeeded_def cong: option.case_cong)

lemma begun_sel:
  "dt_conditions (dp_status (set_stage s (incrementRolloutCount (begin_rollout d)))) = dt_conditions (dp_status d)"
  "dp_spec (set_stage s (incrementRolloutCount (begin_rollout d))) = dp_spec d"
  "om_namespace (set_stage s (incrementRolloutCount (begin_rollout d))) = om_namespace d"
  "om_name (set_stage s (incrementRolloutCount (begin_rollout d))) = om_name d"
  "current_of (set_stage s (incrementRolloutCount (begin_rollout d))) = current_of d"
  "stage_of (set_stage s (incrementRolloutCount (begin_rollout d))) = s"
  "map_lookup (om_annotations (set_stage s (incrementRolloutCount (begin_rollout d)))) TargetClustersAnnotation =
     map_lookup (om_annotations d) TargetClustersAnnotation"
  by (simp_all add: set_stage_def incrementRolloutCount_def begin_rollout_def set_candidate_def
      TargetClustersAnnotation_def deploymentRolloutCount_def deploymentRollbackReason_def)

lemma rollout_shown_mono: "rollout_shown R d t \<Longrightarrow> rollout_shown R d (u @ t @ v)"
  by (auto simp: rollout_shown_def Let_def intro: seen_mono)

lemma processed_stage:
  assumes "run_state (processPlugin (oss_plugin R) d) h = (Returned (result, None, d'), h')"
    and "stage_of d \<noteq> DS_ROLLOUT_COMPLETE"
  shows "stage_of d' \<noteq> DS_ROLLOUT_COMPLETE"
  using assms(1)
proof (cases rule: oss.processed_cases)
  case (cleanup d1)
  with progressed_sel(2) [of d1 d'] show ?thesis by (auto simp: IsCleanupStage_def)
next
  case (rollback d1)
  with progressed_sel(2) [of d1 d'] show ?thesis by (auto simp: IsRollbackStage_def)
next
  case (new_rollout p d1)
  with progressed_sel(2) [OF new_rollout(6)] show ?thesis by (simp add: begun_sel)
next
  case idle
  with assms(2) show ?thesis by (auto simp: begin_rollout_def set_candidate_def)
qed (use assms(2) in \<open>auto dest: progressed_sel\<close>)

lemma processed_completes:
  assumes proc: "run_state (processPlugin (oss_plugin R) d) h = (Returned (result, None, d'), h')"
    and "unfinished d" "stage_of d \<noteq> DS_ROLLOUT_COMPLETE"
    and stage: "next_stage (oss_plugin R) result d' = DS_ROLLOUT_COMPLETE"
  shows "\<exists>t. h' = h @ t \<and> rollout_shown R d t"
  using proc
proof (cases rule: oss.processed_cases)
  case (cleanup d1)
  then have "IsCleanupStage (next_stage (oss_plugin R) result d')"
    using oss.parse_cleanup [of R d'] progressed_sel(2) [of d1 d']
    by (auto simp: next_stage_def getTerminalStage_def IsCleanupStage_def)
  with stage show ?thesis by (simp add: IsCleanupStage_def)
next
  case (rollback d1)
  then have "IsRollbackStage (next_stage (oss_plugin R) result d')"
    using oss.parse_rollback [of R d'] progressed_sel(2) [of d1 d']
    by (auto simp: next_stage_def getTerminalStage_def IsCleanupStage_def IsRollbackStage_def)
  with stage show ?thesis by (simp add: IsRollbackStage_def)
next
  case (rollout p g b)
  from emitsE [OF quiet_health_gate rollout(7)] obtain t1 where g: "g = h @ t1" .
  from rollout(3) have "NewRolloutPlugin R d = Inr p" by (simp add: oss_plugin_def)
  from engine_completes [OF this assms(2) rollout(6) stage] progressed_sel(2) [OF rollout(4)] assms(3)
  obtain t2 where "h' = g @ t2" "rollout_shown R d t2" by auto
  with g rollout_shown_mono [of R d t2 t1 "[]"] show ?thesis by simp
next
  case (new_rollout p d1)
  have "NewRolloutPlugin R d1 = Inr p" using new_rollout(5) by (simp add: oss_plugin_def)
  moreover have "unfinished d1" using assms(2) by (simp add: new_rollout(4) unfinished_def begun_sel)
  moreover have "stage_of d' \<noteq> DS_ROLLOUT_COMPLETE"
    using progressed_sel(2) [OF new_rollout(6)] by (simp add: new_rollout(4) begun_sel)
  ultimately obtain t where "h' = h @ t" "rollout_shown R d1 t"
    using engine_completes [OF _ _ new_rollout(8) stage] by blast
  moreover have "rollout_shown R d1 t = rollout_shown R d t"
    unfolding new_rollout(4) by (rule rollout_shown_same) (simp_all add: begun_sel)
  ultimately show ?thesis by auto
next
  case steady
  with oss.parse_steady [of R d'] stage progressed_sel(2) [OF steady(4)] assms(3) show ?thesis
    by (auto simp: next_stage_def getTerminalStage_def split: if_splits)
next
  case idle
  have "\<not> er_terminal result" using idle by (simp add: default_engine_result_def)
  with stage have "parse_conditions (stage_of d') (dt_conditions (dp_status d')) = DS_ROLLOUT_COMPLETE"
    by (simp add: next_stage_def oss_plugin_def ParseStage_def)
  moreover have "stage_of d' = stage_of d" "dt_conditions (dp_status d') = dt_conditions (dp_status d)"
    using idle by (auto simp: begin_rollout_def set_candidate_def)
  ultimately show ?thesis using parse_completed assms(2,3) by (force simp: unfinished_def)
qed



section \<open>A failed cleanup without a desired revision\<close>

lemma getTerminalStage_cleanup: "IsCleanupStage (stage_of d) \<Longrightarrow> fst (getTerminalStage d) = DS_CLEAN_UP_FAILED"
  by (simp add: getTerminalStage_def)

text \<open>
  C40. When the cleanup of a deployment whose desired revision was removed fails, the pass ends in
  the panic of the state's computation, which dereferences the missing revision: it is recovered,
  so nothing of the pass is written, no error is returned and the deployment is not requeued.
\<close>

theorem failed_cleanup_is_forgotten:
  assumes "de_get R h ns name = Inr d"
    and "om_deletion_ts d \<noteq> None \<or> fl_contains (de_finlib R) (om_finalizers d) deploymentCleanedUpFinalizer"
    and "getPlugin R d = None" "de_backend R = None"
    and "desired_of d = None" "current_of d \<noteq> None" "server_of d \<noteq> ''''"
    and "run_state (processPlugin (oss_plugin R) d) (h @ [DE_Get ns name (Inr d)]) = (Returned (result, None, d'), h')"
    and "er_terminal result" "\<not> er_satisfied result"
  shows "run_state (ReconcileDeployment R ns name) h = ((no_requeue, None), h' @ [DE_Panic])"
proof -
  have cleaning: "ShouldCleanup d" using assms(5,6) by (simp add: ShouldCleanup_def)
  from assms(8) obtain d1 where stage: "IsCleanupStage (stage_of d1)"
      and d1: "d1 = (if IsCleanupStage (stage_of d) then d else set_stage DS_CLEAN_UP_IN_PROGRESS d)"
      and step: "progressed d1 d'"
    by (cases rule: oss.processed_cases) (use cleaning in blast)+
  let ?t = "transition R (oss_plugin R) (stage_of d) (next_stage (oss_plugin R) result d') None d'"
  have "next_stage (oss_plugin R) result d' = DS_CLEAN_UP_FAILED"
    using stage progressed_sel(2) [OF step] assms(9,10) by (simp add: next_stage_def getTerminalStage_cleanup)
  with progressed_sel [OF step] d1 assms(5-7) have "current_of ?t \<noteq> None" "desired_of ?t = None" "server_of ?t \<noteq> ''''"
    by (simp_all add: oss.transition_sel set_stage_def split: if_splits)
  then have state: "run_state (GetState R ?t) h' = (Inl Panics, h' @ [DE_Panic])"
    using assms(4) by (simp add: GetState_def)
  have "run_state (add_finalizer R d) w = (Inr d, w)" for w
    using assms(2) by (auto simp: add_finalizer_def)
  with assms(1,3,8) state show ?thesis
    by (simp add: ReconcileDeployment_def dep_reconcile_def after_plugin_def finish_pass_def oss_plugin_def)
qed

theorem failed_cleanup_is_forgotten_witness:
  "let d = (example_deployment DS_ROLLOUT_COMPLETE (Some ''m'') (Some ''m'') False)
         \<lparr>dp_spec := \<lparr>ds_desired = None, ds_inference_server = Some (example_revision ''s''), ds_deleted = False,
            ds_strategy = None, ds_definition = None\<rparr>\<rparr>;
       R = (example_dep_env [] [])\<lparr>de_get := \<lambda>_ _ _. Inr d,
         de_cms := \<lambda>_. \<lparr>ca_get = \<lambda>_ _ _. Inl (OtherError ''api server''), ca_update = \<lambda>_ _ _. None,
           ca_create = \<lambda>_ _ _. None, ca_delete = \<lambda>_ _ _. None\<rparr>\<rparr>
   in fst (run_state (ReconcileDeployment R ''ns'' ''d'') []) = (no_requeue, None) \<and>
      last (snd (run_state (ReconcileDeployment R ''ns'' ''d'') [])) = DE_Panic"
proof -
  define d where "d = (example_deployment DS_ROLLOUT_COMPLETE (Some ''m'') (Some ''m'') False)
         \<lparr>dp_spec := \<lparr>ds_desired = None, ds_inference_server = Some (example_revision ''s''), ds_deleted = False,
            ds_strategy = None, ds_definition = None\<rparr>\<rparr>"
  define R where "R = (example_dep_env [] [])\<lparr>de_get := \<lambda>_ _ _. Inr d,
         de_cms := \<lambda>_. \<lparr>ca_get = \<lambda>_ _ _. Inl (OtherError ''api server''), ca_update = \<lambda>_ _ _. None,
           ca_create = \<lambda>_ _ _. None, ca_delete = \<lambda>_ _ _. None\<rparr>\<rparr>"
  have "case fst (run_state (processPlugin (oss_plugin R) d) ([] @ [DE_Get ''ns'' ''d'' (Inr d)])) of
      Returned (result, None, _) \<Rightarrow> er_terminal result \<and> \<not> er_satisfied result | _ \<Rightarrow> False"
    unfolding R_def d_def by code_simp
  then obtain result d' h' where
    "run_state (processPlugin (oss_plugin R) d) ([] @ [DE_Get ''ns'' ''d'' (Inr d)]) = (Returned (result, None, d'), h')"
    "er_terminal result" "\<not> er_satisfied result"
    by (cases "run_state (processPlugin (oss_plugin R) d) ([] @ [DE_Get ''ns'' ''d'' (Inr d)])")
      (auto split: outcome.splits option.splits)
  moreover have "de_get R [] ''ns'' ''d'' = Inr d"
    "om_deletion_ts d \<noteq> None \<or> fl_contains (de_finlib R) (om_finalizers d) deploymentCleanedUpFinalizer"
    "getPlugin R d = None" "de_backend R = None" "desired_of d = None" "current_of d \<noteq> None" "server_of d \<noteq> ''''"
    by (simp_all add: R_def d_def example_dep_env_def example_deployment_def getPlugin_def list_finlib_def
        name_of_def example_revision_def)
  ultimately have "run_state (ReconcileDeployment R ''ns'' ''d'') [] = ((no_requeue, None), h' @ [DE_Panic])"
    by (intro failed_cleanup_is_forgotten)
  then show ?thesis by (simp add: d_def [symmetric] R_def [symmetric] Let_def)
qed

end
