(* ===== verification/Spec2Isabelle.thy ===== *)
theory Spec2Isabelle
  imports Prelude Conditions Cascade_Drain Ingester Api_Handler Crd_Sync Pipeline_Run
    Workflow_Properties Ray_Cluster Trigger_Properties Trigger_Pool Deployment_Completion
begin

text \<open>
  The control plane of Michelangelo (\<^verbatim>\<open>src/go\<close>), a machine-learning platform whose API objects are
  Kubernetes custom resources. Clients reach the objects through the API handler; an ingester
  copies them to metadata storage and completes their deletion; one controller per kind brings
  the world in line with each object, most of them through a common condition engine; runs are
  executed by a workflow engine (Cadence or Temporal), jobs by remote clusters that a scheduler
  chooses. The controllers talk to each other only through the stored objects: what one writes
  another reads in a later pass.

  Method. A handler is a function in the state monad over the trace of its calls (\<open>Prelude\<close>): every
  call on the API server, the storage or an engine is an event, and the environment's answer is
  an arbitrary function of the trace so far. So the theorems hold whatever the environment does,
  unless a hypothesis says what is relied on, and what they say is about the calls made, their
  order, and the answer. Errors are values of a sum or an option; a panic is a value (\<open>Panicked\<close>,
  \<open>Panics\<close>, the events \<open>TrPanic\<close>, \<open>EvPanic\<close> and \<open>DE_Panic\<close>), and so is not returning (\<open>None\<close> of a partial
  function, \<open>Hangs\<close>). What runs concurrently is a step relation.

  Theories, in the order of their imports:

    \<^item> \<open>Prelude\<close>: the monad, trace predicates (\<open>emits\<close>, \<open>always\<close>, \<open>preceded_by\<close>), Go maps, object metadata
      (\<^verbatim>\<open>api/api.go\<close>, \<^verbatim>\<open>api/utils\<close>), errors, outcomes.
    \<^item> \<open>Conditions\<close>: the condition engine (\<^verbatim>\<open>base/conditions\<close>); the contract of a plugin is the locale
      \<open>condition_store\<close>.
    \<^item> \<open>Cascade_Drain\<close>: owner references and the drain driver of a deleted child (\<^verbatim>\<open>cascadedelete\<close>); the
      contract of a drain target is the locale \<open>draining\<close>, which both run controllers interpret.
    \<^item> \<open>Ingester\<close>: \<^verbatim>\<open>components/ingester\<close>, with its abstract plan (\<open>ingest_plan\<close>) and the refinement.
    \<^item> \<open>Api_Handler\<close>: the seven operations of \<^verbatim>\<open>api/handler\<close> and the four handlers below them.
    \<^item> \<open>Crd_Schema\<close>, \<open>Crd_Sync\<close>: comparison of CRD schemas, against the reference relation \<open>upgrades\<close>, and the
      start-up synchronisation (\<^verbatim>\<open>api/crd\<close>).
    \<^item> \<open>Pipeline_Run_Model\<close>, \<open>Pipeline_Run\<close>: data and controller of pipeline runs
      (\<^verbatim>\<open>components/pipelinerun\<close>), its notifier and its drain target.
    \<^item> \<open>Workflow_Inputs\<close>, \<open>Workflow_Actor\<close>, \<open>Workflow_Properties\<close>: the three actors of the pipeline-run plugin
      (\<^verbatim>\<open>components/pipelinerun/actors\<close>): the inputs and environment of the workflow, its start, retry,
      observation and end.
    \<^item> \<open>Job_Utils\<close>, \<open>Job_Queue\<close>, \<open>Job_Cluster\<close>, \<open>Job_Scheduler\<close>: status updates that retry, the scheduler's queue
      as an interleaving, the registry of clusters, the scheduler (\<^verbatim>\<open>components/jobs\<close>); the interfaces
      between them are the locales \<open>fifo_queue\<close>, \<open>cluster_cache\<close> and \<open>assignment_strategy\<close>.
    \<^item> \<open>Ray_Cluster\<close>: the controller of Ray clusters (\<^verbatim>\<open>components/ray/cluster\<close>), composed with the scheduler.
    \<^item> \<open>Proto_Values\<close>: protocol-buffer values (\<^verbatim>\<open>components/utils/proto.go\<close>); locale \<open>round_trip\<close>.
    \<^item> \<open>Trigger_Model\<close>, \<open>Trigger_Runner\<close>, \<open>Trigger_Run\<close>, \<open>Trigger_Properties\<close>: triggers, their runners (locale
      \<open>trigger_runner\<close>) and their controller (\<^verbatim>\<open>components/triggerrun\<close>).
    \<^item> \<open>Trigger_Params\<close>, \<open>Trigger_Workflow\<close>, \<open>Trigger_Batches\<close>, \<open>Trigger_Pool\<close>: the parameters of the runs of a trigger, the
      requests for them, and the two ways of running them, in batches and with a bounded number
      of coroutines (\<^verbatim>\<open>worker/activities/trigger\<close>, \<^verbatim>\<open>worker/workflows/trigger\<close>).
    \<^item> \<open>Routing\<close>: the rules of gateway routes and their changes under conflicts
      (\<^verbatim>\<open>components/common/routing\<close>, \<^verbatim>\<open>inferenceserver/common/routenames\<close>); \<open>Model_Config\<close>: the models of a
      server in its ConfigMap (\<^verbatim>\<open>components/inferenceserver/modelconfig\<close>). Both refine an abstract map
      from keys to entries, and interpret the locale \<open>keyed_rules\<close>.
    \<^item> \<open>Deployment_Model\<close>, \<open>Deployment_Plugin\<close>, \<open>Deployment\<close>: deployments, their stages and predicates, the actors
      of the open-source plugin, and the controller (\<^verbatim>\<open>components/deployment\<close>); what the controller relies
      on is the locale \<open>plugin_contract\<close>, which the plugin interprets. \<open>Deployment_Properties\<close>,
      \<open>Deployment_Completion\<close>: what holds of a pass, and of one that completes a rollout.
    \<^item> this theory: what holds of the API handler and the ingester together.

  What is shown. Deletion: a delete is accepted, carried out and finalized in order, an object
  leaves only after its row is settled, a run only after its workflow is stopped or its time is
  up, and the gauge of active drains balances over every history. Pipeline runs: at most one
  workflow, started only with its inputs ready and recorded; kill, retry and success do what they
  claim; notifications follow the write of the status. CRDs: the schema difference decides
  compatibility, and a sync deletes only what it may. Jobs: the queue is first-in first-out and
  holds a key once, placement honours the request, remote calls are guarded, a scheduled Ray
  cluster is created where it was placed. Triggers: states follow their graph, calls are those
  the stored command asks for, commands are consumed before the status is written, a kill stops
  the schedule; backfills cover their window, batches partition the runs, each is asked for once
  and in order, the pool never blocks, ends and keeps its limit, and each of its coroutines refines the
  sequential code.
  Deployments: the stage after a pass is one of the phase it was in, traffic moves to a model only
  where it was seen loaded, a rollout completes only in a pass that has seen every part of it in
  place, the current revision changes only then or with a cleanup, and the finalizer waits for the
  cleanup. A change of a gateway route takes effect once, on the version read last, as an update of
  the map from match paths to rules.

  Bounds and fuel. Retries are bounded as the code bounds them: three of the back-off library,
  five attempts of an activity, sixty thousand polls of a sensor (fourteen days, twenty seconds
  apart). The chain of resumed pipeline runs is followed with the fuel \<open>we_fuel\<close>; it is shown that
  the code returns exactly when the chain ends, and then the fuel of its length is enough.
  Loops that may run for ever on a bad cron expression are partial functions, shown to return
  for schedules that fire.

  Findings. Lemmas named in the manifest of this development record where the code departs from what it means to
  do, among them: a cycle of resumed runs or a schedule that never fires is followed for ever, a
  Spark job without a cluster ends the scheduler loop, a started backfill loses its workflow id
  and fails, a batch whose runs all fail ends successfully, a failed cleanup of a deployment without
  a desired revision is forgotten.

  Not modelled: waits (only the decision to wait is), overflow of durations and of \<^verbatim>\<open>int64\<close>, metrics
  except the drain gauge, log lines and most message texts, fractions and NaN in JSON numbers,
  the third-party SDKs and libraries (parameters of the environments), generated code, which is
  most of the lines of the repository (\<^verbatim>\<open>proto-go\<close>), MySQL, the clients of Cadence, Temporal and remote
  clusters (the controllers are modelled against their interfaces),
  and the web UI and the Python SDK.
  Of deployments: errors that are returned are kept without the text the controller wraps them in;
  the order of two processes that change one ConfigMap is the order of the answers; the mutex of
  the route manager, which serialises changes within one process, is left out, so more
  interleavings are allowed than happen. The InferenceServer controller and the serving backends
  are behind the interface the deployments use and are not modelled.
\<close>

section \<open>From the API handler to the ingester\<close>

text \<open>The policy under which an object marked for deletion is to be deleted: the caller's, or the
  one an earlier request has left on it.\<close>

definition requested_policy :: "delete_opts \<Rightarrow> 'z obj_meta_scheme \<Rightarrow> string option" where
  "requested_policy opts stored =
     (case do_propagation opts of
        Some policy \<Rightarrow> if policy = '''' then None else Some policy
      | None \<Rightarrow> deleteOptionsFromAnnotations stored)"

lemma marked_for_ingester:
  "isDeletingAnnotationSet (mark_deleting stored opts)"
  "deleteOptionsFromAnnotations (mark_deleting stored opts) = requested_policy opts stored"
  "om_deletion_ts (mark_deleting stored opts) = om_deletion_ts stored"
  "om_namespace (mark_deleting stored opts) = om_namespace stored"
  "om_name (mark_deleting stored opts) = om_name stored"
  by (cases "om_annotations stored"; cases "do_propagation opts";
      simp add: mark_deleting_def put_entry_def requested_policy_def isDeletingAnnotationSet_def
        deleteOptionsFromAnnotations_def map_index_def Let_def split: option.split)+

text \<open>C24. A delete request is carried out by two programs. When the API server has accepted the
  marking update of a successful \<open>Delete\<close> and the ingester of that kind then reads the object it
  marked, the ingester's pass deletes nothing but the row and that object, first the row and then
  the object, under the propagation policy the caller asked for; it neither stores nor updates
  anything. If it reports no error, both deletions have succeeded.\<close>

theorem delete_request_reaches_the_object:
  assumes delete: "ah_enabled R" "do_dry_run opts = []"
      "run_state (Api_Handler.Delete R obj opts) h = (Returned None, h')"
    and stored: "ah_kget R h (om_namespace obj) (om_name obj) obj = (stored, None)"
      "\<not> IsImmutable stored" "om_deletion_ts stored = None"
    and read: "h' = pre @ [KUpdate sent w e]" "ig_get I g ns nm = Inr sent"
    and run: "run_state (Ingester.Reconcile I ns nm) g = ((res, err), g')"
  shows "\<exists>tr. g' = g @ IGet ns nm # tr \<and>
    (\<forall>ev\<in>set tr. (\<exists>tm e'. ev = IMetaDelete tm (om_namespace stored) (om_name stored) e') \<or>
       (\<exists>e'. ev = IDelete sent (requested_policy opts stored) e')) \<and>
    (err = None \<longrightarrow> (\<exists>tm. tr = [IMetaDelete tm (om_namespace stored) (om_name stored) None,
       IDelete sent (requested_policy opts stored) None]))"
proof -
  have dry: "checkDryRun (do_dry_run opts) = Inr False" by (simp add: delete(2))
  from Delete_marks [OF delete(1) dry stored(1,2)] delete(3)
  have "\<exists>e'. h' = h @ [KGet (om_namespace obj) (om_name obj), KUpdate (mark_deleting stored opts) no_write_opts e']"
    by (auto simp: Let_def)
  with read(1) have sent: "sent = mark_deleting stored opts" by auto
  from run read(2) have "run_state (handleDeletionAnnotation I sent) (g @ [IGet ns nm]) = ((res, err), g')"
    by (simp add: Ingester.Reconcile_def reconcileObject_def do_get_def sent marked_for_ingester stored(3))
  then show ?thesis
    by (auto simp: handleDeletionAnnotation_def sent marked_for_ingester ing_calls
        split: sum.splits prod.splits option.splits)
qed

lemma delete_request_reaches_the_object_witness:
  "\<exists>tm. snd (run_state (Ingester.Reconcile (example_ingester
       (mark_deleting Api_Handler.example_pipeline (delete_now [])) []) ''ns'' ''p'') []) =
     [] @ IGet ''ns'' ''p'' # [IMetaDelete tm ''ns'' ''p'' None,
       IDelete (mark_deleting Api_Handler.example_pipeline (delete_now [])) (Some ''Foreground'') None]"
proof -
  let ?R = "example_env present None"
  let ?sent = "mark_deleting Api_Handler.example_pipeline (delete_now [])"
  let ?I = "example_ingester ?sent []"
  have im: "\<not> IsImmutable Api_Handler.example_pipeline" "om_deletion_ts Api_Handler.example_pipeline = None"
    by (simp_all add: IsImmutable_def checkAnnotation_def Api_Handler.example_pipeline_def)
  have nm: "om_namespace Api_Handler.example_pipeline = ''ns''" "om_name Api_Handler.example_pipeline = ''p''"
    by (simp_all add: Api_Handler.example_pipeline_def)
  have run: "run_state (Api_Handler.Delete ?R Api_Handler.example_pipeline (delete_now [])) [] = (Returned None,
      [KGet ''ns'' ''p''] @ [KUpdate ?sent no_write_opts None])"
    by (simp add: Api_Handler.Delete_def k8s_calls present_def im nm)
  obtain res g' where pass: "run_state (Ingester.Reconcile ?I ''ns'' ''p'') [] = ((res, None), g')"
    by (simp add: Ingester.Reconcile_def reconcileObject_def do_get_def marked_for_ingester im
        handleDeletionAnnotation_def ing_calls first_kind_def example_ingester_def)
  have "requested_policy (delete_now []) Api_Handler.example_pipeline = Some ''Foreground''"
    by (simp add: requested_policy_def)
  with delete_request_reaches_the_object [OF _ _ run _ im refl _ pass] pass nm show ?thesis
    by (auto simp: present_def)
qed

end
